(* ===== verification/Prelude.thy ===== *)
theory Prelude
  imports
    Main
    "HOL-Library.Signed_Division"
    "HOL-Library.List_Lexorder"
    "HOL-Library.Char_ord"
begin

text \<open>
  Shared vocabulary of the development.

  \<^item> \<open>Results.\<close> A contract entry point either commits or traps; a trap discards every
    storage write of the transaction, so an entry point is a function into \<open>error + 'a\<close>
    where only \<open>Inr\<close> carries a new state. \<open>bindE\<close>, \<open>ensure\<close> and \<open>fetch\<close> sequence the
    statements of a Rust body in source order.
  \<^item> \<open>Machine integers.\<close> The workspace builds with \<open>overflow-checks = true\<close>, so \<open>+\<close>, \<open>-\<close>
    and \<open>*\<close> on \<open>i128\<close>, \<open>u64\<close> and \<open>u32\<close> trap when they leave the range of the type; the
    checked operations below make that trap a value. Division of \<open>i128\<close> truncates towards zero.
  \<^item> \<open>Reachability.\<close> \<open>reach\<close> is the closure of an initial condition under a step relation;
    the locale \<open>invariant_system\<close> turns a preserved predicate into a fact of every reachable
    state, and the locale \<open>lifecycle\<close> turns "every step follows an edge" into facts about
    whole histories.
\<close>

named_theorems ok "inversion of a successful result"
named_theorems traps "inversion of a trap"

subsection \<open>Results\<close>

primrec bindE :: "'e + 'a \<Rightarrow> ('a \<Rightarrow> 'e + 'b) \<Rightarrow> 'e + 'b" where
  "bindE (Inl e) f = Inl e"
| "bindE (Inr a) f = f a"

definition ensure :: "bool \<Rightarrow> 'e \<Rightarrow> 'e + unit" where
  "ensure b e = (if b then Inr () else Inl e)"

definition fetch :: "'a option \<Rightarrow> 'e \<Rightarrow> 'e + 'a" where
  "fetch x e = (case x of None \<Rightarrow> Inl e | Some a \<Rightarrow> Inr a)"

text \<open>A loop whose body may trap: the first trap ends it.\<close>

primrec foldE :: "('a \<Rightarrow> 's \<Rightarrow> 'e + 's) \<Rightarrow> 'a list \<Rightarrow> 's \<Rightarrow> 'e + 's" where
  "foldE f [] s = Inr s"
| "foldE f (x # xs) s = bindE (f x s) (foldE f xs)"

lemma bindE_Inr_iff [ok]: "bindE m f = Inr y \<longleftrightarrow> (\<exists>x. m = Inr x \<and> f x = Inr y)"
  by (cases m) auto

lemma bindE_Inl_iff [traps]:
  "bindE m f = Inl e \<longleftrightarrow> m = Inl e \<or> (\<exists>x. m = Inr x \<and> f x = Inl e)"
  by (cases m) auto

lemma ensure_simps [simp]: "ensure True e = Inr ()" "ensure False e = Inl e"
  by (simp_all add: ensure_def)

lemma ensure_Inr_iff [ok]: "ensure b e = Inr u \<longleftrightarrow> b"
  by (simp add: ensure_def)

lemma ensure_Inl_iff [traps]: "ensure b e = Inl e' \<longleftrightarrow> \<not> b \<and> e' = e"
  by (auto simp: ensure_def)

lemma fetch_simps [simp]: "fetch None e = Inl e" "fetch (Some a) e = Inr a"
  by (simp_all add: fetch_def)

lemma fetch_Inr_iff [ok]: "fetch x e = Inr a \<longleftrightarrow> x = Some a"
  by (simp add: fetch_def split: option.splits)

lemma fetch_Inl_iff [traps]: "fetch x e = Inl e' \<longleftrightarrow> x = None \<and> e' = e"
  by (auto simp: fetch_def split: option.splits)

lemma bindE_assoc: "bindE (bindE m f) g = bindE m (\<lambda>x. bindE (f x) g)"
  by (cases m) auto

lemma bindE_Inr_right [simp]: "bindE m Inr = m"
  by (cases m) auto

lemma bindE_cong [fundef_cong]:
  "m = m' \<Longrightarrow> (\<And>a. m' = Inr a \<Longrightarrow> f a = f' a) \<Longrightarrow> bindE m f = bindE m' f'"
  by (cases m') auto

lemma if_Inl_Inr_iff [ok]:
  "(if b then Inl e else r) = Inr y \<longleftrightarrow> \<not> b \<and> r = Inr y"
  by simp

lemma foldE_append: "foldE f (xs @ ys) s = bindE (foldE f xs s) (foldE f ys)"
proof (induction xs arbitrary: s)
  case (Cons x xs)
  then show ?case by (cases "f x s") simp_all
qed simp

lemma foldE_invariant:
  assumes "foldE f xs s = Inr s'" and "P s"
    and "\<And>x s s'. x \<in> set xs \<Longrightarrow> P s \<Longrightarrow> f x s = Inr s' \<Longrightarrow> P s'"
  shows "P s'"
  using assms
proof (induction xs arbitrary: s)
  case Nil
  then show ?case by simp
next
  case (Cons x xs)
  then obtain s1 where s1: "f x s = Inr s1" "foldE f xs s1 = Inr s'"
    by (auto simp: ok)
  with Cons.prems(2) have "P s1" by (blast intro: Cons.prems(3) list.set_intros)
  show ?case
    by (rule Cons.IH [OF s1(2) \<open>P s1\<close>]) (auto intro: Cons.prems(3))
qed

subsection \<open>Errors\<close>

text \<open>
  \<open>ContractError\<close> of the common crate, with the trap of the host and of the language beside it:
  a plain \<open>panic!\<close> or failed \<open>assert!\<close>, arithmetic overflow, a failed \<open>require_auth\<close>, a call to
  an address where no contract of the protocol lives, and a trap inside a token contract.
\<close>

datatype contract_error =
    Unauthorized | NotFound | InvalidTransition | Paused | InsufficientBalance | InvalidInput
  | AlreadyExists | Blacklisted | InvalidVersion | UpgradePending | UpgradeNotPending
  | RollbackUnavailable | OfferExpired

datatype error =
    Contract contract_error
  | Panic string
  | Overflow
  | AuthFailed
  | NoContract
  | WasmMissing
  | TokenTrap

subsection \<open>Checked machine arithmetic\<close>

definition in_i128 :: "int \<Rightarrow> bool" where
  "in_i128 x \<longleftrightarrow> - (2 ^ 127) \<le> x \<and> x < 2 ^ 127"

definition chk_i128 :: "int \<Rightarrow> error + int" where
  "chk_i128 x = (if in_i128 x then Inr x else Inl Overflow)"

definition add_i128 :: "int \<Rightarrow> int \<Rightarrow> error + int" where
  "add_i128 a b = chk_i128 (a + b)"

definition sub_i128 :: "int \<Rightarrow> int \<Rightarrow> error + int" where
  "sub_i128 a b = chk_i128 (a - b)"

definition mul_i128 :: "int \<Rightarrow> int \<Rightarrow> error + int" where
  "mul_i128 a b = chk_i128 (a * b)"

definition div_i128 :: "int \<Rightarrow> int \<Rightarrow> error + int" where
  "div_i128 a b = (if b = 0 then Inl Overflow else chk_i128 (a sdiv b))"

definition sat_i128 :: "int \<Rightarrow> int" where
  "sat_i128 x = max (- (2 ^ 127)) (min (2 ^ 127 - 1) x)"

definition add_u32 :: "nat \<Rightarrow> nat \<Rightarrow> error + nat" where
  "add_u32 a b = (if a + b < 2 ^ 32 then Inr (a + b) else Inl Overflow)"

definition add_u64 :: "nat \<Rightarrow> nat \<Rightarrow> error + nat" where
  "add_u64 a b = (if a + b < 2 ^ 64 then Inr (a + b) else Inl Overflow)"

definition sub_u64 :: "nat \<Rightarrow> nat \<Rightarrow> error + nat" where
  "sub_u64 a b = (if b \<le> a then Inr (a - b) else Inl Overflow)"

definition sat_add_u64 :: "nat \<Rightarrow> nat \<Rightarrow> nat" where
  "sat_add_u64 a b = min (a + b) (2 ^ 64 - 1)"

lemma chk_i128_Inr_iff [ok]: "chk_i128 x = Inr y \<longleftrightarrow> in_i128 x \<and> y = x"
  by (auto simp: chk_i128_def)

lemma chk_i128_Inl_iff [traps]: "chk_i128 x = Inl e \<longleftrightarrow> \<not> in_i128 x \<and> e = Overflow"
  by (auto simp: chk_i128_def)

lemma add_i128_Inr_iff [ok]: "add_i128 a b = Inr y \<longleftrightarrow> in_i128 (a + b) \<and> y = a + b"
  by (auto simp: add_i128_def ok)

lemma sub_i128_Inr_iff [ok]: "sub_i128 a b = Inr y \<longleftrightarrow> in_i128 (a - b) \<and> y = a - b"
  by (auto simp: sub_i128_def ok)

lemma mul_i128_Inr_iff [ok]: "mul_i128 a b = Inr y \<longleftrightarrow> in_i128 (a * b) \<and> y = a * b"
  by (auto simp: mul_i128_def ok)

lemma div_i128_Inr_iff [ok]:
  "div_i128 a b = Inr y \<longleftrightarrow> b \<noteq> 0 \<and> in_i128 (a sdiv b) \<and> y = a sdiv b"
  by (auto simp: div_i128_def ok)

lemma add_u32_Inr_iff [ok]: "add_u32 a b = Inr y \<longleftrightarrow> a + b < 2 ^ 32 \<and> y = a + b"
  by (auto simp: add_u32_def)

lemma add_u64_Inr_iff [ok]: "add_u64 a b = Inr y \<longleftrightarrow> a + b < 2 ^ 64 \<and> y = a + b"
  by (auto simp: add_u64_def)

lemma sub_u64_Inr_iff [ok]: "sub_u64 a b = Inr y \<longleftrightarrow> b \<le> a \<and> y = a - b"
  by (auto simp: sub_u64_def)

lemma sdiv_nonneg [simp]: "0 \<le> a \<Longrightarrow> 0 < b \<Longrightarrow> a sdiv b = a div (b :: int)"
  by (cases "a = 0") (simp_all add: signed_divide_int_def)

lemma sdiv_neg_nonpos: "a \<le> 0 \<Longrightarrow> 0 < b \<Longrightarrow> a sdiv b \<le> (0 :: int)"
  by (cases "a = 0") (auto simp: signed_divide_int_def sgn_if pos_imp_zdiv_nonneg_iff)

subsection \<open>Reachable states\<close>

inductive reach :: "('s \<Rightarrow> bool) \<Rightarrow> ('s \<Rightarrow> 's \<Rightarrow> bool) \<Rightarrow> 's \<Rightarrow> bool"
  for init :: "'s \<Rightarrow> bool" and step :: "'s \<Rightarrow> 's \<Rightarrow> bool" where
  reach_init: "init s \<Longrightarrow> reach init step s"
| reach_step: "reach init step s \<Longrightarrow> step s s' \<Longrightarrow> reach init step s'"

locale invariant_system =
  fixes init :: "'s \<Rightarrow> bool"
    and step :: "'s \<Rightarrow> 's \<Rightarrow> bool"
    and inv :: "'s \<Rightarrow> bool"
  assumes init_inv: "init s \<Longrightarrow> inv s"
    and step_inv: "inv s \<Longrightarrow> step s s' \<Longrightarrow> inv s'"
begin

lemma reach_inv: "reach init step s \<Longrightarrow> inv s"
  by (induction rule: reach.induct) (auto intro: init_inv step_inv)

lemma steps_inv: "step\<^sup>*\<^sup>* s s' \<Longrightarrow> inv s \<Longrightarrow> inv s'"
  by (induction rule: rtranclp_induct) (auto intro: step_inv)

end

text \<open>
  A keyed resource with a status (an invoice, an offer, a negotiation): every step leaves the
  status of every existing key in place or moves it along an edge.
\<close>

locale lifecycle =
  fixes status :: "'s \<Rightarrow> 'k \<Rightarrow> 'st option"
    and step :: "'s \<Rightarrow> 's \<Rightarrow> bool"
    and edge :: "'st \<Rightarrow> 'st \<Rightarrow> bool"
  assumes step_edge:
    "step s s' \<Longrightarrow> status s k = Some a \<Longrightarrow> \<exists>b. status s' k = Some b \<and> (b = a \<or> edge a b)"
begin

lemma step_trail:
  assumes "step s s'" and "\<exists>b. status s k = Some b \<and> edge\<^sup>*\<^sup>* a b"
  shows "\<exists>b. status s' k = Some b \<and> edge\<^sup>*\<^sup>* a b"
  using assms step_edge by (metis rtranclp.rtrancl_into_rtrancl)

end

text \<open>
  Having come from status \<open>a\<close> along edges is preserved by every step: a life cycle gives one
  invariant system for every key and starting status.
\<close>

sublocale lifecycle \<subseteq> trail: invariant_system "\<lambda>s. status s k = Some a" step
    "\<lambda>s. \<exists>b. status s k = Some b \<and> edge\<^sup>*\<^sup>* a b" for k a
  by unfold_locales (auto intro: step_trail)

context lifecycle
begin

lemma steps_edges:
  "step\<^sup>*\<^sup>* s s' \<Longrightarrow> status s k = Some a \<Longrightarrow> \<exists>b. status s' k = Some b \<and> edge\<^sup>*\<^sup>* a b"
  by (rule trail.steps_inv) auto

lemma terminal_absorbing:
  assumes "step\<^sup>*\<^sup>* s s'" and "status s k = Some a" and "\<And>b. \<not> edge a b"
  shows "status s' k = Some a"
proof -
  from steps_edges [OF assms(1,2)] obtain b where b: "status s' k = Some b" "edge\<^sup>*\<^sup>* a b" by auto
  from b(2) assms(3) have "b = a" by (auto elim: converse_rtranclpE)
  with b(1) show ?thesis by simp
qed

end

subsection \<open>List facts\<close>

lemma take_drop_pages:
  "0 < n \<Longrightarrow> concat (map (\<lambda>p. take n (drop (p * n) xs)) [0..<k]) = take (k * n) xs"
proof (induction k)
  case 0
  then show ?case by simp
next
  case (Suc k)
  then show ?case by (simp add: take_add add.commute [of n])
qed

lemma sum_list_map_filter_split:
  "sum_list (map f xs) = sum_list (map f (filter P xs)) + sum_list (map f (filter (\<lambda>x. \<not> P x) xs))"
  for f :: "'a \<Rightarrow> int"
  by (induction xs) auto

end
