(* ===== verification/Soroban.thy ===== *)
theory Soroban
  imports Prelude "HOL-Library.Word"
begin

text \<open>
  What the contracts use of the Soroban SDK and host.

  \<^item> \<open>Address\<close> and \<open>Symbol\<close> are opaque values with equality and a total order (the order of the
    keys of a host \<open>Map\<close>); \<open>BytesN<32>\<close> is a 256-bit word.
  \<^item> \<open>env\<close> is what one contract invocation can read from the host: the ledger time, the
    running contract, its invoker, the signed authorization entries, where the protocol's
    contracts are deployed, the digest the code takes of an invoice id, and which executables
    have been uploaded. \<open>require_auth\<close> succeeds for a signer of this invocation and for the
    contract that made the call (implicit contract-invoker authorization).
  \<^item> \<open>Map<K, V>\<close> is a host map: a vector of entries in ascending key order. \<open>sm_set\<close>,
    \<open>sm_remove\<close>, \<open>sm_keys\<close> and \<open>sm_values\<close> are its operations; \<open>map_of\<close> is its \<open>get\<close>.
    The locale \<open>ordered_map\<close> states the laws a client may rely on.
  \<^item> A SEP-41 token is a contract outside this repository: \<open>sep41\<close> is a record of its
    operations, a parameter of every definition that calls one, and \<open>sep41_laws\<close> is what its
    documentation promises.
\<close>

subsection \<open>Addresses, symbols, hashes\<close>

datatype address = Address nat

datatype symbol = Symbol string

type_synonym bytes32 = "256 word"

primrec address_id :: "address \<Rightarrow> nat" where "address_id (Address n) = n"

primrec symbol_name :: "symbol \<Rightarrow> string" where "symbol_name (Symbol s) = s"

instantiation address :: linorder
begin
definition less_eq_address :: "address \<Rightarrow> address \<Rightarrow> bool" where
  "less_eq_address a b = (address_id a \<le> address_id b)"
definition less_address :: "address \<Rightarrow> address \<Rightarrow> bool" where
  "less_address a b = (address_id a < address_id b)"
instance
proof
  fix x y z :: address
  show "(x < y) = (x \<le> y \<and> \<not> y \<le> x)" by (auto simp: less_eq_address_def less_address_def)
  show "x \<le> x" by (simp add: less_eq_address_def)
  show "x \<le> y \<Longrightarrow> y \<le> z \<Longrightarrow> x \<le> z" by (simp add: less_eq_address_def)
  show "x \<le> y \<Longrightarrow> y \<le> x \<Longrightarrow> x = y" by (cases x; cases y) (simp add: less_eq_address_def)
  show "x \<le> y \<or> y \<le> x" by (auto simp: less_eq_address_def)
qed
end

instantiation symbol :: linorder
begin
definition less_eq_symbol :: "symbol \<Rightarrow> symbol \<Rightarrow> bool" where
  "less_eq_symbol a b = (symbol_name a \<le> symbol_name b)"
definition less_symbol :: "symbol \<Rightarrow> symbol \<Rightarrow> bool" where
  "less_symbol a b = (symbol_name a < symbol_name b)"
instance
proof
  fix x y z :: symbol
  show "(x < y) = (x \<le> y \<and> \<not> y \<le> x)" by (auto simp: less_eq_symbol_def less_symbol_def)
  show "x \<le> x" by (simp add: less_eq_symbol_def)
  show "x \<le> y \<Longrightarrow> y \<le> z \<Longrightarrow> x \<le> z" by (auto simp: less_eq_symbol_def)
  show "x \<le> y \<Longrightarrow> y \<le> x \<Longrightarrow> x = y" by (cases x; cases y) (auto simp: less_eq_symbol_def)
  show "x \<le> y \<or> y \<le> x" by (auto simp: less_eq_symbol_def)
qed
end

lemma less_address_simp [simp]: "Address a < Address b \<longleftrightarrow> a < b"
  by (simp add: less_address_def)

lemma less_eq_address_simp [simp]: "Address a \<le> Address b \<longleftrightarrow> a \<le> b"
  by (simp add: less_eq_address_def)

lemma less_symbol_simp [simp]: "Symbol a < Symbol b \<longleftrightarrow> a < b"
  by (simp add: less_symbol_def)

lemma less_eq_symbol_simp [simp]: "Symbol a \<le> Symbol b \<longleftrightarrow> a \<le> b"
  by (simp add: less_eq_symbol_def)

subsection \<open>The invocation environment\<close>

datatype contract_id =
  RegistryC | FinancingC | RepaymentC | InsuranceC | ReputationC | EventIndexerC

record env =
  ledger_timestamp :: nat
  current_contract :: address
  invoker :: "address option"
  has_signed :: "address \<Rightarrow> address \<Rightarrow> bool"
  deployed_at :: "contract_id \<Rightarrow> address"
  sha256_xdr :: "symbol \<Rightarrow> bytes32"
  wasm_uploaded :: "bytes32 \<Rightarrow> bool"

definition authorizes :: "env \<Rightarrow> address \<Rightarrow> bool" where
  "authorizes e a \<longleftrightarrow> invoker e = Some a \<or> has_signed e a (current_contract e)"

definition require_auth :: "env \<Rightarrow> address \<Rightarrow> error + unit" where
  "require_auth e a = ensure (authorizes e a) AuthFailed"

lemma require_auth_Inr_iff [ok]: "require_auth e a = Inr u \<longleftrightarrow> authorizes e a"
  by (simp add: require_auth_def ok)

lemma require_auth_Inl_iff [traps]:
  "require_auth e a = Inl x \<longleftrightarrow> \<not> authorizes e a \<and> x = AuthFailed"
  by (simp add: require_auth_def traps)

text \<open>
  A cross-contract call: the stored address must be where the callee lives, and the callee's
  frame has the caller as its invoker.
\<close>

definition callee :: "env \<Rightarrow> address \<Rightarrow> contract_id \<Rightarrow> error + env" where
  "callee e a c =
     (if a = deployed_at e c
      then Inr (e\<lparr>current_contract := a, invoker := Some (current_contract e)\<rparr>)
      else Inl NoContract)"

lemma callee_Inr_iff [ok]:
  "callee e a c = Inr e' \<longleftrightarrow>
     a = deployed_at e c \<and> e' = e\<lparr>current_contract := a, invoker := Some (current_contract e)\<rparr>"
  by (auto simp: callee_def)

subsection \<open>Host maps\<close>

type_synonym ('k, 'v) smap = "('k \<times> 'v) list"

fun sm_set :: "('k::linorder, 'v) smap \<Rightarrow> 'k \<Rightarrow> 'v \<Rightarrow> ('k, 'v) smap" where
  "sm_set [] k v = [(k, v)]"
| "sm_set ((k', v') # m) k v =
     (if k = k' then (k, v) # m
      else if k < k' then (k, v) # (k', v') # m
      else (k', v') # sm_set m k v)"

definition sm_remove :: "('k, 'v) smap \<Rightarrow> 'k \<Rightarrow> ('k, 'v) smap" where
  "sm_remove m k = filter (\<lambda>(k', _). k' \<noteq> k) m"

definition sm_keys :: "('k, 'v) smap \<Rightarrow> 'k list" where
  "sm_keys m = map fst m"

definition sm_values :: "('k, 'v) smap \<Rightarrow> 'v list" where
  "sm_values m = map snd m"

definition sm_has :: "('k, 'v) smap \<Rightarrow> 'k \<Rightarrow> bool" where
  "sm_has m k \<longleftrightarrow> map_of m k \<noteq> None"

definition sm_get_or :: "('k, 'v) smap \<Rightarrow> 'k \<Rightarrow> 'v \<Rightarrow> 'v" where
  "sm_get_or m k d = (case map_of m k of None \<Rightarrow> d | Some v \<Rightarrow> v)"

definition sm_wf :: "('k::linorder, 'v) smap \<Rightarrow> bool" where
  "sm_wf m \<longleftrightarrow> sorted_wrt (<) (map fst m)"

lemma map_of_sm_set [simp]: "map_of (sm_set m k v) = (map_of m)(k \<mapsto> v)"
  by (induction m k v rule: sm_set.induct) (auto simp: fun_eq_iff)

lemma map_of_sm_remove [simp]: "map_of (sm_remove m k) = (map_of m)(k := None)"
  by (induction m) (auto simp: sm_remove_def fun_eq_iff)

lemma set_keys_sm_set: "fst ` set (sm_set m k v) = insert k (fst ` set m)"
  by (induction m k v rule: sm_set.induct) auto

lemma sm_wf_Nil [simp]: "sm_wf []"
  by (simp add: sm_wf_def)

lemma sm_wf_sm_set [simp]: "sm_wf m \<Longrightarrow> sm_wf (sm_set m k v)"
proof (induction m k v rule: sm_set.induct)
  case (2 k' v' m k v)
  have "\<forall>x \<in> fst ` set (sm_set m k v). k' < x" if "k' < k"
    using 2(2) that by (auto simp: set_keys_sm_set sm_wf_def)
  with 2 show ?case by (auto simp: sm_wf_def)
qed (simp add: sm_wf_def)

lemma sm_wf_sm_remove [simp]: "sm_wf m \<Longrightarrow> sm_wf (sm_remove m k)"
  by (induction m) (auto simp: sm_wf_def sm_remove_def)

lemma sm_wf_distinct: "sm_wf m \<Longrightarrow> distinct (map fst m)"
  by (simp add: sm_wf_def strict_sorted_iff)

lemma sm_get_or_sm_set [simp]:
  "sm_get_or (sm_set m k v) k' d = (if k' = k then v else sm_get_or m k' d)"
  by (simp add: sm_get_or_def)

lemma sm_get_or_sm_remove [simp]:
  "sm_get_or (sm_remove m k) k' d = (if k' = k then d else sm_get_or m k' d)"
  by (simp add: sm_get_or_def)

lemma sm_get_or_Nil [simp]: "sm_get_or [] k d = d"
  by (simp add: sm_get_or_def)

lemma sm_has_iff: "sm_has m k \<longleftrightarrow> k \<in> set (sm_keys m)"
  by (simp add: sm_has_def sm_keys_def map_of_eq_None_iff)

lemma set_sm_keys: "set (sm_keys m) = dom (map_of m)"
  by (simp add: sm_keys_def dom_map_of_conv_image_fst)

lemma sm_wf_sorted: "sm_wf m \<Longrightarrow> sorted_wrt (<) (sm_keys m)"
  by (simp add: sm_wf_def sm_keys_def)

text \<open>
  The laws of a host map: lookups after \<open>set\<close> and \<open>remove\<close>, and iteration in strictly ascending
  key order. Clients sum over the keys of a map (stakes, reservations), so the sum law is proved
  here once from those laws alone.
\<close>

locale ordered_map =
  fixes get :: "'m \<Rightarrow> 'k::linorder \<Rightarrow> 'v option"
    and set_key :: "'m \<Rightarrow> 'k \<Rightarrow> 'v \<Rightarrow> 'm"
    and remove_key :: "'m \<Rightarrow> 'k \<Rightarrow> 'm"
    and keys :: "'m \<Rightarrow> 'k list"
    and wf :: "'m \<Rightarrow> bool"
  assumes get_set: "get (set_key m k v) = (get m)(k \<mapsto> v)"
    and get_remove: "get (remove_key m k) = (get m)(k := None)"
    and keys_dom: "set (keys m) = dom (get m)"
    and keys_sorted: "wf m \<Longrightarrow> sorted_wrt (<) (keys m)"
    and wf_set: "wf m \<Longrightarrow> wf (set_key m k v)"
    and wf_remove: "wf m \<Longrightarrow> wf (remove_key m k)"
begin

lemma keys_distinct: "wf m \<Longrightarrow> distinct (keys m)"
  using keys_sorted [of m] by (simp add: strict_sorted_iff)

lemma sum_keys:
  fixes f :: "'k \<Rightarrow> 'v \<Rightarrow> int"
  assumes "wf m"
  shows "(\<Sum>k\<leftarrow>keys m. f k (the (get m k))) = (\<Sum>k\<in>dom (get m). f k (the (get m k)))"
  using assms by (simp add: sum_list_distinct_conv_sum_set keys_distinct keys_dom)

lemma finite_dom_get: "finite (dom (get m))"
  using keys_dom [of m] by (metis List.finite_set)

lemma sum_keys_set:
  fixes f :: "'k \<Rightarrow> 'v \<Rightarrow> int"
  assumes "wf m"
  shows "(\<Sum>x\<leftarrow>keys (set_key m k v). f x (the (get (set_key m k v) x))) =
    (\<Sum>x\<leftarrow>keys m. f x (the (get m x))) -
      (case get m k of None \<Rightarrow> 0 | Some w \<Rightarrow> f k w) + f k v"
proof -
  let ?g = "\<lambda>x. f x (the (get m x))"
  have other: "(\<Sum>x\<in>dom (get m) - {k}. f x (the (((get m)(k \<mapsto> v)) x))) = sum ?g (dom (get m) - {k})"
    by (rule sum.cong) auto
  have "(\<Sum>x\<in>insert k (dom (get m)). f x (the (((get m)(k \<mapsto> v)) x))) =
      f k v + sum ?g (dom (get m) - {k})"
    using other by (simp add: sum.insert_remove finite_dom_get)
  moreover have "sum ?g (dom (get m)) =
      (case get m k of None \<Rightarrow> 0 | Some w \<Rightarrow> f k w) + sum ?g (dom (get m) - {k})"
    by (cases "get m k") (auto simp: finite_dom_get sum.remove [of _ k] domI domIff)
  ultimately show ?thesis
    by (simp add: sum_keys [OF assms] sum_keys [OF wf_set [OF assms]] del: fun_upd_apply)
      (simp add: get_set)
qed

lemma sum_keys_remove:
  fixes f :: "'k \<Rightarrow> 'v \<Rightarrow> int"
  assumes "wf m"
  shows "(\<Sum>x\<leftarrow>keys (remove_key m k). f x (the (get (remove_key m k) x))) =
    (\<Sum>x\<leftarrow>keys m. f x (the (get m x))) - (case get m k of None \<Rightarrow> 0 | Some w \<Rightarrow> f k w)"
proof -
  let ?g = "\<lambda>x. f x (the (get m x))"
  have "(\<Sum>x\<in>dom (get m) - {k}. f x (the (((get m)(k := None)) x))) = sum ?g (dom (get m) - {k})"
    by (rule sum.cong) auto
  moreover have "sum ?g (dom (get m)) =
      (case get m k of None \<Rightarrow> 0 | Some w \<Rightarrow> f k w) + sum ?g (dom (get m) - {k})"
    by (cases "get m k") (auto simp: finite_dom_get sum.remove [of _ k] domI domIff)
  ultimately show ?thesis
    by (simp add: sum_keys [OF assms] sum_keys [OF wf_remove [OF assms]] del: fun_upd_apply)
      (simp add: get_remove)
qed

end

interpretation host_map: ordered_map map_of sm_set sm_remove sm_keys sm_wf
  by unfold_locales (simp_all add: set_sm_keys sm_wf_sorted)

subsection \<open>SEP-41 tokens\<close>

text \<open>
  The state of all token contracts is a value of a type \<open>'t\<close>. Every operation names the token
  contract it is addressed to; \<open>tk_transfer_from\<close> also names the spender whose allowance it uses.
\<close>

record 't sep41 =
  tk_transfer :: "env \<Rightarrow> address \<Rightarrow> address \<Rightarrow> address \<Rightarrow> int \<Rightarrow> 't \<Rightarrow> error + 't"
  tk_transfer_from :: "env \<Rightarrow> address \<Rightarrow> address \<Rightarrow> address \<Rightarrow> address \<Rightarrow> int \<Rightarrow> 't \<Rightarrow> error + 't"
  tk_mint :: "env \<Rightarrow> address \<Rightarrow> address \<Rightarrow> int \<Rightarrow> 't \<Rightarrow> error + 't"
  tk_balance :: "address \<Rightarrow> address \<Rightarrow> 't \<Rightarrow> int"

definition moved :: "(address \<Rightarrow> int) \<Rightarrow> address \<Rightarrow> address \<Rightarrow> int \<Rightarrow> (address \<Rightarrow> int)" where
  "moved b from to amt =
     (let b1 = b(from := b from - amt) in b1(to := b1 to + amt))"

text \<open>
  What SEP-41 documents: a transfer that does not trap debits the sender and credits the
  receiver by exactly the amount, never more than the sender holds, and touches nothing else;
  mint credits the receiver.
\<close>

definition sep41_laws :: "'t sep41 \<Rightarrow> bool" where
  "sep41_laws T \<longleftrightarrow>
     (\<forall>e tok from to amt t t'. tk_transfer T e tok from to amt t = Inr t' \<longrightarrow>
        0 \<le> amt \<and> amt \<le> tk_balance T tok from t \<and>
        (\<forall>a. tk_balance T tok a t' = moved (\<lambda>x. tk_balance T tok x t) from to amt a) \<and>
        (\<forall>tok' a. tok' \<noteq> tok \<longrightarrow> tk_balance T tok' a t' = tk_balance T tok' a t)) \<and>
     (\<forall>e tok sp from to amt t t'. tk_transfer_from T e tok sp from to amt t = Inr t' \<longrightarrow>
        0 \<le> amt \<and> amt \<le> tk_balance T tok from t \<and>
        (\<forall>a. tk_balance T tok a t' = moved (\<lambda>x. tk_balance T tok x t) from to amt a) \<and>
        (\<forall>tok' a. tok' \<noteq> tok \<longrightarrow> tk_balance T tok' a t' = tk_balance T tok' a t)) \<and>
     (\<forall>e tok to amt t t'. tk_mint T e tok to amt t = Inr t' \<longrightarrow>
        0 \<le> amt \<and>
        (\<forall>a. tk_balance T tok a t' = tk_balance T tok a t + (if a = to then amt else 0)) \<and>
        (\<forall>tok' a. tok' \<noteq> tok \<longrightarrow> tk_balance T tok' a t' = tk_balance T tok' a t))"

text \<open>
  A concrete token ledger that satisfies the laws: balances and allowances in two functions.
  It is the instance every concrete run below is evaluated on.
\<close>

record ledger =
  balances :: "address \<Rightarrow> address \<Rightarrow> int"
  allowances :: "address \<Rightarrow> address \<Rightarrow> address \<Rightarrow> int"

definition ledger_transfer ::
  "env \<Rightarrow> address \<Rightarrow> address \<Rightarrow> address \<Rightarrow> int \<Rightarrow> ledger \<Rightarrow> error + ledger" where
  "ledger_transfer e tok from to amt t =
     (if 0 \<le> amt \<and> amt \<le> balances t tok from
      then Inr (t\<lparr>balances := (balances t)(tok := moved (balances t tok) from to amt)\<rparr>)
      else Inl TokenTrap)"

definition ledger_transfer_from ::
  "env \<Rightarrow> address \<Rightarrow> address \<Rightarrow> address \<Rightarrow> address \<Rightarrow> int \<Rightarrow> ledger \<Rightarrow> error + ledger" where
  "ledger_transfer_from e tok sp from to amt t =
     (if 0 \<le> amt \<and> amt \<le> balances t tok from \<and> amt \<le> allowances t tok from sp
      then Inr (t\<lparr>balances := (balances t)(tok := moved (balances t tok) from to amt),
                  allowances := (allowances t)(tok := (allowances t tok)(from :=
                    (allowances t tok from)(sp := allowances t tok from sp - amt)))\<rparr>)
      else Inl TokenTrap)"

definition ledger_mint ::
  "env \<Rightarrow> address \<Rightarrow> address \<Rightarrow> int \<Rightarrow> ledger \<Rightarrow> error + ledger" where
  "ledger_mint e tok to amt t =
     (if 0 \<le> amt
      then Inr (t\<lparr>balances := (balances t)(tok := (balances t tok)(to := balances t tok to + amt))\<rparr>)
      else Inl TokenTrap)"

definition ledger_token :: "ledger sep41" where
  "ledger_token = \<lparr>tk_transfer = ledger_transfer, tk_transfer_from = ledger_transfer_from,
     tk_mint = ledger_mint, tk_balance = (\<lambda>tok a t. balances t tok a)\<rparr>"

lemma ledger_token_sel [simp]:
  "tk_transfer ledger_token = ledger_transfer"
  "tk_transfer_from ledger_token = ledger_transfer_from"
  "tk_mint ledger_token = ledger_mint"
  "tk_balance ledger_token tok a t = balances t tok a"
  by (simp_all add: ledger_token_def)

lemma sep41_laws_ledger: "sep41_laws ledger_token"
  by (auto simp: sep41_laws_def ledger_transfer_def ledger_transfer_from_def ledger_mint_def
      moved_def Let_def split: if_splits)

lemma sep41_transfer:
  assumes "sep41_laws T" and "tk_transfer T e tok x y amt t = Inr t'"
  shows "0 \<le> amt" and "amt \<le> tk_balance T tok x t"
    and "tk_balance T tok' a t' =
      (if tok' = tok then moved (\<lambda>a. tk_balance T tok a t) x y amt a else tk_balance T tok' a t)"
  using assms(1) [unfolded sep41_laws_def, THEN conjunct1, rule_format, OF assms(2)] by simp_all

lemma sep41_transfer_from:
  assumes "sep41_laws T" and "tk_transfer_from T e tok sp x y amt t = Inr t'"
  shows "0 \<le> amt" and "amt \<le> tk_balance T tok x t"
    and "tk_balance T tok' a t' =
      (if tok' = tok then moved (\<lambda>a. tk_balance T tok a t) x y amt a else tk_balance T tok' a t)"
  using assms(1) [unfolded sep41_laws_def, THEN conjunct2, THEN conjunct1, rule_format, OF assms(2)] by simp_all

lemma moved_sum:
  assumes "finite A" "from \<in> A" "to \<in> A"
  shows "sum (moved b from to amt) A = sum b A"
proof -
  have "sum (moved b from to amt) A =
      sum (\<lambda>x. b x + (if x = from then - amt else 0) + (if x = to then amt else 0)) A"
    by (rule sum.cong) (auto simp: moved_def Let_def)
  with assms show ?thesis by (simp add: sum.distrib)
qed

end
