(* ===== verification/Types.thy ===== *)
theory Types
  imports Soroban
begin

text \<open>
  The contract types of \<open>common/src/lib.rs\<close> (and the two key structs of \<open>insurance/src/lib.rs\<close>),
  the protocol constants, and the event log. Enum variants that share a name in Rust
  (\<open>Pending\<close>, \<open>Repaid\<close>, ...) carry a prefix naming their enum. \<open>i128\<close> fields are \<open>int\<close>,
  \<open>u32\<close> and \<open>u64\<close> fields are \<open>nat\<close>; the operations that compute on them check the range.
\<close>

subsection \<open>Constants\<close>

definition GRACE_PERIOD_SECS :: nat where [simp]: "GRACE_PERIOD_SECS = 604800"
definition MIN_OFFER_DURATION_SECS :: nat where [simp]: "MIN_OFFER_DURATION_SECS = 86400"
definition MAX_OFFER_DURATION_SECS :: nat where [simp]: "MAX_OFFER_DURATION_SECS = 31536000"
definition MAX_INTEREST_BPS :: nat where [simp]: "MAX_INTEREST_BPS = 10000"
definition MIN_INVOICE_AMOUNT :: int where [simp]: "MIN_INVOICE_AMOUNT = 10000000"
definition DEFAULT_NEGOTIATION_WINDOW_SECS :: nat where
  [simp]: "DEFAULT_NEGOTIATION_WINDOW_SECS = 259200"
definition MIN_NEGOTIATION_WINDOW_SECS :: nat where [simp]: "MIN_NEGOTIATION_WINDOW_SECS = 3600"
definition MAX_NEGOTIATION_WINDOW_SECS :: nat where [simp]: "MAX_NEGOTIATION_WINDOW_SECS = 2592000"
definition MAX_NEGOTIATION_ROUNDS :: nat where [simp]: "MAX_NEGOTIATION_ROUNDS = 20"
definition DEFAULT_ATTESTATION_VALIDITY_SECS :: nat where
  [simp]: "DEFAULT_ATTESTATION_VALIDITY_SECS = 7776000"
definition MIN_ATTESTATION_VALIDITY_SECS :: nat where [simp]: "MIN_ATTESTATION_VALIDITY_SECS = 86400"
definition MAX_ATTESTATION_VALIDITY_SECS :: nat where
  [simp]: "MAX_ATTESTATION_VALIDITY_SECS = 31536000"
definition MAX_VERIFICATION_FEE_BPS :: nat where [simp]: "MAX_VERIFICATION_FEE_BPS = 500"
definition MAX_VERIFIERS :: nat where [simp]: "MAX_VERIFIERS = 20"
definition MAX_ADMIN_SIGNERS :: nat where [simp]: "MAX_ADMIN_SIGNERS = 20"
definition MAX_ATTESTATIONS_PER_INVOICE :: nat where [simp]: "MAX_ATTESTATIONS_PER_INVOICE = 60"

subsection \<open>Enums\<close>

datatype risk_tier = TierA | TierB | TierC

datatype invoice_status =
  InvPending | InvFinanced | InvRepaid | InvOverdue | InvCancelled | InvDisputed | InvDefaulted

datatype amendment_field = AmendAmount | AmendDueDate

datatype amendment_status = AmdPending | AmdApproved | AmdRejected

datatype offer_status = OffPending | OffAccepted | OffRejected | OffFinanced | OffRepaid | OffDefaulted

datatype schedule_frequency = Daily | Weekly | Monthly

datatype negotiation_party = ByLender | ByOriginator

datatype negotiation_status = NegNone | NegOpen | NegExpired | NegClosed | NegAccepted

datatype verification_type = DocumentHash | BusinessRegistration | TaxCompliance

datatype verification_status = VerPending | VerVerified | VerRejected | VerExpired

datatype insurance_tier = Conservative | Balanced | Aggressive

definition VERIFICATION_TYPES :: "verification_type list" where
  "VERIFICATION_TYPES = [DocumentHash, BusinessRegistration, TaxCompliance]"

fun period_secs :: "schedule_frequency \<Rightarrow> nat" where
  "period_secs Daily = 86400"
| "period_secs Weekly = 604800"
| "period_secs Monthly = 2592000"

subsection \<open>Structs\<close>

datatype semantic_version = SemanticVersion (major: nat) (minor: nat) (patch: nat)

record pending_upgrade =
  pu_version :: string
  pu_wasm_hash :: bytes32

record admin_config =
  signers :: "address list"
  threshold :: nat

record invoice =
  inv_id :: symbol
  inv_originator :: address
  inv_amount :: int
  inv_currency :: symbol
  inv_due_date :: nat
  inv_status :: invoice_status

record invoice_token_metadata =
  tm_token_id :: bytes32
  tm_invoice_id :: symbol
  tm_originator :: address
  tm_owner :: address
  tm_amount :: int
  tm_currency :: symbol
  tm_due_date :: nat
  tm_status :: invoice_status

record transition_record =
  tr_from_status :: invoice_status
  tr_to_status :: invoice_status
  tr_actor :: address
  tr_timestamp :: nat

record amendment_record =
  am_field :: amendment_field
  am_old_amount :: int
  am_new_amount :: int
  am_old_due_date :: nat
  am_new_due_date :: nat
  am_reason :: symbol
  am_timestamp :: nat
  am_status :: amendment_status

record financing_offer =
  off_id :: symbol
  off_invoice_id :: symbol
  off_lender :: address
  off_amount :: int
  off_currency :: symbol
  off_interest_rate :: nat
  off_duration :: nat
  off_expires_at :: nat
  off_status :: offer_status
  off_funded_at :: nat
  off_amount_repaid :: int

record protocol_stats =
  total_invoices :: nat
  total_offers :: nat
  total_financed :: int
  total_repaid :: int
  total_fee_revenue :: int

record lender_stats =
  total_offered :: int
  total_accepted :: int
  offers_pending :: nat
  offers_repaid :: nat

record repayment_schedule =
  rs_offer_id :: symbol
  rs_count :: nat
  rs_frequency :: schedule_frequency
  rs_installment_amount :: int
  rs_first_due :: nat

record payment_record =
  pay_id :: nat
  pay_amount :: int
  pay_interest_paid :: int
  pay_principal_paid :: int
  pay_timestamp :: nat
  pay_payer :: address

record negotiation_record =
  neg_party :: negotiation_party
  neg_amount :: int
  neg_interest_rate :: nat
  neg_duration :: nat
  neg_timestamp :: nat

record attestation =
  at_verifier :: address
  at_type :: verification_type
  at_hash :: bytes32
  at_timestamp :: nat
  at_valid_until :: nat
  at_status :: verification_status

record event_record =
  er_event_id :: nat
  er_event_type :: symbol
  er_timestamp :: nat
  er_actor :: address
  er_contract_id :: address
  er_data_key :: symbol

text \<open>Map keys of the insurance contract; host order compares the fields in turn.\<close>

datatype tier_stake_key = TierStakeKey (tsk_staker: address) (tsk_tier: insurance_tier)

datatype tier_offer_key = TierOfferKey (tok_offer_id: symbol) (tok_tier: insurance_tier)

subsection \<open>Orders\<close>

primrec tier_index :: "insurance_tier \<Rightarrow> nat" where
  "tier_index Conservative = 0"
| "tier_index Balanced = 1"
| "tier_index Aggressive = 2"

lemma tier_index_inj: "tier_index a = tier_index b \<Longrightarrow> a = b"
  by (cases a; cases b) auto

instantiation tier_stake_key :: linorder
begin
definition less_tier_stake_key :: "tier_stake_key \<Rightarrow> tier_stake_key \<Rightarrow> bool" where
  "less_tier_stake_key a b =
     (tsk_staker a < tsk_staker b \<or>
      tsk_staker a = tsk_staker b \<and> tier_index (tsk_tier a) < tier_index (tsk_tier b))"
definition less_eq_tier_stake_key :: "tier_stake_key \<Rightarrow> tier_stake_key \<Rightarrow> bool" where
  "less_eq_tier_stake_key a b = (a = b \<or> a < b)"
instance
proof
  fix x y z :: tier_stake_key
  show "(x < y) = (x \<le> y \<and> \<not> y \<le> x)"
    by (auto simp: less_eq_tier_stake_key_def less_tier_stake_key_def)
  show "x \<le> x" by (simp add: less_eq_tier_stake_key_def)
  show "x \<le> y \<Longrightarrow> y \<le> z \<Longrightarrow> x \<le> z"
    by (auto simp: less_eq_tier_stake_key_def less_tier_stake_key_def)
  show "x \<le> y \<Longrightarrow> y \<le> x \<Longrightarrow> x = y"
    by (auto simp: less_eq_tier_stake_key_def less_tier_stake_key_def)
  show "x \<le> y \<or> y \<le> x"
    by (cases x; cases y)
      (auto simp: less_eq_tier_stake_key_def less_tier_stake_key_def dest: tier_index_inj
        intro: linorder_cases)
qed
end

instantiation tier_offer_key :: linorder
begin
definition less_tier_offer_key :: "tier_offer_key \<Rightarrow> tier_offer_key \<Rightarrow> bool" where
  "less_tier_offer_key a b =
     (tok_offer_id a < tok_offer_id b \<or>
      tok_offer_id a = tok_offer_id b \<and> tier_index (tok_tier a) < tier_index (tok_tier b))"
definition less_eq_tier_offer_key :: "tier_offer_key \<Rightarrow> tier_offer_key \<Rightarrow> bool" where
  "less_eq_tier_offer_key a b = (a = b \<or> a < b)"
instance
proof
  fix x y z :: tier_offer_key
  show "(x < y) = (x \<le> y \<and> \<not> y \<le> x)"
    by (auto simp: less_eq_tier_offer_key_def less_tier_offer_key_def)
  show "x \<le> x" by (simp add: less_eq_tier_offer_key_def)
  show "x \<le> y \<Longrightarrow> y \<le> z \<Longrightarrow> x \<le> z"
    by (auto simp: less_eq_tier_offer_key_def less_tier_offer_key_def)
  show "x \<le> y \<Longrightarrow> y \<le> x \<Longrightarrow> x = y"
    by (auto simp: less_eq_tier_offer_key_def less_tier_offer_key_def)
  show "x \<le> y \<or> y \<le> x"
    by (cases x; cases y)
      (auto simp: less_eq_tier_offer_key_def less_tier_offer_key_def dest: tier_index_inj
        intro: linorder_cases)
qed
end

text \<open>\<open>SemanticVersion\<close> derives its order: the components are compared in turn.\<close>

instantiation semantic_version :: linorder
begin
definition less_semantic_version :: "semantic_version \<Rightarrow> semantic_version \<Rightarrow> bool" where
  "less_semantic_version a b =
     (major a < major b \<or>
      major a = major b \<and> (minor a < minor b \<or> minor a = minor b \<and> patch a < patch b))"
definition less_eq_semantic_version :: "semantic_version \<Rightarrow> semantic_version \<Rightarrow> bool" where
  "less_eq_semantic_version a b = (a = b \<or> a < b)"
instance
proof
  fix x y z :: semantic_version
  note order = less_eq_semantic_version_def less_semantic_version_def
  show "(x < y) = (x \<le> y \<and> \<not> y \<le> x)" by (auto simp: order)
  show "x \<le> x" by (simp add: order)
  show "x \<le> y \<Longrightarrow> y \<le> z \<Longrightarrow> x \<le> z" by (auto simp: order)
  show "x \<le> y \<Longrightarrow> y \<le> x \<Longrightarrow> x = y" by (auto simp: order)
  show "x \<le> y \<or> y \<le> x" by (cases x; cases y) (auto simp: order)
qed
end

subsection \<open>Events\<close>

text \<open>
  One constructor per event topic the contracts publish: the topic's subject first, then the
  data payload. A contract's log is the list of its events in publication order.
\<close>

datatype (plugins only: code) event =
    Ev_contract_initialized string
  | Ev_contract_upgraded string
  | Ev_inv_trx symbol invoice_status invoice_status address
  | Ev_token_minted bytes32 symbol address int
  | Ev_token_burned bytes32 symbol address invoice_status
  | Ev_token_transferred bytes32 address address
  | Ev_token_approved bytes32 address "address option"
  | Ev_fee_rcpt address
  | Ev_inv_reg symbol address int nat
  | Ev_inv_amt symbol int
  | Ev_inv_cxl address address
  | Ev_inv_sts symbol invoice_status
  | Ev_inv_def symbol address
  | Ev_inv_ovd symbol nat
  | Ev_inv_dsp symbol address
  | Ev_inv_rsl symbol invoice_status
  | Ev_ver_sub symbol address verification_type bytes32 nat int
  | Ev_ver_done symbol verification_type verification_status
  | Ev_ver_exp symbol address verification_type nat
  | Ev_amd_req symbol amendment_field amendment_status nat
  | Ev_amd_apr symbol nat address
  | Ev_amd_rj symbol nat address
  | Ev_off_new symbol symbol address int nat
  | Ev_off_acc symbol symbol address int
  | Ev_off_rej symbol symbol
  | Ev_off_wdr symbol address
  | Ev_off_amd symbol address int nat nat
  | Ev_ctr_off symbol address int nat nat
  | Ev_neg_clsd symbol negotiation_status address
  | Ev_pos_mint symbol address int
  | Ev_inv_frp symbol symbol int int int
  | Ev_parpay symbol symbol int int int int
  | Ev_inv_rep symbol symbol int bool
  | Ev_off_def symbol symbol address int int
  | Ev_pool_stk address "insurance_tier option" int
  | Ev_pool_un address "insurance_tier option" int
  | Ev_pool_yld address "insurance_tier option" int
  | Ev_pool_pay address "insurance_tier option" int
  | Ev_ins_rsrv symbol "insurance_tier option" int
  | Ev_ins_pay symbol "insurance_tier option" int int
  | Ev_reputn address nat
  | Ev_rep_chg address int
  | Ev_evt_rec nat symbol address nat
  | Ev_evt_prn nat nat

end
