(* ===== verification/Version.thy ===== *)
theory Version
  imports Types
begin

text \<open>
  \<open>parse_semantic_version\<close> of \<open>common/src/lib.rs\<close>: the byte loop as a structural recursion over
  the version's characters, with the three accumulators \<open>parts\<close>, \<open>part\<close> and \<open>digits\<close> of the
  source. \<open>show_version\<close> is the canonical \<open>MAJOR.MINOR.PATCH\<close> text; the parser accepts exactly
  the canonical texts of triples of \<open>u32\<close> and returns the triple it was given.
\<close>

definition is_ascii_digit :: "char \<Rightarrow> bool" where
  "is_ascii_digit c \<longleftrightarrow> 48 \<le> (of_char c :: nat) \<and> (of_char c :: nat) \<le> 57"

definition digit_value :: "char \<Rightarrow> nat" where
  "digit_value c = of_char c - 48"

fun version_loop ::
  "string \<Rightarrow> nat list \<Rightarrow> nat \<Rightarrow> nat \<Rightarrow> error + (nat list \<times> nat \<times> nat)" where
  "version_loop [] parts part digits = Inr (parts, part, digits)"
| "version_loop (byte # bytes) parts part digits =
     (if byte = CHR ''.''
      then bindE (ensure (\<not> (part = 2 \<or> digits = 0)) (Contract InvalidVersion)) (\<lambda>_.
           version_loop bytes parts (part + 1) 0)
      else bindE (ensure (\<not> (\<not> is_ascii_digit byte \<or> (digits > 0 \<and> parts ! part = 0)))
             (Contract InvalidVersion)) (\<lambda>_.
           let v = parts ! part * 10 in
           bindE (ensure (v < 2 ^ 32 \<and> v + digit_value byte < 2 ^ 32) (Contract InvalidVersion)) (\<lambda>_.
           version_loop bytes (parts[part := v + digit_value byte]) part (digits + 1))))"

definition parse_semantic_version :: "string \<Rightarrow> error + semantic_version" where
  "parse_semantic_version value =
     bindE (ensure (5 \<le> length value \<and> length value \<le> 32) (Contract InvalidVersion)) (\<lambda>_.
     bindE (version_loop value [0, 0, 0] 0 0) (\<lambda>(parts, part, digits).
     bindE (ensure (\<not> (part \<noteq> 2 \<or> digits = 0)) (Contract InvalidVersion)) (\<lambda>_.
     Inr (SemanticVersion (parts ! 0) (parts ! 1) (parts ! 2)))))"

subsection \<open>Canonical text\<close>

definition digit_char :: "nat \<Rightarrow> char" where
  "digit_char d = char_of (48 + d)"

fun show_nat :: "nat \<Rightarrow> string" where
  "show_nat n = (if n < 10 then [digit_char n] else show_nat (n div 10) @ [digit_char (n mod 10)])"

declare show_nat.simps [simp del]

definition show_version :: "semantic_version \<Rightarrow> string" where
  "show_version v =
     show_nat (major v) @ CHR ''.'' # show_nat (minor v) @ CHR ''.'' # show_nat (patch v)"

definition version_in_range :: "semantic_version \<Rightarrow> bool" where
  "version_in_range v \<longleftrightarrow> major v < 2 ^ 32 \<and> minor v < 2 ^ 32 \<and> patch v < 2 ^ 32"

lemma of_char_digit_char [simp]: "d < 10 \<Longrightarrow> of_char (digit_char d) = 48 + d"
  by (simp add: digit_char_def of_char_of)

lemma digit_char_simps [simp]:
  assumes "d < 10"
  shows "is_ascii_digit (digit_char d)" "digit_value (digit_char d) = d" "digit_char d \<noteq> CHR ''.''"
proof -
  show "is_ascii_digit (digit_char d)" "digit_value (digit_char d) = d"
    using assms by (simp_all add: is_ascii_digit_def digit_value_def)
  have "of_char (digit_char d) \<noteq> (of_char CHR ''.'' :: nat)" using assms by simp
  then show "digit_char d \<noteq> CHR ''.''" by metis
qed

lemma digit_char_numerals:
  "digit_char 0 = CHR ''0''" "digit_char (Suc 0) = CHR ''1''" "digit_char 1 = CHR ''1''"
  "digit_char 2 = CHR ''2''" "digit_char 3 = CHR ''3''" "digit_char 4 = CHR ''4''"
  "digit_char 5 = CHR ''5''" "digit_char 6 = CHR ''6''" "digit_char 7 = CHR ''7''"
  "digit_char 8 = CHR ''8''" "digit_char 9 = CHR ''9''"
  by (rule of_char_eq_iff [where 'a = nat, THEN iffD1], simp)+

lemma digit_char_digit_value: "is_ascii_digit c \<Longrightarrow> digit_char (digit_value c) = c"
  by (simp add: is_ascii_digit_def digit_char_def digit_value_def)

lemma digit_value_less: "is_ascii_digit c \<Longrightarrow> digit_value c < 10"
  by (auto simp: is_ascii_digit_def digit_value_def)

lemma show_nat_small: "n < 10 \<Longrightarrow> show_nat n = [digit_char n]"
  by (simp add: show_nat.simps)

lemma show_nat_step: "0 < n \<Longrightarrow> d < 10 \<Longrightarrow> show_nat (n * 10 + d) = show_nat n @ [digit_char d]"
  by (subst show_nat.simps) simp

lemma show_nat_nonempty [simp]: "show_nat n \<noteq> []"
  by (subst show_nat.simps) simp

lemma show_nat_length_pos [simp]: "0 < length (show_nat n)"
  by simp

lemma show_nat_length: "n < 10 ^ k \<Longrightarrow> 0 < k \<Longrightarrow> length (show_nat n) \<le> k"
proof (induction n arbitrary: k rule: show_nat.induct)
  case (1 n)
  show ?case
  proof (cases "n < 10")
    case True
    with 1 show ?thesis by (simp add: show_nat_small)
  next
    case False
    obtain j where k: "k = Suc j" using 1(3) by (cases k) auto
    with False 1(2) have "0 < j" by (cases j) auto
    with k 1(2) have "n div 10 < 10 ^ j" by (simp add: less_mult_imp_div_less mult.commute)
    with 1(1) False \<open>0 < j\<close> have "length (show_nat (n div 10)) \<le> j" by simp
    with False k show ?thesis by (subst show_nat.simps) simp
  qed
qed

lemma show_version_length:
  assumes "version_in_range v"
  shows "5 \<le> length (show_version v) \<and> length (show_version v) \<le> 32"
proof -
  have le: "length (show_nat n) \<le> 10" if "n < 2 ^ 32" for n
    using that by (intro show_nat_length) simp_all
  have ge: "1 \<le> length (show_nat n)" for n
    by (simp add: Suc_le_eq)
  from assms le [of "major v"] le [of "minor v"] le [of "patch v"] ge [of "major v"]
    ge [of "minor v"] ge [of "patch v"]
  show ?thesis by (simp add: show_version_def version_in_range_def)
qed

subsection \<open>The loop reads what the printer writes\<close>

lemma version_loop_number:
  assumes "n < 2 ^ 32" "part < length parts" "parts ! part = 0"
  shows "version_loop (show_nat n @ rest) parts part 0 =
    version_loop rest (parts[part := n]) part (length (show_nat n))"
  using assms
proof (induction n arbitrary: rest rule: show_nat.induct)
  case (1 n)
  show ?case
  proof (cases "n < 10")
    case True
    with 1 show ?thesis by (simp add: show_nat_small)
  next
    case False
    then have "show_nat n = show_nat (n div 10) @ [digit_char (n mod 10)]"
      by (subst show_nat.simps) simp
    moreover have "0 < n div 10" using False by (simp add: div_greater_zero_iff)
    moreover have "n div 10 * 10 < 2 ^ 32" "n div 10 * 10 + n mod 10 < 2 ^ 32"
      using 1(2) by simp_all
    moreover from 1(1) [of "digit_char (n mod 10) # rest"] False 1(2-4)
    have "version_loop (show_nat (n div 10) @ digit_char (n mod 10) # rest) parts part 0 =
        version_loop (digit_char (n mod 10) # rest) (parts[part := n div 10]) part
          (length (show_nat (n div 10)))"
      by simp
    ultimately show ?thesis using 1(3) by (simp add: Let_def)
  qed
qed

lemma parse_show_version:
  assumes "version_in_range v"
  shows "parse_semantic_version (show_version v) = Inr v"
proof -
  have r: "major v < 2 ^ 32" "minor v < 2 ^ 32" "patch v < 2 ^ 32"
    using assms by (simp_all add: version_in_range_def)
  have "version_loop (show_version v) [0, 0, 0] 0 0 =
      Inr ([major v, minor v, patch v], 2, length (show_nat (patch v)))"
    using r version_loop_number [of "patch v" 2 "[major v, minor v, 0]" "[]"]
    by (simp add: show_version_def version_loop_number numeral_2_eq_2)
  then show ?thesis
    using show_version_length [OF assms] by (simp add: parse_semantic_version_def)
qed

subsection \<open>The loop accepts nothing else\<close>

text \<open>What has been read so far, given the accumulators.\<close>

definition consumed :: "nat list \<Rightarrow> nat \<Rightarrow> nat \<Rightarrow> string" where
  "consumed parts part digits =
     concat (map (\<lambda>i. show_nat (parts ! i) @ ''.'') [0..<part]) @
     (if digits = 0 then [] else show_nat (parts ! part))"

definition loop_inv :: "string \<Rightarrow> nat list \<Rightarrow> nat \<Rightarrow> nat \<Rightarrow> bool" where
  "loop_inv pre parts part digits \<longleftrightarrow>
     length parts = 3 \<and> part \<le> 2 \<and> pre = consumed parts part digits \<and>
     (\<forall>i < 3. parts ! i < 2 ^ 32) \<and> (digits = 0 \<longrightarrow> parts ! part = 0) \<and>
     (\<forall>i. part < i \<and> i < 3 \<longrightarrow> parts ! i = 0)"

lemma consumed_dot:
  "0 < digits \<Longrightarrow> consumed parts part digits @ ''.'' = consumed parts (Suc part) 0"
  by (simp add: consumed_def)

lemma consumed_digit:
  assumes "part < length parts" "d < 10" "digits = 0 \<longrightarrow> parts ! part = 0"
    "0 < digits \<longrightarrow> 0 < parts ! part"
  shows "consumed parts part digits @ [digit_char d] =
    consumed (parts[part := parts ! part * 10 + d]) part (Suc digits)"
proof -
  have others: "map (\<lambda>i. show_nat (parts[part := x] ! i) @ ''.'') [0..<part] =
      map (\<lambda>i. show_nat (parts ! i) @ ''.'') [0..<part]" for x
    by simp
  from assms show ?thesis
    by (cases "digits = 0")
      (simp_all add: consumed_def show_nat_small show_nat_step others del: map_eq_conv)
qed

lemma version_loop_inv:
  "version_loop bytes parts part digits = Inr (parts', part', digits') \<Longrightarrow>
   loop_inv pre parts part digits \<Longrightarrow> loop_inv (pre @ bytes) parts' part' digits'"
proof (induction bytes parts part digits arbitrary: pre rule: version_loop.induct)
  case (1 parts part digits)
  then show ?case by simp
next
  case (2 byte bytes parts part digits)
  show ?case
  proof (cases "byte = CHR ''.''")
    case True
    with 2(3) have g: "part \<noteq> 2" "0 < digits"
      and loop: "version_loop bytes parts (part + 1) 0 = Inr (parts', part', digits')"
      by (auto simp: ok)
    from g 2(4) have "loop_inv (pre @ ''.'') parts (part + 1) 0"
      using consumed_dot [of digits parts part] by (auto simp: loop_inv_def)
    with 2(1) [OF True _ loop this] g True show ?thesis by (simp add: ok)
  next
    case False
    let ?v = "parts ! part * 10"
    from False 2(3) have g: "is_ascii_digit byte" "0 < digits \<longrightarrow> parts ! part \<noteq> 0"
        "?v + digit_value byte < 2 ^ 32"
      and loop: "version_loop bytes (parts[part := ?v + digit_value byte]) part (digits + 1) =
        Inr (parts', part', digits')"
      by (auto simp: ok Let_def)
    have part: "part < length parts" using 2(4) by (simp add: loop_inv_def)
    have "pre @ [byte] = consumed (parts[part := ?v + digit_value byte]) part (Suc digits)"
      using consumed_digit [OF part digit_value_less [OF g(1)], of digits] g 2(4)
      by (simp add: loop_inv_def digit_char_digit_value)
    with g part 2(4) have "loop_inv (pre @ [byte]) (parts[part := ?v + digit_value byte]) part (digits + 1)"
      by (auto simp: loop_inv_def nth_list_update)
    with 2(2) [OF False _ refl _ loop this] g show ?thesis by (auto simp: ok)
  qed
qed

lemma parse_semantic_version_sound:
  assumes "parse_semantic_version s = Inr v"
  shows "s = show_version v \<and> version_in_range v"
proof -
  from assms obtain parts digits where
    loop: "version_loop s [0, 0, 0] 0 0 = Inr (parts, 2, digits)" and "0 < digits"
    and v: "v = SemanticVersion (parts ! 0) (parts ! 1) (parts ! 2)"
    by (auto simp: parse_semantic_version_def ok)
  have "loop_inv [] [0, 0, 0] 0 0"
    by (auto simp: loop_inv_def consumed_def nth_Cons split: nat.splits)
  from version_loop_inv [OF loop this] \<open>0 < digits\<close>
  have "s = consumed parts 2 digits" "\<forall>i < 3. parts ! i < 2 ^ 32"
    by (simp_all add: loop_inv_def)
  with \<open>0 < digits\<close> v show ?thesis
    by (simp add: consumed_def show_version_def version_in_range_def numeral_2_eq_2)
qed

text \<open>
  The version parser is exact: a text parses to a version if and only if it is that version's
  canonical \<open>MAJOR.MINOR.PATCH\<close> text with every component in the range of \<open>u32\<close>. So leading zeros,
  empty or missing components, stray characters and overflowing components are all refused, and
  no two texts parse to the same version.
\<close>

theorem parse_semantic_version_exact:
  "parse_semantic_version s = Inr v \<longleftrightarrow> s = show_version v \<and> version_in_range v"
  using parse_semantic_version_sound parse_show_version by blast

end
