(* ===== verification/Common.thy ===== *)
theory Common
  imports Version
begin

text \<open>
  The storage and the operations that \<open>common/src/lib.rs\<close> gives every contract: executable
  upgrades, M-of-N admin governance, the currency registry, the pause guard and the invoice state
  machine with its bounded history. \<open>base\<close> holds the storage keys this crate owns, and the record
  of each contract extends it, so the operations below apply to every contract state.
\<close>

record base =
  admcfg :: "admin_config option"
  paused :: bool
  ver_current :: "string option"
  ver_previous :: "string option"
  wasm_previous :: "bytes32 option"
  upgrade_pending :: "pending_upgrade option"
  curtok :: "symbol \<rightharpoonup> address"
  default_token :: "address option"
  trn_log :: "symbol \<rightharpoonup> transition_record list"
  wasm_running :: bytes32
  events :: "event list"

definition publish :: "event \<Rightarrow> 'a base_scheme \<Rightarrow> 'a base_scheme" where
  "publish ev s = s\<lparr>events := events s @ [ev]\<rparr>"

lemma publish_sel [simp]:
  "admcfg (publish ev s) = admcfg s" "paused (publish ev s) = paused s"
  "ver_current (publish ev s) = ver_current s" "ver_previous (publish ev s) = ver_previous s"
  "wasm_previous (publish ev s) = wasm_previous s"
  "upgrade_pending (publish ev s) = upgrade_pending s" "curtok (publish ev s) = curtok s"
  "default_token (publish ev s) = default_token s" "trn_log (publish ev s) = trn_log s"
  "wasm_running (publish ev s) = wasm_running s" "events (publish ev s) = events s @ [ev]"
  "base.more (publish ev s) = base.more s"
  by (simp_all add: publish_def)

subsection \<open>Versions and upgrades\<close>

definition CARGO_PKG_VERSION :: string where
  "CARGO_PKG_VERSION = ''0.7.0''"

lemma parse_cargo_version: "parse_semantic_version CARGO_PKG_VERSION = Inr (SemanticVersion 0 7 0)"
  using parse_show_version [of "SemanticVersion 0 7 0"]
  by (simp add: version_in_range_def show_version_def show_nat.simps digit_char_numerals CARGO_PKG_VERSION_def)

definition initialize_contract_version ::
  "string \<Rightarrow> 'a base_scheme \<Rightarrow> error + 'a base_scheme" where
  "initialize_contract_version v s =
     bindE (parse_semantic_version v) (\<lambda>_.
     Inr (publish (Ev_contract_initialized v) (s\<lparr>ver_current := Some v\<rparr>)))"

definition contract_version :: "'a base_scheme \<Rightarrow> error + string" where
  "contract_version s = fetch (ver_current s) (Panic ''Not initialized'')"

definition begin_upgrade ::
  "bytes32 \<Rightarrow> bytes32 \<Rightarrow> string \<Rightarrow> 'a base_scheme \<Rightarrow> error + 'a base_scheme" where
  "begin_upgrade current_wasm_hash new_wasm_hash new_version s =
     bindE (ensure (upgrade_pending s = None) (Contract UpgradePending)) (\<lambda>_.
     bindE (contract_version s) (\<lambda>current.
     bindE (parse_semantic_version new_version) (\<lambda>new.
     bindE (parse_semantic_version current) (\<lambda>old.
     bindE (ensure (\<not> new \<le> old) (Contract InvalidVersion)) (\<lambda>_.
     Inr (s\<lparr>ver_previous := Some current,
            wasm_previous := Some current_wasm_hash,
            upgrade_pending := Some \<lparr>pu_version = new_version, pu_wasm_hash = new_wasm_hash\<rparr>\<rparr>))))))"

definition complete_upgrade :: "'a base_scheme \<Rightarrow> error + 'a base_scheme" where
  "complete_upgrade s =
     bindE (fetch (upgrade_pending s) (Contract UpgradeNotPending)) (\<lambda>pend.
     Inr (publish (Ev_contract_upgraded (pu_version pend))
       (s\<lparr>ver_current := Some (pu_version pend), upgrade_pending := None\<rparr>)))"

definition rollback_target :: "'a base_scheme \<Rightarrow> error + (bytes32 \<times> string)" where
  "rollback_target s =
     bindE (ensure (upgrade_pending s = None) (Contract UpgradePending)) (\<lambda>_.
     bindE (fetch (wasm_previous s) (Contract RollbackUnavailable)) (\<lambda>wasm_hash.
     bindE (fetch (ver_previous s) (Contract RollbackUnavailable)) (\<lambda>version.
     Inr (wasm_hash, version))))"

definition commit_rollback :: "string \<Rightarrow> 'a base_scheme \<Rightarrow> 'a base_scheme" where
  "commit_rollback version s =
     s\<lparr>ver_current := Some version, ver_previous := None, wasm_previous := None\<rparr>"

text \<open>The host replaces the executable of the running contract; the code must be uploaded.\<close>

definition update_current_contract_wasm ::
  "env \<Rightarrow> bytes32 \<Rightarrow> 'a base_scheme \<Rightarrow> error + 'a base_scheme" where
  "update_current_contract_wasm e h s =
     bindE (ensure (wasm_uploaded e h) WasmMissing) (\<lambda>_. Inr (s\<lparr>wasm_running := h\<rparr>))"

subsection \<open>Currency registry\<close>

definition load_currency_registry :: "'a base_scheme \<Rightarrow> (symbol \<rightharpoonup> address)" where
  "load_currency_registry s = curtok s"

definition save_currency_registry ::
  "(symbol \<rightharpoonup> address) \<Rightarrow> 'a base_scheme \<Rightarrow> 'a base_scheme" where
  "save_currency_registry registry s = s\<lparr>curtok := registry\<rparr>"

definition register_currency_token ::
  "symbol \<Rightarrow> address \<Rightarrow> 'a base_scheme \<Rightarrow> 'a base_scheme" where
  "register_currency_token currency token_addr s =
     save_currency_registry ((load_currency_registry s)(currency \<mapsto> token_addr)) s"

definition get_currency_token :: "symbol \<Rightarrow> 'a base_scheme \<Rightarrow> address option" where
  "get_currency_token currency s = load_currency_registry s currency"

definition resolve_token :: "symbol \<Rightarrow> 'a base_scheme \<Rightarrow> error + address" where
  "resolve_token currency s =
     (case get_currency_token currency s of
        Some addr \<Rightarrow> Inr addr
      | None \<Rightarrow> fetch (default_token s) (Panic ''Not initialized''))"

subsection \<open>Pause guard\<close>

definition assert_not_paused :: "'a base_scheme \<Rightarrow> error + unit" where
  "assert_not_paused s = ensure (\<not> paused s) (Contract Paused)"

lemma assert_not_paused_Inr_iff [ok]: "assert_not_paused s = Inr u \<longleftrightarrow> \<not> paused s"
  by (simp add: assert_not_paused_def ok)

lemma assert_not_paused_Inl_iff [traps]:
  "assert_not_paused s = Inl e \<longleftrightarrow> paused s \<and> e = Contract Paused"
  by (simp add: assert_not_paused_def traps)

subsection \<open>M-of-N admin governance\<close>

definition init_admin_config :: "address \<Rightarrow> 'a base_scheme \<Rightarrow> error + 'a base_scheme" where
  "init_admin_config admin s =
     bindE (ensure (admcfg s = None) (Panic ''Already initialized'')) (\<lambda>_.
     Inr (s\<lparr>admcfg := Some \<lparr>signers = [admin], threshold = 1\<rparr>\<rparr>))"

definition load_admin_config :: "'a base_scheme \<Rightarrow> error + admin_config" where
  "load_admin_config s = fetch (admcfg s) (Panic ''Not initialized'')"

definition save_admin_config :: "admin_config \<Rightarrow> 'a base_scheme \<Rightarrow> 'a base_scheme" where
  "save_admin_config cfg s = s\<lparr>admcfg := Some cfg\<rparr>"

definition is_signer :: "admin_config \<Rightarrow> address \<Rightarrow> bool" where
  "is_signer cfg who = list_ex (\<lambda>s. s = who) (signers cfg)"

definition validate_signers :: "address list \<Rightarrow> nat \<Rightarrow> error + unit" where
  "validate_signers sgs thr =
     bindE (ensure (\<not> (sgs = [] \<or> length sgs > MAX_ADMIN_SIGNERS)) (Contract InvalidInput)) (\<lambda>_.
     bindE (ensure (\<not> (thr = 0 \<or> thr > length sgs)) (Contract InvalidInput)) (\<lambda>_.
     ensure (\<not> list_ex (\<lambda>(i, a). list_ex (\<lambda>(j, b). i \<noteq> j \<and> a = b) (enumerate 0 sgs)) (enumerate 0 sgs))
       (Contract InvalidInput)))"

fun threshold_loop ::
  "env \<Rightarrow> admin_config \<Rightarrow> address list \<Rightarrow> address list \<Rightarrow> error + address list" where
  "threshold_loop e cfg counted [] = Inr counted"
| "threshold_loop e cfg counted (who # rest) =
     bindE (ensure (is_signer cfg who) (Contract Unauthorized)) (\<lambda>_.
     bindE (ensure (\<not> list_ex (\<lambda>c. c = who) counted) (Contract Unauthorized)) (\<lambda>_.
     bindE (require_auth e who) (\<lambda>_.
     threshold_loop e cfg (counted @ [who]) rest)))"

definition assert_threshold :: "env \<Rightarrow> admin_config \<Rightarrow> address list \<Rightarrow> error + unit" where
  "assert_threshold e cfg provided =
     bindE (threshold_loop e cfg [] provided) (\<lambda>counted.
     ensure (\<not> length counted < threshold cfg) (Contract Unauthorized))"

subsection \<open>Invoice state machine\<close>

fun valid_edge :: "invoice_status \<Rightarrow> invoice_status \<Rightarrow> bool" where
  "valid_edge InvPending InvCancelled = True"
| "valid_edge InvPending InvFinanced = True"
| "valid_edge InvFinanced InvRepaid = True"
| "valid_edge InvFinanced InvFinanced = True"
| "valid_edge InvFinanced InvOverdue = True"
| "valid_edge InvFinanced InvDisputed = True"
| "valid_edge InvOverdue InvDefaulted = True"
| "valid_edge InvDisputed InvPending = True"
| "valid_edge InvDisputed InvFinanced = True"
| "valid_edge InvDisputed InvRepaid = True"
| "valid_edge InvDisputed InvCancelled = True"
| "valid_edge InvDisputed InvDefaulted = True"
| "valid_edge _ _ = False"

definition validate_transition :: "invoice_status \<Rightarrow> invoice_status \<Rightarrow> error + unit" where
  "validate_transition from to = ensure (valid_edge from to) (Contract InvalidTransition)"

definition get_transition_history :: "symbol \<Rightarrow> 'a base_scheme \<Rightarrow> transition_record list" where
  "get_transition_history invoice_id s = (case trn_log s invoice_id of None \<Rightarrow> [] | Some h \<Rightarrow> h)"

definition record_transition ::
  "env \<Rightarrow> symbol \<Rightarrow> invoice_status \<Rightarrow> invoice_status \<Rightarrow> address \<Rightarrow>
     'a base_scheme \<Rightarrow> 'a base_scheme" where
  "record_transition e invoice_id from to actor s =
     (let history = (case trn_log s invoice_id of None \<Rightarrow> [] | Some h \<Rightarrow> h);
          record = \<lparr>tr_from_status = from, tr_to_status = to, tr_actor = actor,
                    tr_timestamp = ledger_timestamp e\<rparr>;
          history = history @ [record];
          history = (if length history > 20 then tl history else history)
      in s\<lparr>trn_log := (trn_log s)(invoice_id \<mapsto> history)\<rparr>)"

definition assert_transition ::
  "env \<Rightarrow> symbol \<Rightarrow> invoice_status \<Rightarrow> invoice_status \<Rightarrow> address \<Rightarrow>
     'a base_scheme \<Rightarrow> error + 'a base_scheme" where
  "assert_transition e invoice_id from to actor s =
     bindE (validate_transition from to) (\<lambda>_.
     Inr (record_transition e invoice_id from to actor (publish (Ev_inv_trx invoice_id from to actor) s)))"

subsection \<open>Quorums\<close>

text \<open>Who must have co-signed, and what makes an admin configuration usable.\<close>

definition quorum :: "env \<Rightarrow> admin_config \<Rightarrow> address list \<Rightarrow> bool" where
  "quorum e cfg provided \<longleftrightarrow>
     distinct provided \<and> set provided \<subseteq> set (signers cfg) \<and>
     (\<forall>a \<in> set provided. authorizes e a) \<and> threshold cfg \<le> length provided"

definition valid_admin_config :: "admin_config \<Rightarrow> bool" where
  "valid_admin_config cfg \<longleftrightarrow>
     distinct (signers cfg) \<and> 1 \<le> threshold cfg \<and> threshold cfg \<le> length (signers cfg) \<and>
     length (signers cfg) \<le> MAX_ADMIN_SIGNERS"

lemma is_signer_iff: "is_signer cfg who \<longleftrightarrow> who \<in> set (signers cfg)"
  by (auto simp: is_signer_def list_ex_iff)

lemma threshold_loop_Inr_iff:
  "threshold_loop e cfg counted provided = Inr out \<longleftrightarrow>
     out = counted @ provided \<and> set provided \<subseteq> set (signers cfg) \<and> distinct provided \<and>
     set provided \<inter> set counted = {} \<and> (\<forall>a \<in> set provided. authorizes e a)"
  by (induction e cfg counted provided rule: threshold_loop.induct)
    (auto simp: ok is_signer_iff list_ex_iff)

lemma assert_threshold_Inr_iff [ok]: "assert_threshold e cfg provided = Inr u \<longleftrightarrow> quorum e cfg provided"
  by (auto simp: assert_threshold_def ok threshold_loop_Inr_iff quorum_def)

lemma duplicate_pair_iff:
  "list_ex (\<lambda>(i, a). list_ex (\<lambda>(j, b). i \<noteq> j \<and> a = b) (enumerate 0 xs)) (enumerate 0 xs) \<longleftrightarrow>
     \<not> distinct xs"
proof -
  have bex: "(\<exists>x \<in> set (enumerate 0 xs). P x) \<longleftrightarrow> (\<exists>i < length xs. P (i, xs ! i))" for P
    by (force simp: in_set_enumerate_eq)
  show ?thesis by (auto simp: list_ex_iff bex distinct_conv_nth)
qed

lemma validate_signers_Inr_iff [ok]:
  "validate_signers sgs thr = Inr u \<longleftrightarrow> valid_admin_config \<lparr>signers = sgs, threshold = thr\<rparr>"
  by (auto simp: validate_signers_def ok duplicate_pair_iff valid_admin_config_def)

lemma valid_singleton: "valid_admin_config \<lparr>signers = [a], threshold = 1\<rparr>"
  by (simp add: valid_admin_config_def)

lemma valid_config_has_quorum:
  assumes "valid_admin_config cfg" and "\<And>a. a \<in> set (take (threshold cfg) (signers cfg)) \<Longrightarrow> authorizes e a"
  shows "quorum e cfg (take (threshold cfg) (signers cfg))"
  using assms by (auto simp: quorum_def valid_admin_config_def dest: in_set_takeD)

subsection \<open>Transitions\<close>

lemma validate_transition_Inr_iff [ok]: "validate_transition a b = Inr u \<longleftrightarrow> valid_edge a b"
  by (simp add: validate_transition_def ok)

lemma record_transition_sel [simp]:
  "admcfg (record_transition e i a b c s) = admcfg s"
  "paused (record_transition e i a b c s) = paused s"
  "ver_current (record_transition e i a b c s) = ver_current s"
  "ver_previous (record_transition e i a b c s) = ver_previous s"
  "wasm_previous (record_transition e i a b c s) = wasm_previous s"
  "upgrade_pending (record_transition e i a b c s) = upgrade_pending s"
  "curtok (record_transition e i a b c s) = curtok s"
  "default_token (record_transition e i a b c s) = default_token s"
  "wasm_running (record_transition e i a b c s) = wasm_running s"
  "events (record_transition e i a b c s) = events s"
  "base.more (record_transition e i a b c s) = base.more s"
  by (simp_all add: record_transition_def Let_def)

lemma assert_transition_Inr_iff [ok]:
  "assert_transition e i a b actor s = Inr s' \<longleftrightarrow>
     valid_edge a b \<and>
     s' = record_transition e i a b actor (publish (Ev_inv_trx i a b actor) s)"
  by (auto simp: assert_transition_def ok)

definition keep_last :: "nat \<Rightarrow> 'a list \<Rightarrow> 'a list" where
  "keep_last n xs = drop (length xs - n) xs"

lemma keep_last_step:
  "(if length (keep_last n xs @ [x]) > n then tl (keep_last n xs @ [x]) else keep_last n xs @ [x]) =
   keep_last n (xs @ [x])" if "0 < n"
proof (cases "n \<le> length xs")
  case True
  with that have "Suc (length xs) - n = Suc (length xs - n)" by simp
  moreover from True that have "length xs - n < length xs" by simp
  ultimately show ?thesis
    using True that
    by (simp add: keep_last_def tl_append drop_Suc tl_drop [symmetric] split: list.split)
next
  case False
  then show ?thesis by (simp add: keep_last_def)
qed

lemma record_transition_history:
  assumes "get_transition_history i s = keep_last 20 full"
  shows "get_transition_history j (record_transition e i a b actor s) =
    (if j = i
     then keep_last 20 (full @ [\<lparr>tr_from_status = a, tr_to_status = b, tr_actor = actor,
       tr_timestamp = ledger_timestamp e\<rparr>])
     else get_transition_history j s)"
  using assms keep_last_step [of 20 full]
  by (auto simp: record_transition_def get_transition_history_def Let_def)

lemma transition_history_bound:
  "length (get_transition_history i s) \<le> 20 \<Longrightarrow>
   length (get_transition_history j s) \<le> 20 \<Longrightarrow>
   length (get_transition_history j (record_transition e i a b actor s)) \<le> 20"
  by (auto simp: record_transition_def get_transition_history_def Let_def)

end
