(* ===== verification/Governance.thy ===== *)
theory Governance
  imports Common
begin

text \<open>
  The entry points that the registry, financing, repayment, insurance and reputation contracts
  repeat word for word: admin reads, signer reconfiguration, pausing, and the upgrade / rollback
  lifecycle. They are defined once on the storage of the common crate (\<open>'a base_scheme\<close>), with the
  registry's text as the source; each contract's theory names its own copies.
  \<open>post_upgrade_with\<close> takes the contract's hook (\<open>backfill_originator_index\<close> for the registry,
  nothing for the others).
\<close>

definition assert_admin :: "env \<Rightarrow> address list \<Rightarrow> 'a base_scheme \<Rightarrow> error + unit" where
  "assert_admin e sgs s = bindE (load_admin_config s) (\<lambda>cfg. assert_threshold e cfg sgs)"

definition get_admin :: "'a base_scheme \<Rightarrow> error + address" where
  "get_admin s =
     bindE (load_admin_config s) (\<lambda>cfg.
     case signers cfg of [] \<Rightarrow> Inl (Panic ''Not initialized'') | a # _ \<Rightarrow> Inr a)"

definition get_admin_config :: "'a base_scheme \<Rightarrow> error + admin_config" where
  "get_admin_config s = load_admin_config s"

definition get_signers :: "'a base_scheme \<Rightarrow> error + address list" where
  "get_signers s = bindE (load_admin_config s) (\<lambda>cfg. Inr (signers cfg))"

definition get_threshold :: "'a base_scheme \<Rightarrow> error + nat" where
  "get_threshold s = bindE (load_admin_config s) (\<lambda>cfg. Inr (threshold cfg))"

definition set_signers ::
  "env \<Rightarrow> address list \<Rightarrow> address list \<Rightarrow> nat \<Rightarrow> 'a base_scheme \<Rightarrow> error + 'a base_scheme" where
  "set_signers e sgs new_signers new_threshold s =
     bindE (assert_not_paused s) (\<lambda>_.
     bindE (assert_admin e sgs s) (\<lambda>_.
     bindE (validate_signers new_signers new_threshold) (\<lambda>_.
     Inr (save_admin_config \<lparr>signers = new_signers, threshold = new_threshold\<rparr> s))))"

definition transfer_admin ::
  "env \<Rightarrow> address list \<Rightarrow> address \<Rightarrow> 'a base_scheme \<Rightarrow> error + 'a base_scheme" where
  "transfer_admin e sgs new_admin s =
     bindE (assert_not_paused s) (\<lambda>_.
     bindE (assert_admin e sgs s) (\<lambda>_.
     Inr (save_admin_config \<lparr>signers = [new_admin], threshold = 1\<rparr> s)))"

definition pause :: "env \<Rightarrow> address list \<Rightarrow> 'a base_scheme \<Rightarrow> error + 'a base_scheme" where
  "pause e sgs s = bindE (assert_admin e sgs s) (\<lambda>_. Inr (s\<lparr>paused := True\<rparr>))"

definition unpause :: "env \<Rightarrow> address list \<Rightarrow> 'a base_scheme \<Rightarrow> error + 'a base_scheme" where
  "unpause e sgs s = bindE (assert_admin e sgs s) (\<lambda>_. Inr (s\<lparr>paused := False\<rparr>))"

definition contract_is_paused :: "'a base_scheme \<Rightarrow> bool" where
  "contract_is_paused s = paused s"

definition version :: "'a base_scheme \<Rightarrow> error + string" where
  "version s = contract_version s"

definition upgrade ::
  "env \<Rightarrow> address list \<Rightarrow> bytes32 \<Rightarrow> bytes32 \<Rightarrow> string \<Rightarrow> 'a base_scheme \<Rightarrow> error + 'a base_scheme" where
  "upgrade e sgs current_wasm_hash new_wasm_hash new_version s =
     bindE (assert_admin e sgs s) (\<lambda>_.
     bindE (begin_upgrade current_wasm_hash new_wasm_hash new_version s) (\<lambda>s.
     update_current_contract_wasm e new_wasm_hash s))"

definition post_upgrade_with ::
  "('a base_scheme \<Rightarrow> 'a base_scheme) \<Rightarrow> env \<Rightarrow> address list \<Rightarrow> 'a base_scheme \<Rightarrow>
     error + 'a base_scheme" where
  "post_upgrade_with hook e sgs s =
     bindE (assert_admin e sgs s) (\<lambda>_. complete_upgrade (hook s))"

definition rollback :: "env \<Rightarrow> address list \<Rightarrow> 'a base_scheme \<Rightarrow> error + 'a base_scheme" where
  "rollback e sgs s =
     bindE (assert_admin e sgs s) (\<lambda>_.
     bindE (rollback_target s) (\<lambda>(wasm_hash, ver).
     update_current_contract_wasm e wasm_hash (commit_rollback ver s)))"

subsection \<open>Authorization\<close>

lemma assert_admin_Inr_iff [ok]:
  "assert_admin e sgs s = Inr u \<longleftrightarrow> (\<exists>cfg. admcfg s = Some cfg \<and> quorum e cfg sgs)"
  by (simp add: assert_admin_def load_admin_config_def ok)

lemma save_admin_config_sel [simp]:
  "admcfg (save_admin_config cfg s) = Some cfg" "paused (save_admin_config cfg s) = paused s"
  by (simp_all add: save_admin_config_def)

text \<open>
  C36. The admin gate is an M-of-N check: a call passes it if and only if the contract is configured
  and the supplied addresses are pairwise distinct members of the signer set, each of them
  authorizes this invocation, and they are at least \<open>threshold\<close> many. So neither a repeated
  signature nor an outsider's can be counted.
\<close>

theorem assert_admin_quorum:
  "assert_admin e sgs s = Inr () \<longleftrightarrow>
     (\<exists>cfg. admcfg s = Some cfg \<and> distinct sgs \<and> set sgs \<subseteq> set (signers cfg) \<and>
        (\<forall>a \<in> set sgs. authorizes e a) \<and> threshold cfg \<le> length sgs)"
  by (auto simp: ok quorum_def)

definition demo_env :: "nat \<Rightarrow> address \<Rightarrow> env" where
  "demo_env t self =
     \<lparr>ledger_timestamp = t, current_contract = self, invoker = None, has_signed = (\<lambda>_ _. True),
      deployed_at = (\<lambda>c. case c of RegistryC \<Rightarrow> Address 100 | FinancingC \<Rightarrow> Address 101
        | RepaymentC \<Rightarrow> Address 102 | InsuranceC \<Rightarrow> Address 103 | ReputationC \<Rightarrow> Address 104
        | EventIndexerC \<Rightarrow> Address 105),
      sha256_xdr = (\<lambda>s. case s of Symbol n \<Rightarrow> word_of_nat (foldr (\<lambda>c k. of_char c + 256 * k) n 0)),
      wasm_uploaded = (\<lambda>_. True)\<rparr>"

lemma demo_env_sel [simp]:
  "ledger_timestamp (demo_env t a) = t" "current_contract (demo_env t a) = a" "authorizes (demo_env t a) x"
  by (simp_all add: demo_env_def authorizes_def)

definition empty_base :: base where
  "empty_base = \<lparr>admcfg = None, paused = False, ver_current = None, ver_previous = None,
     wasm_previous = None, upgrade_pending = None, curtok = Map.empty, default_token = None,
     trn_log = Map.empty, wasm_running = 0, events = []\<rparr>"

lemma assert_admin_quorum_witness:
  "assert_admin (demo_env 0 (Address 100)) [Address 2, Address 1]
     (empty_base\<lparr>admcfg := Some \<lparr>signers = [Address 1, Address 2, Address 3], threshold = 2\<rparr>\<rparr>) = Inr ()"
  unfolding assert_admin_quorum by (simp add: demo_env_def authorizes_def)

subsection \<open>No lock-out\<close>

definition admin_ok :: "'a base_scheme \<Rightarrow> bool" where
  "admin_ok s \<longleftrightarrow> (\<exists>cfg. admcfg s = Some cfg \<and> valid_admin_config cfg)"

inductive gov_step :: "'a base_scheme \<Rightarrow> 'a base_scheme \<Rightarrow> bool" where
  "set_signers e sgs new thr s = Inr s' \<Longrightarrow> gov_step s s'"
| "transfer_admin e sgs a s = Inr s' \<Longrightarrow> gov_step s s'"
| "pause e sgs s = Inr s' \<Longrightarrow> gov_step s s'"
| "unpause e sgs s = Inr s' \<Longrightarrow> gov_step s s'"
| "upgrade e sgs h h' v s = Inr s' \<Longrightarrow> gov_step s s'"
| "post_upgrade_with (\<lambda>s. s) e sgs s = Inr s' \<Longrightarrow> gov_step s s'"
| "rollback e sgs s = Inr s' \<Longrightarrow> gov_step s s'"

definition gov_init :: "'a base_scheme \<Rightarrow> bool" where
  "gov_init s \<longleftrightarrow> (\<exists>admin s0. init_admin_config admin s0 = Inr s)"

lemmas gov_defs = set_signers_def transfer_admin_def pause_def unpause_def upgrade_def
  post_upgrade_with_def rollback_def begin_upgrade_def complete_upgrade_def rollback_target_def
  commit_rollback_def update_current_contract_wasm_def save_admin_config_def

text \<open>Governance touches only the storage of the common crate.\<close>

lemma gov_step_more: "gov_step s s' \<Longrightarrow> base.more s' = base.more s"
  by (induction rule: gov_step.induct) (auto simp: gov_defs ok publish_def)

interpretation gov: invariant_system gov_init gov_step admin_ok
proof
  show "admin_ok s" if "gov_init s" for s :: "'a base_scheme"
    using that by (auto simp: gov_init_def init_admin_config_def ok admin_ok_def valid_admin_config_def)
  show "admin_ok s'" if "admin_ok s" "gov_step s s'" for s s' :: "'a base_scheme"
    using that(2,1)
    by (induction rule: gov_step.induct)
      (auto simp: admin_ok_def gov_defs ok valid_admin_config_def)
qed

text \<open>
  C15. Administration cannot be locked out: in every state the admin entry points can reach from the
  constructor, whatever sequence of reconfigurations, transfers, pauses and upgrades ran, a quorum of
  the configured signers - the first ones, as many as the threshold asks for - passes the admin gate of
  every invocation that these signers authorize, and with it the contract can be unpaused.
\<close>

theorem admin_never_locked_out:
  assumes "reach gov_init gov_step s"
  shows "\<exists>cfg. admcfg s = Some cfg \<and> length (signers cfg) \<le> 20 \<and>
    length (take (threshold cfg) (signers cfg)) = threshold cfg \<and>
    (\<forall>e. (\<forall>a \<in> set (take (threshold cfg) (signers cfg)). authorizes e a) \<longrightarrow>
       unpause e (take (threshold cfg) (signers cfg)) s = Inr (s\<lparr>paused := False\<rparr>))"
proof -
  from gov.reach_inv [OF assms] obtain cfg
    where cfg: "admcfg s = Some cfg" "valid_admin_config cfg" by (auto simp: admin_ok_def)
  then have "unpause e (take (threshold cfg) (signers cfg)) s = Inr (s\<lparr>paused := False\<rparr>)"
    if "\<forall>a \<in> set (take (threshold cfg) (signers cfg)). authorizes e a" for e
    using that valid_config_has_quorum by (auto simp: unpause_def ok)
  with cfg show ?thesis by (auto simp: valid_admin_config_def)
qed

lemma admin_never_locked_out_witness:
  "\<exists>cfg. admcfg (empty_base\<lparr>admcfg := Some \<lparr>signers = [Address 1], threshold = 1\<rparr>, paused := True\<rparr>) = Some cfg \<and>
     length (signers cfg) \<le> 20 \<and>
     length (take (threshold cfg) (signers cfg)) = threshold cfg \<and>
     (\<forall>e. (\<forall>a \<in> set (take (threshold cfg) (signers cfg)). authorizes e a) \<longrightarrow>
        unpause e (take (threshold cfg) (signers cfg))
          (empty_base\<lparr>admcfg := Some \<lparr>signers = [Address 1], threshold = 1\<rparr>, paused := True\<rparr>) =
        Inr ((empty_base\<lparr>admcfg := Some \<lparr>signers = [Address 1], threshold = 1\<rparr>, paused := True\<rparr>)
          \<lparr>paused := False\<rparr>))"
proof (rule admin_never_locked_out)
  let ?s = "empty_base\<lparr>admcfg := Some \<lparr>signers = [Address 1], threshold = 1\<rparr>\<rparr>"
  have "gov_init ?s"
    by (auto simp: gov_init_def init_admin_config_def ok empty_base_def intro!: exI [of _ empty_base])
  moreover have "pause (demo_env 0 (Address 100)) [Address 1] ?s = Inr (?s\<lparr>paused := True\<rparr>)"
    by (simp add: pause_def assert_admin_def load_admin_config_def assert_threshold_def
        is_signer_def require_auth_def authorizes_def demo_env_def)
  ultimately show "reach gov_init gov_step
      (empty_base\<lparr>admcfg := Some \<lparr>signers = [Address 1], threshold = 1\<rparr>, paused := True\<rparr>)"
    by (auto intro: reach_step reach_init gov_step.intros)
qed

subsection \<open>The upgrade lifecycle\<close>

text \<open>
  An upgrade, its post-upgrade step and a rollback: the upgrade installs the new executable and
  leaves the version untouched until the post-upgrade step commits it; the committed version is
  strictly greater than the old one; the rollback restores the executable the upgrade was told
  to retain together with the old version, and cannot be repeated.
\<close>

theorem upgrade_then_rollback:
  assumes "upgrade e1 sgs1 old_wasm new_wasm v s0 = Inr s1"
    and "post_upgrade_with (\<lambda>s. s) e2 sgs2 s1 = Inr s2"
    and "rollback e3 sgs3 s2 = Inr s3"
  shows "wasm_running s1 = new_wasm \<and> contract_version s1 = contract_version s0 \<and>
    contract_version s2 = Inr v \<and>
    (\<exists>u x y. contract_version s0 = Inr u \<and> parse_semantic_version u = Inr x \<and>
       parse_semantic_version v = Inr y \<and> x < y) \<and>
    wasm_running s3 = old_wasm \<and> contract_version s3 = contract_version s0 \<and>
    (\<forall>e sgs. \<not> (\<exists>s4. rollback e sgs s3 = Inr s4))"
  using assms by (auto simp: gov_defs ok contract_version_def not_le)

definition versioned_base :: base where
  "versioned_base = empty_base\<lparr>admcfg := Some \<lparr>signers = [Address 2], threshold = 1\<rparr>,
     ver_current := Some ''0.9.0'', wasm_running := 7\<rparr>"

definition upgraded_base :: base where
  "upgraded_base = versioned_base\<lparr>ver_previous := Some ''0.9.0'', wasm_previous := Some 7,
     upgrade_pending := Some \<lparr>pu_version = ''0.10.0'', pu_wasm_hash = 8\<rparr>, wasm_running := 8\<rparr>"

lemma demo_admin:
  "admcfg s = Some \<lparr>signers = [a], threshold = 1\<rparr> \<Longrightarrow> assert_admin (demo_env t c) [a] s = Inr ()"
  by (simp add: ok quorum_def authorizes_def demo_env_def)

lemma demo_wasm [simp]: "wasm_uploaded (demo_env t c) h"
  by (simp add: demo_env_def)

lemma upgrade_then_rollback_witness:
  "\<exists>(s2 :: base) (s3 :: base). upgrade (demo_env 0 (Address 100)) [Address 2] 7 8 ''0.10.0'' versioned_base = Inr upgraded_base \<and>
     contract_version s2 = Inr ''0.10.0'' \<and>
     wasm_running s3 = 7 \<and> contract_version s3 = contract_version versioned_base"
proof -
  let ?e = "demo_env 0 (Address 100)"
  have cfg: "admcfg versioned_base = Some \<lparr>signers = [Address 2], threshold = 1\<rparr>"
    "admcfg upgraded_base = Some \<lparr>signers = [Address 2], threshold = 1\<rparr>"
    by (simp_all add: versioned_base_def upgraded_base_def)
  have parse: "parse_semantic_version ''0.9.0'' = Inr (SemanticVersion 0 9 0)"
    "parse_semantic_version ''0.10.0'' = Inr (SemanticVersion 0 10 0)"
    using parse_show_version [of "SemanticVersion 0 9 0"] parse_show_version [of "SemanticVersion 0 10 0"]
    by (simp_all add: version_in_range_def show_version_def show_nat.simps digit_char_numerals)
  have newer: "\<not> SemanticVersion 0 10 0 \<le> SemanticVersion 0 9 0"
    by (simp add: less_eq_semantic_version_def less_semantic_version_def)
  have start: "upgrade_pending versioned_base = None" "ver_current versioned_base = Some ''0.9.0''"
    by (simp_all add: versioned_base_def empty_base_def)
  have 1: "upgrade ?e [Address 2] 7 8 ''0.10.0'' versioned_base = Inr upgraded_base"
    by (simp add: upgrade_def demo_admin [OF cfg(1)] begin_upgrade_def contract_version_def start
        parse newer update_current_contract_wasm_def upgraded_base_def)
  define s2 where "s2 = publish (Ev_contract_upgraded ''0.10.0'')
    (upgraded_base\<lparr>ver_current := Some ''0.10.0'', upgrade_pending := None\<rparr>)"
  have 2: "post_upgrade_with (\<lambda>s. s) ?e [Address 2] upgraded_base = Inr s2"
    by (simp add: post_upgrade_with_def demo_admin [OF cfg(2)] complete_upgrade_def s2_def)
      (simp add: upgraded_base_def)
  have "admcfg s2 = Some \<lparr>signers = [Address 2], threshold = 1\<rparr>" "upgrade_pending s2 = None"
    "wasm_previous s2 = Some 7" "ver_previous s2 = Some ''0.9.0''"
    using cfg(2) by (simp_all add: s2_def upgraded_base_def)
  then obtain s3 where 3: "rollback ?e [Address 2] s2 = Inr s3"
    by (simp add: rollback_def demo_admin rollback_target_def update_current_contract_wasm_def)
  from upgrade_then_rollback [OF 1 2 3] 1 show ?thesis by blast
qed

subsection \<open>Bounded transition history\<close>

text \<open>The state machine driven by a sequence of transition requests for any invoices.\<close>

definition run_transitions ::
  "(env \<times> symbol \<times> invoice_status \<times> invoice_status \<times> address) list \<Rightarrow>
     'a base_scheme \<Rightarrow> error + 'a base_scheme" where
  "run_transitions = foldE (\<lambda>(e, i, a, b, actor). assert_transition e i a b actor)"

definition transition_entry ::
  "env \<times> symbol \<times> invoice_status \<times> invoice_status \<times> address \<Rightarrow> transition_record" where
  "transition_entry = (\<lambda>(e, i, a, b, actor). \<lparr>tr_from_status = a, tr_to_status = b,
     tr_actor = actor, tr_timestamp = ledger_timestamp e\<rparr>)"

lemma run_transitions_history:
  "run_transitions ts s = Inr s' \<Longrightarrow>
   (\<And>j. get_transition_history j s = keep_last 20 (full j)) \<Longrightarrow>
   get_transition_history i s' =
     keep_last 20 (full i @ map transition_entry (filter (\<lambda>(_, j, _). j = i) ts))"
proof (induction ts arbitrary: s full)
  case Nil
  then show ?case by (simp add: run_transitions_def)
next
  case (Cons t ts)
  obtain e j a b actor where t: "t = (e, j, a, b, actor)" by (cases t) auto
  from Cons.prems(1) obtain s1 where s1: "run_transitions ts s1 = Inr s'"
    "s1 = record_transition e j a b actor (publish (Ev_inv_trx j a b actor) s)"
    by (auto simp: run_transitions_def t ok)
  let ?full = "\<lambda>k. if k = j then full k @ [transition_entry t] else full k"
  have "get_transition_history k s1 = keep_last 20 (?full k)" for k
    using Cons.prems(2) by (simp add: s1(2) t transition_entry_def get_transition_history_def
        record_transition_history [of j _ "full j", unfolded get_transition_history_def])
  from Cons.IH [OF s1(1) this] show ?case by (auto simp: t)
qed

lemma run_transitions_legal:
  "run_transitions ts s = Inr s' \<Longrightarrow> \<forall>(e, j, a, b, actor) \<in> set ts. valid_edge a b"
proof (induction ts arbitrary: s)
  case (Cons t ts)
  obtain e j a b actor where t: "t = (e, j, a, b, actor)" by (cases t) auto
  from Cons.prems obtain s1 where "run_transitions ts s1 = Inr s'" "valid_edge a b"
    by (auto simp: run_transitions_def t ok)
  with Cons.IH [of s1] show ?case by (simp add: t)
qed simp

text \<open>
  The on-chain transition log refines the full history: starting from an empty log, after any
  sequence of transitions the log of an invoice holds exactly the last twenty transitions of that
  invoice, in order, with their actors and times, and every transition recorded was legal.
\<close>

theorem transition_log_keeps_last_twenty:
  assumes "trn_log s = Map.empty" and "run_transitions ts s = Inr s'"
  shows "get_transition_history i s' =
      keep_last 20 (map transition_entry (filter (\<lambda>(_, j, _). j = i) ts)) \<and>
    (\<forall>(e, j, a, b, actor) \<in> set ts. valid_edge a b)"
proof -
  have "get_transition_history j s = keep_last 20 []" for j
    using assms(1) by (simp add: get_transition_history_def keep_last_def)
  from run_transitions_history [OF assms(2), of "\<lambda>_. []", OF this] show ?thesis
    using run_transitions_legal [OF assms(2)] by simp
qed

lemma transition_log_keeps_last_twenty_witness:
  "\<exists>s'. run_transitions (replicate 25 (demo_env 5 (Address 100), Symbol ''a'', InvFinanced,
        InvFinanced, Address 1)) empty_base = Inr s' \<and>
     length (get_transition_history (Symbol ''a'') s') = 20"
proof -
  let ?t = "(demo_env 5 (Address 100), Symbol ''a'', InvFinanced, InvFinanced, Address 1)"
  have runs: "\<exists>s'. run_transitions (replicate n ?t) s = Inr s'" for n and s :: base
    by (induction n arbitrary: s) (auto simp: run_transitions_def ok)
  obtain s' where s': "run_transitions (replicate 25 ?t) empty_base = Inr s'"
    using runs by blast
  have "trn_log empty_base = Map.empty" by (simp add: empty_base_def)
  from transition_log_keeps_last_twenty [OF this s', of "Symbol ''a''"]
  have "length (get_transition_history (Symbol ''a'') s') = 20"
    by (simp add: keep_last_def filter_replicate)
  with s' show ?thesis by blast
qed

end
