(* ===== verification/Registry.thy ===== *)
theory Registry
  imports Governance
begin

text \<open>
  The core of \<open>registry/src/lib.rs\<close>: its storage, the invoice records and their lifecycle, the
  originator index, the protocol parameters and the blacklist, and the part of the invoice token
  that registration (mint) and terminal transitions (burn) drive. \<open>registry\<close> has one field per
  storage key, named after the key. Entry points return the value and the new state.

  \<open>status_effect\<close> is what every lifecycle entry point does to the state; the \<open>_ok\<close> lemmas
  characterise when each of them succeeds and reduce its result to that one function.
\<close>

record registry = base +
  invoices :: "(symbol, invoice) smap"
  rates :: "risk_tier \<rightharpoonup> nat"
  stats :: "protocol_stats option"
  blklist :: "address list"
  by_origin :: "(address \<rightharpoonup> symbol list) option"
  amends :: "symbol \<rightharpoonup> amendment_record list"
  invlend :: "symbol \<rightharpoonup> address"
  verifs :: "symbol \<rightharpoonup> attestation list"
  verifrs :: "address list"
  tok_own :: "bytes32 \<rightharpoonup> address"
  tok_app :: "bytes32 \<rightharpoonup> address"
  tok_inv :: "bytes32 \<rightharpoonup> symbol"
  inv_tok :: "symbol \<rightharpoonup> bytes32"
  tok_brn :: "bytes32 \<rightharpoonup> bool"
  feercpt :: "address option"
  financing_addr :: "address option"
  repayment_addr :: "address option"
  feebps :: "nat option"
  verthr :: "nat option"
  verfee :: "nat option"
  vervld :: "nat option"

record invoice_registration_args =
  ra_id :: symbol
  ra_amount :: int
  ra_currency :: symbol
  ra_due_date :: nat

subsection \<open>Storage\<close>

definition load_invoices :: "registry \<Rightarrow> (symbol, invoice) smap" where
  [simp]: "load_invoices s = invoices s"

definition save_invoices :: "(symbol, invoice) smap \<Rightarrow> registry \<Rightarrow> registry" where
  [simp]: "save_invoices m s = s\<lparr>invoices := m\<rparr>"

definition load_rates :: "registry \<Rightarrow> (risk_tier \<rightharpoonup> nat)" where
  [simp]: "load_rates s = rates s"

definition save_rates :: "(risk_tier \<rightharpoonup> nat) \<Rightarrow> registry \<Rightarrow> registry" where
  [simp]: "save_rates m s = s\<lparr>rates := m\<rparr>"

definition load_stats :: "registry \<Rightarrow> protocol_stats" where
  "load_stats s = (case stats s of Some st \<Rightarrow> st
     | None \<Rightarrow> \<lparr>total_invoices = 0, total_offers = 0, total_financed = 0, total_repaid = 0,
                total_fee_revenue = 0\<rparr>)"

definition save_stats :: "protocol_stats \<Rightarrow> registry \<Rightarrow> registry" where
  [simp]: "save_stats st s = s\<lparr>stats := Some st\<rparr>"

definition load_blacklist :: "registry \<Rightarrow> address list" where
  [simp]: "load_blacklist s = blklist s"

definition save_blacklist :: "address list \<Rightarrow> registry \<Rightarrow> registry" where
  [simp]: "save_blacklist l s = s\<lparr>blklist := l\<rparr>"

definition load_originator_index :: "registry \<Rightarrow> (address \<rightharpoonup> symbol list)" where
  "load_originator_index s = (case by_origin s of None \<Rightarrow> Map.empty | Some m \<Rightarrow> m)"

definition save_originator_index :: "(address \<rightharpoonup> symbol list) \<Rightarrow> registry \<Rightarrow> registry" where
  [simp]: "save_originator_index m s = s\<lparr>by_origin := Some m\<rparr>"

subsection \<open>The originator index\<close>

text \<open>\<open>insert_sorted_id\<close> scans for the first entry that is not below the id and inserts there.\<close>

fun first_not_below :: "symbol \<Rightarrow> symbol list \<Rightarrow> nat" where
  "first_not_below x [] = 0"
| "first_not_below x (existing # ids) = (if x \<le> existing then 0 else Suc (first_not_below x ids))"

definition insert_sorted_id :: "symbol list \<Rightarrow> symbol \<Rightarrow> symbol list" where
  "insert_sorted_id ids x =
     (let pos = first_not_below x ids
      in if pos = length ids then ids @ [x] else take pos ids @ x # drop pos ids)"

definition ids_of :: "(address \<rightharpoonup> symbol list) \<Rightarrow> address \<Rightarrow> symbol list" where
  "ids_of index a = (case index a of None \<Rightarrow> [] | Some ids \<Rightarrow> ids)"

definition index_invoice_originator :: "address \<Rightarrow> symbol \<Rightarrow> registry \<Rightarrow> registry" where
  "index_invoice_originator originator x s =
     (let index = load_originator_index s;
          ids = insert_sorted_id (ids_of index originator) x
      in save_originator_index (index(originator \<mapsto> ids)) s)"

definition backfill_originator_index :: "registry \<Rightarrow> registry" where
  "backfill_originator_index s =
     (if by_origin s \<noteq> None then s
      else if load_invoices s = [] then s
      else save_originator_index
        (fold (\<lambda>(x, invc) index. index(inv_originator invc \<mapsto>
             insert_sorted_id (ids_of index (inv_originator invc)) x))
           (load_invoices s) Map.empty) s)"

subsection \<open>Token storage, mint and burn\<close>

definition compute_token_id :: "env \<Rightarrow> symbol \<Rightarrow> bytes32" where
  [simp]: "compute_token_id e x = sha256_xdr e x"

definition load_token_owner :: "bytes32 \<Rightarrow> registry \<Rightarrow> address option" where
  [simp]: "load_token_owner t s = tok_own s t"

definition save_token_owner :: "bytes32 \<Rightarrow> address \<Rightarrow> registry \<Rightarrow> registry" where
  [simp]: "save_token_owner t a s = s\<lparr>tok_own := (tok_own s)(t \<mapsto> a)\<rparr>"

definition remove_token_owner :: "bytes32 \<Rightarrow> registry \<Rightarrow> registry" where
  [simp]: "remove_token_owner t s = s\<lparr>tok_own := (tok_own s)(t := None)\<rparr>"

definition load_token_approval :: "bytes32 \<Rightarrow> registry \<Rightarrow> address option" where
  [simp]: "load_token_approval t s = tok_app s t"

definition save_token_approval :: "bytes32 \<Rightarrow> address option \<Rightarrow> registry \<Rightarrow> registry" where
  [simp]: "save_token_approval t a s = s\<lparr>tok_app := (tok_app s)(t := a)\<rparr>"

definition load_token_invoice_id :: "bytes32 \<Rightarrow> registry \<Rightarrow> symbol option" where
  [simp]: "load_token_invoice_id t s = tok_inv s t"

definition save_token_invoice_id :: "bytes32 \<Rightarrow> symbol \<Rightarrow> registry \<Rightarrow> registry" where
  [simp]: "save_token_invoice_id t x s =
     s\<lparr>tok_inv := (tok_inv s)(t \<mapsto> x), inv_tok := (inv_tok s)(x \<mapsto> t)\<rparr>"

definition is_token_burned_internal :: "bytes32 \<Rightarrow> registry \<Rightarrow> bool" where
  [simp]: "is_token_burned_internal t s \<longleftrightarrow> tok_brn s t = Some True"

definition mark_token_burned_internal :: "bytes32 \<Rightarrow> registry \<Rightarrow> registry" where
  [simp]: "mark_token_burned_internal t s = s\<lparr>tok_brn := (tok_brn s)(t \<mapsto> True)\<rparr>"

definition mint_invoice_token :: "env \<Rightarrow> invoice \<Rightarrow> registry \<Rightarrow> registry" where
  "mint_invoice_token e invc s =
     (let t = compute_token_id e (inv_id invc);
          s = save_token_owner t (inv_originator invc) s;
          s = save_token_invoice_id t (inv_id invc) s
      in publish (Ev_token_minted t (inv_id invc) (inv_originator invc) (inv_amount invc)) s)"

definition burn_invoice_token_if_exists ::
  "env \<Rightarrow> symbol \<Rightarrow> invoice_status \<Rightarrow> registry \<Rightarrow> registry" where
  "burn_invoice_token_if_exists e x terminal_status s =
     (let t = compute_token_id e x
      in if is_token_burned_internal t s then s
         else case load_token_owner t s of
           None \<Rightarrow> s
         | Some own \<Rightarrow>
             publish (Ev_token_burned t x own terminal_status)
               (mark_token_burned_internal t
                 (remove_token_owner t (save_token_approval t None s))))"

subsection \<open>Guards, constructor, parameters\<close>

definition assert_not_blacklisted :: "address \<Rightarrow> registry \<Rightarrow> error + unit" where
  "assert_not_blacklisted a s =
     ensure (\<not> list_ex (\<lambda>entry. entry = a) (load_blacklist s)) (Contract Blacklisted)"

lemma assert_not_blacklisted_Inr_iff [ok]:
  "assert_not_blacklisted a s = Inr u \<longleftrightarrow> a \<notin> set (blklist s)"
  by (auto simp: assert_not_blacklisted_def ok list_ex_iff)

definition registry_constructor :: "address \<Rightarrow> registry \<Rightarrow> error + registry" where
  "registry_constructor admin s =
     bindE (init_admin_config admin s) (initialize_contract_version CARGO_PKG_VERSION)"

definition get_fee_recipient :: "registry \<Rightarrow> error + address" where
  "get_fee_recipient s = (case feercpt s of Some a \<Rightarrow> Inr a | None \<Rightarrow> get_admin s)"

definition set_fee_recipient :: "env \<Rightarrow> address list \<Rightarrow> address \<Rightarrow> registry \<Rightarrow> error + registry" where
  "set_fee_recipient e sgs recipient s =
     bindE (assert_not_paused s) (\<lambda>_.
     bindE (assert_admin e sgs s) (\<lambda>_.
     Inr (publish (Ev_fee_rcpt recipient) (s\<lparr>feercpt := Some recipient\<rparr>))))"

definition set_financing_contract ::
  "env \<Rightarrow> address list \<Rightarrow> address \<Rightarrow> registry \<Rightarrow> error + registry" where
  "set_financing_contract e sgs financing s =
     bindE (assert_not_paused s) (\<lambda>_.
     bindE (assert_admin e sgs s) (\<lambda>_. Inr (s\<lparr>financing_addr := Some financing\<rparr>)))"

definition set_repayment_contract ::
  "env \<Rightarrow> address list \<Rightarrow> address \<Rightarrow> registry \<Rightarrow> error + registry" where
  "set_repayment_contract e sgs repayment s =
     bindE (assert_not_paused s) (\<lambda>_.
     bindE (assert_admin e sgs s) (\<lambda>_. Inr (s\<lparr>repayment_addr := Some repayment\<rparr>)))"

definition set_rate ::
  "env \<Rightarrow> address list \<Rightarrow> risk_tier \<Rightarrow> nat \<Rightarrow> registry \<Rightarrow> error + registry" where
  "set_rate e sgs tier rate_bps s =
     bindE (assert_not_paused s) (\<lambda>_.
     bindE (assert_admin e sgs s) (\<lambda>_.
     bindE (ensure (\<not> rate_bps > 10000) (Contract InvalidInput)) (\<lambda>_.
     Inr (save_rates ((load_rates s)(tier \<mapsto> rate_bps)) s))))"

definition get_rate :: "risk_tier \<Rightarrow> registry \<Rightarrow> error + nat" where
  "get_rate tier s = fetch (load_rates s tier) (Contract NotFound)"

definition set_fee :: "env \<Rightarrow> address list \<Rightarrow> nat \<Rightarrow> registry \<Rightarrow> error + registry" where
  "set_fee e sgs fee_bps s =
     bindE (assert_not_paused s) (\<lambda>_.
     bindE (assert_admin e sgs s) (\<lambda>_.
     bindE (ensure (\<not> fee_bps > 500) (Contract InvalidInput)) (\<lambda>_.
     Inr (s\<lparr>feebps := Some fee_bps\<rparr>))))"

definition get_fee :: "registry \<Rightarrow> nat" where
  "get_fee s = (case feebps s of None \<Rightarrow> 0 | Some f \<Rightarrow> f)"

definition blacklist_address :: "env \<Rightarrow> address list \<Rightarrow> address \<Rightarrow> registry \<Rightarrow> error + registry" where
  "blacklist_address e sgs target s =
     bindE (assert_not_paused s) (\<lambda>_.
     bindE (assert_admin e sgs s) (\<lambda>_.
     if list_ex (\<lambda>entry. entry = target) (load_blacklist s) then Inr s
     else Inr (save_blacklist (load_blacklist s @ [target]) s)))"

definition unblacklist_address :: "env \<Rightarrow> address list \<Rightarrow> address \<Rightarrow> registry \<Rightarrow> error + registry" where
  "unblacklist_address e sgs target s =
     bindE (assert_not_paused s) (\<lambda>_.
     bindE (assert_admin e sgs s) (\<lambda>_.
     Inr (save_blacklist (filter (\<lambda>entry. entry \<noteq> target) (load_blacklist s)) s)))"

definition is_blacklisted :: "address \<Rightarrow> registry \<Rightarrow> bool" where
  "is_blacklisted a s = list_ex (\<lambda>entry. entry = a) (load_blacklist s)"

definition get_blacklist :: "registry \<Rightarrow> address list" where
  "get_blacklist s = load_blacklist s"

text \<open>The registry's copies of the shared admin entry points, at its own state.\<close>

definition registry_get_admin :: "registry \<Rightarrow> error + address" where
  "registry_get_admin s = get_admin s"

definition registry_get_admin_config :: "registry \<Rightarrow> error + admin_config" where
  "registry_get_admin_config s = get_admin_config s"

definition registry_get_signers :: "registry \<Rightarrow> error + address list" where
  "registry_get_signers s = get_signers s"

definition registry_get_threshold :: "registry \<Rightarrow> error + nat" where
  "registry_get_threshold s = get_threshold s"

definition registry_upgrade ::
  "env \<Rightarrow> address list \<Rightarrow> bytes32 \<Rightarrow> bytes32 \<Rightarrow> string \<Rightarrow> registry \<Rightarrow> error + registry" where
  "registry_upgrade e sgs cur new v s = upgrade e sgs cur new v s"

definition registry_post_upgrade :: "env \<Rightarrow> address list \<Rightarrow> registry \<Rightarrow> error + registry" where
  "registry_post_upgrade = post_upgrade_with backfill_originator_index"

subsection \<open>Registration\<close>

definition register_invoice ::
  "env \<Rightarrow> symbol \<Rightarrow> address \<Rightarrow> int \<Rightarrow> symbol \<Rightarrow> nat \<Rightarrow> registry \<Rightarrow> error + (invoice \<times> registry)" where
  "register_invoice e x originator amount currency due_date s =
     bindE (assert_not_paused s) (\<lambda>_.
     bindE (require_auth e originator) (\<lambda>_.
     bindE (assert_not_blacklisted originator s) (\<lambda>_.
     bindE (ensure (\<not> amount < MIN_INVOICE_AMOUNT) (Contract InvalidInput)) (\<lambda>_.
     bindE (ensure (\<not> due_date \<le> ledger_timestamp e) (Contract InvalidInput)) (\<lambda>_.
     let invs = load_invoices s in
     bindE (ensure (\<not> sm_has invs x) (Contract AlreadyExists)) (\<lambda>_.
     let invc = \<lparr>inv_id = x, inv_originator = originator, inv_amount = amount,
                inv_currency = currency, inv_due_date = due_date, inv_status = InvPending\<rparr>;
         invs = sm_set invs x invc;
         s = index_invoice_originator originator x s;
         s = mint_invoice_token e invc s;
         s = save_invoices invs s;
         st = load_stats s
     in bindE (add_u32 (total_invoices st) 1) (\<lambda>n.
        Inr (invc, publish (Ev_inv_reg x originator amount due_date)
                    (save_stats (st\<lparr>total_invoices := n\<rparr>) s)))))))))"

text \<open>The loop body of the batch: local invoice map, local statistics, results so far, storage.\<close>

definition batch_body ::
  "env \<Rightarrow> address \<Rightarrow> invoice_registration_args \<Rightarrow>
     (symbol, invoice) smap \<times> protocol_stats \<times> invoice list \<times> registry \<Rightarrow>
     error + (symbol, invoice) smap \<times> protocol_stats \<times> invoice list \<times> registry" where
  "batch_body e originator arg = (\<lambda>(invs, st, registered, s).
     bindE (ensure (\<not> ra_amount arg < MIN_INVOICE_AMOUNT) (Contract InvalidInput)) (\<lambda>_.
     bindE (ensure (\<not> ra_due_date arg \<le> ledger_timestamp e) (Contract InvalidInput)) (\<lambda>_.
     bindE (ensure (\<not> sm_has invs (ra_id arg)) (Contract AlreadyExists)) (\<lambda>_.
     let invc = \<lparr>inv_id = ra_id arg, inv_originator = originator, inv_amount = ra_amount arg,
                inv_currency = ra_currency arg, inv_due_date = ra_due_date arg,
                inv_status = InvPending\<rparr>;
         invs = sm_set invs (ra_id arg) invc;
         s = index_invoice_originator originator (ra_id arg) s;
         s = mint_invoice_token e invc s
     in bindE (add_u32 (total_invoices st) 1) (\<lambda>n.
        Inr (invs, st\<lparr>total_invoices := n\<rparr>, registered @ [invc],
             publish (Ev_inv_reg (ra_id arg) originator (ra_amount arg) (ra_due_date arg)) s))))))"

definition batch_register_invoices ::
  "env \<Rightarrow> address \<Rightarrow> invoice_registration_args list \<Rightarrow> registry \<Rightarrow> error + (invoice list \<times> registry)" where
  "batch_register_invoices e originator args s =
     bindE (assert_not_paused s) (\<lambda>_.
     bindE (require_auth e originator) (\<lambda>_.
     bindE (assert_not_blacklisted originator s) (\<lambda>_.
     bindE (foldE (batch_body e originator) args (load_invoices s, load_stats s, [], s))
       (\<lambda>(invs, st, registered, s).
     Inr (registered, save_stats st (save_invoices invs s))))))"

definition get_invoice :: "symbol \<Rightarrow> registry \<Rightarrow> error + invoice" where
  "get_invoice x s = fetch (map_of (load_invoices s) x) (Contract NotFound)"

definition update_invoice_amount ::
  "env \<Rightarrow> symbol \<Rightarrow> address \<Rightarrow> int \<Rightarrow> registry \<Rightarrow> error + (invoice \<times> registry)" where
  "update_invoice_amount e x originator new_amount s =
     bindE (assert_not_paused s) (\<lambda>_.
     bindE (require_auth e originator) (\<lambda>_.
     bindE (get_invoice x s) (\<lambda>invc.
     bindE (ensure (\<not> inv_originator invc \<noteq> originator) (Contract Unauthorized)) (\<lambda>_.
     bindE (ensure (\<not> inv_status invc \<noteq> InvPending) (Contract InvalidTransition)) (\<lambda>_.
     bindE (ensure (\<not> new_amount < MIN_INVOICE_AMOUNT) (Contract InvalidInput)) (\<lambda>_.
     let invc = invc\<lparr>inv_amount := new_amount\<rparr>
     in Inr (invc, publish (Ev_inv_amt (inv_id invc) new_amount)
               (save_invoices (sm_set (load_invoices s) x invc) s))))))))"

subsection \<open>Lifecycle\<close>

definition is_terminal :: "invoice_status \<Rightarrow> bool" where
  "is_terminal st \<longleftrightarrow> st = InvCancelled \<or> st = InvRepaid \<or> st = InvDefaulted"

definition update_invoice_status ::
  "env \<Rightarrow> symbol \<Rightarrow> address \<Rightarrow> invoice_status \<Rightarrow> registry \<Rightarrow> error + (invoice \<times> registry)" where
  "update_invoice_status e x originator new_status s =
     bindE (assert_not_paused s) (\<lambda>_.
     bindE (require_auth e originator) (\<lambda>_.
     bindE (get_invoice x s) (\<lambda>invc.
     bindE (ensure (\<not> inv_originator invc \<noteq> originator) (Contract Unauthorized)) (\<lambda>_.
     bindE (assert_transition e x (inv_status invc) new_status originator s) (\<lambda>s.
     let invc = invc\<lparr>inv_status := new_status\<rparr>;
         s = save_invoices (sm_set (load_invoices s) x invc) s
     in Inr (invc, if new_status = InvCancelled \<or> new_status = InvRepaid \<or> new_status = InvDefaulted
                  then burn_invoice_token_if_exists e x new_status s else s))))))"

definition cancel_invoice ::
  "env \<Rightarrow> symbol \<Rightarrow> address \<Rightarrow> registry \<Rightarrow> error + (invoice \<times> registry)" where
  "cancel_invoice e x originator s =
     bindE (assert_not_paused s) (\<lambda>_.
     bindE (require_auth e originator) (\<lambda>_.
     bindE (get_invoice x s) (\<lambda>invc.
     bindE (ensure (\<not> inv_originator invc \<noteq> originator) (Contract Unauthorized)) (\<lambda>_.
     bindE (assert_transition e x (inv_status invc) InvCancelled originator s) (\<lambda>s.
     let invc = invc\<lparr>inv_status := InvCancelled\<rparr>;
         s = save_invoices (sm_set (load_invoices s) x invc) s;
         s = burn_invoice_token_if_exists e x InvCancelled s
     in Inr (invc, publish (Ev_inv_cxl (inv_originator invc) (inv_originator invc)) s))))))"

definition set_invoice_repaid_status ::
  "env \<Rightarrow> symbol \<Rightarrow> address \<Rightarrow> bool \<Rightarrow> registry \<Rightarrow> error + (invoice \<times> registry)" where
  "set_invoice_repaid_status e x repayer fully_repaid s =
     bindE (assert_not_paused s) (\<lambda>_.
     bindE (require_auth e repayer) (\<lambda>_.
     bindE (get_invoice x s) (\<lambda>invc.
     let new_status = (if fully_repaid then InvRepaid else InvFinanced) in
     bindE (assert_transition e x (inv_status invc) new_status repayer s) (\<lambda>s.
     let invc = invc\<lparr>inv_status := new_status\<rparr>;
         s = save_invoices (sm_set (load_invoices s) x invc) s;
         s = (if fully_repaid then burn_invoice_token_if_exists e x InvRepaid s else s)
     in Inr (invc, publish (Ev_inv_sts (inv_id invc) (inv_status invc)) s)))))"

definition financing_marks_invoice_financed ::
  "env \<Rightarrow> symbol \<Rightarrow> registry \<Rightarrow> error + (invoice \<times> registry)" where
  "financing_marks_invoice_financed e x s =
     bindE (assert_not_paused s) (\<lambda>_.
     bindE (fetch (financing_addr s) (Panic ''Financing contract not configured'')) (\<lambda>financing.
     bindE (require_auth e financing) (\<lambda>_.
     bindE (get_invoice x s) (\<lambda>invc.
     bindE (assert_transition e x (inv_status invc) InvFinanced financing s) (\<lambda>s.
     let invc = invc\<lparr>inv_status := InvFinanced\<rparr>;
         s = save_invoices (sm_set (load_invoices s) x invc) s
     in Inr (invc, publish (Ev_inv_sts (inv_id invc) InvFinanced) s))))))"

definition repayment_marks_invoice_repaid ::
  "env \<Rightarrow> symbol \<Rightarrow> bool \<Rightarrow> registry \<Rightarrow> error + (invoice \<times> registry)" where
  "repayment_marks_invoice_repaid e x fully_repaid s =
     bindE (assert_not_paused s) (\<lambda>_.
     bindE (fetch (repayment_addr s) (Panic ''Repayment contract not configured'')) (\<lambda>repayment.
     bindE (require_auth e repayment) (\<lambda>_.
     bindE (get_invoice x s) (\<lambda>invc.
     let new_status = (if fully_repaid then InvRepaid else InvFinanced) in
     bindE (assert_transition e x (inv_status invc) new_status repayment s) (\<lambda>s.
     let invc = invc\<lparr>inv_status := new_status\<rparr>;
         s = save_invoices (sm_set (load_invoices s) x invc) s;
         s = (if fully_repaid then burn_invoice_token_if_exists e x InvRepaid s else s)
     in Inr (invc, publish (Ev_inv_sts (inv_id invc) (inv_status invc)) s))))))"

definition repayment_marks_defaulted ::
  "env \<Rightarrow> symbol \<Rightarrow> registry \<Rightarrow> error + (invoice \<times> registry)" where
  "repayment_marks_defaulted e x s =
     bindE (assert_not_paused s) (\<lambda>_.
     bindE (fetch (repayment_addr s) (Panic ''Repayment contract not configured'')) (\<lambda>repayment.
     bindE (require_auth e repayment) (\<lambda>_.
     bindE (get_invoice x s) (\<lambda>invc.
     bindE (assert_transition e x (inv_status invc) InvDefaulted repayment s) (\<lambda>s.
     let invc = invc\<lparr>inv_status := InvDefaulted\<rparr>;
         s = save_invoices (sm_set (load_invoices s) x invc) s;
         s = burn_invoice_token_if_exists e x InvDefaulted s
     in Inr (invc, publish (Ev_inv_def (inv_id invc) (inv_originator invc)) s))))))"

definition mark_invoice_overdue ::
  "env \<Rightarrow> symbol \<Rightarrow> registry \<Rightarrow> error + (invoice \<times> registry)" where
  "mark_invoice_overdue e x s =
     bindE (assert_not_paused s) (\<lambda>_.
     bindE (get_invoice x s) (\<lambda>invc.
     bindE (ensure (\<not> ledger_timestamp e \<le> inv_due_date invc) (Contract InvalidTransition)) (\<lambda>_.
     bindE (assert_transition e x (inv_status invc) InvOverdue (current_contract e) s) (\<lambda>s.
     let invc = invc\<lparr>inv_status := InvOverdue\<rparr>;
         s = save_invoices (sm_set (load_invoices s) x invc) s
     in Inr (invc, publish (Ev_inv_ovd (inv_id invc) (inv_due_date invc)) s)))))"

definition raise_dispute ::
  "env \<Rightarrow> symbol \<Rightarrow> address \<Rightarrow> registry \<Rightarrow> error + (invoice \<times> registry)" where
  "raise_dispute e x originator s =
     bindE (assert_not_paused s) (\<lambda>_.
     bindE (require_auth e originator) (\<lambda>_.
     bindE (get_invoice x s) (\<lambda>invc.
     bindE (ensure (\<not> inv_originator invc \<noteq> originator) (Contract Unauthorized)) (\<lambda>_.
     bindE (assert_transition e x (inv_status invc) InvDisputed originator s) (\<lambda>s.
     let invc = invc\<lparr>inv_status := InvDisputed\<rparr>;
         s = save_invoices (sm_set (load_invoices s) x invc) s
     in Inr (invc, publish (Ev_inv_dsp (inv_id invc) (inv_originator invc)) s))))))"

definition resolve_dispute ::
  "env \<Rightarrow> address list \<Rightarrow> symbol \<Rightarrow> invoice_status \<Rightarrow> registry \<Rightarrow> error + (invoice \<times> registry)" where
  "resolve_dispute e sgs x target_status s =
     bindE (assert_not_paused s) (\<lambda>_.
     bindE (assert_admin e sgs s) (\<lambda>_.
     bindE (get_invoice x s) (\<lambda>invc.
     bindE (ensure (\<not> target_status = InvDisputed) (Contract InvalidInput)) (\<lambda>_.
     bindE (case sgs of [] \<Rightarrow> Inl (Contract Unauthorized) | a # _ \<Rightarrow> Inr a) (\<lambda>actor.
     bindE (assert_transition e x (inv_status invc) target_status actor s) (\<lambda>s.
     let invc = invc\<lparr>inv_status := target_status\<rparr>;
         s = save_invoices (sm_set (load_invoices s) x invc) s;
         s = (if target_status = InvCancelled \<or> target_status = InvRepaid \<or>
                 target_status = InvDefaulted
              then burn_invoice_token_if_exists e x target_status s else s)
     in Inr (invc, publish (Ev_inv_rsl (inv_id invc) (inv_status invc)) s)))))))"

subsection \<open>What the lifecycle entry points do\<close>

definition status_effect ::
  "env \<Rightarrow> symbol \<Rightarrow> invoice \<Rightarrow> invoice_status \<Rightarrow> address \<Rightarrow> registry \<Rightarrow> registry" where
  "status_effect e x i new actor s =
     (let s = record_transition e x (inv_status i) new actor
                (publish (Ev_inv_trx x (inv_status i) new actor) s);
          s = s\<lparr>invoices := sm_set (invoices s) x (i\<lparr>inv_status := new\<rparr>)\<rparr>
      in if is_terminal new then burn_invoice_token_if_exists e x new s else s)"

lemmas registry_unfold = publish_def record_transition_def Let_def
  burn_invoice_token_if_exists_def mint_invoice_token_def index_invoice_originator_def

lemma publish_registry [simp]:
  "invoices (publish ev s) = invoices s" "stats (publish ev s) = stats s"
  "by_origin (publish ev s) = by_origin s" "amends (publish ev s) = amends s"
  "verifs (publish ev s) = verifs s" "verifrs (publish ev s) = verifrs s"
  "tok_own (publish ev s) = tok_own s" "tok_app (publish ev s) = tok_app s"
  "tok_inv (publish ev s) = tok_inv s" "inv_tok (publish ev s) = inv_tok s"
  "tok_brn (publish ev s) = tok_brn s" "blklist (publish ev s) = blklist s"
  "verthr (publish ev s) = verthr s" "verfee (publish ev s) = verfee s"
  "vervld (publish ev s) = vervld s" "invlend (publish ev s) = invlend s"
  "financing_addr (publish ev s) = financing_addr s"
  "repayment_addr (publish ev s) = repayment_addr s"
  by (simp_all add: publish_def)

lemma is_terminal_simps [simp]:
  "is_terminal InvCancelled" "is_terminal InvRepaid" "is_terminal InvDefaulted"
  "\<not> is_terminal InvPending" "\<not> is_terminal InvFinanced" "\<not> is_terminal InvOverdue"
  "\<not> is_terminal InvDisputed"
  by (simp_all add: is_terminal_def)

lemma terminal_no_edge: "is_terminal a \<Longrightarrow> \<not> valid_edge a b"
  by (cases b) (auto simp: is_terminal_def)

lemma invoices_status_effect [simp]:
  "invoices (status_effect e x i new actor s) = sm_set (invoices s) x (i\<lparr>inv_status := new\<rparr>)"
  by (simp add: status_effect_def registry_unfold split: option.split)

lemma status_effect_frame [simp]:
  "admcfg (status_effect e x i new actor s) = admcfg s"
  "paused (status_effect e x i new actor s) = paused s"
  "by_origin (status_effect e x i new actor s) = by_origin s"
  "verifs (status_effect e x i new actor s) = verifs s"
  "verifrs (status_effect e x i new actor s) = verifrs s"
  "tok_inv (status_effect e x i new actor s) = tok_inv s"
  "inv_tok (status_effect e x i new actor s) = inv_tok s"
  "stats (status_effect e x i new actor s) = stats s"
  "financing_addr (status_effect e x i new actor s) = financing_addr s"
  "repayment_addr (status_effect e x i new actor s) = repayment_addr s"
  by (simp_all add: status_effect_def registry_unfold split: option.split)

lemma tok_status_effect [simp]:
  "tok_own (status_effect e x i new actor s) =
     (if is_terminal new \<and> tok_brn s (sha256_xdr e x) \<noteq> Some True
      then (tok_own s)(sha256_xdr e x := None) else tok_own s)"
  "tok_brn (status_effect e x i new actor s) =
     (if is_terminal new \<and> tok_own s (sha256_xdr e x) \<noteq> None
      then (tok_brn s)(sha256_xdr e x \<mapsto> True) else tok_brn s)"
  "tok_app (status_effect e x i new actor s) =
     (if is_terminal new \<and> tok_brn s (sha256_xdr e x) \<noteq> Some True \<and> tok_own s (sha256_xdr e x) \<noteq> None
      then (tok_app s)(sha256_xdr e x := None) else tok_app s)"
  by (auto simp: status_effect_def registry_unfold fun_eq_iff split: option.split)

text \<open>The guards every lifecycle entry point shares: not paused, invoice present, legal edge.\<close>

definition may_move :: "symbol \<Rightarrow> invoice \<Rightarrow> invoice_status \<Rightarrow> registry \<Rightarrow> bool" where
  "may_move x i new s \<longleftrightarrow>
     \<not> paused s \<and> map_of (invoices s) x = Some i \<and> valid_edge (inv_status i) new"

lemma get_invoice_Inr_iff [ok]: "get_invoice x s = Inr i \<longleftrightarrow> map_of (invoices s) x = Some i"
  by (simp add: get_invoice_def ok)

lemma update_invoice_status_ok:
  "update_invoice_status e x a new s = Inr (i', s') \<longleftrightarrow>
     (\<exists>i. may_move x i new s \<and> authorizes e a \<and> inv_originator i = a \<and>
        i' = i\<lparr>inv_status := new\<rparr> \<and> s' = status_effect e x i new a s)"
  by (cases "is_terminal new")
    (auto simp: update_invoice_status_def ok may_move_def status_effect_def is_terminal_def [symmetric] Let_def)

lemma cancel_invoice_ok:
  "cancel_invoice e x a s = Inr (i', s') \<longleftrightarrow>
     (\<exists>i. may_move x i InvCancelled s \<and> authorizes e a \<and> inv_originator i = a \<and>
        i' = i\<lparr>inv_status := InvCancelled\<rparr> \<and>
        s' = publish (Ev_inv_cxl a a) (status_effect e x i InvCancelled a s))"
  by (auto simp: cancel_invoice_def ok may_move_def status_effect_def Let_def)

lemma set_invoice_repaid_status_ok:
  "set_invoice_repaid_status e x a full s = Inr (i', s') \<longleftrightarrow>
     (\<exists>i new. new = (if full then InvRepaid else InvFinanced) \<and> may_move x i new s \<and>
        authorizes e a \<and> i' = i\<lparr>inv_status := new\<rparr> \<and>
        s' = publish (Ev_inv_sts (inv_id i) new) (status_effect e x i new a s))"
  by (cases full)
    (auto simp: set_invoice_repaid_status_def ok may_move_def status_effect_def Let_def)

lemma financing_marks_invoice_financed_ok:
  "financing_marks_invoice_financed e x s = Inr (i', s') \<longleftrightarrow>
     (\<exists>i f. may_move x i InvFinanced s \<and> financing_addr s = Some f \<and> authorizes e f \<and>
        i' = i\<lparr>inv_status := InvFinanced\<rparr> \<and>
        s' = publish (Ev_inv_sts (inv_id i) InvFinanced) (status_effect e x i InvFinanced f s))"
  by (auto simp: financing_marks_invoice_financed_def ok may_move_def status_effect_def Let_def)

lemma repayment_marks_invoice_repaid_ok:
  "repayment_marks_invoice_repaid e x full s = Inr (i', s') \<longleftrightarrow>
     (\<exists>i f new. new = (if full then InvRepaid else InvFinanced) \<and> may_move x i new s \<and>
        repayment_addr s = Some f \<and> authorizes e f \<and> i' = i\<lparr>inv_status := new\<rparr> \<and>
        s' = publish (Ev_inv_sts (inv_id i) new) (status_effect e x i new f s))"
  by (cases full)
    (auto simp: repayment_marks_invoice_repaid_def ok may_move_def status_effect_def Let_def)

lemma repayment_marks_defaulted_ok:
  "repayment_marks_defaulted e x s = Inr (i', s') \<longleftrightarrow>
     (\<exists>i f. may_move x i InvDefaulted s \<and> repayment_addr s = Some f \<and> authorizes e f \<and>
        i' = i\<lparr>inv_status := InvDefaulted\<rparr> \<and>
        s' = publish (Ev_inv_def (inv_id i) (inv_originator i)) (status_effect e x i InvDefaulted f s))"
  by (auto simp: repayment_marks_defaulted_def ok may_move_def status_effect_def Let_def)

lemma mark_invoice_overdue_ok:
  "mark_invoice_overdue e x s = Inr (i', s') \<longleftrightarrow>
     (\<exists>i. may_move x i InvOverdue s \<and> inv_due_date i < ledger_timestamp e \<and>
        i' = i\<lparr>inv_status := InvOverdue\<rparr> \<and>
        s' = publish (Ev_inv_ovd (inv_id i) (inv_due_date i))
               (status_effect e x i InvOverdue (current_contract e) s))"
  by (auto simp: mark_invoice_overdue_def ok may_move_def status_effect_def Let_def not_le)

lemma raise_dispute_ok:
  "raise_dispute e x a s = Inr (i', s') \<longleftrightarrow>
     (\<exists>i. may_move x i InvDisputed s \<and> authorizes e a \<and> inv_originator i = a \<and>
        i' = i\<lparr>inv_status := InvDisputed\<rparr> \<and>
        s' = publish (Ev_inv_dsp (inv_id i) a) (status_effect e x i InvDisputed a s))"
  by (auto simp: raise_dispute_def ok may_move_def status_effect_def Let_def)

lemma head_Inr_iff [ok]:
  "(case xs of [] \<Rightarrow> Inl err | a # ys \<Rightarrow> Inr a) = Inr b \<longleftrightarrow> xs \<noteq> [] \<and> hd xs = b"
  by (cases xs) auto

lemma resolve_dispute_ok:
  "resolve_dispute e sgs x new s = Inr (i', s') \<longleftrightarrow>
     (\<exists>i cfg. may_move x i new s \<and> admcfg s = Some cfg \<and> quorum e cfg sgs \<and> sgs \<noteq> [] \<and>
        new \<noteq> InvDisputed \<and> i' = i\<lparr>inv_status := new\<rparr> \<and>
        s' = publish (Ev_inv_rsl (inv_id i) new) (status_effect e x i new (hd sgs) s))"
  by (cases "is_terminal new")
    (auto simp: resolve_dispute_def ok may_move_def status_effect_def is_terminal_def [symmetric] Let_def)

lemmas lifecycle_ok = update_invoice_status_ok cancel_invoice_ok set_invoice_repaid_status_ok
  financing_marks_invoice_financed_ok repayment_marks_invoice_repaid_ok repayment_marks_defaulted_ok
  mark_invoice_overdue_ok raise_dispute_ok resolve_dispute_ok

lemma status_effect_nonterminal:
  "\<not> is_terminal new \<Longrightarrow> status_effect e x i new actor s =
     record_transition e x (inv_status i) new actor
       (publish (Ev_inv_trx x (inv_status i) new actor) s)
         \<lparr>invoices := sm_set (invoices s) x (i\<lparr>inv_status := new\<rparr>)\<rparr>"
  by (simp add: status_effect_def Let_def record_transition_def publish_def)

subsection \<open>A fresh store\<close>

definition empty_registry :: registry where
  "empty_registry =
     \<lparr>admcfg = None, paused = False, ver_current = None, ver_previous = None,
      wasm_previous = None, upgrade_pending = None, curtok = Map.empty, default_token = None,
      trn_log = Map.empty, wasm_running = 0, events = [],
      invoices = [], rates = Map.empty, stats = None, blklist = [], by_origin = None,
      amends = Map.empty, invlend = Map.empty, verifs = Map.empty, verifrs = [],
      tok_own = Map.empty, tok_app = Map.empty, tok_inv = Map.empty, inv_tok = Map.empty,
      tok_brn = Map.empty, feercpt = None, financing_addr = None, repayment_addr = None,
      feebps = None, verthr = None, verfee = None, vervld = None\<rparr>"

lemma empty_registry_sel [simp]:
  "admcfg empty_registry = None" "paused empty_registry = False" "events empty_registry = []"
  "invoices empty_registry = []" "stats empty_registry = None" "blklist empty_registry = []"
  "by_origin empty_registry = None" "verifs empty_registry = Map.empty"
  "verifrs empty_registry = []" "tok_own empty_registry = Map.empty"
  "tok_app empty_registry = Map.empty" "tok_inv empty_registry = Map.empty"
  "tok_brn empty_registry = Map.empty" "verthr empty_registry = None"
  "verfee empty_registry = None" "vervld empty_registry = None" "curtok empty_registry = Map.empty"
  "trn_log empty_registry = Map.empty" "amends empty_registry = Map.empty"
  "financing_addr empty_registry = None" "repayment_addr empty_registry = None"
  "feebps empty_registry = None" "invlend empty_registry = Map.empty"
  by (simp_all add: empty_registry_def)

definition demo_invoice :: "string \<Rightarrow> nat \<Rightarrow> invoice" where
  "demo_invoice x a = \<lparr>inv_id = Symbol x, inv_originator = Address a, inv_amount = 50000000,
     inv_currency = Symbol ''USDC'', inv_due_date = 1000, inv_status = InvPending\<rparr>"

lemma demo_invoice_sel [simp]:
  "inv_id (demo_invoice x a) = Symbol x" "inv_originator (demo_invoice x a) = Address a"
  "inv_amount (demo_invoice x a) = 50000000" "inv_status (demo_invoice x a) = InvPending"
  "inv_due_date (demo_invoice x a) = 1000" "inv_currency (demo_invoice x a) = Symbol ''USDC''"
  by (simp_all add: demo_invoice_def)

end
