(* ===== verification/Registry_Queries.thy ===== *)
theory Registry_Queries
  imports Registry
begin

text \<open>
  Registration in batches, the originator index and its paginated reads, and the query entry
  points of \<open>registry/src/lib.rs\<close>. The loops of the source are recursions over the entries; the
  lemmas replace them by \<open>filter\<close>, \<open>take\<close> and \<open>drop\<close>.
\<close>

subsection \<open>Queries\<close>

definition get_invoices_by_status :: "invoice_status \<Rightarrow> registry \<Rightarrow> invoice list" where
  "get_invoices_by_status st s =
     fold (\<lambda>(x, i) result. if inv_status i = st then result @ [i] else result) (load_invoices s) []"

definition get_invoices_by_originator :: "address \<Rightarrow> registry \<Rightarrow> invoice list" where
  "get_invoices_by_originator originator s =
     fold (\<lambda>(x, i) result. if inv_originator i = originator then result @ [i] else result)
       (load_invoices s) []"

definition get_all_invoices :: "registry \<Rightarrow> invoice list" where
  "get_all_invoices s = fold (\<lambda>(x, i) result. result @ [i]) (load_invoices s) []"

definition get_invoices_by_currency :: "symbol \<Rightarrow> registry \<Rightarrow> invoice list" where
  "get_invoices_by_currency currency s =
     fold (\<lambda>(x, i) result. if inv_currency i = currency then result @ [i] else result)
       (load_invoices s) []"

definition get_invoices_due_before :: "nat \<Rightarrow> registry \<Rightarrow> invoice list" where
  "get_invoices_due_before timestamp s =
     fold (\<lambda>(x, i) result.
        let is_open = (inv_status i = InvPending \<or> inv_status i = InvFinanced)
        in if is_open \<and> inv_due_date i < timestamp then result @ [i] else result)
       (load_invoices s) []"

text \<open>\<open>get_invoices_paginated\<close>: the loop with its running index and its early \<open>break\<close>.\<close>

fun paginate_loop :: "nat \<Rightarrow> nat \<Rightarrow> nat \<Rightarrow> invoice list \<Rightarrow> (symbol, invoice) smap \<Rightarrow> invoice list" where
  "paginate_loop offset limit idx result [] = result"
| "paginate_loop offset limit idx result ((x, i) # rest) =
     (let result = (if offset \<le> idx \<and> length result < limit then result @ [i] else result)
      in if limit \<le> length result then result
         else paginate_loop offset limit (Suc idx) result rest)"

definition get_invoices_paginated :: "nat \<Rightarrow> nat \<Rightarrow> registry \<Rightarrow> invoice list" where
  "get_invoices_paginated offset limit s = paginate_loop offset limit 0 [] (load_invoices s)"

definition batch_get_invoices :: "symbol list \<Rightarrow> registry \<Rightarrow> invoice list" where
  "batch_get_invoices ids s =
     fold (\<lambda>x result. case map_of (load_invoices s) x of None \<Rightarrow> result | Some i \<Rightarrow> result @ [i]) ids []"

definition get_invoices_count :: "registry \<Rightarrow> nat" where
  "get_invoices_count s = length (load_invoices s)"

definition get_stats :: "registry \<Rightarrow> protocol_stats" where
  "get_stats s = load_stats s"

definition get_min_invoice_amount :: "env \<Rightarrow> int" where
  "get_min_invoice_amount e = MIN_INVOICE_AMOUNT"

text \<open>\<open>get_originator_page\<close>: the \<open>while\<close> loop from \<open>start\<close>.\<close>

function page_loop :: "symbol list \<Rightarrow> nat \<Rightarrow> nat \<Rightarrow> symbol list \<Rightarrow> symbol list" where
  "page_loop ids page_size i result =
     (if i < length ids \<and> length result < page_size
      then page_loop ids page_size (i + 1) (result @ [ids ! i])
      else result)"
  by auto
termination by (relation "measure (\<lambda>(ids, page_size, i, result). length ids - i)") auto

declare page_loop.simps [simp del]

definition get_originator_page :: "address \<Rightarrow> nat \<Rightarrow> nat \<Rightarrow> registry \<Rightarrow> error + symbol list" where
  "get_originator_page originator page page_size s =
     bindE (ensure (\<not> page_size = 0) (Contract InvalidInput)) (\<lambda>_.
     let ids = ids_of (load_originator_index s) originator;
         start = page * page_size
     in if length ids \<le> start then Inr [] else Inr (page_loop ids page_size start []))"

lemma page_loop_eq: "length result \<le> n \<Longrightarrow> page_loop ids n i result = result @ take (n - length result) (drop i ids)"
proof (induction ids n i result rule: page_loop.induct)
  case (1 ids n i result)
  show ?case
  proof (cases "i < length ids \<and> length result < n")
    case True
    then have "n - length result = Suc (n - Suc (length result))" by (simp add: Suc_diff_Suc)
    with 1 True show ?thesis
      by (simp add: page_loop.simps [of ids n i] Cons_nth_drop_Suc [symmetric])
  next
    case False
    with 1 show ?thesis by (auto simp: page_loop.simps [of ids n i])
  qed
qed

lemma get_originator_page_eq:
  "0 < n \<Longrightarrow> get_originator_page a p n s =
     Inr (take n (drop (p * n) (ids_of (load_originator_index s) a)))"
  by (simp add: get_originator_page_def page_loop_eq Let_def)

lemma paginate_loop_eq:
  "length result < limit \<Longrightarrow> paginate_loop offset limit idx result m =
     result @ take (limit - length result) (drop (offset - idx) (map snd m))"
proof (induction offset limit idx result m rule: paginate_loop.induct)
  case (2 offset limit idx result x i rest)
  show ?case
  proof (cases "offset \<le> idx")
    case True
    with 2 have "limit - length result = Suc (limit - Suc (length result))" by (simp add: Suc_diff_Suc)
    with 2 True show ?thesis by (auto simp: Let_def)
  next
    case False
    then have "offset - idx = Suc (offset - Suc idx)" by (simp add: Suc_diff_Suc)
    with 2 False show ?thesis by (simp add: Let_def)
  qed
qed simp

lemma get_invoices_paginated_eq:
  "get_invoices_paginated offset limit s = take limit (drop offset (sm_values (invoices s)))"
proof (cases "limit = 0")
  case True
  then show ?thesis by (cases "invoices s") (auto simp: get_invoices_paginated_def)
next
  case False
  then show ?thesis by (simp add: get_invoices_paginated_def paginate_loop_eq sm_values_def)
qed

lemma fold_collect:
  "fold (\<lambda>(x, i) result. if P i then result @ [i] else result) m acc = acc @ filter P (map snd m)"
  by (induction m arbitrary: acc) auto

lemma get_all_invoices_eq: "get_all_invoices s = sm_values (invoices s)"
proof -
  have "fold (\<lambda>(x, i) result. result @ [i]) m acc = acc @ map snd m"
    for m :: "(symbol, invoice) smap" and acc
    by (induction m arbitrary: acc) auto
  then show ?thesis by (simp add: get_all_invoices_def sm_values_def)
qed

text \<open>
  C35. Paging through the invoices loses and repeats nothing: the pages of any positive size, in
  order and up to any bound that covers the store, concatenate to the list of all invoices; and
  the same holds of the pages of an originator's index.
\<close>

theorem pages_cover_everything:
  assumes "0 < n" and "get_invoices_count s \<le> k * n"
    and "length (ids_of (load_originator_index s) a) \<le> k * n"
  shows "concat (map (\<lambda>p. get_invoices_paginated (p * n) n s) [0..<k]) = get_all_invoices s \<and>
    concat (map (\<lambda>p. case get_originator_page a p n s of Inl _ \<Rightarrow> [] | Inr ids \<Rightarrow> ids) [0..<k]) =
      ids_of (load_originator_index s) a"
  using assms
  by (simp add: get_invoices_paginated_eq get_all_invoices_eq get_originator_page_eq
      take_drop_pages get_invoices_count_def sm_values_def)

definition three_invoices :: registry where
  "three_invoices = empty_registry\<lparr>invoices := [(Symbol ''a'', demo_invoice ''a'' 2),
     (Symbol ''b'', demo_invoice ''b'' 3), (Symbol ''c'', demo_invoice ''c'' 2)]\<rparr>"

lemma pages_cover_everything_witness:
  "concat (map (\<lambda>p. get_invoices_paginated (p * 2) 2 three_invoices) [0..<2]) =
     [demo_invoice ''a'' 2, demo_invoice ''b'' 3, demo_invoice ''c'' 2] \<and>
   get_invoices_paginated 2 2 three_invoices = [demo_invoice ''c'' 2]"
proof -
  have "get_invoices_count three_invoices \<le> 2 * 2"
    "length (ids_of (load_originator_index three_invoices) (Address 2)) \<le> 2 * 2"
    by (simp_all add: three_invoices_def get_invoices_count_def load_originator_index_def ids_of_def)
  from pages_cover_everything [OF _ this] show ?thesis
    by (simp add: get_all_invoices_eq three_invoices_def sm_values_def get_invoices_paginated_eq
        del: upt_Suc)
qed

subsection \<open>A batch is a sequence of registrations\<close>

definition register_arg ::
  "env \<Rightarrow> address \<Rightarrow> invoice_registration_args \<Rightarrow> registry \<Rightarrow> error + (invoice \<times> registry)" where
  "register_arg e originator arg s =
     register_invoice e (ra_id arg) originator (ra_amount arg) (ra_currency arg) (ra_due_date arg) s"

fun register_each ::
  "env \<Rightarrow> address \<Rightarrow> invoice_registration_args list \<Rightarrow> registry \<Rightarrow> error + (invoice list \<times> registry)" where
  "register_each e originator [] s = Inr ([], s)"
| "register_each e originator (arg # args) s =
     bindE (register_arg e originator arg s) (\<lambda>(i, s).
     bindE (register_each e originator args s) (\<lambda>(is, s). Inr (i # is, s)))"

definition may_register :: "env \<Rightarrow> address \<Rightarrow> registry \<Rightarrow> bool" where
  "may_register e a s \<longleftrightarrow> \<not> paused s \<and> authorizes e a \<and> a \<notin> set (blklist s)"

lemma may_registerD:
  "may_register e a s \<Longrightarrow> assert_not_paused s = Inr () \<and> require_auth e a = Inr () \<and>
     assert_not_blacklisted a s = Inr ()"
  by (simp add: may_register_def ok)

definition commit_batch ::
  "(symbol, invoice) smap \<Rightarrow> protocol_stats \<Rightarrow> registry \<Rightarrow> registry" where
  "commit_batch m st s = save_stats st (save_invoices m s)"

lemma commit_batch_sel [simp]:
  "invoices (commit_batch m st s) = m" "load_stats (commit_batch m st s) = st"
  "by_origin (commit_batch m st s) = by_origin s"
  "may_register e a (commit_batch m st s) = may_register e a s"
  by (simp_all add: commit_batch_def load_stats_def may_register_def)

lemma commit_batch_commute:
  "publish ev (commit_batch m st s) = commit_batch m st (publish ev s)"
  "index_invoice_originator a x (commit_batch m st s) =
     commit_batch m st (index_invoice_originator a x s)"
  "mint_invoice_token e i (commit_batch m st s) = commit_batch m st (mint_invoice_token e i s)"
  by (simp_all add: commit_batch_def registry_unfold load_originator_index_def)

lemma save_commit_batch:
  "save_invoices m' (commit_batch m st s) = commit_batch m' st s"
  "save_stats st' (commit_batch m st s) = commit_batch m st' s"
  by (simp_all add: commit_batch_def)

lemma batch_body_register_arg:
  assumes "may_register e a s"
  shows "register_arg e a arg (commit_batch m st s) =
    bindE (batch_body e a arg (m, st, [], s)) (\<lambda>(m', st', is, s'). Inr (hd is, commit_batch m' st' s'))"
  using may_registerD [of e a "commit_batch m st s"] assms
  by (simp add: register_arg_def register_invoice_def batch_body_def Let_def bindE_assoc
      commit_batch_commute save_commit_batch del: save_invoices_def save_stats_def)

lemma batch_body_accumulates:
  "batch_body e a arg (m, st, is, s) =
     bindE (batch_body e a arg (m, st, [], s)) (\<lambda>(m', st', is', s'). Inr (m', st', is @ is', s'))"
  by (simp add: batch_body_def Let_def bindE_assoc cong: bindE_cong)

lemma batch_body_result:
  "batch_body e a arg (m, st, [], s) = Inr (m', st', is', s') \<Longrightarrow>
     (\<exists>i. is' = [i]) \<and> may_register e a s' = may_register e a s"
  by (auto simp: batch_body_def ok Let_def may_register_def index_invoice_originator_def
      mint_invoice_token_def publish_def)

lemma batch_loop:
  assumes "may_register e a s"
  shows "bindE (foldE (batch_body e a) args (m, st, acc, s))
      (\<lambda>(m', st', is, s'). Inr (is, commit_batch m' st' s')) =
    bindE (register_each e a args (commit_batch m st s)) (\<lambda>(is, s'). Inr (acc @ is, s'))"
  using assms
proof (induction args arbitrary: m st acc s)
  case Nil
  then show ?case by simp
next
  case (Cons arg args)
  show ?case
  proof (cases "batch_body e a arg (m, st, [], s)")
    case (Inl err)
    then show ?thesis
      by (simp add: batch_body_accumulates [of e a arg m st acc] batch_body_register_arg [OF Cons.prems])
  next
    case (Inr r)
    obtain m' st' is' s1 where r: "r = (m', st', is', s1)" by (cases r) auto
    with Inr batch_body_result [of e a arg m st s] Cons.prems obtain i
      where i: "is' = [i]" and s1: "may_register e a s1" by auto
    have "bindE (foldE (batch_body e a) (arg # args) (m, st, acc, s))
        (\<lambda>(m', st', is, s'). Inr (is, commit_batch m' st' s')) =
      bindE (foldE (batch_body e a) args (m', st', acc @ [i], s1))
        (\<lambda>(m', st', is, s'). Inr (is, commit_batch m' st' s'))"
      using Inr r i by (simp add: batch_body_accumulates [of e a arg m st acc])
    also have "\<dots> = bindE (register_each e a args (commit_batch m' st' s1))
        (\<lambda>(is, s'). Inr ((acc @ [i]) @ is, s'))"
      by (rule Cons.IH [OF s1])
    also have "\<dots> = bindE (register_each e a (arg # args) (commit_batch m st s))
        (\<lambda>(is, s'). Inr (acc @ is, s'))"
      using Inr r i by (simp add: batch_body_register_arg [OF Cons.prems] bindE_assoc split_def)
    finally show ?thesis .
  qed
qed

lemma register_arg_blocked:
  "\<not> may_register e a s \<Longrightarrow> register_arg e a arg s =
     bindE (assert_not_paused s) (\<lambda>_. bindE (require_auth e a) (\<lambda>_.
     bindE (assert_not_blacklisted a s) (\<lambda>_. Inl Overflow)))"
  by (auto simp: register_arg_def register_invoice_def may_register_def assert_not_paused_def
      require_auth_def assert_not_blacklisted_def list_ex_iff ensure_def)

lemma register_arg_reloads_stats:
  "register_arg e a arg (commit_batch (invoices s) (load_stats s) s) = register_arg e a arg s"
proof -
  have "commit_batch (invoices s) (load_stats s) s = s\<lparr>stats := Some (load_stats s)\<rparr>"
    by (simp add: commit_batch_def)
  then show ?thesis
    by (simp add: register_arg_def register_invoice_def assert_not_paused_def require_auth_def
        assert_not_blacklisted_def load_stats_def load_originator_index_def registry_unfold)
qed

lemma batch_sequence:
  assumes "args \<noteq> []"
  shows "batch_register_invoices e originator args s = register_each e originator args s"
proof (cases "may_register e originator s")
  case True
  obtain arg rest where args: "args = arg # rest" using assms by (cases args) auto
  have "batch_register_invoices e originator args s =
      bindE (foldE (batch_body e originator) args (invoices s, load_stats s, [], s))
        (\<lambda>(m', st', is, s'). Inr (is, commit_batch m' st' s'))"
    using may_registerD [OF True] by (simp add: batch_register_invoices_def commit_batch_def)
  also have "\<dots> = register_each e originator args (commit_batch (invoices s) (load_stats s) s)"
    using batch_loop [OF True, of args "invoices s" "load_stats s" "[]"] by (simp add: split_def)
  finally show ?thesis by (simp add: args register_arg_reloads_stats)
next
  case False
  obtain arg rest where args: "args = arg # rest" using assms by (cases args) auto
  show ?thesis
    using False
    by (simp add: args register_arg_blocked [OF False])
      (auto simp: batch_register_invoices_def may_register_def assert_not_paused_def
        require_auth_def assert_not_blacklisted_def list_ex_iff ensure_def)
qed

text \<open>
  A batch is atomic and nothing else: registering a non-empty batch returns exactly what
  registering its invoices one after the other in the same invocation returns - the same
  invoices, the same final storage, the same event log in the same order - and it traps with the
  same error whenever any of them would.
\<close>

theorem batch_is_sequence:
  assumes "args \<noteq> []"
  shows "batch_register_invoices e originator args s = register_each e originator args s"
  by (rule batch_sequence [OF assms])

definition demo_arg :: "string \<Rightarrow> invoice_registration_args" where
  "demo_arg x = \<lparr>ra_id = Symbol x, ra_amount = 50000000, ra_currency = Symbol ''USDC'',
     ra_due_date = 1000\<rparr>"

lemma batch_is_sequence_witness:
  "batch_register_invoices (demo_env 0 (Address 100)) (Address 2) [demo_arg ''b'', demo_arg ''a'']
     empty_registry =
   register_each (demo_env 0 (Address 100)) (Address 2) [demo_arg ''b'', demo_arg ''a'']
     empty_registry \<and>
   (\<exists>s. register_each (demo_env 0 (Address 100)) (Address 2) [demo_arg ''b'', demo_arg ''a'']
     empty_registry = Inr ([demo_invoice ''b'' 2, demo_invoice ''a'' 2], s))"
proof
  show "batch_register_invoices (demo_env 0 (Address 100)) (Address 2) [demo_arg ''b'', demo_arg ''a'']
     empty_registry =
   register_each (demo_env 0 (Address 100)) (Address 2) [demo_arg ''b'', demo_arg ''a'']
     empty_registry"
    by (rule batch_is_sequence) simp
  show "\<exists>s. register_each (demo_env 0 (Address 100)) (Address 2) [demo_arg ''b'', demo_arg ''a'']
     empty_registry = Inr ([demo_invoice ''b'' 2, demo_invoice ''a'' 2], s)"
    by (simp add: register_arg_def register_invoice_def assert_not_paused_def require_auth_def
        assert_not_blacklisted_def Let_def add_u32_def load_stats_def sm_has_def registry_unfold
        demo_arg_def demo_invoice_def)
qed

subsection \<open>The index is sorted\<close>

lemma first_not_below_le: "first_not_below x ids \<le> length ids"
  by (induction x ids rule: first_not_below.induct) auto

lemma insert_sorted_id_eq:
  "insert_sorted_id ids x = takeWhile (\<lambda>y. y < x) ids @ x # dropWhile (\<lambda>y. y < x) ids"
proof -
  have "take (first_not_below x ids) ids = takeWhile (\<lambda>y. y < x) ids \<and>
      drop (first_not_below x ids) ids = dropWhile (\<lambda>y. y < x) ids"
    by (induction x ids rule: first_not_below.induct) (auto simp: not_le not_less)
  then show ?thesis by (auto simp: insert_sorted_id_def Let_def)
qed

lemma set_insert_sorted_id [simp]: "set (insert_sorted_id ids x) = insert x (set ids)"
proof -
  have "set (takeWhile (\<lambda>y. y < x) ids) \<union> set (dropWhile (\<lambda>y. y < x) ids) = set ids"
    by (metis set_append takeWhile_dropWhile_id)
  then show ?thesis by (auto simp: insert_sorted_id_eq)
qed

lemma sorted_insert_sorted_id: "sorted ids \<Longrightarrow> sorted (insert_sorted_id ids x)"
  by (induction ids) (auto simp: insert_sorted_id_eq not_less dest: set_takeWhileD set_dropWhileD)

lemma insert_sorted_id_last: "(\<And>y. y \<in> set ids \<Longrightarrow> y < x) \<Longrightarrow> insert_sorted_id ids x = ids @ [x]"
  by (simp add: insert_sorted_id_eq takeWhile_eq_all_conv [THEN iffD2]
      dropWhile_eq_Nil_conv [THEN iffD2])

definition backfill_index :: "(symbol, invoice) smap \<Rightarrow> (address \<rightharpoonup> symbol list) \<Rightarrow> (address \<rightharpoonup> symbol list)" where
  "backfill_index = fold (\<lambda>(x, i) index. index(inv_originator i \<mapsto>
     insert_sorted_id (ids_of index (inv_originator i)) x))"

lemma backfill_index_ids:
  assumes "sm_wf m" and "\<And>a y. y \<in> set (ids_of index a) \<Longrightarrow> \<forall>x \<in> fst ` set m. y < x"
  shows "ids_of (backfill_index m index) a =
    ids_of index a @ map fst (filter (\<lambda>(x, i). inv_originator i = a) m)"
  using assms
proof (induction m arbitrary: index)
  case Nil
  then show ?case by (simp add: backfill_index_def)
next
  case (Cons p m)
  obtain x i where p: "p = (x, i)" by (cases p)
  let ?index = "index(inv_originator i \<mapsto> insert_sorted_id (ids_of index (inv_originator i)) x)"
  have last: "insert_sorted_id (ids_of index (inv_originator i)) x = ids_of index (inv_originator i) @ [x]"
    using Cons.prems(2) by (intro insert_sorted_id_last) (auto simp: p)
  have "ids_of (backfill_index m ?index) a =
      ids_of ?index a @ map fst (filter (\<lambda>(x, i). inv_originator i = a) m)"
  proof (rule Cons.IH)
    show "sm_wf m" using Cons.prems(1) by (simp add: sm_wf_def p)
    show "\<forall>z \<in> fst ` set m. y < z" if "y \<in> set (ids_of ?index b)" for b y
      using that Cons.prems by (auto simp: ids_of_def sm_wf_def p split: if_splits option.splits)
  qed
  then show ?case using last by (auto simp: backfill_index_def p ids_of_def)
qed

text \<open>
  The post-upgrade backfill rebuilds the originator index exactly: on a store that has invoices
  and no index, afterwards the index of every address is the ascending, duplicate-free list of
  the ids of exactly the invoices that name it as originator; on a store that already has an
  index it changes nothing, so it can run any number of times.
\<close>

theorem backfill_rebuilds_index:
  assumes "sm_wf (invoices s)" and "by_origin s = None" and "invoices s \<noteq> []"
  shows "ids_of (load_originator_index (backfill_originator_index s)) a =
      map fst (filter (\<lambda>(x, i). inv_originator i = a) (invoices s)) \<and>
    sorted_wrt (<) (ids_of (load_originator_index (backfill_originator_index s)) a) \<and>
    backfill_originator_index (backfill_originator_index s) = backfill_originator_index s"
proof -
  have ids: "ids_of (load_originator_index (backfill_originator_index s)) a =
      map fst (filter (\<lambda>(x, i). inv_originator i = a) (invoices s))"
    using backfill_index_ids [OF assms(1), of Map.empty a] assms(2,3)
    by (simp add: backfill_originator_index_def load_originator_index_def backfill_index_def ids_of_def)
  moreover have "sorted_wrt (<) (map fst (filter (\<lambda>(x, i). inv_originator i = a) (invoices s)))"
    using assms(1) by (simp add: sm_wf_def sorted_wrt_map sorted_wrt_filter)
  moreover have "backfill_originator_index (backfill_originator_index s) = backfill_originator_index s"
    using assms(2,3) by (simp add: backfill_originator_index_def)
  ultimately show ?thesis by simp
qed

lemma backfill_rebuilds_index_witness:
  "ids_of (load_originator_index (backfill_originator_index three_invoices)) (Address 2) =
     [Symbol ''a'', Symbol ''c'']"
proof -
  have "sm_wf (invoices three_invoices)" "by_origin three_invoices = None" "invoices three_invoices \<noteq> []"
    by (simp_all add: three_invoices_def sm_wf_def less_char_def)
  from backfill_rebuilds_index [OF this, of "Address 2"] show ?thesis
    by (simp add: three_invoices_def)
qed

end
