(* ===== verification/Registry_Token.thy ===== *)
theory Registry_Token
  imports Registry
begin

text \<open>
  The invoice token of \<open>registry/src/lib.rs\<close>: approval, transfer and the token queries. A transfer
  rewrites the invoice's originator, so the token owner and the originator move together.
\<close>

subsection \<open>Entry points\<close>

definition execute_token_transfer ::
  "address \<Rightarrow> address \<Rightarrow> bytes32 \<Rightarrow> registry \<Rightarrow> error + registry" where
  "execute_token_transfer from to token_id s =
     bindE (assert_not_paused s) (\<lambda>_.
     bindE (assert_not_blacklisted from s) (\<lambda>_.
     bindE (assert_not_blacklisted to s) (\<lambda>_.
     bindE (ensure (\<not> from = to) (Contract InvalidInput)) (\<lambda>_.
     bindE (ensure (\<not> is_token_burned_internal token_id s) (Contract InvalidTransition)) (\<lambda>_.
     bindE (fetch (load_token_owner token_id s) (Contract NotFound)) (\<lambda>current_owner.
     bindE (ensure (\<not> current_owner \<noteq> from) (Contract Unauthorized)) (\<lambda>_.
     bindE (fetch (load_token_invoice_id token_id s) (Contract NotFound)) (\<lambda>invoice_id.
     let invs = load_invoices s;
         s = (case map_of invs invoice_id of
                None \<Rightarrow> s
              | Some invoice \<Rightarrow>
                  index_invoice_originator to invoice_id
                    (save_invoices (sm_set invs invoice_id (invoice\<lparr>inv_originator := to\<rparr>)) s));
         s = save_token_owner token_id to s;
         s = save_token_approval token_id None s
     in Inr (publish (Ev_token_transferred token_id from to) s)))))))))"

definition get_token_id :: "env \<Rightarrow> symbol \<Rightarrow> bytes32" where
  "get_token_id e x = compute_token_id e x"

definition get_token_by_invoice :: "env \<Rightarrow> symbol \<Rightarrow> bytes32" where
  "get_token_by_invoice e x = compute_token_id e x"

definition owner_of :: "bytes32 \<Rightarrow> registry \<Rightarrow> error + address" where
  "owner_of token_id s =
     bindE (ensure (\<not> is_token_burned_internal token_id s) (Contract NotFound)) (\<lambda>_.
     fetch (load_token_owner token_id s) (Contract NotFound))"

definition get_token_owner :: "bytes32 \<Rightarrow> registry \<Rightarrow> error + address" where
  "get_token_owner token_id s = owner_of token_id s"

definition get_approved :: "bytes32 \<Rightarrow> registry \<Rightarrow> address option" where
  "get_approved token_id s =
     (if is_token_burned_internal token_id s then None else load_token_approval token_id s)"

definition get_token_metadata :: "bytes32 \<Rightarrow> registry \<Rightarrow> error + invoice_token_metadata" where
  "get_token_metadata token_id s =
     bindE (ensure (\<not> is_token_burned_internal token_id s) (Contract NotFound)) (\<lambda>_.
     bindE (fetch (load_token_owner token_id s) (Contract NotFound)) (\<lambda>own.
     bindE (fetch (load_token_invoice_id token_id s) (Contract NotFound)) (\<lambda>invoice_id.
     bindE (fetch (map_of (load_invoices s) invoice_id) (Contract NotFound)) (\<lambda>invoice.
     Inr \<lparr>tm_token_id = token_id, tm_invoice_id = invoice_id,
          tm_originator = inv_originator invoice, tm_owner = own, tm_amount = inv_amount invoice,
          tm_currency = inv_currency invoice, tm_due_date = inv_due_date invoice,
          tm_status = inv_status invoice\<rparr>))))"

definition get_invoice_by_token :: "bytes32 \<Rightarrow> registry \<Rightarrow> error + invoice" where
  "get_invoice_by_token token_id s =
     bindE (fetch (load_token_invoice_id token_id s) (Contract NotFound)) (\<lambda>invoice_id.
     fetch (map_of (load_invoices s) invoice_id) (Contract NotFound))"

definition is_token_burned :: "bytes32 \<Rightarrow> registry \<Rightarrow> bool" where
  "is_token_burned token_id s = is_token_burned_internal token_id s"

definition approve :: "env \<Rightarrow> address \<Rightarrow> bytes32 \<Rightarrow> registry \<Rightarrow> error + registry" where
  "approve e approver token_id s =
     bindE (assert_not_paused s) (\<lambda>_.
     bindE (ensure (\<not> is_token_burned_internal token_id s) (Contract InvalidTransition)) (\<lambda>_.
     bindE (fetch (load_token_owner token_id s) (Contract NotFound)) (\<lambda>own.
     bindE (require_auth e own) (\<lambda>_.
     bindE (assert_not_blacklisted approver s) (\<lambda>_.
     Inr (publish (Ev_token_approved token_id own (Some approver))
           (save_token_approval token_id (Some approver) s)))))))"

definition set_token_approval ::
  "env \<Rightarrow> address \<Rightarrow> address option \<Rightarrow> bytes32 \<Rightarrow> registry \<Rightarrow> error + registry" where
  "set_token_approval e own approved token_id s =
     bindE (assert_not_paused s) (\<lambda>_.
     bindE (require_auth e own) (\<lambda>_.
     bindE (ensure (\<not> is_token_burned_internal token_id s) (Contract InvalidTransition)) (\<lambda>_.
     bindE (fetch (load_token_owner token_id s) (Contract NotFound)) (\<lambda>current_owner.
     bindE (ensure (\<not> current_owner \<noteq> own) (Contract Unauthorized)) (\<lambda>_.
     bindE (case approved of None \<Rightarrow> Inr () | Some a \<Rightarrow> assert_not_blacklisted a s) (\<lambda>_.
     Inr (publish (Ev_token_approved token_id own approved)
           (save_token_approval token_id approved s))))))))"

definition transfer :: "env \<Rightarrow> address \<Rightarrow> address \<Rightarrow> bytes32 \<Rightarrow> registry \<Rightarrow> error + registry" where
  "transfer e from to token_id s =
     bindE (assert_not_paused s) (\<lambda>_.
     bindE (ensure (\<not> is_token_burned_internal token_id s) (Contract InvalidTransition)) (\<lambda>_.
     bindE (fetch (load_token_owner token_id s) (Contract NotFound)) (\<lambda>current_owner.
     let approved = load_token_approval token_id s in
     if approved = Some from
     then bindE (require_auth e from) (\<lambda>_. execute_token_transfer current_owner to token_id s)
     else bindE (require_auth e from) (\<lambda>_. execute_token_transfer from to token_id s))))"

definition transfer_from ::
  "env \<Rightarrow> address \<Rightarrow> address \<Rightarrow> address \<Rightarrow> bytes32 \<Rightarrow> registry \<Rightarrow> error + registry" where
  "transfer_from e spender from to token_id s =
     bindE (assert_not_paused s) (\<lambda>_.
     bindE (require_auth e spender) (\<lambda>_.
     bindE (ensure (\<not> is_token_burned_internal token_id s) (Contract InvalidTransition)) (\<lambda>_.
     bindE (fetch (load_token_owner token_id s) (Contract NotFound)) (\<lambda>current_owner.
     bindE (ensure (\<not> current_owner \<noteq> from) (Contract Unauthorized)) (\<lambda>_.
     let approved = load_token_approval token_id s in
     bindE (ensure (\<not> (approved \<noteq> Some spender \<and> current_owner \<noteq> spender)) (Contract Unauthorized)) (\<lambda>_.
     execute_token_transfer from to token_id s))))))"

subsection \<open>What a transfer does\<close>

definition token_moved :: "bytes32 \<Rightarrow> address \<Rightarrow> address \<Rightarrow> registry \<Rightarrow> registry" where
  "token_moved t from to s =
     (let s = (case tok_inv s t of None \<Rightarrow> s | Some x \<Rightarrow>
                (case map_of (invoices s) x of None \<Rightarrow> s | Some i \<Rightarrow>
                   index_invoice_originator to x
                     (s\<lparr>invoices := sm_set (invoices s) x (i\<lparr>inv_originator := to\<rparr>)\<rparr>)))
      in publish (Ev_token_transferred t from to)
           (s\<lparr>tok_own := (tok_own s)(t \<mapsto> to), tok_app := (tok_app s)(t := None)\<rparr>))"

definition may_transfer :: "bytes32 \<Rightarrow> address \<Rightarrow> address \<Rightarrow> registry \<Rightarrow> bool" where
  "may_transfer t from to s \<longleftrightarrow>
     \<not> paused s \<and> from \<notin> set (blklist s) \<and> to \<notin> set (blklist s) \<and> from \<noteq> to \<and>
     tok_brn s t \<noteq> Some True \<and> tok_own s t = Some from \<and> tok_inv s t \<noteq> None"

lemma execute_token_transfer_ok [ok]:
  "execute_token_transfer from to t s = Inr s' \<longleftrightarrow>
     may_transfer t from to s \<and> s' = token_moved t from to s"
  by (cases "tok_inv s t"; cases "map_of (invoices s) (the (tok_inv s t))")
    (auto simp: execute_token_transfer_def ok may_transfer_def token_moved_def Let_def)

lemma transfer_ok:
  "transfer e from to t s = Inr s' \<longleftrightarrow>
     (\<exists>own. tok_own s t = Some own \<and> authorizes e from \<and> (from = own \<or> tok_app s t = Some from) \<and>
        may_transfer t own to s \<and> s' = token_moved t own to s)"
  by (auto simp: transfer_def ok may_transfer_def Let_def)

lemma transfer_from_ok:
  "transfer_from e spender from to t s = Inr s' \<longleftrightarrow>
     tok_own s t = Some from \<and> authorizes e spender \<and> (spender = from \<or> tok_app s t = Some spender) \<and>
     may_transfer t from to s \<and> s' = token_moved t from to s"
  by (auto simp: transfer_from_def ok may_transfer_def Let_def)

lemma token_moved_frame [simp]:
  "admcfg (token_moved t from to s) = admcfg s" "verifs (token_moved t from to s) = verifs s"
  "verifrs (token_moved t from to s) = verifrs s" "tok_inv (token_moved t from to s) = tok_inv s"
  "tok_brn (token_moved t from to s) = tok_brn s" "inv_tok (token_moved t from to s) = inv_tok s"
  "tok_own (token_moved t from to s) = (tok_own s)(t \<mapsto> to)"
  "tok_app (token_moved t from to s) = (tok_app s)(t := None)"
  by (auto simp: token_moved_def registry_unfold split: option.split)

lemma invoices_token_moved:
  "invoices (token_moved t from to s) =
     (case tok_inv s t of None \<Rightarrow> invoices s | Some x \<Rightarrow>
       (case map_of (invoices s) x of None \<Rightarrow> invoices s
        | Some i \<Rightarrow> sm_set (invoices s) x (i\<lparr>inv_originator := to\<rparr>)))"
  by (auto simp: token_moved_def registry_unfold split: option.split)

lemma by_origin_token_moved:
  "by_origin (token_moved t from to s) =
     (case tok_inv s t of None \<Rightarrow> by_origin s | Some x \<Rightarrow>
       (case map_of (invoices s) x of None \<Rightarrow> by_origin s
        | Some i \<Rightarrow> Some ((load_originator_index s)(to \<mapsto>
            insert_sorted_id (ids_of (load_originator_index s) to) x))))"
  by (auto simp: token_moved_def registry_unfold load_originator_index_def split: option.split)

text \<open>
  C23. Only the owner's side can move a token: whenever \<open>transfer\<close> or \<open>transfer_from\<close> succeeds, the
  caller authorized the call and is the current owner or the address the owner approved; the
  token is live and neither party is blacklisted; afterwards the recipient owns it, the approval
  is gone, and the originator of its invoice, when it has one, is the recipient - while every
  other token keeps its owner and approval and every other invoice is untouched.
\<close>

theorem token_transfer_safe:
  assumes "transfer e caller to t s = Inr s' \<or> transfer_from e caller from to t s = Inr s'"
  shows "\<exists>own. owner_of t s = Inr own \<and> authorizes e caller \<and>
    (caller = own \<or> get_approved t s = Some caller) \<and>
    own \<notin> set (blklist s) \<and> to \<notin> set (blklist s) \<and>
    owner_of t s' = Inr to \<and> get_approved t s' = None \<and>
    (\<forall>t'. t' \<noteq> t \<longrightarrow> owner_of t' s' = owner_of t' s \<and> get_approved t' s' = get_approved t' s) \<and>
    (\<forall>x. map_of (invoices s') x =
       (if tok_inv s t = Some x then map_option (\<lambda>i. i\<lparr>inv_originator := to\<rparr>) (map_of (invoices s) x)
        else map_of (invoices s) x))"
proof -
  from assms obtain own where own: "tok_own s t = Some own" "authorizes e caller"
    "caller = own \<or> tok_app s t = Some caller" "may_transfer t own to s" "s' = token_moved t own to s"
    by (auto simp: transfer_ok transfer_from_ok)
  then show ?thesis
    by (auto simp: owner_of_def get_approved_def may_transfer_def invoices_token_moved
        split: option.splits)
qed

definition minted_registry :: registry where
  "minted_registry = empty_registry\<lparr>invoices := [(Symbol ''a'', demo_invoice ''a'' 2)],
     tok_own := [7 \<mapsto> Address 2], tok_app := [7 \<mapsto> Address 3], tok_inv := [7 \<mapsto> Symbol ''a'']\<rparr>"

lemma token_transfer_safe_witness:
  "\<exists>s'. transfer (demo_env 0 (Address 100)) (Address 3) (Address 4) 7 minted_registry = Inr s' \<and>
     owner_of 7 s' = Inr (Address 4) \<and> get_approved 7 s' = None"
proof -
  have "transfer (demo_env 0 (Address 100)) (Address 3) (Address 4) 7 minted_registry =
      Inr (token_moved 7 (Address 2) (Address 4) minted_registry)"
    by (simp add: transfer_ok may_transfer_def minted_registry_def)
  with token_transfer_safe [OF disjI1 [OF this]] show ?thesis by blast
qed

end
