(* ===== verification/Event_Indexer.thy ===== *)
theory Event_Indexer
  imports Types Governance
begin

text \<open>
  \<open>event_indexer/src/lib.rs\<close>: the on-chain event index. The contract keeps its own admin key and
  does not use the common crate's governance. \<open>indexer\<close> has one field per storage key; the three
  query loops are recursive functions over the id list with the loop's counters. The lemmas refine
  the whole contract to a list of records: recording appends, pruning filters, every query is a
  slice of a filtered list.
\<close>

record indexer =
  ei_admin :: "address option"
  ei_recorders :: "address list option"
  nextid :: "nat option"
  evcnt :: "nat option"
  evts :: "nat \<rightharpoonup> event_record"
  typidx :: "symbol \<rightharpoonup> nat list"
  actidx :: "address \<rightharpoonup> nat list"
  allids :: "nat list option"
  ei_events :: "event list"

subsection \<open>Storage\<close>

definition load_next_id :: "indexer \<Rightarrow> nat" where
  "load_next_id s = (case nextid s of None \<Rightarrow> 1 | Some n \<Rightarrow> n)"

definition save_next_id :: "nat \<Rightarrow> indexer \<Rightarrow> indexer" where
  "save_next_id n s = s\<lparr>nextid := Some n\<rparr>"

definition load_event_count :: "indexer \<Rightarrow> nat" where
  "load_event_count s = (case evcnt s of None \<Rightarrow> 0 | Some n \<Rightarrow> n)"

definition save_event_count :: "nat \<Rightarrow> indexer \<Rightarrow> indexer" where
  "save_event_count n s = s\<lparr>evcnt := Some n\<rparr>"

definition load_event :: "nat \<Rightarrow> indexer \<Rightarrow> event_record option" where
  "load_event i s = evts s i"

definition save_event :: "event_record \<Rightarrow> indexer \<Rightarrow> indexer" where
  "save_event r s = s\<lparr>evts := (evts s)(er_event_id r \<mapsto> r)\<rparr>"

definition load_type_index :: "symbol \<Rightarrow> indexer \<Rightarrow> nat list" where
  "load_type_index ty s = (case typidx s ty of None \<Rightarrow> [] | Some ids \<Rightarrow> ids)"

definition save_type_index :: "symbol \<Rightarrow> nat list \<Rightarrow> indexer \<Rightarrow> indexer" where
  "save_type_index ty ids s = s\<lparr>typidx := (typidx s)(ty \<mapsto> ids)\<rparr>"

definition load_actor_index :: "address \<Rightarrow> indexer \<Rightarrow> nat list" where
  "load_actor_index a s = (case actidx s a of None \<Rightarrow> [] | Some ids \<Rightarrow> ids)"

definition save_actor_index :: "address \<Rightarrow> nat list \<Rightarrow> indexer \<Rightarrow> indexer" where
  "save_actor_index a ids s = s\<lparr>actidx := (actidx s)(a \<mapsto> ids)\<rparr>"

definition load_all_ids :: "indexer \<Rightarrow> nat list" where
  "load_all_ids s = (case allids s of None \<Rightarrow> [] | Some ids \<Rightarrow> ids)"

definition save_all_ids :: "nat list \<Rightarrow> indexer \<Rightarrow> indexer" where
  "save_all_ids ids s = s\<lparr>allids := Some ids\<rparr>"

subsection \<open>Admin and recorders\<close>

definition indexer_assert_admin :: "env \<Rightarrow> address \<Rightarrow> indexer \<Rightarrow> error + unit" where
  "indexer_assert_admin e caller s =
     bindE (require_auth e caller) (\<lambda>_.
     bindE (fetch (ei_admin s) (Panic ''Not initialized'')) (\<lambda>current.
     ensure (current = caller) (Panic ''Only the current admin can perform this action'')))"

definition indexer_constructor :: "address \<Rightarrow> indexer \<Rightarrow> error + indexer" where
  "indexer_constructor admin s =
     bindE (ensure (ei_admin s = None) (Panic ''Already initialized'')) (\<lambda>_.
     Inr (s\<lparr>ei_admin := Some admin\<rparr>))"

definition indexer_get_admin :: "indexer \<Rightarrow> error + address" where
  "indexer_get_admin s = fetch (ei_admin s) (Panic ''Not initialized'')"

definition indexer_transfer_admin :: "env \<Rightarrow> address \<Rightarrow> address \<Rightarrow> indexer \<Rightarrow> error + indexer" where
  "indexer_transfer_admin e admin new_admin s =
     bindE (indexer_assert_admin e admin s) (\<lambda>_. Inr (s\<lparr>ei_admin := Some new_admin\<rparr>))"

definition get_recorders :: "indexer \<Rightarrow> address list" where
  "get_recorders s = (case ei_recorders s of None \<Rightarrow> [] | Some rs \<Rightarrow> rs)"

definition is_recorder :: "address \<Rightarrow> indexer \<Rightarrow> bool" where
  "is_recorder a s \<longleftrightarrow> list_ex (\<lambda>r. r = a) (get_recorders s)"

definition add_recorder :: "address \<Rightarrow> indexer \<Rightarrow> indexer" where
  "add_recorder a s =
     (if list_ex (\<lambda>r. r = a) (get_recorders s) then s
      else s\<lparr>ei_recorders := Some (get_recorders s @ [a])\<rparr>)"

definition indexer_add_recorder :: "env \<Rightarrow> address \<Rightarrow> address \<Rightarrow> indexer \<Rightarrow> error + indexer" where
  "indexer_add_recorder e admin a s =
     bindE (indexer_assert_admin e admin s) (\<lambda>_. Inr (add_recorder a s))"

definition indexer_is_recorder :: "address \<Rightarrow> indexer \<Rightarrow> bool" where
  "indexer_is_recorder a s = is_recorder a s"

definition indexer_version :: string where
  "indexer_version = ''0.7.0''"

subsection \<open>Recording\<close>

definition record_event ::
  "env \<Rightarrow> address \<Rightarrow> symbol \<Rightarrow> address \<Rightarrow> symbol \<Rightarrow> indexer \<Rightarrow> error + (nat \<times> indexer)" where
  "record_event e caller event_type actor data_key s =
     bindE (require_auth e caller) (\<lambda>_.
     bindE (ensure (is_recorder caller s) (Panic ''Not a registered recorder'')) (\<lambda>_.
     let event_id = load_next_id s;
         timestamp = ledger_timestamp e;
         s = save_event \<lparr>er_event_id = event_id, er_event_type = event_type, er_timestamp = timestamp,
               er_actor = actor, er_contract_id = current_contract e, er_data_key = data_key\<rparr> s;
         s = save_type_index event_type (load_type_index event_type s @ [event_id]) s;
         s = save_actor_index actor (load_actor_index actor s @ [event_id]) s;
         s = save_all_ids (load_all_ids s @ [event_id]) s
     in bindE (add_u64 event_id 1) (\<lambda>n.
        let s = save_next_id n s
        in bindE (add_u64 (load_event_count s) 1) (\<lambda>c.
        let s = save_event_count c s
        in Inr (event_id,
             s\<lparr>ei_events := ei_events s @ [Ev_evt_rec event_id event_type actor timestamp]\<rparr>)))))"

subsection \<open>Queries\<close>

definition get_event :: "nat \<Rightarrow> indexer \<Rightarrow> error + event_record" where
  "get_event i s = fetch (load_event i s) (Panic ''Event not found'')"

text \<open>
  The paging loop of the two index queries: \<open>idx\<close> is the position, \<open>collected\<close> the number of
  records taken so far; it breaks as soon as \<open>limit\<close> records are taken.
\<close>

fun index_page :: "indexer \<Rightarrow> nat \<Rightarrow> nat \<Rightarrow> nat \<Rightarrow> event_record list \<Rightarrow> nat \<Rightarrow> nat list \<Rightarrow> event_record list" where
  "index_page s offset limit idx result collected [] = result"
| "index_page s offset limit idx result collected (i # ids) =
     (let (result, collected) =
        (if offset \<le> idx \<and> collected < limit
         then (case load_event i s of Some r \<Rightarrow> (result @ [r], collected + 1) | None \<Rightarrow> (result, collected))
         else (result, collected))
      in if limit \<le> collected then result
         else index_page s offset limit (Suc idx) result collected ids)"

definition get_events_by_type :: "symbol \<Rightarrow> nat \<Rightarrow> nat \<Rightarrow> indexer \<Rightarrow> event_record list" where
  "get_events_by_type ty offset limit s = index_page s offset limit 0 [] 0 (load_type_index ty s)"

definition get_events_by_type_count :: "symbol \<Rightarrow> indexer \<Rightarrow> nat" where
  "get_events_by_type_count ty s = length (load_type_index ty s)"

fun time_page ::
  "indexer \<Rightarrow> nat \<Rightarrow> nat \<Rightarrow> nat \<Rightarrow> nat \<Rightarrow> nat \<Rightarrow> event_record list \<Rightarrow> nat \<Rightarrow> nat list \<Rightarrow> event_record list" where
  "time_page s start stop offset limit skipped result collected [] = result"
| "time_page s start stop offset limit skipped result collected (i # ids) =
     (let (skipped, result, collected) =
        (case load_event i s of
           Some r \<Rightarrow>
             if start \<le> er_timestamp r \<and> er_timestamp r \<le> stop
             then (if skipped < offset then (skipped + 1, result, collected)
                   else if collected < limit then (skipped, result @ [r], collected + 1)
                   else (skipped, result, collected))
             else (skipped, result, collected)
         | None \<Rightarrow> (skipped, result, collected))
      in if limit \<le> collected then result
         else time_page s start stop offset limit skipped result collected ids)"

definition get_events_by_time ::
  "nat \<Rightarrow> nat \<Rightarrow> nat \<Rightarrow> nat \<Rightarrow> indexer \<Rightarrow> error + event_record list" where
  "get_events_by_time start stop offset limit s =
     bindE (ensure (start \<le> stop) (Panic ''start must be <= end'')) (\<lambda>_.
     Inr (time_page s start stop offset limit 0 [] 0 (load_all_ids s)))"

definition get_events_by_actor :: "address \<Rightarrow> nat \<Rightarrow> nat \<Rightarrow> indexer \<Rightarrow> event_record list" where
  "get_events_by_actor a offset limit s = index_page s offset limit 0 [] 0 (load_actor_index a s)"

definition get_events_by_actor_count :: "address \<Rightarrow> indexer \<Rightarrow> nat" where
  "get_events_by_actor_count a s = length (load_actor_index a s)"

definition get_event_count :: "indexer \<Rightarrow> nat" where
  "get_event_count s = load_event_count s"

subsection \<open>Pruning\<close>

text \<open>The first loop splits the ids that still have a record; the second removes one old record.\<close>

definition prune_split :: "nat \<Rightarrow> indexer \<Rightarrow> nat list \<Rightarrow> nat list \<times> nat list" where
  "prune_split before s ids =
     fold (\<lambda>i (to_prune, kept_ids).
       case load_event i s of
         Some r \<Rightarrow> if er_timestamp r < before then (to_prune @ [i], kept_ids) else (to_prune, kept_ids @ [i])
       | None \<Rightarrow> (to_prune, kept_ids)) ids ([], [])"

definition prune_body :: "nat \<Rightarrow> indexer \<times> nat \<Rightarrow> indexer \<times> nat" where
  "prune_body i = (\<lambda>(s, pruned_count).
     case load_event i s of
       Some r \<Rightarrow>
         let s = save_type_index (er_event_type r) (filter (\<lambda>t. t \<noteq> i) (load_type_index (er_event_type r) s)) s;
             s = save_actor_index (er_actor r) (filter (\<lambda>a. a \<noteq> i) (load_actor_index (er_actor r) s)) s
         in (s\<lparr>evts := (evts s)(i := None)\<rparr>, pruned_count + 1)
     | None \<Rightarrow> (s, pruned_count))"

definition prune_events :: "env \<Rightarrow> address \<Rightarrow> nat \<Rightarrow> indexer \<Rightarrow> error + (nat \<times> indexer)" where
  "prune_events e admin before s =
     bindE (indexer_assert_admin e admin s) (\<lambda>_.
     case prune_split before s (load_all_ids s) of (to_prune, kept_ids) \<Rightarrow>
     case fold prune_body to_prune (s, 0) of (s, pruned_count) \<Rightarrow>
     let s = save_all_ids kept_ids s
     in bindE (sub_u64 (load_event_count s) pruned_count) (\<lambda>c.
        let s = save_event_count c s
        in Inr (pruned_count, s\<lparr>ei_events := ei_events s @ [Ev_evt_prn pruned_count before]\<rparr>)))"

subsection \<open>The index as a log\<close>

lemmas indexer_storage = load_next_id_def save_next_id_def load_event_count_def save_event_count_def
  load_event_def save_event_def load_type_index_def save_type_index_def load_actor_index_def
  save_actor_index_def load_all_ids_def save_all_ids_def

lemma indexer_get_put [simp]:
  "load_type_index t (save_type_index ty ids s) = (if t = ty then ids else load_type_index t s)"
  "load_type_index t (save_actor_index a ids s) = load_type_index t s"
  "load_type_index t (s\<lparr>evts := f\<rparr>) = load_type_index t s"
  "load_actor_index b (save_actor_index a ids s) = (if b = a then ids else load_actor_index b s)"
  "load_actor_index b (save_type_index ty ids s) = load_actor_index b s"
  "load_actor_index b (s\<lparr>evts := f\<rparr>) = load_actor_index b s"
  "load_all_ids (save_all_ids ids s) = ids" "load_all_ids (save_event_count n s) = load_all_ids s"
  "load_all_ids (s\<lparr>ei_events := evs\<rparr>) = load_all_ids s"
  "load_event_count (save_event_count n s) = n" "load_event_count (save_all_ids ids s) = load_event_count s"
  "load_event_count (s\<lparr>ei_events := evs\<rparr>) = load_event_count s"
  "load_next_id (save_event_count n s) = load_next_id s" "load_next_id (save_all_ids ids s) = load_next_id s"
  "load_next_id (s\<lparr>ei_events := evs\<rparr>) = load_next_id s"
  by (simp_all add: indexer_storage)

lemma put_fields:
  "evts (save_all_ids ids s) = evts s" "typidx (save_all_ids ids s) = typidx s" "actidx (save_all_ids ids s) = actidx s"
  "evts (save_event_count n s) = evts s" "typidx (save_event_count n s) = typidx s"
  "actidx (save_event_count n s) = actidx s"
  by (simp_all add: indexer_storage)

lemma filter_absent: "i \<notin> set xs \<Longrightarrow> filter (\<lambda>j. j \<noteq> i) xs = xs"
  by (induction xs) auto

definition event_log :: "indexer \<Rightarrow> event_record list" where
  "event_log s = map (\<lambda>i. the (evts s i)) (load_all_ids s)"

text \<open>The records and both indices describe exactly the ids of the list.\<close>

definition describes :: "nat list \<Rightarrow> indexer \<Rightarrow> bool" where
  "describes ids s \<longleftrightarrow> dom (evts s) = set ids \<and> (\<forall>i r. evts s i = Some r \<longrightarrow> er_event_id r = i) \<and>
     (\<forall>ty. load_type_index ty s = filter (\<lambda>i. er_event_type (the (evts s i)) = ty) ids) \<and>
     (\<forall>a. load_actor_index a s = filter (\<lambda>i. er_actor (the (evts s i)) = a) ids)"

definition indexer_ok :: "indexer \<Rightarrow> bool" where
  "indexer_ok s \<longleftrightarrow> describes (load_all_ids s) s \<and> sorted_wrt (<) (load_all_ids s) \<and>
     (\<forall>i \<in> set (load_all_ids s). i < load_next_id s) \<and> load_event_count s = length (load_all_ids s)"

lemma index_page_eq:
  "(\<forall>i \<in> set ids. evts s i \<noteq> None) \<Longrightarrow>
     index_page s offset limit idx result collected ids =
       result @ take (limit - collected) (drop (offset - idx) (map (\<lambda>i. the (evts s i)) ids))"
proof (induction ids arbitrary: idx result collected)
  case (Cons i ids)
  then obtain r where r: "evts s i = Some r" by auto
  show ?case
  proof (cases "offset \<le> idx")
    case True
    with Cons r show ?thesis
      by (auto simp: load_event_def take_Cons' Suc_diff_Suc not_le Suc_diff_le)
  next
    case False
    then have "offset - idx = Suc (offset - Suc idx)" by simp
    with Cons r False show ?thesis by auto
  qed
qed simp

lemma time_page_eq:
  "(\<forall>i \<in> set ids. evts s i \<noteq> None) \<Longrightarrow>
     time_page s start stop offset limit skipped result collected ids =
       result @ take (limit - collected) (drop (offset - skipped)
         (filter (\<lambda>r. start \<le> er_timestamp r \<and> er_timestamp r \<le> stop) (map (\<lambda>i. the (evts s i)) ids)))"
proof (induction ids arbitrary: skipped result collected)
  case (Cons i ids)
  then obtain r where r: "evts s i = Some r" by auto
  show ?case
  proof (cases "skipped < offset")
    case True
    then have "offset - skipped = Suc (offset - Suc skipped)" by simp
    with Cons r True show ?thesis by (auto simp: load_event_def)
  next
    case False
    with Cons r show ?thesis by (auto simp: load_event_def take_Cons' not_le)
  qed
qed simp

lemma prune_split_eq:
  assumes "\<forall>i \<in> set ids. evts s i \<noteq> None"
  shows "prune_split before s ids =
    (filter (\<lambda>i. er_timestamp (the (evts s i)) < before) ids,
     filter (\<lambda>i. \<not> er_timestamp (the (evts s i)) < before) ids)"
proof -
  have "fold (\<lambda>i (to_prune, kept_ids). case load_event i s of
         Some r \<Rightarrow> if er_timestamp r < before then (to_prune @ [i], kept_ids) else (to_prune, kept_ids @ [i])
       | None \<Rightarrow> (to_prune, kept_ids)) ids (xs, ys) =
    (xs @ filter (\<lambda>i. er_timestamp (the (evts s i)) < before) ids,
     ys @ filter (\<lambda>i. \<not> er_timestamp (the (evts s i)) < before) ids)" for xs ys
    using assms by (induction ids arbitrary: xs ys) (auto simp: load_event_def)
  from this [of "[]" "[]"] show ?thesis by (simp add: prune_split_def)
qed

lemma prune_body_describes:
  assumes "describes ids s" and "i \<in> set ids"
  obtains s' where "prune_body i (s, n) = (s', n + 1)" "describes (filter (\<lambda>j. j \<noteq> i) ids) s'"
    "evts s' = (evts s)(i := None)" "allids s' = allids s" "evcnt s' = evcnt s" "nextid s' = nextid s"
    "ei_admin s' = ei_admin s" "ei_recorders s' = ei_recorders s"
proof -
  from assms have "i \<in> dom (evts s)" by (simp add: describes_def)
  then obtain r where r: "evts s i = Some r" by blast
  let ?s' = "fst (prune_body i (s, n))"
  have run: "prune_body i (s, n) = (?s', n + 1)" by (simp add: prune_body_def r load_event_def Let_def)
  have ev: "evts ?s' = (evts s)(i := None)" by (simp add: prune_body_def r load_event_def Let_def indexer_storage)
  have ty: "load_type_index ty ?s' = filter (\<lambda>j. j \<noteq> i) (load_type_index ty s)" for ty
  proof (cases "ty = er_event_type r")
    case False
    with assms(1) r have "i \<notin> set (load_type_index ty s)" by (auto simp: describes_def)
    with False show ?thesis by (simp add: prune_body_def r load_event_def Let_def filter_absent)
  qed (simp add: prune_body_def r load_event_def Let_def)
  have act: "load_actor_index a ?s' = filter (\<lambda>j. j \<noteq> i) (load_actor_index a s)" for a
  proof (cases "a = er_actor r")
    case False
    with assms(1) r have "i \<notin> set (load_actor_index a s)" by (auto simp: describes_def)
    with False show ?thesis by (simp add: prune_body_def r load_event_def Let_def filter_absent)
  qed (simp add: prune_body_def r load_event_def Let_def)
  have "describes (filter (\<lambda>j. j \<noteq> i) ids) ?s'"
    using assms unfolding describes_def ev ty act
    by (auto simp: dom_def intro!: filter_cong)
  with run ev show ?thesis
    by (intro that [of ?s']) (auto simp: prune_body_def r load_event_def Let_def indexer_storage)
qed

lemma prune_fold_describes:
  assumes "describes ids s" and "distinct ps" and "set ps \<subseteq> set ids"
  obtains s' where "fold prune_body ps (s, n) = (s', n + length ps)"
    "describes (filter (\<lambda>j. j \<notin> set ps) ids) s'" "\<And>j. j \<notin> set ps \<Longrightarrow> evts s' j = evts s j"
    "allids s' = allids s" "evcnt s' = evcnt s" "nextid s' = nextid s"
    "ei_admin s' = ei_admin s" "ei_recorders s' = ei_recorders s"
  using assms
proof (induction ps arbitrary: ids s n thesis)
  case Nil
  then show ?case by simp
next
  case (Cons i ps)
  from prune_body_describes [OF Cons.prems(2), of i n] Cons.prems(4) obtain s1 where
    s1: "prune_body i (s, n) = (s1, n + 1)" "describes (filter (\<lambda>j. j \<noteq> i) ids) s1"
    "evts s1 = (evts s)(i := None)" "allids s1 = allids s" "evcnt s1 = evcnt s" "nextid s1 = nextid s"
    "ei_admin s1 = ei_admin s" "ei_recorders s1 = ei_recorders s" by auto
  show ?case
  proof (rule Cons.IH [OF _ s1(2), of "n + 1"])
    fix s'
    assume s': "fold prune_body ps (s1, n + 1) = (s', n + 1 + length ps)"
      "describes (filter (\<lambda>j. j \<notin> set ps) (filter (\<lambda>j. j \<noteq> i) ids)) s'"
      "\<And>j. j \<notin> set ps \<Longrightarrow> evts s' j = evts s1 j" "allids s' = allids s1" "evcnt s' = evcnt s1"
      "nextid s' = nextid s1" "ei_admin s' = ei_admin s1" "ei_recorders s' = ei_recorders s1"
    have "filter (\<lambda>j. j \<notin> set ps) (filter (\<lambda>j. j \<noteq> i) ids) = filter (\<lambda>j. j \<notin> set (i # ps)) ids"
      by (auto intro: filter_cong)
    with s' s1 show thesis
      by (intro Cons.prems(1) [of s']) auto
  qed (use Cons.prems in auto)
qed

subsection \<open>Recording and pruning\<close>

lemma record_event_ok:
  assumes "record_event e c ty a k s = Inr (i, s')" and "indexer_ok s"
  defines "r \<equiv> \<lparr>er_event_id = i, er_event_type = ty, er_timestamp = ledger_timestamp e, er_actor = a,
    er_contract_id = current_contract e, er_data_key = k\<rparr>"
  shows "i = load_next_id s" "is_recorder c s" "authorizes e c" "indexer_ok s'" "event_log s' = event_log s @ [r]"
    "i \<notin> set (load_all_ids s)" "load_next_id s' = i + 1"
proof -
  from assms(1) have run: "i = load_next_id s" "is_recorder c s" "authorizes e c"
    "evts s' = (evts s)(i \<mapsto> r)" "\<And>t. load_type_index t s' = load_type_index t s @ (if t = ty then [i] else [])"
    "\<And>b. load_actor_index b s' = load_actor_index b s @ (if b = a then [i] else [])"
    "load_all_ids s' = load_all_ids s @ [i]" "load_next_id s' = i + 1" "load_event_count s' = load_event_count s + 1"
    unfolding r_def by (auto simp: record_event_def Let_def ok indexer_storage)
  have fresh: "i \<notin> set (load_all_ids s)" using assms(2) run(1) by (auto simp: indexer_ok_def)
  then have old: "((evts s)(i \<mapsto> r)) j = evts s j" if "j \<in> set (load_all_ids s)" for j
    using that by auto
  have "describes (load_all_ids s @ [i]) s'"
    using assms(2) fresh unfolding indexer_ok_def describes_def run(4-6)
    by (auto simp: r_def intro!: filter_cong)
  with assms(2) show "indexer_ok s'"
    unfolding indexer_ok_def run(7-9) by (auto simp: sorted_wrt_append run(1) intro: less_SucI)
  show "event_log s' = event_log s @ [r]"
    using old by (simp add: event_log_def run(4,7))
  show "i = load_next_id s" "is_recorder c s" "authorizes e c" "i \<notin> set (load_all_ids s)" "load_next_id s' = i + 1"
    by (rule run fresh)+
qed

lemma prune_events_ok:
  assumes "prune_events e adm before s = Inr (n, s')" and "indexer_ok s"
  shows "indexer_ok s'" "event_log s' = filter (\<lambda>r. before \<le> er_timestamp r) (event_log s)"
    "n = length (filter (\<lambda>r. er_timestamp r < before) (event_log s))" "ei_admin s = Some adm" "authorizes e adm"
    "load_next_id s' = load_next_id s"
proof -
  let ?L = "load_all_ids s"
  let ?old = "\<lambda>i. er_timestamp (the (evts s i)) < before"
  have L: "describes ?L s" "distinct ?L" "load_event_count s = length ?L" "sorted_wrt (<) ?L"
    "\<forall>i \<in> set ?L. i < load_next_id s"
    using assms(2) by (auto simp: indexer_ok_def strict_sorted_iff)
  from L(1) have "set ?L = dom (evts s)" by (simp add: describes_def)
  then have stored: "\<forall>i \<in> set ?L. evts s i \<noteq> None" by auto
  obtain s1 where s1: "fold prune_body (filter ?old ?L) (s, 0) = (s1, 0 + length (filter ?old ?L))"
    "describes (filter (\<lambda>j. j \<notin> set (filter ?old ?L)) ?L) s1"
    "\<And>j. j \<notin> set (filter ?old ?L) \<Longrightarrow> evts s1 j = evts s j"
    "evcnt s1 = evcnt s" "nextid s1 = nextid s"
    by (rule prune_fold_describes [OF L(1), of "filter ?old ?L" 0]) (use L(2) in auto)
  have kept: "filter (\<lambda>j. j \<notin> set (filter ?old ?L)) ?L = filter (\<lambda>i. \<not> ?old i) ?L"
    by (auto intro: filter_cong)
  from assms(1) have run: "ei_admin s = Some adm" "authorizes e adm" "n = length (filter ?old ?L)"
    "load_all_ids s' = filter (\<lambda>i. \<not> ?old i) ?L" "evts s' = evts s1" "typidx s' = typidx s1" "actidx s' = actidx s1"
    "load_event_count s' = load_event_count s - length (filter ?old ?L)" "load_next_id s' = load_next_id s"
    using s1(1,4,5) by (auto simp: prune_events_def ok indexer_assert_admin_def prune_split_eq [OF stored] Let_def
        load_event_count_def [of s1] load_next_id_def [of s1] load_event_count_def [of s, symmetric]
        load_next_id_def [of s, symmetric] put_fields)
  from run show "ei_admin s = Some adm" "authorizes e adm" "load_next_id s' = load_next_id s" by auto
  have "describes (filter (\<lambda>i. \<not> ?old i) ?L) s'"
    using s1(2) unfolding kept describes_def load_type_index_def load_actor_index_def run(5-7) .
  moreover have "length ?L = length (filter ?old ?L) + length (filter (\<lambda>i. \<not> ?old i) ?L)"
    by (simp add: sum_length_filter_compl)
  ultimately show "indexer_ok s'"
    using L by (auto simp: indexer_ok_def run(4,8,9) sorted_wrt_filter)
  have "map (\<lambda>i. the (evts s1 i)) (filter (\<lambda>i. \<not> ?old i) ?L) = map (\<lambda>i. the (evts s i)) (filter (\<lambda>i. \<not> ?old i) ?L)"
    using s1(3) by auto
  then show "event_log s' = filter (\<lambda>r. before \<le> er_timestamp r) (event_log s)"
    by (simp add: event_log_def run(4,5) filter_map o_def not_less)
  show "n = length (filter (\<lambda>r. er_timestamp r < before) (event_log s))"
    by (simp add: run(3) event_log_def filter_map o_def)
qed

lemma add_recorder_sel [simp]:
  "evts (add_recorder a s) = evts s" "typidx (add_recorder a s) = typidx s" "actidx (add_recorder a s) = actidx s"
  "allids (add_recorder a s) = allids s" "nextid (add_recorder a s) = nextid s" "evcnt (add_recorder a s) = evcnt s"
  by (simp_all add: add_recorder_def)

lemma indexer_ok_cong:
  "evts s' = evts s \<Longrightarrow> typidx s' = typidx s \<Longrightarrow> actidx s' = actidx s \<Longrightarrow> allids s' = allids s \<Longrightarrow>
     nextid s' = nextid s \<Longrightarrow> evcnt s' = evcnt s \<Longrightarrow> indexer_ok s' = indexer_ok s"
  by (simp add: indexer_ok_def describes_def indexer_storage)

inductive indexer_step :: "indexer \<Rightarrow> indexer \<Rightarrow> bool" where
  ei_record: "record_event e c ty a k s = Inr (i, s') \<Longrightarrow> indexer_step s s'"
| ei_prune: "prune_events e adm before s = Inr (n, s') \<Longrightarrow> indexer_step s s'"
| ei_add: "indexer_add_recorder e adm a s = Inr s' \<Longrightarrow> indexer_step s s'"
| ei_transfer: "indexer_transfer_admin e adm a s = Inr s' \<Longrightarrow> indexer_step s s'"

definition empty_indexer :: indexer where
  "empty_indexer = \<lparr>ei_admin = None, ei_recorders = None, nextid = None, evcnt = None, evts = Map.empty,
     typidx = Map.empty, actidx = Map.empty, allids = None, ei_events = []\<rparr>"

definition indexer_start :: "indexer \<Rightarrow> bool" where
  "indexer_start s \<longleftrightarrow> (\<exists>adm. indexer_constructor adm empty_indexer = Inr s)"

interpretation indexer_system: invariant_system indexer_start indexer_step indexer_ok
proof
  show "indexer_ok s" if "indexer_start s" for s
    using that by (auto simp: indexer_start_def indexer_constructor_def ok empty_indexer_def indexer_ok_def
        describes_def indexer_storage)
  show "indexer_ok s'" if inv: "indexer_ok s" and step: "indexer_step s s'" for s s'
    using step
  proof cases
    case (ei_add e adm a)
    then show ?thesis using inv
      by (subst indexer_ok_cong [of _ s]) (auto simp: indexer_add_recorder_def ok)
  next
    case (ei_transfer e adm a)
    then show ?thesis using inv
      by (subst indexer_ok_cong [of _ s]) (auto simp: indexer_transfer_admin_def ok)
  qed (use inv record_event_ok(4) prune_events_ok(1) in blast)+
qed

text \<open>
  C19. The index is an append-only log: in every reachable state a successful \<open>record_event\<close> was called by
  a registered recorder, returns an id greater than every id in the log, and the log afterwards is
  the log before with exactly the new record at its end.
\<close>

theorem recording_appends:
  assumes "reach indexer_start indexer_step s" and "record_event e c ty a k s = Inr (i, s')"
  shows "c \<in> set (get_recorders s) \<and> authorizes e c \<and> (\<forall>r \<in> set (event_log s). er_event_id r < i) \<and>
    event_log s' = event_log s @ [\<lparr>er_event_id = i, er_event_type = ty, er_timestamp = ledger_timestamp e,
      er_actor = a, er_contract_id = current_contract e, er_data_key = k\<rparr>]"
proof -
  have inv: "indexer_ok s" using indexer_system.reach_inv [OF assms(1)] .
  then have "er_event_id r < load_next_id s" if r: "r \<in> set (event_log s)" for r
  proof -
    from r obtain j where j: "j \<in> set (load_all_ids s)" "r = the (evts s j)" by (auto simp: event_log_def)
    with inv have "j \<in> dom (evts s)" by (simp add: indexer_ok_def describes_def)
    then obtain r' where "evts s j = Some r'" by blast
    with j inv show ?thesis by (auto simp: indexer_ok_def describes_def)
  qed
  with record_event_ok [OF assms(2) inv] show ?thesis
    by (auto simp: is_recorder_def list_ex_iff)
qed

definition demo_indexer :: indexer where
  "demo_indexer = empty_indexer\<lparr>ei_admin := Some (Address 9), ei_recorders := Some [Address 5]\<rparr>"

definition one_event :: indexer where
  "one_event = demo_indexer\<lparr>evts := [1 \<mapsto> \<lparr>er_event_id = 1, er_event_type = Symbol ''reg'', er_timestamp = 10,
       er_actor = Address 2, er_contract_id = Address 105, er_data_key = Symbol ''k''\<rparr>],
     typidx := [Symbol ''reg'' \<mapsto> [1]], actidx := [Address 2 \<mapsto> [1]], allids := Some [1],
     nextid := Some 2, evcnt := Some 1, ei_events := [Ev_evt_rec 1 (Symbol ''reg'') (Address 2) 10]\<rparr>"

lemma reach_demo_indexer: "reach indexer_start indexer_step demo_indexer"
proof -
  let ?s = "empty_indexer\<lparr>ei_admin := Some (Address 9)\<rparr>"
  have "indexer_start ?s" by (auto simp: indexer_start_def indexer_constructor_def empty_indexer_def ok)
  moreover have "indexer_add_recorder (demo_env 1 (Address 105)) (Address 9) (Address 5) ?s = Inr demo_indexer"
    by (simp add: indexer_add_recorder_def indexer_assert_admin_def require_auth_def add_recorder_def
        get_recorders_def demo_indexer_def empty_indexer_def)
  ultimately show ?thesis by (blast intro: reach_step reach_init ei_add)
qed

lemma record_demo:
  "record_event (demo_env 10 (Address 105)) (Address 5) (Symbol ''reg'') (Address 2) (Symbol ''k'') demo_indexer =
     Inr (1, one_event)"
  by (simp add: record_event_def require_auth_def is_recorder_def get_recorders_def demo_indexer_def
      empty_indexer_def one_event_def indexer_storage Let_def add_u64_def)

lemma recording_appends_witness:
  "event_log one_event = [\<lparr>er_event_id = 1, er_event_type = Symbol ''reg'', er_timestamp = 10,
     er_actor = Address 2, er_contract_id = Address 105, er_data_key = Symbol ''k''\<rparr>]"
  using recording_appends [OF reach_demo_indexer record_demo]
  by (simp add: event_log_def load_all_ids_def demo_indexer_def empty_indexer_def)

text \<open>
  Pruning is exact: in every reachable state a successful \<open>prune_events\<close> was called by the admin; it
  keeps precisely the records that are not older than the threshold, in their order, reports the
  number it removed, and the event count afterwards is the number of records left.
\<close>

theorem prune_exact:
  assumes "reach indexer_start indexer_step s" and "prune_events e adm before s = Inr (n, s')"
  shows "indexer_get_admin s = Inr adm \<and> authorizes e adm \<and>
    event_log s' = filter (\<lambda>r. before \<le> er_timestamp r) (event_log s) \<and>
    n = length (event_log s) - length (event_log s') \<and> get_event_count s' = length (event_log s')"
proof -
  have inv: "indexer_ok s" using indexer_system.reach_inv [OF assms(1)] .
  note run = prune_events_ok [OF assms(2) inv]
  have "length (event_log s) = length (filter (\<lambda>r. er_timestamp r < before) (event_log s)) +
      length (filter (\<lambda>r. \<not> er_timestamp r < before) (event_log s))" by (simp add: sum_length_filter_compl)
  moreover have "get_event_count s' = length (event_log s')"
    using run(1) by (simp add: indexer_ok_def event_log_def get_event_count_def)
  ultimately show ?thesis using run(2-5) by (simp add: indexer_get_admin_def not_less)
qed

lemma prune_exact_witness:
  "\<exists>s'. prune_events (demo_env 20 (Address 105)) (Address 9) 15 one_event = Inr (1, s') \<and> event_log s' = []"
proof -
  let ?e = "demo_env 20 (Address 105)"
  have reach: "reach indexer_start indexer_step one_event"
    by (rule reach_step [OF reach_demo_indexer ei_record [OF record_demo]])
  obtain s' where s': "prune_events ?e (Address 9) 15 one_event = Inr (1, s')"
    by (simp add: prune_events_def prune_split_def prune_body_def indexer_assert_admin_def require_auth_def
        indexer_storage one_event_def demo_indexer_def empty_indexer_def Let_def sub_u64_def)
  moreover have "event_log s' = []"
    using prune_exact [OF reach s']
    by (simp add: event_log_def load_all_ids_def one_event_def demo_indexer_def empty_indexer_def)
  ultimately show ?thesis by blast
qed

text \<open>
  C20. Queries read the log: in every reachable state the paginated queries by type, by actor and by time
  range return exactly the requested slice of the matching records in log order, the two counts
  count all matching records, \<open>get_event\<close> finds a record exactly when it is in the log, and the
  event count is the length of the log.
\<close>

theorem queries_read_the_log:
  assumes "reach indexer_start indexer_step s"
  shows "get_events_by_type ty off lim s = take lim (drop off [r \<leftarrow> event_log s. er_event_type r = ty]) \<and>
    get_events_by_actor a off lim s = take lim (drop off [r \<leftarrow> event_log s. er_actor r = a]) \<and>
    get_events_by_time t1 t2 off lim s = (if t1 \<le> t2
      then Inr (take lim (drop off [r \<leftarrow> event_log s. t1 \<le> er_timestamp r \<and> er_timestamp r \<le> t2]))
      else Inl (Panic ''start must be <= end'')) \<and>
    get_events_by_type_count ty s = length [r \<leftarrow> event_log s. er_event_type r = ty] \<and>
    get_events_by_actor_count a s = length [r \<leftarrow> event_log s. er_actor r = a] \<and>
    (get_event i s = Inr r \<longleftrightarrow> r \<in> set (event_log s) \<and> er_event_id r = i) \<and>
    get_event_count s = length (event_log s)"
proof -
  have inv: "indexer_ok s" using indexer_system.reach_inv [OF assms] .
  then have d: "dom (evts s) = set (load_all_ids s)" "\<And>i r. evts s i = Some r \<Longrightarrow> er_event_id r = i"
    "load_type_index ty s = filter (\<lambda>i. er_event_type (the (evts s i)) = ty) (load_all_ids s)"
    "load_actor_index a s = filter (\<lambda>i. er_actor (the (evts s i)) = a) (load_all_ids s)"
    by (auto simp: indexer_ok_def describes_def)
  then have stored: "\<forall>i \<in> set (load_all_ids s). evts s i \<noteq> None" by blast
  have get: "get_event i s = Inr r \<longleftrightarrow> r \<in> set (event_log s) \<and> er_event_id r = i"
    using d(2) stored d(1) by (force simp: get_event_def ok load_event_def event_log_def)
  show ?thesis
    using stored inv get
    by (simp add: get_events_by_type_def get_events_by_actor_def get_events_by_time_def index_page_eq time_page_eq
        d(3,4) event_log_def filter_map o_def get_events_by_type_count_def get_events_by_actor_count_def
        get_event_count_def indexer_ok_def ensure_def)
qed

lemma queries_read_the_log_witness:
  "get_events_by_type (Symbol ''reg'') 0 5 one_event = event_log one_event \<and>
   get_events_by_time 11 20 0 5 one_event = Inr []"
proof -
  have reach: "reach indexer_start indexer_step one_event"
    by (rule reach_step [OF reach_demo_indexer ei_record [OF record_demo]])
  show ?thesis
    using queries_read_the_log [OF reach, of "Symbol ''reg''" 0 5 "Address 2" 11 20]
    by (simp add: event_log_def load_all_ids_def one_event_def demo_indexer_def empty_indexer_def)
qed

end
