(* ===== verification/Verification.thy ===== *)
theory Verification
  imports Registry
begin

text \<open>
  The verification oracle of \<open>registry/src/lib.rs\<close>: the trusted verifier set, attestations with a
  derived expiry, the fee, the m-of-n status of a fact, and the eviction that keeps an invoice's
  list below its cap. \<open>oracle_ok\<close> is the invariant its operations keep; the token contract that
  settles the fee is the parameter \<open>T\<close>.
\<close>

subsection \<open>Status\<close>

definition load_verifications :: "symbol \<Rightarrow> registry \<Rightarrow> attestation list" where
  "load_verifications x s = (case verifs s x of None \<Rightarrow> [] | Some l \<Rightarrow> l)"

definition save_verifications :: "symbol \<Rightarrow> attestation list \<Rightarrow> registry \<Rightarrow> registry" where
  [simp]: "save_verifications x l s = s\<lparr>verifs := (verifs s)(x \<mapsto> l)\<rparr>"

definition load_verifiers :: "registry \<Rightarrow> address list" where
  [simp]: "load_verifiers s = verifrs s"

definition save_verifiers :: "address list \<Rightarrow> registry \<Rightarrow> registry" where
  [simp]: "save_verifiers l s = s\<lparr>verifrs := l\<rparr>"

definition effective_status :: "attestation \<Rightarrow> nat \<Rightarrow> verification_status" where
  "effective_status a now =
     (if at_status a \<noteq> VerExpired \<and> now > at_valid_until a then VerExpired else at_status a)"

text \<open>The loop of \<open>type_status\<close> with its accumulators \<open>approvals\<close>, \<open>rejected\<close>, \<open>expired\<close>, \<open>seen\<close>.\<close>

definition type_body ::
  "address list \<Rightarrow> verification_type \<Rightarrow> nat \<Rightarrow> attestation \<Rightarrow> nat \<times> bool \<times> bool \<times> bool \<Rightarrow>
     nat \<times> bool \<times> bool \<times> bool" where
  "type_body trusted v_type now a = (\<lambda>(approvals, rejected, expired, seen).
     if at_type a \<noteq> v_type \<or> \<not> list_ex (\<lambda>entry. entry = at_verifier a) trusted
     then (approvals, rejected, expired, seen)
     else (case effective_status a now of
         VerVerified \<Rightarrow> (approvals + 1, rejected, expired, True)
       | VerRejected \<Rightarrow> (approvals, True, expired, True)
       | VerExpired \<Rightarrow> (approvals, rejected, True, True)
       | VerPending \<Rightarrow> (approvals, rejected, expired, True)))"

definition type_status ::
  "attestation list \<Rightarrow> verification_type \<Rightarrow> nat \<Rightarrow> nat \<Rightarrow> registry \<Rightarrow> verification_status" where
  "type_status attestations v_type thr now s =
     (case fold (type_body (load_verifiers s) v_type now) attestations (0, False, False, False) of
        (approvals, rejected, expired, seen) \<Rightarrow>
          if \<not> seen then VerPending
          else if rejected then VerRejected
          else if thr \<le> approvals then VerVerified
          else if expired \<and> approvals = 0 then VerExpired
          else VerPending)"

fun first_index :: "('a \<Rightarrow> bool) \<Rightarrow> nat \<Rightarrow> 'a list \<Rightarrow> nat option" where
  "first_index P idx [] = None"
| "first_index P idx (x # xs) = (if P x then Some idx else first_index P (Suc idx) xs)"

definition evict_one_slot :: "attestation list \<Rightarrow> nat \<Rightarrow> registry \<Rightarrow> error + attestation list" where
  "evict_one_slot list now s =
     (let trusted = load_verifiers s;
          is_trusted = (\<lambda>who. list_ex (\<lambda>entry. entry = who) trusted);
          victim = first_index (\<lambda>a. \<not> is_trusted (at_verifier a)) 0 list;
          victim = (if victim = None
                    then first_index (\<lambda>a. effective_status a now = VerExpired) 0 list
                    else victim)
      in bindE (fetch victim (Contract InvalidTransition)) (\<lambda>idx.
         Inr (map snd (filter (\<lambda>(i, a). i \<noteq> idx) (enumerate 0 list)))))"

subsection \<open>Verifier set and parameters\<close>

definition add_verifier :: "env \<Rightarrow> address list \<Rightarrow> address \<Rightarrow> registry \<Rightarrow> error + registry" where
  "add_verifier e sgs verifier s =
     bindE (assert_not_paused s) (\<lambda>_.
     bindE (assert_admin e sgs s) (\<lambda>_.
     let verifiers = load_verifiers s in
     if list_ex (\<lambda>existing. existing = verifier) verifiers then Inr s
     else bindE (ensure (\<not> length verifiers \<ge> MAX_VERIFIERS) (Contract InvalidInput)) (\<lambda>_.
          Inr (save_verifiers (verifiers @ [verifier]) s))))"

definition remove_verifier :: "env \<Rightarrow> address list \<Rightarrow> address \<Rightarrow> registry \<Rightarrow> error + registry" where
  "remove_verifier e sgs verifier s =
     bindE (assert_not_paused s) (\<lambda>_.
     bindE (assert_admin e sgs s) (\<lambda>_.
     Inr (save_verifiers (filter (\<lambda>existing. existing \<noteq> verifier) (load_verifiers s)) s)))"

definition get_verifiers :: "registry \<Rightarrow> address list" where
  "get_verifiers s = load_verifiers s"

definition is_verifier :: "address \<Rightarrow> registry \<Rightarrow> bool" where
  "is_verifier a s = list_ex (\<lambda>existing. existing = a) (load_verifiers s)"

definition set_verifier_threshold :: "env \<Rightarrow> address list \<Rightarrow> nat \<Rightarrow> registry \<Rightarrow> error + registry" where
  "set_verifier_threshold e sgs thr s =
     bindE (assert_not_paused s) (\<lambda>_.
     bindE (assert_admin e sgs s) (\<lambda>_.
     bindE (ensure (\<not> (thr = 0 \<or> thr > MAX_VERIFIERS)) (Contract InvalidInput)) (\<lambda>_.
     Inr (s\<lparr>verthr := Some thr\<rparr>))))"

definition get_verifier_threshold :: "registry \<Rightarrow> nat" where
  "get_verifier_threshold s = (case verthr s of None \<Rightarrow> 1 | Some n \<Rightarrow> n)"

definition set_verification_fee :: "env \<Rightarrow> address list \<Rightarrow> nat \<Rightarrow> registry \<Rightarrow> error + registry" where
  "set_verification_fee e sgs fee_bps s =
     bindE (assert_not_paused s) (\<lambda>_.
     bindE (assert_admin e sgs s) (\<lambda>_.
     bindE (ensure (\<not> fee_bps > MAX_VERIFICATION_FEE_BPS) (Contract InvalidInput)) (\<lambda>_.
     Inr (s\<lparr>verfee := Some fee_bps\<rparr>))))"

definition get_verification_fee :: "registry \<Rightarrow> nat" where
  "get_verification_fee s = (case verfee s of None \<Rightarrow> 0 | Some n \<Rightarrow> n)"

definition set_attestation_validity :: "env \<Rightarrow> address list \<Rightarrow> nat \<Rightarrow> registry \<Rightarrow> error + registry" where
  "set_attestation_validity e sgs validity_secs s =
     bindE (assert_not_paused s) (\<lambda>_.
     bindE (assert_admin e sgs s) (\<lambda>_.
     bindE (ensure (MIN_ATTESTATION_VALIDITY_SECS \<le> validity_secs \<and>
                    validity_secs \<le> MAX_ATTESTATION_VALIDITY_SECS) (Contract InvalidInput)) (\<lambda>_.
     Inr (s\<lparr>vervld := Some validity_secs\<rparr>))))"

definition get_attestation_validity :: "registry \<Rightarrow> nat" where
  "get_attestation_validity s =
     (case vervld s of None \<Rightarrow> DEFAULT_ATTESTATION_VALIDITY_SECS | Some n \<Rightarrow> n)"

definition registry_register_currency ::
  "env \<Rightarrow> address list \<Rightarrow> symbol \<Rightarrow> address \<Rightarrow> registry \<Rightarrow> error + registry" where
  "registry_register_currency e sgs currency token_addr s =
     bindE (assert_not_paused s) (\<lambda>_.
     bindE (assert_admin e sgs s) (\<lambda>_.
     Inr (register_currency_token currency token_addr s)))"

definition fee_for :: "int \<Rightarrow> registry \<Rightarrow> error + int" where
  "fee_for invoice_amount s =
     (let fee_bps = get_verification_fee s
      in if fee_bps = 0 then Inr 0
         else bindE (ensure (in_i128 (invoice_amount * int fee_bps)) (Contract InvalidInput)) (\<lambda>_.
              Inr ((invoice_amount * int fee_bps) sdiv 10000)))"

definition calculate_verification_fee :: "symbol \<Rightarrow> registry \<Rightarrow> error + int" where
  "calculate_verification_fee x s = bindE (get_invoice x s) (\<lambda>invoice. fee_for (inv_amount invoice) s)"

subsection \<open>Attesting\<close>

definition charge_verification_fee ::
  "'t sep41 \<Rightarrow> env \<Rightarrow> invoice \<Rightarrow> address \<Rightarrow> registry \<Rightarrow> 't \<Rightarrow> error + (int \<times> 't)" where
  "charge_verification_fee T e invoice verifier s t =
     bindE (fee_for (inv_amount invoice) s) (\<lambda>fee.
     if fee > 0
     then bindE (fetch (get_currency_token (inv_currency invoice) s)
            (Panic ''Verification fee token not configured for currency'')) (\<lambda>token_addr.
          bindE (tk_transfer_from T e token_addr (current_contract e) (inv_originator invoice)
                   verifier fee t) (\<lambda>t. Inr (fee, t)))
     else Inr (fee, t))"

definition record_attestation ::
  "symbol \<Rightarrow> attestation \<Rightarrow> attestation list \<Rightarrow> int \<Rightarrow> verification_status \<Rightarrow> nat \<Rightarrow> nat \<Rightarrow>
     registry \<Rightarrow> registry" where
  "record_attestation x attestation updated fee status_before thr now s =
     (let updated = updated @ [attestation];
          v_type = at_type attestation;
          s = save_verifications x updated s;
          s = publish (Ev_ver_sub x (at_verifier attestation) v_type (at_hash attestation)
                (at_valid_until attestation) fee) s;
          status_after = type_status updated v_type thr now s
      in if status_after \<noteq> status_before \<and>
            (status_after = VerVerified \<or> status_after = VerRejected)
         then publish (Ev_ver_done x v_type status_after) s else s)"

definition attest ::
  "'t sep41 \<Rightarrow> env \<Rightarrow> symbol \<Rightarrow> address \<Rightarrow> verification_type \<Rightarrow> bytes32 \<Rightarrow> bool \<Rightarrow>
     registry \<times> 't \<Rightarrow> error + (attestation \<times> registry \<times> 't)" where
  "attest T e x verifier v_type hash approved = (\<lambda>(s, t).
     bindE (assert_not_paused s) (\<lambda>_.
     bindE (require_auth e verifier) (\<lambda>_.
     bindE (ensure (is_verifier verifier s) (Contract Unauthorized)) (\<lambda>_.
     bindE (get_invoice x s) (\<lambda>invoice.
     bindE (ensure (\<not> (inv_status invoice \<noteq> InvPending \<and> inv_status invoice \<noteq> InvFinanced))
       (Contract InvalidTransition)) (\<lambda>_.
     let now = ledger_timestamp e;
         thr = get_verifier_threshold s;
         attestations = load_verifications x s;
         status_before = type_status attestations v_type thr now s in
     bindE (charge_verification_fee T e invoice verifier s t) (\<lambda>(fee, t).
     let attestation =
           \<lparr>at_verifier = verifier, at_type = v_type, at_hash = hash, at_timestamp = now,
            at_valid_until = sat_add_u64 now (get_attestation_validity s),
            at_status = (if approved then VerVerified else VerRejected)\<rparr>;
         updated = filter (\<lambda>existing. \<not> (at_verifier existing = verifier \<and> at_type existing = v_type))
                     attestations in
     bindE (if length updated \<ge> MAX_ATTESTATIONS_PER_INVOICE then evict_one_slot updated now s
            else Inr updated) (\<lambda>updated.
     Inr (attestation, record_attestation x attestation updated fee status_before thr now s, t)))))))))"

definition get_verifications :: "symbol \<Rightarrow> registry \<Rightarrow> attestation list" where
  "get_verifications x s = load_verifications x s"

definition get_verification_status ::
  "env \<Rightarrow> symbol \<Rightarrow> verification_type \<Rightarrow> registry \<Rightarrow> verification_status" where
  "get_verification_status e x v_type s =
     type_status (load_verifications x s) v_type (get_verifier_threshold s) (ledger_timestamp e) s"

text \<open>The loop over the types: \<open>Inl\<close> is the early return of a rejection.\<close>

fun invoice_status_loop ::
  "(verification_type \<Rightarrow> verification_status) \<Rightarrow> bool \<Rightarrow> bool \<Rightarrow> verification_type list \<Rightarrow>
     verification_status" where
  "invoice_status_loop st all_verified any_expired [] =
     (if all_verified then VerVerified else if any_expired then VerExpired else VerPending)"
| "invoice_status_loop st all_verified any_expired (ty # tys) =
     (case st ty of
        VerRejected \<Rightarrow> VerRejected
      | VerVerified \<Rightarrow> invoice_status_loop st all_verified any_expired tys
      | VerExpired \<Rightarrow> invoice_status_loop st False True tys
      | VerPending \<Rightarrow> invoice_status_loop st False any_expired tys)"

definition get_invoice_verification_status :: "env \<Rightarrow> symbol \<Rightarrow> registry \<Rightarrow> verification_status" where
  "get_invoice_verification_status e x s =
     invoice_status_loop (\<lambda>ty. type_status (load_verifications x s) ty (get_verifier_threshold s)
       (ledger_timestamp e) s) True False VERIFICATION_TYPES"

definition expire_body ::
  "symbol \<Rightarrow> nat \<Rightarrow> attestation \<Rightarrow> attestation list \<times> nat \<times> registry \<Rightarrow>
     attestation list \<times> nat \<times> registry" where
  "expire_body x now a = (\<lambda>(updated, newly_expired, s).
     if effective_status a now = VerExpired \<and> at_status a \<noteq> VerExpired
     then (updated @ [a\<lparr>at_status := VerExpired\<rparr>], newly_expired + 1,
           publish (Ev_ver_exp x (at_verifier a) (at_type a) (at_valid_until a)) s)
     else (updated @ [a], newly_expired, s))"

definition expire_verifications :: "env \<Rightarrow> symbol \<Rightarrow> registry \<Rightarrow> error + (nat \<times> registry)" where
  "expire_verifications e x s =
     bindE (assert_not_paused s) (\<lambda>_.
     let attestations = load_verifications x s in
     bindE (ensure (\<not> attestations = []) (Contract NotFound)) (\<lambda>_.
     case fold (expire_body x (ledger_timestamp e)) attestations ([], 0, s) of
       (updated, newly_expired, s) \<Rightarrow>
         Inr (newly_expired, if newly_expired > 0 then save_verifications x updated s else s)))"

subsection \<open>What the status means\<close>

text \<open>The attestations that vote on a type: the right type, by a verifier trusted now.\<close>

definition votes :: "address list \<Rightarrow> verification_type \<Rightarrow> attestation list \<Rightarrow> attestation list" where
  "votes trusted ty l = filter (\<lambda>a. at_type a = ty \<and> at_verifier a \<in> set trusted) l"

definition live :: "verification_status \<Rightarrow> nat \<Rightarrow> attestation list \<Rightarrow> attestation list" where
  "live st now l = filter (\<lambda>a. effective_status a now = st) l"

lemma type_loop_eq:
  "fold (type_body trusted ty now) l (n, r, x, sn) =
     (n + length (live VerVerified now (votes trusted ty l)),
      r \<or> live VerRejected now (votes trusted ty l) \<noteq> [],
      x \<or> live VerExpired now (votes trusted ty l) \<noteq> [],
      sn \<or> votes trusted ty l \<noteq> [])"
  by (induction l arbitrary: n r x sn)
    (auto simp: type_body_def votes_def live_def list_ex_iff split: verification_status.split)

lemma type_status_eq:
  "type_status l ty thr now s =
     (let v = votes (verifrs s) ty l in
      if v = [] then VerPending
      else if live VerRejected now v \<noteq> [] then VerRejected
      else if thr \<le> length (live VerVerified now v) then VerVerified
      else if live VerExpired now v \<noteq> [] \<and> live VerVerified now v = [] then VerExpired
      else VerPending)"
  by (simp add: type_status_def type_loop_eq Let_def)

lemma type_status_cong:
  "votes (verifrs s) ty l = votes (verifrs s') ty l' \<Longrightarrow>
     type_status l ty thr now s = type_status l' ty thr now s'"
  by (simp add: type_status_eq)

subsection \<open>The invariant\<close>

definition one_per_key :: "attestation list \<Rightarrow> bool" where
  "one_per_key l \<longleftrightarrow> distinct (map (\<lambda>a. (at_verifier a, at_type a)) l)"

definition oracle_ok :: "registry \<Rightarrow> bool" where
  "oracle_ok s \<longleftrightarrow>
     distinct (verifrs s) \<and> length (verifrs s) \<le> MAX_VERIFIERS \<and>
     1 \<le> get_verifier_threshold s \<and> get_verifier_threshold s \<le> MAX_VERIFIERS \<and>
     (\<forall>x. one_per_key (load_verifications x s) \<and>
          length (load_verifications x s) \<le> MAX_ATTESTATIONS_PER_INVOICE)"

lemma first_index_Some:
  "first_index P n xs = Some i \<Longrightarrow> n \<le> i \<and> i < n + length xs \<and> P (xs ! (i - n))"
  by (induction P n xs rule: first_index.induct) (auto split: if_splits simp: nth_Cons')

lemma first_index_None: "first_index P n xs = None \<longleftrightarrow> (\<forall>x \<in> set xs. \<not> P x)"
  by (induction P n xs rule: first_index.induct) auto

lemma remove_index_eq:
  "map snd (filter (\<lambda>(i, a). i \<noteq> v) (enumerate n xs)) =
     (if n \<le> v then take (v - n) xs @ drop (Suc (v - n)) xs else xs)"
proof (induction xs arbitrary: n)
  case (Cons x xs)
  show ?case
  proof (cases "v - n")
    case (Suc k)
    then have "v - Suc n = k" by simp
    with Suc Cons.IH [of "Suc n"] show ?thesis by auto
  qed (use Cons.IH [of "Suc n"] in auto)
qed simp

lemma verification_type_UNIV: "(UNIV :: verification_type set) = set VERIFICATION_TYPES"
  using verification_type.exhaust by (auto simp: VERIFICATION_TYPES_def)

lemma card_verification_type: "card (UNIV :: verification_type set) = 3"
  by (simp add: verification_type_UNIV VERIFICATION_TYPES_def)

text \<open>A full list without the incoming verifier's own key holds a record of a departed verifier.\<close>

lemma full_list_has_departed:
  assumes keys: "one_per_key l" and full: "60 \<le> length l"
    and fresh: "\<And>a. a \<in> set l \<Longrightarrow> (at_verifier a, at_type a) \<noteq> (v, ty)"
    and trusted: "v \<in> set vs" "length vs \<le> 20"
  shows "\<exists>a \<in> set l. at_verifier a \<notin> set vs"
proof (rule ccontr)
  assume "\<not> ?thesis"
  then have "set (map (\<lambda>a. (at_verifier a, at_type a)) l) \<subseteq> set vs \<times> UNIV - {(v, ty)}"
    using fresh by auto
  then have "card (set (map (\<lambda>a. (at_verifier a, at_type a)) l)) \<le> card (set vs \<times> (UNIV :: verification_type set) - {(v, ty)})"
    by (intro card_mono) (auto simp: verification_type_UNIV)
  also have "\<dots> = card (set vs) * 3 - 1"
    using trusted(1) by (simp add: card_cartesian_product card_verification_type card_Diff_singleton)
  finally have "length l \<le> card (set vs) * 3 - 1"
    using keys distinct_card [of "map (\<lambda>a. (at_verifier a, at_type a)) l"] by (simp add: one_per_key_def)
  moreover have "card (set vs) \<le> 20" using trusted(2) card_length [of vs] by linarith
  ultimately show False using full by linarith
qed

text \<open>What a new statement replaces: the verifier's earlier one about the same fact.\<close>

definition without_key :: "address \<Rightarrow> verification_type \<Rightarrow> attestation list \<Rightarrow> attestation list" where
  "without_key v ty l = filter (\<lambda>a. \<not> (at_verifier a = v \<and> at_type a = ty)) l"

lemma one_per_key_without_key: "one_per_key l \<Longrightarrow> one_per_key (without_key v ty l)"
  by (simp add: one_per_key_def without_key_def distinct_map_filter)

lemma one_per_key_drop: "one_per_key l \<Longrightarrow> one_per_key (take i l @ drop (Suc i) l)"
proof -
  assume "one_per_key l"
  then have "one_per_key (take i l @ drop i l)" by simp
  then show ?thesis
    by (cases "drop i l") (auto simp: one_per_key_def drop_Suc tl_drop [symmetric])
qed

lemma evict_departed:
  assumes "one_per_key l" "60 \<le> length l" "\<And>a. a \<in> set l \<Longrightarrow> (at_verifier a, at_type a) \<noteq> (v, ty)"
    and "v \<in> set (verifrs s)" "length (verifrs s) \<le> 20"
  obtains i where "evict_one_slot l now s = Inr (take i l @ drop (Suc i) l)"
    and "i < length l" and "at_verifier (l ! i) \<notin> set (verifrs s)"
proof -
  let ?P = "\<lambda>a. \<not> list_ex (\<lambda>entry. entry = at_verifier a) (verifrs s)"
  from full_list_has_departed [OF assms] have "first_index ?P 0 l \<noteq> None"
    by (auto simp: first_index_None list_ex_iff)
  then obtain i where i: "first_index ?P 0 l = Some i" by auto
  from first_index_Some [OF i] i show ?thesis
    by (intro that [of i]) (auto simp: evict_one_slot_def Let_def remove_index_eq list_ex_iff)
qed

lemma votes_drop_departed:
  assumes "i < length l" "at_verifier (l ! i) \<notin> set trusted"
  shows "votes trusted ty (take i l @ drop (Suc i) l) = votes trusted ty l"
proof -
  have "votes trusted ty l = votes trusted ty (take i l @ l ! i # drop (Suc i) l)"
    using assms(1) by (simp add: id_take_nth_drop [symmetric])
  also have "\<dots> = votes trusted ty (take i l @ drop (Suc i) l)"
    using assms(2) by (simp add: votes_def)
  finally show ?thesis ..
qed

text \<open>
  C21. Eviction never costs a live vote: when a trusted verifier attests on an invoice whose list is
  full even without that verifier's own earlier statement, a slot is always found, the record
  dropped was made by an address that is no longer a trusted verifier, the rest of the list keeps
  its order, and the status of every type, at every threshold and time, is what it was.
\<close>

theorem eviction_preserves_status:
  assumes "oracle_ok s" and "is_verifier v s"
    and "MAX_ATTESTATIONS_PER_INVOICE \<le> length (without_key v ty (load_verifications x s))"
  shows "\<exists>i kept. let l = without_key v ty (load_verifications x s) in
    evict_one_slot l now s = Inr kept \<and> i < length l \<and> kept = take i l @ drop (Suc i) l \<and>
    \<not> is_verifier (at_verifier (l ! i)) s \<and>
    (\<forall>ty' thr now'. type_status kept ty' thr now' s = type_status l ty' thr now' s)"
proof -
  let ?l = "without_key v ty (load_verifications x s)"
  have l: "one_per_key ?l" "60 \<le> length ?l" "v \<in> set (verifrs s)" "length (verifrs s) \<le> 20"
    using assms by (auto simp: oracle_ok_def one_per_key_without_key is_verifier_def list_ex_iff)
  have fresh: "(at_verifier a, at_type a) \<noteq> (v, ty)" if "a \<in> set ?l" for a
    using that by (auto simp: without_key_def)
  obtain i where "evict_one_slot ?l now s = Inr (take i ?l @ drop (Suc i) ?l)"
    and "i < length ?l" and "at_verifier (?l ! i) \<notin> set (verifrs s)"
    by (rule evict_departed [OF l(1,2) fresh l(3,4)])
  then show ?thesis
    by (intro exI [of _ i] exI [of _ "take i ?l @ drop (Suc i) ?l"])
      (auto simp: Let_def votes_drop_departed is_verifier_def list_ex_iff intro!: type_status_cong)
qed

text \<open>A full list: twenty departed verifiers, three types each.\<close>

definition old_attestation :: "nat \<Rightarrow> verification_type \<Rightarrow> attestation" where
  "old_attestation n ty = \<lparr>at_verifier = Address n, at_type = ty, at_hash = 0, at_timestamp = 0,
     at_valid_until = 100, at_status = VerVerified\<rparr>"

definition full_registry :: registry where
  "full_registry = empty_registry\<lparr>verifrs := [Address 99],
     verifs := [Symbol ''a'' \<mapsto> concat (map (\<lambda>n. map (old_attestation n) VERIFICATION_TYPES) [10..<30])]\<rparr>"

lemma full_registry_list:
  "load_verifications (Symbol ''a'') full_registry =
     concat (map (\<lambda>n. map (old_attestation n) VERIFICATION_TYPES) [10..<30])"
  by (simp add: full_registry_def load_verifications_def)

lemma full_registry_ok: "oracle_ok full_registry"
proof -
  have "one_per_key (load_verifications x full_registry) \<and>
      length (load_verifications x full_registry) \<le> 60" for x
  proof (cases "x = Symbol ''a''")
    case True
    have "map (\<lambda>a. (at_verifier a, at_type a)) (load_verifications (Symbol ''a'') full_registry) =
        concat (map (\<lambda>n. map (Pair (Address n)) VERIFICATION_TYPES) [10..<30])"
      by (simp add: full_registry_list map_concat o_def old_attestation_def)
    moreover have "distinct (concat (map (\<lambda>n. map (Pair (Address n)) VERIFICATION_TYPES) [10..<m]))" for m
      by (induction m) (auto simp: VERIFICATION_TYPES_def)
    ultimately show ?thesis
      by (simp add: True one_per_key_def full_registry_list length_concat o_def VERIFICATION_TYPES_def
          sum_list_triv del: upt_Suc)
  next
    case False
    then show ?thesis by (simp add: full_registry_def load_verifications_def one_per_key_def)
  qed
  then show ?thesis by (simp add: oracle_ok_def full_registry_def get_verifier_threshold_def)
qed

lemma eviction_preserves_status_witness:
  "\<exists>i. \<not> is_verifier (at_verifier (load_verifications (Symbol ''a'') full_registry ! i)) full_registry"
proof -
  have all: "without_key (Address 99) TaxCompliance (load_verifications (Symbol ''a'') full_registry) =
      load_verifications (Symbol ''a'') full_registry"
    by (auto simp: without_key_def full_registry_list old_attestation_def filter_id_conv)
  have len: "MAX_ATTESTATIONS_PER_INVOICE \<le>
      length (without_key (Address 99) TaxCompliance (load_verifications (Symbol ''a'') full_registry))"
    unfolding all
    by (simp add: full_registry_list length_concat o_def VERIFICATION_TYPES_def sum_list_triv del: upt_Suc)
  have "is_verifier (Address 99) full_registry"
    by (simp add: is_verifier_def full_registry_def)
  from eviction_preserves_status [OF full_registry_ok this len, unfolded all Let_def] show ?thesis
    by blast
qed

subsection \<open>What attesting does\<close>

lemma record_attestation_verifs [simp]:
  "verifs (record_attestation x a l fee st thr now s) = (verifs s)(x \<mapsto> l @ [a])"
  by (simp add: record_attestation_def Let_def)

lemma record_attestation_frame [simp]:
  "verifrs (record_attestation x a l fee st thr now s) = verifrs s"
  "verthr (record_attestation x a l fee st thr now s) = verthr s"
  "invoices (record_attestation x a l fee st thr now s) = invoices s"
  "by_origin (record_attestation x a l fee st thr now s) = by_origin s"
  "tok_own (record_attestation x a l fee st thr now s) = tok_own s"
  "tok_app (record_attestation x a l fee st thr now s) = tok_app s"
  "tok_inv (record_attestation x a l fee st thr now s) = tok_inv s"
  "tok_brn (record_attestation x a l fee st thr now s) = tok_brn s"
  "admcfg (record_attestation x a l fee st thr now s) = admcfg s"
  by (simp_all add: record_attestation_def Let_def)

definition kept_after :: "address \<Rightarrow> verification_type \<Rightarrow> symbol \<Rightarrow> nat \<Rightarrow> registry \<Rightarrow> attestation list \<Rightarrow> bool" where
  "kept_after v ty x now s kept \<longleftrightarrow>
     (let l = without_key v ty (load_verifications x s) in
      if 60 \<le> length l then evict_one_slot l now s = Inr kept else kept = l)"

lemma attest_ok:
  assumes "attest T e x v ty h ap (s, t) = Inr (a, s', t')"
  obtains i fee kept where "\<not> paused s" "authorizes e v" "is_verifier v s"
    "map_of (invoices s) x = Some i" "inv_status i \<in> {InvPending, InvFinanced}"
    "charge_verification_fee T e i v s t = Inr (fee, t')"
    "kept_after v ty x (ledger_timestamp e) s kept"
    "a = \<lparr>at_verifier = v, at_type = ty, at_hash = h, at_timestamp = ledger_timestamp e,
       at_valid_until = sat_add_u64 (ledger_timestamp e) (get_attestation_validity s),
       at_status = (if ap then VerVerified else VerRejected)\<rparr>"
    "s' = record_attestation x a kept fee
       (type_status (load_verifications x s) ty (get_verifier_threshold s) (ledger_timestamp e) s)
       (get_verifier_threshold s) (ledger_timestamp e) s"
proof -
  from assms obtain u u' i r kept where 1: "assert_not_paused s = Inr u" "require_auth e v = Inr u'"
    "is_verifier v s" "get_invoice x s = Inr i"
    "\<not> (inv_status i \<noteq> InvPending \<and> inv_status i \<noteq> InvFinanced)"
    "charge_verification_fee T e i v s t = Inr r"
    "(if 60 \<le> length (filter (\<lambda>a. \<not> (at_verifier a = v \<and> at_type a = ty)) (load_verifications x s))
      then evict_one_slot (filter (\<lambda>a. \<not> (at_verifier a = v \<and> at_type a = ty)) (load_verifications x s)) (ledger_timestamp e) s
      else Inr (filter (\<lambda>a. \<not> (at_verifier a = v \<and> at_type a = ty)) (load_verifications x s))) = Inr kept"
    and 2: "\<lparr>at_verifier = v, at_type = ty, at_hash = h, at_timestamp = ledger_timestamp e,
       at_valid_until = sat_add_u64 (ledger_timestamp e) (get_attestation_validity s),
       at_status = (if ap then VerVerified else VerRejected)\<rparr> = a"
    and 3: "record_attestation x
       \<lparr>at_verifier = v, at_type = ty, at_hash = h, at_timestamp = ledger_timestamp e,
       at_valid_until = sat_add_u64 (ledger_timestamp e) (get_attestation_validity s),
       at_status = (if ap then VerVerified else VerRejected)\<rparr>
       kept (fst r)
       (type_status (load_verifications x s) ty (get_verifier_threshold s) (ledger_timestamp e) s)
       (get_verifier_threshold s) (ledger_timestamp e) s = s'"
    and 4: "snd r = t'"
    unfolding attest_def split_def fst_conv snd_conv Let_def bindE_Inr_iff ensure_Inr_iff
      MAX_ATTESTATIONS_PER_INVOICE_def sum.inject prod.inject
    by (elim exE conjE) (rule that)
  show ?thesis
  proof (rule that [of i "fst r" kept])
    show "charge_verification_fee T e i v s t = Inr (fst r, t')" using 1(6) 4 by auto
    show "kept_after v ty x (ledger_timestamp e) s kept"
      using 1(7) by (auto simp: kept_after_def without_key_def Let_def split: if_splits)
    show "s' = record_attestation x a kept (fst r)
       (type_status (load_verifications x s) ty (get_verifier_threshold s) (ledger_timestamp e) s)
       (get_verifier_threshold s) (ledger_timestamp e) s" by (simp only: 3 [symmetric] 2)
  qed (use 1 2 in \<open>auto simp: ok\<close>)
qed

lemma kept_after_props:
  assumes "oracle_ok s" "is_verifier v s" "kept_after v ty x now s kept"
  shows "one_per_key kept \<and> length kept < 60 \<and>
    set kept \<subseteq> set (without_key v ty (load_verifications x s)) \<and>
    votes (verifrs s) ty' kept = votes (verifrs s) ty' (without_key v ty (load_verifications x s))"
proof -
  let ?l = "without_key v ty (load_verifications x s)"
  have l: "one_per_key ?l" "v \<in> set (verifrs s)" "length (verifrs s) \<le> 20"
    using assms(1,2) by (auto simp: oracle_ok_def one_per_key_without_key is_verifier_def list_ex_iff)
  have "length ?l \<le> length (load_verifications x s)" by (simp add: without_key_def)
  then have le: "length ?l \<le> 60" using assms(1) by (auto simp: oracle_ok_def intro: le_trans)
  have fresh: "(at_verifier a, at_type a) \<noteq> (v, ty)" if "a \<in> set ?l" for a
    using that by (auto simp: without_key_def)
  show ?thesis
  proof (cases "60 \<le> length ?l")
    case True
    obtain i where i: "evict_one_slot ?l now s = Inr (take i ?l @ drop (Suc i) ?l)"
      "i < length ?l" "at_verifier (?l ! i) \<notin> set (verifrs s)"
      by (rule evict_departed [OF l(1) True fresh l(2,3)])
    with assms(3) True have "kept = take i ?l @ drop (Suc i) ?l" by (simp add: kept_after_def Let_def)
    with i l le show ?thesis
      by (auto simp: one_per_key_drop votes_drop_departed dest: in_set_takeD in_set_dropD)
  next
    case False
    with assms(3) l le show ?thesis
      by (simp add: kept_after_def Let_def)
  qed
qed

subsection \<open>Every operation keeps the invariant\<close>

inductive oracle_step :: "'t sep41 \<Rightarrow> registry \<times> 't \<Rightarrow> registry \<times> 't \<Rightarrow> bool" for T where
  "attest T e x v ty h ap (s, t) = Inr (a, s', t') \<Longrightarrow> oracle_step T (s, t) (s', t')"
| "expire_verifications e x s = Inr (n, s') \<Longrightarrow> oracle_step T (s, t) (s', t)"
| "add_verifier e sgs v s = Inr s' \<Longrightarrow> oracle_step T (s, t) (s', t)"
| "remove_verifier e sgs v s = Inr s' \<Longrightarrow> oracle_step T (s, t) (s', t)"
| "set_verifier_threshold e sgs n s = Inr s' \<Longrightarrow> oracle_step T (s, t) (s', t)"
| "set_verification_fee e sgs n s = Inr s' \<Longrightarrow> oracle_step T (s, t) (s', t)"
| "set_attestation_validity e sgs n s = Inr s' \<Longrightarrow> oracle_step T (s, t) (s', t)"
| "registry_register_currency e sgs c tok s = Inr s' \<Longrightarrow> oracle_step T (s, t) (s', t)"

lemma oracle_ok_cong:
  "verifrs s' = verifrs s \<Longrightarrow> verthr s' = verthr s \<Longrightarrow> verifs s' = verifs s \<Longrightarrow>
     oracle_ok s' = oracle_ok s"
  by (simp add: oracle_ok_def get_verifier_threshold_def load_verifications_def)

lemma one_per_key_snoc:
  assumes "one_per_key l" "set l \<subseteq> set (without_key v ty l')" "at_verifier a = v" "at_type a = ty"
  shows "one_per_key (l @ [a])"
  using assms by (auto simp: one_per_key_def without_key_def)

lemma load_verifications_upd:
  "verifs s' = (verifs s)(x \<mapsto> l) \<Longrightarrow>
     load_verifications y s' = (if y = x then l else load_verifications y s)"
  by (simp add: load_verifications_def)

lemma attest_oracle_ok:
  assumes "oracle_ok s" and "attest T e x v ty h ap (s, t) = Inr (a, s', t')"
  shows "oracle_ok s'"
  using assms(2)
proof (rule attest_ok)
  fix i fee kept
  assume v: "is_verifier v s" and kept: "kept_after v ty x (ledger_timestamp e) s kept"
    and a: "a = \<lparr>at_verifier = v, at_type = ty, at_hash = h, at_timestamp = ledger_timestamp e,
       at_valid_until = sat_add_u64 (ledger_timestamp e) (get_attestation_validity s),
       at_status = (if ap then VerVerified else VerRejected)\<rparr>"
    and s': "s' = record_attestation x a kept fee
       (type_status (load_verifications x s) ty (get_verifier_threshold s) (ledger_timestamp e) s)
       (get_verifier_threshold s) (ledger_timestamp e) s"
  from kept_after_props [OF assms(1) v kept] have k: "one_per_key kept" "length kept < 60"
    "set kept \<subseteq> set (without_key v ty (load_verifications x s))" by auto
  have "one_per_key (kept @ [a])"
    by (rule one_per_key_snoc [OF k(1,3)]) (simp_all add: a)
  moreover have "verifrs s' = verifrs s" "verthr s' = verthr s" "verifs s' = (verifs s)(x \<mapsto> kept @ [a])"
    by (simp_all add: s')
  ultimately show ?thesis
    using assms(1) k(2) load_verifications_upd [of s' s x "kept @ [a]"]
    by (auto simp: oracle_ok_def get_verifier_threshold_def)
qed

definition mark_expired :: "nat \<Rightarrow> attestation \<Rightarrow> attestation" where
  "mark_expired now a = (if effective_status a now = VerExpired then a\<lparr>at_status := VerExpired\<rparr> else a)"

definition newly_lapsed :: "nat \<Rightarrow> attestation \<Rightarrow> bool" where
  "newly_lapsed now a \<longleftrightarrow> effective_status a now = VerExpired \<and> at_status a \<noteq> VerExpired"

lemma mark_expired_id: "\<not> newly_lapsed now a \<Longrightarrow> mark_expired now a = a"
  by (auto simp: newly_lapsed_def mark_expired_def)

definition lapse_events :: "symbol \<Rightarrow> nat \<Rightarrow> attestation list \<Rightarrow> event list" where
  "lapse_events x now l = map (\<lambda>a. Ev_ver_exp x (at_verifier a) (at_type a) (at_valid_until a))
     (filter (newly_lapsed now) l)"

lemma expire_loop_eq:
  "fold (expire_body x now) l (acc, n, s) =
     (acc @ map (mark_expired now) l, n + length (filter (newly_lapsed now) l),
      s\<lparr>events := events s @ lapse_events x now l\<rparr>)"
proof (induction l arbitrary: acc n s)
  case Nil
  then show ?case by (simp add: lapse_events_def)
next
  case (Cons a l)
  have "expire_body x now a (acc, n, s) =
      (if newly_lapsed now a
       then (acc @ [mark_expired now a], n + 1,
             publish (Ev_ver_exp x (at_verifier a) (at_type a) (at_valid_until a)) s)
       else (acc @ [mark_expired now a], n, s))"
    by (auto simp: expire_body_def newly_lapsed_def mark_expired_def)
  then show ?case by (simp add: Cons.IH publish_def lapse_events_def)
qed

lemma expire_verifications_ok:
  "expire_verifications e x s = Inr (n, s') \<longleftrightarrow>
     n = length (filter (newly_lapsed (ledger_timestamp e)) (load_verifications x s)) \<and> \<not> paused s \<and>
     load_verifications x s \<noteq> [] \<and>
     s' = (if n > 0 then s\<lparr>events := events s @ lapse_events x (ledger_timestamp e) (load_verifications x s),
             verifs := (verifs s)(x \<mapsto> map (mark_expired (ledger_timestamp e)) (load_verifications x s))\<rparr>
           else s)"
  by (auto simp: expire_verifications_def ok Let_def expire_loop_eq lapse_events_def)

lemma load_after_expire:
  assumes "expire_verifications e x s = Inr (n, s')"
  shows "load_verifications y s' = (if y = x then map (mark_expired (ledger_timestamp e)) (load_verifications x s)
    else load_verifications y s)"
proof (cases "n = 0")
  case True
  with assms have "\<forall>a \<in> set (load_verifications x s). \<not> newly_lapsed (ledger_timestamp e) a"
    by (auto simp: expire_verifications_ok filter_empty_conv)
  then have "map (mark_expired (ledger_timestamp e)) (load_verifications x s) = load_verifications x s"
    by (simp add: map_idI mark_expired_id)
  with assms True show ?thesis
    by (auto simp: expire_verifications_ok)
next
  case False
  with assms show ?thesis
    by (intro load_verifications_upd) (auto simp: expire_verifications_ok)
qed

lemma mark_expired_sel [simp]:
  "at_verifier (mark_expired now a) = at_verifier a" "at_type (mark_expired now a) = at_type a"
  "now \<le> now' \<Longrightarrow> effective_status (mark_expired now a) now' = effective_status a now'"
  by (auto simp: mark_expired_def effective_status_def)

lemma one_per_key_mark [simp]: "one_per_key (map (mark_expired now) l) = one_per_key l"
  by (simp add: one_per_key_def o_def)

lemma oracle_step_ok: "oracle_step T p p' \<Longrightarrow> oracle_ok (fst p) \<Longrightarrow> oracle_ok (fst p')"
proof (induction rule: oracle_step.induct)
  case (1 e x v ty h ap s t a s' t')
  then show ?case using attest_oracle_ok by simp
next
  case (2 e x s n s' t)
  from 2(1) have "verifrs s' = verifrs s" "verthr s' = verthr s"
    by (auto simp: expire_verifications_ok split: if_splits)
  with 2 load_after_expire [OF 2(1)] show ?case
    by (auto simp: oracle_ok_def get_verifier_threshold_def)
qed (auto simp: add_verifier_def remove_verifier_def set_verifier_threshold_def
    set_verification_fee_def set_attestation_validity_def registry_register_currency_def
    register_currency_token_def save_currency_registry_def ok Let_def oracle_ok_def
    get_verifier_threshold_def load_verifications_def list_ex_iff le_trans [OF length_filter_le]
    split: if_splits)

subsection \<open>Properties\<close>

lemma distinct_voters:
  assumes "one_per_key l"
  shows "distinct (map at_verifier (live st now (votes vs ty l)))"
proof -
  have "distinct (map at_verifier (votes vs ty l))"
    using assms by (induction l) (auto simp: one_per_key_def votes_def)
  then show ?thesis by (simp add: live_def distinct_map_filter)
qed

lemma type_status_Verified_iff:
  "1 \<le> thr \<Longrightarrow> type_status l ty thr now s = VerVerified \<longleftrightarrow>
     live VerRejected now (votes (verifrs s) ty l) = [] \<and>
     thr \<le> length (live VerVerified now (votes (verifrs s) ty l))"
  by (auto simp: type_status_eq Let_def live_def)

text \<open>
  C10. A fact about an invoice is Verified exactly when m distinct verifiers vouch for it: in every
  state of the oracle, the status of a type is \<open>Verified\<close> if and only if no currently trusted
  verifier has a live rejection of it and at least \<open>threshold\<close> many different currently trusted
  verifiers have a live affirmative statement about it - so neither repeated statements by one
  verifier nor statements of removed verifiers count - and the invoice as a whole is \<open>Verified\<close>
  exactly when all three types are.
\<close>

theorem verified_iff_quorum:
  assumes "oracle_ok s"
  shows "(get_verification_status e x ty s = VerVerified \<longleftrightarrow>
      \<not> (\<exists>a \<in> set (get_verifications x s). at_type a = ty \<and> at_verifier a \<in> set (get_verifiers s) \<and>
           effective_status a (ledger_timestamp e) = VerRejected) \<and>
      get_verifier_threshold s \<le>
        card {v \<in> set (get_verifiers s). \<exists>a \<in> set (get_verifications x s). at_type a = ty \<and>
          at_verifier a = v \<and> effective_status a (ledger_timestamp e) = VerVerified}) \<and>
    (get_invoice_verification_status e x s = VerVerified \<longleftrightarrow>
      (\<forall>ty'. get_verification_status e x ty' s = VerVerified))"
proof
  let ?l = "load_verifications x s" and ?now = "ledger_timestamp e"
  let ?live = "live VerVerified ?now (votes (verifrs s) ty ?l)"
  have "one_per_key ?l" "1 \<le> get_verifier_threshold s" using assms by (auto simp: oracle_ok_def)
  from distinct_card [OF distinct_voters [OF this(1), of VerVerified ?now "verifrs s" ty]]
  have "length ?live = card (at_verifier ` set ?live)" by simp
  also have "at_verifier ` set ?live = {v \<in> set (verifrs s). \<exists>a \<in> set ?l. at_type a = ty \<and>
      at_verifier a = v \<and> effective_status a ?now = VerVerified}"
    by (auto simp: live_def votes_def)
  finally have "length ?live = card {v \<in> set (verifrs s). \<exists>a \<in> set ?l. at_type a = ty \<and>
      at_verifier a = v \<and> effective_status a ?now = VerVerified}" .
  moreover have "live VerRejected ?now (votes (verifrs s) ty ?l) = [] \<longleftrightarrow>
      \<not> (\<exists>a \<in> set ?l. at_type a = ty \<and> at_verifier a \<in> set (verifrs s) \<and>
           effective_status a ?now = VerRejected)"
    by (auto simp: live_def votes_def filter_empty_conv)
  ultimately show "get_verification_status e x ty s = VerVerified \<longleftrightarrow>
      \<not> (\<exists>a \<in> set (get_verifications x s). at_type a = ty \<and> at_verifier a \<in> set (get_verifiers s) \<and>
           effective_status a ?now = VerRejected) \<and>
      get_verifier_threshold s \<le>
        card {v \<in> set (get_verifiers s). \<exists>a \<in> set (get_verifications x s). at_type a = ty \<and>
          at_verifier a = v \<and> effective_status a ?now = VerVerified}"
    using type_status_Verified_iff [OF \<open>1 \<le> get_verifier_threshold s\<close>]
    by (simp add: get_verification_status_def get_verifications_def get_verifiers_def)
  have all: "(\<forall>ty'. P ty') \<longleftrightarrow> P DocumentHash \<and> P BusinessRegistration \<and> P TaxCompliance" for P
    using verification_type.exhaust by metis
  show "get_invoice_verification_status e x s = VerVerified \<longleftrightarrow>
      (\<forall>ty'. get_verification_status e x ty' s = VerVerified)"
    by (subst all) (simp add: get_invoice_verification_status_def VERIFICATION_TYPES_def
        get_verification_status_def split: verification_status.split)
qed

lemma verified_iff_quorum_witness:
  "get_verification_status (demo_env 50 (Address 100)) (Symbol ''a'') DocumentHash
     (full_registry\<lparr>verifrs := [Address 10]\<rparr>) = VerVerified \<and>
   get_verification_status (demo_env 50 (Address 100)) (Symbol ''a'') DocumentHash full_registry \<noteq> VerVerified"
proof -
  have rec: "old_attestation 10 DocumentHash \<in> set (load_verifications (Symbol ''a'') full_registry)"
    by (simp add: full_registry_list VERIFICATION_TYPES_def)
  have who: "a \<in> set (load_verifications (Symbol ''a'') full_registry) \<Longrightarrow>
      at_verifier a \<noteq> Address 99 \<and> at_status a = VerVerified \<and> at_valid_until a = 100" for a
    by (auto simp: full_registry_list old_attestation_def simp del: upt_Suc)
  let ?s = "full_registry\<lparr>verifrs := [Address 10]\<rparr>"
  have load: "load_verifications x ?s = load_verifications x full_registry" for x
    by (simp add: load_verifications_def)
  have ok: "oracle_ok ?s"
    using full_registry_ok by (auto simp: oracle_ok_def load get_verifier_threshold_def)
  have one: "get_verifier_threshold ?s = 1" "get_verifier_threshold full_registry = 1"
    by (simp_all add: get_verifier_threshold_def full_registry_def)
  have "{v \<in> {Address 10}. \<exists>a \<in> set (load_verifications (Symbol ''a'') full_registry). at_type a = DocumentHash \<and>
      at_verifier a = v \<and> effective_status a 50 = VerVerified} = {Address 10}"
    using rec by (auto simp: effective_status_def old_attestation_def intro!: bexI)
  then have "get_verification_status (demo_env 50 (Address 100)) (Symbol ''a'') DocumentHash ?s = VerVerified"
    using verified_iff_quorum [OF ok, of "demo_env 50 (Address 100)" "Symbol ''a''" DocumentHash] who
    by (auto simp: one get_verifications_def get_verifiers_def load effective_status_def)
  moreover have none: "{v \<in> set (get_verifiers full_registry).
      \<exists>a \<in> set (get_verifications (Symbol ''a'') full_registry). at_type a = DocumentHash \<and>
        at_verifier a = v \<and>
        effective_status a (ledger_timestamp (demo_env 50 (Address 100))) = VerVerified} = {}"
    using who by (auto simp: get_verifiers_def get_verifications_def full_registry_def)
  have "get_verification_status (demo_env 50 (Address 100)) (Symbol ''a'') DocumentHash full_registry \<noteq> VerVerified"
    by (simp only: verified_iff_quorum [OF full_registry_ok, THEN conjunct1] none one) simp
  ultimately show ?thesis by blast
qed

text \<open>
  Recording expiry is only a notification: when \<open>expire_verifications\<close> succeeds it reports exactly
  the attestations that have lapsed and were not yet marked, with one event each; the status of
  every type on every invoice, at every threshold and every later time, is unchanged; and calling
  it again at once reports nothing and changes nothing.
\<close>

theorem expire_is_notification:
  assumes "expire_verifications e x s = Inr (n, s')"
  shows "n = length (filter (\<lambda>a. at_status a \<noteq> VerExpired \<and> at_valid_until a < ledger_timestamp e)
           (get_verifications x s)) \<and>
    length (events s') = length (events s) + n \<and>
    (\<forall>now \<ge> ledger_timestamp e. \<forall>y ty thr.
       type_status (get_verifications y s') ty thr now s' = type_status (get_verifications y s) ty thr now s) \<and>
    expire_verifications e x s' = Inr (0, s')"
proof -
  have lapsed: "newly_lapsed (ledger_timestamp e) =
      (\<lambda>a. at_status a \<noteq> VerExpired \<and> at_valid_until a < ledger_timestamp e)"
    by (auto simp: newly_lapsed_def effective_status_def fun_eq_iff)
  have vs: "verifrs s' = verifrs s" "paused s' = paused s"
    using assms by (auto simp: expire_verifications_ok split: if_splits)
  have same: "live st now (votes (verifrs s) ty (map (mark_expired (ledger_timestamp e)) l)) =
      map (mark_expired (ledger_timestamp e)) (live st now (votes (verifrs s) ty l))"
    if "ledger_timestamp e \<le> now" for st now ty l
    using that by (simp add: live_def votes_def filter_map o_def)
  have empty: "votes (verifrs s) ty (map (mark_expired (ledger_timestamp e)) l) = [] \<longleftrightarrow>
      votes (verifrs s) ty l = []" for ty l
    by (simp add: votes_def filter_map o_def)
  have status: "type_status (load_verifications y s') ty thr now s' =
      type_status (load_verifications y s) ty thr now s" if "ledger_timestamp e \<le> now" for now y ty thr
    using load_after_expire [OF assms, of y] that
    by (simp add: type_status_eq vs same empty Let_def)
  have again: "filter (newly_lapsed (ledger_timestamp e)) (load_verifications x s') = []"
    using load_after_expire [OF assms, of x]
    by (auto simp: filter_empty_conv newly_lapsed_def mark_expired_def effective_status_def)
  have "load_verifications x s' \<noteq> []" "length (events s') = length (events s) + n"
    using assms load_after_expire [OF assms, of x]
    by (auto simp: expire_verifications_ok lapse_events_def)
  with again status assms show ?thesis
    by (simp add: expire_verifications_ok lapsed get_verifications_def vs)
qed

lemma expire_is_notification_witness:
  "\<exists>s'. expire_verifications (demo_env 200 (Address 100)) (Symbol ''a'')
      (full_registry\<lparr>verifs := [Symbol ''a'' \<mapsto> [old_attestation 99 DocumentHash]]\<rparr>) = Inr (1, s') \<and>
    expire_verifications (demo_env 200 (Address 100)) (Symbol ''a'') s' = Inr (0, s')"
proof -
  let ?s = "full_registry\<lparr>verifs := [Symbol ''a'' \<mapsto> [old_attestation 99 DocumentHash]]\<rparr>"
  obtain s' where s': "expire_verifications (demo_env 200 (Address 100)) (Symbol ''a'') ?s = Inr (1, s')"
    by (simp add: expire_verifications_ok load_verifications_def newly_lapsed_def effective_status_def
        old_attestation_def full_registry_def)
  from expire_is_notification [OF this] s' show ?thesis by blast
qed

text \<open>
  C24. Attesting charges the fee and nothing else: on tokens that keep the SEP-41 laws, a successful
  attestation - affirmative or a rejection alike - by a trusted verifier moves exactly the quoted
  verification fee (\<open>amount * fee_bps / 10000\<close>) from the invoice's originator to the verifier in the
  token registered for the invoice's currency, leaves every other token alone, and puts the
  statement at the end of the invoice's list in place of the verifier's earlier one on that type.
\<close>

theorem attest_charges_fee:
  assumes "sep41_laws T" and "oracle_ok s"
    and "attest T e x v ty h ap (s, t) = Inr (a, s', t')"
  shows "\<exists>i fee. get_invoice x s = Inr i \<and> is_verifier v s \<and>
    calculate_verification_fee x s = Inr fee \<and>
    fee = (inv_amount i * int (get_verification_fee s)) sdiv 10000 \<and>
    (if 0 < fee
     then \<exists>tok. get_currency_token (inv_currency i) s = Some tok \<and>
       (\<forall>y. tk_balance T tok y t' = moved (\<lambda>y. tk_balance T tok y t) (inv_originator i) v fee y) \<and>
       (\<forall>tok' y. tok' \<noteq> tok \<longrightarrow> tk_balance T tok' y t' = tk_balance T tok' y t)
     else t' = t) \<and>
    last (get_verifications x s') = a \<and> at_status a = (if ap then VerVerified else VerRejected) \<and>
    [b \<leftarrow> get_verifications x s'. at_verifier b = v \<and> at_type b = ty] = [a]"
  using assms(3)
proof (rule attest_ok)
  fix i fee kept
  assume i: "map_of (invoices s) x = Some i" and v: "is_verifier v s"
    and fee: "charge_verification_fee T e i v s t = Inr (fee, t')"
    and kept: "kept_after v ty x (ledger_timestamp e) s kept"
    and a: "a = \<lparr>at_verifier = v, at_type = ty, at_hash = h, at_timestamp = ledger_timestamp e,
       at_valid_until = sat_add_u64 (ledger_timestamp e) (get_attestation_validity s),
       at_status = (if ap then VerVerified else VerRejected)\<rparr>"
    and s': "s' = record_attestation x a kept fee
       (type_status (load_verifications x s) ty (get_verifier_threshold s) (ledger_timestamp e) s)
       (get_verifier_threshold s) (ledger_timestamp e) s"
  have list: "load_verifications x s' = kept @ [a]"
    using load_verifications_upd [of s' s x "kept @ [a]" x] by (simp add: s')
  have fresh: "[b \<leftarrow> kept. at_verifier b = v \<and> at_type b = ty] = []"
    using kept_after_props [OF assms(2) v kept, of ty] by (auto simp: without_key_def filter_empty_conv)
  have quote: "calculate_verification_fee x s = Inr fee"
    "fee = (inv_amount i * int (get_verification_fee s)) sdiv 10000"
    using fee i by (auto simp: charge_verification_fee_def calculate_verification_fee_def get_invoice_def
        fee_for_def ok Let_def signed_divide_int_def split: if_splits)
  have pay: "if 0 < fee
     then \<exists>tok. get_currency_token (inv_currency i) s = Some tok \<and>
       (\<forall>y. tk_balance T tok y t' = moved (\<lambda>y. tk_balance T tok y t) (inv_originator i) v fee y) \<and>
       (\<forall>tok' y. tok' \<noteq> tok \<longrightarrow> tk_balance T tok' y t' = tk_balance T tok' y t)
     else t' = t"
  proof (cases "0 < fee")
    case True
    with fee obtain tok where tok: "get_currency_token (inv_currency i) s = Some tok"
      "tk_transfer_from T e tok (current_contract e) (inv_originator i) v fee t = Inr t'"
      by (auto simp: charge_verification_fee_def ok split: if_splits)
    with assms(1) True show ?thesis unfolding sep41_laws_def by fastforce
  next
    case False
    with fee show ?thesis by (auto simp: charge_verification_fee_def ok split: if_splits)
  qed
  show ?thesis
    by (rule exI [of _ i], rule exI [of _ fee])
      (use i v quote pay list fresh a in \<open>simp add: get_invoice_def get_verifications_def\<close>)
qed

definition oracle_registry :: registry where
  "oracle_registry = empty_registry\<lparr>invoices := [(Symbol ''a'', demo_invoice ''a'' 2)],
     verifrs := [Address 9], verfee := Some 100, curtok := [Symbol ''USDC'' \<mapsto> Address 50]\<rparr>"

definition oracle_ledger :: ledger where
  "oracle_ledger = \<lparr>balances = (\<lambda>tok a. 60000000), allowances = (\<lambda>tok a sp. 60000000)\<rparr>"

lemma attest_charges_fee_witness:
  "\<exists>a s' t'. attest ledger_token (demo_env 5 (Address 100)) (Symbol ''a'') (Address 9) DocumentHash 77 False
      (oracle_registry, oracle_ledger) = Inr (a, s', t') \<and> at_status a = VerRejected \<and>
    balances t' (Address 50) (Address 9) = 60500000 \<and> balances t' (Address 50) (Address 2) = 59500000"
proof -
  have ok: "oracle_ok oracle_registry"
    by (simp add: oracle_ok_def oracle_registry_def get_verifier_threshold_def load_verifications_def
        one_per_key_def)
  have "\<exists>r. attest ledger_token (demo_env 5 (Address 100)) (Symbol ''a'') (Address 9) DocumentHash 77 False
      (oracle_registry, oracle_ledger) = Inr r"
    by (simp add: attest_def oracle_registry_def assert_not_paused_def require_auth_def is_verifier_def
        get_invoice_def Let_def charge_verification_fee_def fee_for_def get_verification_fee_def in_i128_def
        get_currency_token_def load_currency_registry_def ledger_transfer_from_def oracle_ledger_def
        load_verifications_def)
  then obtain a s' t' where run: "attest ledger_token (demo_env 5 (Address 100)) (Symbol ''a'') (Address 9)
      DocumentHash 77 False (oracle_registry, oracle_ledger) = Inr (a, s', t')" by auto
  have sel: "get_invoice (Symbol ''a'') oracle_registry = Inr (demo_invoice ''a'' 2)"
    "get_verification_fee oracle_registry = 100"
    "get_currency_token (Symbol ''USDC'') oracle_registry = Some (Address 50)"
    by (simp_all add: oracle_registry_def get_invoice_def get_verification_fee_def
        get_currency_token_def load_currency_registry_def)
  from attest_charges_fee [OF sep41_laws_ledger ok run] run show ?thesis
    by (auto simp: sel moved_def oracle_ledger_def)
qed

end
