(* ===== verification/Financing.thy ===== *)
theory Financing
  imports Registry Verification
begin

text \<open>
  \<open>financing/src/lib.rs\<close>: offers, their acceptance and settlement, the negotiation of terms,
  repayment schedules, and the callbacks for the repayment contract. \<open>financing\<close> has one field per
  storage key. The contract calls the registry and token contracts, so its entry points run on a
  world \<open>fworld\<close> that holds their states too; later theories extend that record with the other
  contracts. A call to the registry goes through \<open>registry_env\<close>: the stored address must be where
  the registry is deployed, and the registry's frame has this contract as its invoker.
\<close>

record financing = base +
  offers :: "(symbol, financing_offer) smap"
  lstats :: "address \<rightharpoonup> lender_stats"
  fstats :: "protocol_stats option"
  scheds :: "symbol \<rightharpoonup> repayment_schedule"
  negot :: "symbol \<rightharpoonup> negotiation_record list"
  negdl :: "symbol \<rightharpoonup> nat"
  negend :: "symbol \<rightharpoonup> negotiation_status"
  registry_ref :: "address option"
  fin_repayment :: "address option"
  postok :: "address option"
  negwin :: "nat option"
  fin_feebps :: "nat option"

record 't fworld =
  w_registry :: registry
  w_financing :: financing
  w_token :: 't

subsection \<open>Storage\<close>

definition load_offers :: "financing \<Rightarrow> (symbol, financing_offer) smap" where
  [simp]: "load_offers f = offers f"

definition save_offers :: "(symbol, financing_offer) smap \<Rightarrow> financing \<Rightarrow> financing" where
  [simp]: "save_offers m f = f\<lparr>offers := m\<rparr>"

definition load_lender_stats :: "address \<Rightarrow> financing \<Rightarrow> lender_stats" where
  "load_lender_stats a f = (case lstats f a of Some st \<Rightarrow> st
     | None \<Rightarrow> \<lparr>total_offered = 0, total_accepted = 0, offers_pending = 0, offers_repaid = 0\<rparr>)"

definition save_lender_stats :: "address \<Rightarrow> lender_stats \<Rightarrow> financing \<Rightarrow> financing" where
  [simp]: "save_lender_stats a st f = f\<lparr>lstats := (lstats f)(a \<mapsto> st)\<rparr>"

definition fin_load_stats :: "financing \<Rightarrow> protocol_stats" where
  "fin_load_stats f = (case fstats f of Some st \<Rightarrow> st
     | None \<Rightarrow> \<lparr>total_invoices = 0, total_offers = 0, total_financed = 0, total_repaid = 0,
                total_fee_revenue = 0\<rparr>)"

definition fin_save_stats :: "protocol_stats \<Rightarrow> financing \<Rightarrow> financing" where
  [simp]: "fin_save_stats st f = f\<lparr>fstats := Some st\<rparr>"

definition load_schedules :: "financing \<Rightarrow> (symbol \<rightharpoonup> repayment_schedule)" where
  [simp]: "load_schedules f = scheds f"

definition save_schedules :: "(symbol \<rightharpoonup> repayment_schedule) \<Rightarrow> financing \<Rightarrow> financing" where
  [simp]: "save_schedules m f = f\<lparr>scheds := m\<rparr>"

definition load_negotiation :: "symbol \<Rightarrow> financing \<Rightarrow> negotiation_record list" where
  "load_negotiation o_id f = (case negot f o_id of None \<Rightarrow> [] | Some h \<Rightarrow> h)"

definition save_negotiation :: "symbol \<Rightarrow> negotiation_record list \<Rightarrow> financing \<Rightarrow> financing" where
  [simp]: "save_negotiation o_id h f = f\<lparr>negot := (negot f)(o_id \<mapsto> h)\<rparr>"

definition load_deadline :: "symbol \<Rightarrow> financing \<Rightarrow> nat" where
  "load_deadline o_id f = (case negdl f o_id of None \<Rightarrow> 0 | Some d \<Rightarrow> d)"

definition save_deadline :: "symbol \<Rightarrow> nat \<Rightarrow> financing \<Rightarrow> financing" where
  [simp]: "save_deadline o_id d f = f\<lparr>negdl := (negdl f)(o_id \<mapsto> d)\<rparr>"

definition load_outcome :: "symbol \<Rightarrow> financing \<Rightarrow> negotiation_status option" where
  [simp]: "load_outcome o_id f = negend f o_id"

definition save_outcome :: "symbol \<Rightarrow> negotiation_status \<Rightarrow> financing \<Rightarrow> financing" where
  [simp]: "save_outcome o_id st f = f\<lparr>negend := (negend f)(o_id \<mapsto> st)\<rparr>"

text \<open>\<open>last_proposal_by\<close>: the loop keeps the last record of the party.\<close>

definition last_proposal_by ::
  "negotiation_record list \<Rightarrow> negotiation_party \<Rightarrow> negotiation_record option" where
  "last_proposal_by history party =
     fold (\<lambda>r latest. if neg_party r = party then Some r else latest) history None"

definition assert_terms_valid :: "int \<Rightarrow> nat \<Rightarrow> nat \<Rightarrow> error + unit" where
  "assert_terms_valid amount interest_rate duration =
     (let rate_ok = (1 \<le> interest_rate \<and> interest_rate \<le> MAX_INTEREST_BPS);
          duration_ok = (MIN_OFFER_DURATION_SECS \<le> duration \<and> duration \<le> MAX_OFFER_DURATION_SECS)
      in ensure (\<not> (amount \<le> 0 \<or> \<not> rate_ok \<or> \<not> duration_ok)) (Contract InvalidInput))"

subsection \<open>Calls to the registry\<close>

definition registry_env :: "env \<Rightarrow> financing \<Rightarrow> error + env" where
  "registry_env e f = bindE (fetch (registry_ref f) (Panic ''Not initialized'')) (\<lambda>a. callee e a RegistryC)"

definition read_invoice :: "env \<Rightarrow> symbol \<Rightarrow> ('t, 'z) fworld_scheme \<Rightarrow> error + invoice" where
  "read_invoice e x w =
     bindE (registry_env e (w_financing w)) (\<lambda>_. get_invoice x (w_registry w))"

definition fin_assert_not_blacklisted :: "env \<Rightarrow> address \<Rightarrow> ('t, 'z) fworld_scheme \<Rightarrow> error + unit" where
  "fin_assert_not_blacklisted e a w =
     bindE (registry_env e (w_financing w)) (\<lambda>_.
     ensure (\<not> is_blacklisted a (w_registry w)) (Contract Blacklisted))"

subsection \<open>Administration\<close>

definition financing_constructor ::
  "address \<Rightarrow> address \<Rightarrow> address \<Rightarrow> financing \<Rightarrow> error + financing" where
  "financing_constructor admin registry token f =
     bindE (init_admin_config admin f) (\<lambda>f.
     bindE (initialize_contract_version CARGO_PKG_VERSION f) (\<lambda>f.
     Inr (f\<lparr>registry_ref := Some registry, default_token := Some token\<rparr>)))"

definition fin_set_repayment_contract ::
  "env \<Rightarrow> address list \<Rightarrow> address \<Rightarrow> financing \<Rightarrow> error + financing" where
  "fin_set_repayment_contract e sgs repayment f =
     bindE (assert_not_paused f) (\<lambda>_.
     bindE (assert_admin e sgs f) (\<lambda>_. Inr (f\<lparr>fin_repayment := Some repayment\<rparr>)))"

definition get_registry :: "financing \<Rightarrow> error + address" where
  "get_registry f = fetch (registry_ref f) (Panic ''Not initialized'')"

definition financing_register_currency ::
  "env \<Rightarrow> address list \<Rightarrow> symbol \<Rightarrow> address \<Rightarrow> financing \<Rightarrow> error + financing" where
  "financing_register_currency e sgs currency token_addr f =
     bindE (assert_not_paused f) (\<lambda>_.
     bindE (assert_admin e sgs f) (\<lambda>_. Inr (register_currency_token currency token_addr f)))"

definition set_position_token :: "env \<Rightarrow> address list \<Rightarrow> address \<Rightarrow> financing \<Rightarrow> error + financing" where
  "set_position_token e sgs token f =
     bindE (assert_not_paused f) (\<lambda>_.
     bindE (assert_admin e sgs f) (\<lambda>_. Inr (f\<lparr>postok := Some token\<rparr>)))"

definition get_position_token :: "financing \<Rightarrow> address option" where
  "get_position_token f = postok f"

definition set_negotiation_window :: "env \<Rightarrow> address list \<Rightarrow> nat \<Rightarrow> financing \<Rightarrow> error + financing" where
  "set_negotiation_window e sgs window_secs f =
     bindE (assert_not_paused f) (\<lambda>_.
     bindE (assert_admin e sgs f) (\<lambda>_.
     bindE (ensure (MIN_NEGOTIATION_WINDOW_SECS \<le> window_secs \<and>
                    window_secs \<le> MAX_NEGOTIATION_WINDOW_SECS) (Contract InvalidInput)) (\<lambda>_.
     Inr (f\<lparr>negwin := Some window_secs\<rparr>))))"

definition get_negotiation_window :: "financing \<Rightarrow> nat" where
  "get_negotiation_window f = (case negwin f of None \<Rightarrow> DEFAULT_NEGOTIATION_WINDOW_SECS | Some n \<Rightarrow> n)"

subsection \<open>Offers\<close>

definition create_offer ::
  "env \<Rightarrow> symbol \<Rightarrow> symbol \<Rightarrow> address \<Rightarrow> int \<Rightarrow> symbol \<Rightarrow> nat \<Rightarrow> nat \<Rightarrow> nat \<Rightarrow>
     ('t, 'z) fworld_scheme \<Rightarrow> error + (financing_offer \<times> ('t, 'z) fworld_scheme)" where
  "create_offer e offer_id invoice_id lender amount currency interest_rate duration expires_at w =
     (let f = w_financing w in
     bindE (assert_not_paused f) (\<lambda>_.
     bindE (require_auth e lender) (\<lambda>_.
     bindE (fin_assert_not_blacklisted e lender w) (\<lambda>_.
     bindE (ensure (amount > 0) (Panic ''offer amount must be greater than zero'')) (\<lambda>_.
     bindE (ensure (interest_rate > 0) (Panic ''interest_rate must be greater than zero'')) (\<lambda>_.
     bindE (ensure (interest_rate \<le> MAX_INTEREST_BPS)
       (Panic ''interest_rate must be at most 10000 bps'')) (\<lambda>_.
     bindE (ensure (duration \<ge> MIN_OFFER_DURATION_SECS)
       (Panic ''duration must be at least 1 day (86400 seconds)'')) (\<lambda>_.
     bindE (ensure (duration \<le> MAX_OFFER_DURATION_SECS)
       (Panic ''duration must be at most 365 days'')) (\<lambda>_.
     bindE (read_invoice e invoice_id w) (\<lambda>invoice.
     bindE (ensure (inv_status invoice = InvPending)
       (Panic ''Invoice must be Pending to accept offers'')) (\<lambda>_.
     bindE (ensure (lender \<noteq> inv_originator invoice)
       (Panic ''lender cannot finance their own invoice'')) (\<lambda>_.
     bindE (ensure (amount \<le> inv_amount invoice)
       (Panic ''offer amount cannot exceed invoice amount'')) (\<lambda>_.
     bindE (ensure (\<not> sm_has (load_offers f) offer_id) (Contract AlreadyExists)) (\<lambda>_.
     let offer = \<lparr>off_id = offer_id, off_invoice_id = invoice_id, off_lender = lender,
           off_amount = amount, off_currency = currency, off_interest_rate = interest_rate,
           off_duration = duration, off_expires_at = expires_at, off_status = OffPending,
           off_funded_at = 0, off_amount_repaid = 0\<rparr>;
         f = save_offers (sm_set (load_offers f) offer_id offer) f;
         s = fin_load_stats f in
     bindE (add_u32 (total_offers s) 1) (\<lambda>n.
     let f = fin_save_stats (s\<lparr>total_offers := n\<rparr>) f;
         ls = load_lender_stats lender f in
     bindE (add_i128 (total_offered ls) amount) (\<lambda>tot.
     bindE (add_u32 (offers_pending ls) 1) (\<lambda>pend.
     let f = save_lender_stats lender (ls\<lparr>total_offered := tot, offers_pending := pend\<rparr>) f;
         f = publish (Ev_off_new offer_id invoice_id lender amount interest_rate) f
     in Inr (offer, w\<lparr>w_financing := f\<rparr>))))))))))))))))))"

definition get_offer :: "symbol \<Rightarrow> financing \<Rightarrow> error + financing_offer" where
  "get_offer x f = fetch (map_of (load_offers f) x) (Contract NotFound)"

definition close_negotiation_on_offer_exit :: "symbol \<Rightarrow> address \<Rightarrow> financing \<Rightarrow> financing" where
  "close_negotiation_on_offer_exit offer_id closer f =
     (if load_negotiation offer_id f = [] \<or> load_outcome offer_id f \<noteq> None then f
      else publish (Ev_neg_clsd offer_id NegClosed closer) f)"

definition withdraw_offer ::
  "env \<Rightarrow> symbol \<Rightarrow> address \<Rightarrow> ('t, 'z) fworld_scheme \<Rightarrow>
     error + (financing_offer \<times> ('t, 'z) fworld_scheme)" where
  "withdraw_offer e offer_id lender w =
     (let f = w_financing w in
     bindE (assert_not_paused f) (\<lambda>_.
     bindE (require_auth e lender) (\<lambda>_.
     bindE (get_offer offer_id f) (\<lambda>offer.
     bindE (ensure (\<not> off_lender offer \<noteq> lender) (Contract Unauthorized)) (\<lambda>_.
     bindE (ensure (\<not> off_status offer \<noteq> OffPending) (Contract InvalidTransition)) (\<lambda>_.
     let offer = offer\<lparr>off_status := OffRejected\<rparr>;
         f = save_offers (sm_set (load_offers f) offer_id offer) f;
         f = close_negotiation_on_offer_exit offer_id lender f;
         f = publish (Ev_off_wdr (off_id offer) (off_lender offer)) f
     in Inr (offer, w\<lparr>w_financing := f\<rparr>)))))))"

text \<open>
  \<open>settle_acceptance\<close> in three steps: the negotiation that settlement ends, the mint of the lender's
  position token, and the settlement around them.
\<close>

definition close_negotiation_on_settlement :: "symbol \<Rightarrow> address \<Rightarrow> financing \<Rightarrow> financing" where
  "close_negotiation_on_settlement offer_id closer f =
     (if load_negotiation offer_id f \<noteq> [] \<and> load_outcome offer_id f = None
      then publish (Ev_neg_clsd offer_id NegAccepted closer) (save_outcome offer_id NegAccepted f)
      else f)"

definition mint_position ::
  "'t sep41 \<Rightarrow> env \<Rightarrow> financing_offer \<Rightarrow> financing \<Rightarrow> 't \<Rightarrow> error + ('t \<times> financing)" where
  "mint_position T e offer f t =
     (case postok f of
        None \<Rightarrow> Inr (t, f)
      | Some pos_token \<Rightarrow>
          bindE (tk_mint T e pos_token (off_lender offer) (off_amount offer) t) (\<lambda>t.
          Inr (t, publish (Ev_pos_mint (off_id offer) (off_lender offer) (off_amount offer)) f)))"

definition settle_acceptance ::
  "'t sep41 \<Rightarrow> env \<Rightarrow> symbol \<Rightarrow> financing_offer \<Rightarrow> invoice \<Rightarrow> address \<Rightarrow>
     ('t, 'z) fworld_scheme \<Rightarrow> error + (financing_offer \<times> ('t, 'z) fworld_scheme)" where
  "settle_acceptance T e offer_id offer invoice closer w =
     (let f = close_negotiation_on_settlement offer_id closer (w_financing w);
          offer = offer\<lparr>off_status := OffAccepted, off_funded_at := ledger_timestamp e\<rparr>;
          f = save_offers (sm_set (load_offers f) offer_id offer) f in
     bindE (resolve_token (off_currency offer) f) (\<lambda>token_id.
     bindE (tk_transfer_from T e token_id (current_contract e) (off_lender offer)
              (inv_originator invoice) (off_amount offer) (w_token w)) (\<lambda>t.
     bindE (registry_env e f) (\<lambda>e'.
     bindE (financing_marks_invoice_financed e' (off_invoice_id offer) (w_registry w)) (\<lambda>(_, r).
     bindE (mint_position T e offer f t) (\<lambda>(t, f).
     let s = fin_load_stats f in
     bindE (add_i128 (total_financed s) (off_amount offer)) (\<lambda>fin.
     let f = fin_save_stats (s\<lparr>total_financed := fin\<rparr>) f;
         ls = load_lender_stats (off_lender offer) f in
     bindE (add_i128 (total_accepted ls) (off_amount offer)) (\<lambda>acc.
     let f = save_lender_stats (off_lender offer) (ls\<lparr>total_accepted := acc\<rparr>) f;
         f = publish (Ev_off_acc (off_id offer) (off_invoice_id offer) (off_lender offer)
               (off_amount offer)) f
     in Inr (offer, w\<lparr>w_registry := r, w_financing := f, w_token := t\<rparr>)))))))))"

definition offer_expired :: "env \<Rightarrow> financing_offer \<Rightarrow> bool" where
  "offer_expired e offer \<longleftrightarrow> off_expires_at offer \<noteq> 0 \<and> ledger_timestamp e \<ge> off_expires_at offer"

definition accept_offer ::
  "'t sep41 \<Rightarrow> env \<Rightarrow> symbol \<Rightarrow> address \<Rightarrow> ('t, 'z) fworld_scheme \<Rightarrow>
     error + (financing_offer \<times> ('t, 'z) fworld_scheme)" where
  "accept_offer T e offer_id invoice_originator w =
     (let f = w_financing w in
     bindE (assert_not_paused f) (\<lambda>_.
     bindE (require_auth e invoice_originator) (\<lambda>_.
     bindE (get_offer offer_id f) (\<lambda>offer.
     bindE (ensure (\<not> off_status offer \<noteq> OffPending) (Contract InvalidTransition)) (\<lambda>_.
     bindE (ensure (\<not> offer_expired e offer) (Contract OfferExpired)) (\<lambda>_.
     bindE (read_invoice e (off_invoice_id offer) w) (\<lambda>invoice.
     bindE (ensure (\<not> inv_originator invoice \<noteq> invoice_originator) (Contract Unauthorized)) (\<lambda>_.
     bindE (ensure (\<not> inv_status invoice \<noteq> InvPending) (Contract InvalidTransition)) (\<lambda>_.
     settle_acceptance T e offer_id offer invoice invoice_originator w)))))))))"

definition reject_offer ::
  "env \<Rightarrow> symbol \<Rightarrow> address \<Rightarrow> ('t, 'z) fworld_scheme \<Rightarrow>
     error + (financing_offer \<times> ('t, 'z) fworld_scheme)" where
  "reject_offer e offer_id invoice_originator w =
     (let f = w_financing w in
     bindE (assert_not_paused f) (\<lambda>_.
     bindE (require_auth e invoice_originator) (\<lambda>_.
     bindE (get_offer offer_id f) (\<lambda>offer.
     bindE (ensure (\<not> off_status offer \<noteq> OffPending) (Contract InvalidTransition)) (\<lambda>_.
     bindE (read_invoice e (off_invoice_id offer) w) (\<lambda>invoice.
     bindE (ensure (\<not> inv_originator invoice \<noteq> invoice_originator) (Contract Unauthorized)) (\<lambda>_.
     let offer = offer\<lparr>off_status := OffRejected\<rparr>;
         f = save_offers (sm_set (load_offers f) offer_id offer) f;
         f = close_negotiation_on_offer_exit offer_id invoice_originator f;
         f = publish (Ev_off_rej (off_id offer) (off_invoice_id offer)) f
     in Inr (offer, w\<lparr>w_financing := f\<rparr>))))))))"

subsection \<open>Negotiation\<close>

definition get_negotiation :: "symbol \<Rightarrow> financing \<Rightarrow> negotiation_record list" where
  "get_negotiation offer_id f = load_negotiation offer_id f"

definition get_negotiation_deadline :: "symbol \<Rightarrow> financing \<Rightarrow> nat" where
  "get_negotiation_deadline offer_id f = load_deadline offer_id f"

definition get_negotiation_status :: "env \<Rightarrow> symbol \<Rightarrow> financing \<Rightarrow> negotiation_status" where
  "get_negotiation_status e offer_id f =
     (case load_outcome offer_id f of
        Some outcome \<Rightarrow> outcome
      | None \<Rightarrow>
         (if load_negotiation offer_id f = [] then NegNone
          else case map_of (load_offers f) offer_id of
              None \<Rightarrow> NegClosed
            | Some offer \<Rightarrow>
                (if off_status offer \<noteq> OffPending then NegClosed
                 else if ledger_timestamp e > load_deadline offer_id f then NegExpired else NegOpen)))"

definition assert_negotiable ::
  "env \<Rightarrow> symbol \<Rightarrow> financing_offer \<Rightarrow> nat \<Rightarrow> financing \<Rightarrow> error + negotiation_record list" where
  "assert_negotiable e offer_id offer expected_round f =
     bindE (ensure (\<not> off_status offer \<noteq> OffPending) (Contract InvalidTransition)) (\<lambda>_.
     bindE (ensure (get_negotiation_status e offer_id f = NegNone \<or>
                    get_negotiation_status e offer_id f = NegOpen) (Contract InvalidTransition)) (\<lambda>_.
     let history = load_negotiation offer_id f in
     bindE (ensure (\<not> length history \<noteq> expected_round) (Contract InvalidInput)) (\<lambda>_.
     bindE (ensure (\<not> length history \<ge> MAX_NEGOTIATION_ROUNDS) (Contract InvalidTransition)) (\<lambda>_.
     Inr history))))"

definition record_round ::
  "env \<Rightarrow> symbol \<Rightarrow> negotiation_record list \<Rightarrow> negotiation_party \<Rightarrow> int \<Rightarrow> nat \<Rightarrow> nat \<Rightarrow>
     financing \<Rightarrow> financing" where
  "record_round e offer_id history party amount interest_rate duration f =
     (let now = ledger_timestamp e;
          f = (if history = []
               then save_deadline offer_id (sat_add_u64 now (get_negotiation_window f)) f else f);
          history = history @ [\<lparr>neg_party = party, neg_amount = amount,
            neg_interest_rate = interest_rate, neg_duration = duration, neg_timestamp = now\<rparr>]
      in save_negotiation offer_id history f)"

definition execute_agreement ::
  "'t sep41 \<Rightarrow> env \<Rightarrow> symbol \<Rightarrow> address \<Rightarrow> ('t, 'z) fworld_scheme \<Rightarrow>
     error + (financing_offer \<times> ('t, 'z) fworld_scheme)" where
  "execute_agreement T e offer_id closer w =
     bindE (get_offer offer_id (w_financing w)) (\<lambda>offer.
     bindE (read_invoice e (off_invoice_id offer) w) (\<lambda>invoice.
     bindE (ensure (\<not> inv_status invoice \<noteq> InvPending) (Contract InvalidTransition)) (\<lambda>_.
     bindE (ensure (\<not> offer_expired e offer) (Contract OfferExpired)) (\<lambda>_.
     bindE (fin_assert_not_blacklisted e (off_lender offer) w) (\<lambda>_.
     bindE (fin_assert_not_blacklisted e (inv_originator invoice) w) (\<lambda>_.
     settle_acceptance T e offer_id offer invoice closer w))))))"

text \<open>
  Whether the counterparty's live proposal is the proposed tuple, and what an amendment writes
  before it may settle: the lender's statistics, the offer's terms, the round and the event.
\<close>

definition meets_proposal :: "negotiation_record list \<Rightarrow> int \<Rightarrow> nat \<Rightarrow> nat \<Rightarrow> bool" where
  "meets_proposal history amount interest_rate duration =
     (case last_proposal_by history ByOriginator of
        Some counter \<Rightarrow> neg_amount counter = amount \<and> neg_interest_rate counter = interest_rate \<and>
          neg_duration counter = duration
      | None \<Rightarrow> False)"

definition write_amendment ::
  "env \<Rightarrow> symbol \<Rightarrow> address \<Rightarrow> negotiation_record list \<Rightarrow> int \<Rightarrow> nat \<Rightarrow> nat \<Rightarrow> financing_offer \<Rightarrow>
     lender_stats \<Rightarrow> financing \<Rightarrow> financing" where
  "write_amendment e offer_id lender history amount interest_rate duration offer ls f =
     (let f = save_lender_stats lender ls f;
          f = save_offers (sm_set (load_offers f) offer_id offer) f;
          f = record_round e offer_id history ByLender amount interest_rate duration f
      in publish (Ev_off_amd offer_id lender amount interest_rate duration) f)"

definition amend_offer ::
  "'t sep41 \<Rightarrow> env \<Rightarrow> symbol \<Rightarrow> address \<Rightarrow> nat \<Rightarrow> int \<Rightarrow> nat \<Rightarrow> nat \<Rightarrow>
     ('t, 'z) fworld_scheme \<Rightarrow> error + (financing_offer \<times> ('t, 'z) fworld_scheme)" where
  "amend_offer T e offer_id lender expected_round amount interest_rate duration w =
     (let f = w_financing w in
     bindE (assert_not_paused f) (\<lambda>_.
     bindE (require_auth e lender) (\<lambda>_.
     bindE (fin_assert_not_blacklisted e lender w) (\<lambda>_.
     bindE (assert_terms_valid amount interest_rate duration) (\<lambda>_.
     bindE (get_offer offer_id f) (\<lambda>offer.
     bindE (ensure (\<not> off_lender offer \<noteq> lender) (Contract Unauthorized)) (\<lambda>_.
     bindE (assert_negotiable e offer_id offer expected_round f) (\<lambda>history.
     let agreed = meets_proposal history amount interest_rate duration;
         ls = load_lender_stats lender f in
     bindE (sub_i128 amount (off_amount offer)) (\<lambda>delta.
     bindE (add_i128 (total_offered ls) delta) (\<lambda>tot.
     let offer = offer\<lparr>off_amount := amount, off_interest_rate := interest_rate,
           off_duration := duration\<rparr>;
         w = w\<lparr>w_financing := write_amendment e offer_id lender history amount interest_rate duration
           offer (ls\<lparr>total_offered := tot\<rparr>) f\<rparr>
     in if agreed then execute_agreement T e offer_id lender w else Inr (offer, w)))))))))))"

definition counter_offer ::
  "'t sep41 \<Rightarrow> env \<Rightarrow> symbol \<Rightarrow> address \<Rightarrow> nat \<Rightarrow> int \<Rightarrow> nat \<Rightarrow> nat \<Rightarrow>
     ('t, 'z) fworld_scheme \<Rightarrow> error + (financing_offer \<times> ('t, 'z) fworld_scheme)" where
  "counter_offer T e offer_id originator expected_round amount interest_rate duration w =
     (let f = w_financing w in
     bindE (assert_not_paused f) (\<lambda>_.
     bindE (require_auth e originator) (\<lambda>_.
     bindE (fin_assert_not_blacklisted e originator w) (\<lambda>_.
     bindE (assert_terms_valid amount interest_rate duration) (\<lambda>_.
     bindE (get_offer offer_id f) (\<lambda>offer.
     bindE (read_invoice e (off_invoice_id offer) w) (\<lambda>invoice.
     bindE (ensure (\<not> inv_originator invoice \<noteq> originator) (Contract Unauthorized)) (\<lambda>_.
     bindE (assert_negotiable e offer_id offer expected_round f) (\<lambda>history.
     let agreed = (amount = off_amount offer \<and> interest_rate = off_interest_rate offer \<and>
           duration = off_duration offer);
         w = w\<lparr>w_financing := publish (Ev_ctr_off offer_id originator amount interest_rate duration)
           (record_round e offer_id history ByOriginator amount interest_rate duration f)\<rparr>
     in if agreed then execute_agreement T e offer_id originator w else Inr (offer, w))))))))))"

definition close_negotiation ::
  "env \<Rightarrow> symbol \<Rightarrow> address \<Rightarrow> ('t, 'z) fworld_scheme \<Rightarrow>
     error + (negotiation_status \<times> ('t, 'z) fworld_scheme)" where
  "close_negotiation e offer_id caller w =
     (let f = w_financing w in
     bindE (assert_not_paused f) (\<lambda>_.
     bindE (require_auth e caller) (\<lambda>_.
     bindE (ensure (load_outcome offer_id f = None) (Contract InvalidTransition)) (\<lambda>_.
     bindE (case get_negotiation_status e offer_id f of
              NegNone \<Rightarrow> Inl (Contract NotFound)
            | NegClosed \<Rightarrow> Inl (Contract InvalidTransition)
            | NegAccepted \<Rightarrow> Inl (Contract InvalidTransition)
            | NegExpired \<Rightarrow> Inr NegExpired
            | NegOpen \<Rightarrow>
                bindE (get_offer offer_id f) (\<lambda>offer.
                if caller \<noteq> off_lender offer
                then bindE (read_invoice e (off_invoice_id offer) w) (\<lambda>invoice.
                     bindE (ensure (\<not> caller \<noteq> inv_originator invoice) (Contract Unauthorized)) (\<lambda>_.
                     Inr NegClosed))
                else Inr NegClosed)) (\<lambda>outcome.
     Inr (outcome, w\<lparr>w_financing := publish (Ev_neg_clsd offer_id outcome caller)
            (save_outcome offer_id outcome f)\<rparr>))))))"

subsection \<open>Callbacks of the repayment contract\<close>

definition assert_only_repayment :: "env \<Rightarrow> financing \<Rightarrow> error + unit" where
  "assert_only_repayment e f =
     bindE (fetch (fin_repayment f) (Panic ''Repayment contract not configured'')) (require_auth e)"

definition update_offer_status :: "env \<Rightarrow> symbol \<Rightarrow> offer_status \<Rightarrow> financing \<Rightarrow> error + financing" where
  "update_offer_status e x new_status f =
     bindE (assert_not_paused f) (\<lambda>_.
     bindE (assert_only_repayment e f) (\<lambda>_.
     bindE (get_offer x f) (\<lambda>offer.
     Inr (save_offers (sm_set (load_offers f) x (offer\<lparr>off_status := new_status\<rparr>)) f))))"

definition update_offer_amount_repaid :: "env \<Rightarrow> symbol \<Rightarrow> int \<Rightarrow> financing \<Rightarrow> error + financing" where
  "update_offer_amount_repaid e x amount_repaid f =
     bindE (assert_not_paused f) (\<lambda>_.
     bindE (assert_only_repayment e f) (\<lambda>_.
     bindE (get_offer x f) (\<lambda>offer.
     Inr (save_offers (sm_set (load_offers f) x (offer\<lparr>off_amount_repaid := amount_repaid\<rparr>)) f))))"

definition update_lender_stats_repaid :: "env \<Rightarrow> address \<Rightarrow> bool \<Rightarrow> financing \<Rightarrow> error + financing" where
  "update_lender_stats_repaid e lender fully_repaid f =
     bindE (assert_not_paused f) (\<lambda>_.
     bindE (assert_only_repayment e f) (\<lambda>_.
     let ls = load_lender_stats lender f in
     bindE (if fully_repaid then bindE (add_u32 (offers_repaid ls) 1) (\<lambda>n. Inr (ls\<lparr>offers_repaid := n\<rparr>))
            else Inr ls) (\<lambda>ls.
     Inr (save_lender_stats lender ls f))))"

definition update_stats_repaid :: "env \<Rightarrow> int \<Rightarrow> int \<Rightarrow> financing \<Rightarrow> error + financing" where
  "update_stats_repaid e amount fee_amount f =
     bindE (assert_not_paused f) (\<lambda>_.
     bindE (assert_only_repayment e f) (\<lambda>_.
     let s = fin_load_stats f in
     bindE (add_i128 (total_repaid s) amount) (\<lambda>rep.
     bindE (add_i128 (total_fee_revenue s) fee_amount) (\<lambda>fee.
     Inr (fin_save_stats (s\<lparr>total_repaid := rep, total_fee_revenue := fee\<rparr>) f)))))"

definition get_fee_bps :: "financing \<Rightarrow> nat" where
  "get_fee_bps f = (case fin_feebps f of None \<Rightarrow> 0 | Some n \<Rightarrow> n)"

subsection \<open>Schedules\<close>

definition schedule_repayment ::
  "env \<Rightarrow> symbol \<Rightarrow> address \<Rightarrow> schedule_frequency \<Rightarrow> nat \<Rightarrow> nat \<Rightarrow> ('t, 'z) fworld_scheme \<Rightarrow>
     error + (repayment_schedule \<times> ('t, 'z) fworld_scheme)" where
  "schedule_repayment e offer_id caller frequency count first_due w =
     (let f = w_financing w in
     bindE (assert_not_paused f) (\<lambda>_.
     bindE (require_auth e caller) (\<lambda>_.
     bindE (ensure (count \<ge> 1) (Panic ''count must be at least 1'')) (\<lambda>_.
     bindE (ensure (count \<le> 1200) (Panic ''count must be at most 1200 installments'')) (\<lambda>_.
     bindE (ensure (first_due > ledger_timestamp e) (Panic ''first_due must be in the future'')) (\<lambda>_.
     bindE (get_offer offer_id f) (\<lambda>offer.
     bindE (ensure (\<not> (off_status offer = OffRejected \<or> off_status offer = OffRepaid \<or>
                        off_status offer = OffDefaulted)) (Contract InvalidTransition)) (\<lambda>_.
     bindE (read_invoice e (off_invoice_id offer) w) (\<lambda>invoice.
     bindE (ensure (\<not> (caller \<noteq> off_lender offer \<and> caller \<noteq> inv_originator invoice))
       (Contract Unauthorized)) (\<lambda>_.
     bindE (div_i128 (off_amount offer) (int count)) (\<lambda>installment_principal.
     bindE (mul_i128 installment_principal (int (off_interest_rate offer))) (\<lambda>product.
     bindE (div_i128 product 10000) (\<lambda>installment_yield.
     bindE (add_i128 installment_principal installment_yield) (\<lambda>installment_amount.
     bindE (ensure (installment_amount > 0) (Panic ''installment amount must be greater than zero'')) (\<lambda>_.
     let schedule = \<lparr>rs_offer_id = offer_id, rs_count = count, rs_frequency = frequency,
           rs_installment_amount = installment_amount, rs_first_due = first_due\<rparr>
     in Inr (schedule, w\<lparr>w_financing := save_schedules ((load_schedules f)(offer_id \<mapsto> schedule)) f\<rparr>))))))))))))))))"

definition get_schedule :: "symbol \<Rightarrow> financing \<Rightarrow> repayment_schedule option" where
  "get_schedule offer_id f = load_schedules f offer_id"

definition get_installment_due :: "env \<Rightarrow> symbol \<Rightarrow> financing \<Rightarrow> nat" where
  "get_installment_due e offer_id f =
     (case load_schedules f offer_id of None \<Rightarrow> 0 | Some schedule \<Rightarrow>
       (case map_of (load_offers f) offer_id of None \<Rightarrow> 0 | Some offer \<Rightarrow>
         if off_status offer = OffRepaid \<or> off_status offer = OffDefaulted then 0
         else let now = ledger_timestamp e in
           if now < rs_first_due schedule then 0
           else let period = period_secs (rs_frequency schedule);
                    elapsed = min ((now - rs_first_due schedule) div period + 1) (rs_count schedule);
                    paid_count = (if rs_installment_amount schedule = 0 then rs_count schedule
                      else nat ((off_amount_repaid offer sdiv rs_installment_amount schedule) mod 2 ^ 32))
                in if paid_count \<ge> elapsed then 0 else paid_count + 1))"

subsection \<open>Queries\<close>

definition collect_offers :: "(financing_offer \<Rightarrow> bool) \<Rightarrow> financing \<Rightarrow> financing_offer list" where
  "collect_offers P f = fold (\<lambda>(x, offer) result. if P offer then result @ [offer] else result) (load_offers f) []"

definition get_offers_by_invoice :: "symbol \<Rightarrow> financing \<Rightarrow> financing_offer list" where
  "get_offers_by_invoice x f = collect_offers (\<lambda>offer. off_invoice_id offer = x) f"

definition get_offers_by_lender :: "address \<Rightarrow> financing \<Rightarrow> financing_offer list" where
  "get_offers_by_lender a f = collect_offers (\<lambda>offer. off_lender offer = a) f"

definition get_all_offers :: "financing \<Rightarrow> financing_offer list" where
  "get_all_offers f = collect_offers (\<lambda>offer. True) f"

definition get_offers_by_status :: "offer_status \<Rightarrow> financing \<Rightarrow> financing_offer list" where
  "get_offers_by_status st f = collect_offers (\<lambda>offer. off_status offer = st) f"

definition get_pending_offers_by_invoice :: "symbol \<Rightarrow> financing \<Rightarrow> financing_offer list" where
  "get_pending_offers_by_invoice x f =
     collect_offers (\<lambda>offer. off_invoice_id offer = x \<and> off_status offer = OffPending) f"

definition get_offers_count :: "financing \<Rightarrow> nat" where
  "get_offers_count f = length (load_offers f)"

fun paginate_offers ::
  "nat \<Rightarrow> nat \<Rightarrow> nat \<Rightarrow> financing_offer list \<Rightarrow> (symbol, financing_offer) smap \<Rightarrow> financing_offer list" where
  "paginate_offers offset limit idx result [] = result"
| "paginate_offers offset limit idx result ((x, offer) # rest) =
     (let result = (if offset \<le> idx \<and> length result < limit then result @ [offer] else result)
      in if limit \<le> length result then result
         else paginate_offers offset limit (Suc idx) result rest)"

definition get_offers_paginated :: "nat \<Rightarrow> nat \<Rightarrow> financing \<Rightarrow> financing_offer list" where
  "get_offers_paginated offset limit f = paginate_offers offset limit 0 [] (load_offers f)"

definition get_lender_stats :: "address \<Rightarrow> financing \<Rightarrow> lender_stats" where
  "get_lender_stats a f = load_lender_stats a f"

definition get_lender_active_total :: "address \<Rightarrow> financing \<Rightarrow> error + int" where
  "get_lender_active_total a f =
     foldE (\<lambda>(x, offer) total.
       if off_lender offer = a \<and> (off_status offer = OffAccepted \<or> off_status offer = OffFinanced)
       then add_i128 total (off_amount offer) else Inr total) (load_offers f) 0"

definition fin_get_stats :: "financing \<Rightarrow> protocol_stats" where
  "fin_get_stats f = fin_load_stats f"

definition get_offer_duration_limits :: "env \<Rightarrow> nat \<times> nat" where
  "get_offer_duration_limits e = (MIN_OFFER_DURATION_SECS, MAX_OFFER_DURATION_SECS)"

subsection \<open>Governance entry points of this contract\<close>

definition financing_get_admin ::
  "financing \<Rightarrow> error + address" where
  "financing_get_admin s = get_admin s"

definition financing_get_admin_config ::
  "financing \<Rightarrow> error + admin_config" where
  "financing_get_admin_config s = get_admin_config s"

definition financing_get_signers ::
  "financing \<Rightarrow> error + address list" where
  "financing_get_signers s = get_signers s"

definition financing_get_threshold ::
  "financing \<Rightarrow> error + nat" where
  "financing_get_threshold s = get_threshold s"

definition financing_set_signers ::
  "env \<Rightarrow> address list \<Rightarrow> address list \<Rightarrow> nat \<Rightarrow> financing \<Rightarrow> error + financing" where
  "financing_set_signers e sgs new thr s = set_signers e sgs new thr s"

definition financing_transfer_admin ::
  "env \<Rightarrow> address list \<Rightarrow> address \<Rightarrow> financing \<Rightarrow> error + financing" where
  "financing_transfer_admin e sgs new_admin s = transfer_admin e sgs new_admin s"

definition financing_pause ::
  "env \<Rightarrow> address list \<Rightarrow> financing \<Rightarrow> error + financing" where
  "financing_pause e sgs s = pause e sgs s"

definition financing_unpause ::
  "env \<Rightarrow> address list \<Rightarrow> financing \<Rightarrow> error + financing" where
  "financing_unpause e sgs s = unpause e sgs s"

definition financing_is_paused ::
  "financing \<Rightarrow> bool" where
  "financing_is_paused s = contract_is_paused s"

definition financing_version ::
  "financing \<Rightarrow> error + string" where
  "financing_version s = version s"

definition financing_upgrade ::
  "env \<Rightarrow> address list \<Rightarrow> bytes32 \<Rightarrow> bytes32 \<Rightarrow> string \<Rightarrow> financing \<Rightarrow> error + financing" where
  "financing_upgrade e sgs cur new v s = upgrade e sgs cur new v s"

definition financing_post_upgrade ::
  "env \<Rightarrow> address list \<Rightarrow> financing \<Rightarrow> error + financing" where
  "financing_post_upgrade e sgs s = post_upgrade_with (\<lambda>s. s) e sgs s"

definition financing_rollback ::
  "env \<Rightarrow> address list \<Rightarrow> financing \<Rightarrow> error + financing" where
  "financing_rollback e sgs s = rollback e sgs s"

end
