(* ===== verification/Settlement.thy ===== *)
theory Settlement
  imports Financing
begin

text \<open>
  What accepting an offer does, across the financing contract, the registry and the token, and what
  can happen to an offer: \<open>offer_step\<close> has one case per entry point of \<open>financing/src/lib.rs\<close> that a
  lender or an originator calls, and \<open>offer_life\<close> interprets \<open>lifecycle\<close> on the offers themselves.
\<close>

subsection \<open>Selectors\<close>

lemma publish_financing [simp]:
  "offers (publish ev f) = offers f" "negot (publish ev f) = negot f" "negend (publish ev f) = negend f"
  "negdl (publish ev f) = negdl f" "registry_ref (publish ev f) = registry_ref f"
  "postok (publish ev f) = postok f" "scheds (publish ev f) = scheds f" "lstats (publish ev f) = lstats f"
  "fstats (publish ev f) = fstats f" "fin_repayment (publish ev f) = fin_repayment f"
  "fin_feebps (publish ev f) = fin_feebps f" "negwin (publish ev f) = negwin f"
  by (simp_all add: publish_def)

lemma close_on_settlement_sel [simp]:
  "offers (close_negotiation_on_settlement x c f) = offers f"
  "negot (close_negotiation_on_settlement x c f) = negot f"
  "registry_ref (close_negotiation_on_settlement x c f) = registry_ref f"
  "postok (close_negotiation_on_settlement x c f) = postok f"
  "curtok (close_negotiation_on_settlement x c f) = curtok f"
  "default_token (close_negotiation_on_settlement x c f) = default_token f"
  "fin_feebps (close_negotiation_on_settlement x c f) = fin_feebps f"
  "scheds (close_negotiation_on_settlement x c f) = scheds f"
  "fin_repayment (close_negotiation_on_settlement x c f) = fin_repayment f"
  by (simp_all add: close_negotiation_on_settlement_def)

lemma close_on_exit_sel [simp]:
  "offers (close_negotiation_on_offer_exit x c f) = offers f"
  "negot (close_negotiation_on_offer_exit x c f) = negot f"
  "fin_feebps (close_negotiation_on_offer_exit x c f) = fin_feebps f"
  "fin_repayment (close_negotiation_on_offer_exit x c f) = fin_repayment f"
  by (simp_all add: close_negotiation_on_offer_exit_def)

lemma record_round_sel [simp]:
  "offers (record_round e x h p a r d f) = offers f"
  "negot (record_round e x h p a r d f) = (negot f)(x \<mapsto> h @ [\<lparr>neg_party = p, neg_amount = a,
     neg_interest_rate = r, neg_duration = d, neg_timestamp = ledger_timestamp e\<rparr>])"
  "fin_feebps (record_round e x h p a r d f) = fin_feebps f"
  "curtok (record_round e x h p a r d f) = curtok f"
  "default_token (record_round e x h p a r d f) = default_token f"
  "registry_ref (record_round e x h p a r d f) = registry_ref f"
  "fin_repayment (record_round e x h p a r d f) = fin_repayment f"
  by (simp_all add: record_round_def Let_def)

lemma get_offer_Inr_iff [ok]: "get_offer x f = Inr o1 \<longleftrightarrow> map_of (offers f) x = Some o1"
  by (simp add: get_offer_def ok)

lemma registry_env_Inr_iff [ok]:
  "registry_env e f = Inr e' \<longleftrightarrow> registry_ref f = Some (deployed_at e RegistryC) \<and>
     e' = e\<lparr>current_contract := deployed_at e RegistryC, invoker := Some (current_contract e)\<rparr>"
  by (auto simp: registry_env_def ok)

lemma read_invoice_Inr_iff [ok]:
  "read_invoice e x w = Inr i \<longleftrightarrow>
     registry_ref (w_financing w) = Some (deployed_at e RegistryC) \<and> map_of (invoices (w_registry w)) x = Some i"
  by (auto simp: read_invoice_def ok)

lemma resolve_token_cong:
  "curtok f = curtok g \<Longrightarrow> default_token f = default_token g \<Longrightarrow> resolve_token c f = resolve_token c g"
  by (simp add: resolve_token_def get_currency_token_def load_currency_registry_def split: option.split)

lemma mint_position_sel:
  assumes "mint_position T e o1 f t = Inr (t', f')"
  shows "offers f' = offers f \<and> negot f' = negot f \<and> fin_feebps f' = fin_feebps f \<and>
    fin_repayment f' = fin_repayment f \<and> fin_load_stats f' = fin_load_stats f \<and> scheds f' = scheds f \<and>
    (case postok f of None \<Rightarrow> t' = t
     | Some p \<Rightarrow> tk_mint T e p (off_lender o1) (off_amount o1) t = Inr t')"
  using assms by (auto simp: mint_position_def ok fin_load_stats_def split: option.splits)

subsection \<open>Settlement\<close>

lemma settle_ok:
  assumes "settle_acceptance T e x o0 i closer w = Inr (o1, w')"
  obtains tok t1 r' i' where
    "o1 = o0\<lparr>off_status := OffAccepted, off_funded_at := ledger_timestamp e\<rparr>"
    "resolve_token (off_currency o0) (w_financing w) = Inr tok"
    "tk_transfer_from T e tok (current_contract e) (off_lender o0) (inv_originator i) (off_amount o0)
       (w_token w) = Inr t1"
    "registry_ref (w_financing w) = Some (deployed_at e RegistryC)"
    "financing_marks_invoice_financed (e\<lparr>current_contract := deployed_at e RegistryC,
       invoker := Some (current_contract e)\<rparr>) (off_invoice_id o0) (w_registry w) = Inr (i', r')"
    "(case postok (w_financing w) of None \<Rightarrow> w_token w' = t1
      | Some p \<Rightarrow> tk_mint T e p (off_lender o0) (off_amount o0) t1 = Inr (w_token w'))"
    "w_registry w' = r'" "offers (w_financing w') = sm_set (offers (w_financing w)) x o1"
    "negot (w_financing w') = negot (w_financing w)"
    "fin_feebps (w_financing w') = fin_feebps (w_financing w)"
    "fin_repayment (w_financing w') = fin_repayment (w_financing w)"
    "fworld.more w' = fworld.more w"
proof -
  let ?o1 = "o0\<lparr>off_status := OffAccepted, off_funded_at := ledger_timestamp e\<rparr>"
  let ?f0 = "close_negotiation_on_settlement x closer (w_financing w)"
  let ?f1 = "save_offers (sm_set (load_offers ?f0) x ?o1) ?f0"
  from assms obtain tok t1 e' ir tf fin acc where
    1: "resolve_token (off_currency ?o1) ?f1 = Inr tok"
    "tk_transfer_from T e tok (current_contract e) (off_lender ?o1) (inv_originator i) (off_amount ?o1)
       (w_token w) = Inr t1"
    "registry_env e ?f1 = Inr e'"
    "financing_marks_invoice_financed e' (off_invoice_id ?o1) (w_registry w) = Inr ir"
    "mint_position T e ?o1 ?f1 t1 = Inr tf"
    and 2: "?o1 = o1"
    "w\<lparr>w_registry := snd ir,
       w_financing := publish (Ev_off_acc (off_id ?o1) (off_invoice_id ?o1) (off_lender ?o1) (off_amount ?o1))
         (save_lender_stats (off_lender ?o1)
           ((load_lender_stats (off_lender ?o1)
              (fin_save_stats ((fin_load_stats (snd tf))\<lparr>total_financed := fin\<rparr>) (snd tf)))\<lparr>total_accepted := acc\<rparr>)
           (fin_save_stats ((fin_load_stats (snd tf))\<lparr>total_financed := fin\<rparr>) (snd tf))),
       w_token := fst tf\<rparr> = w'"
    unfolding settle_acceptance_def split_def Let_def bindE_Inr_iff sum.inject prod.inject
    by (elim exE conjE) (rule that)
  obtain t2 f2 where tf: "tf = (t2, f2)" by (cases tf)
  from mint_position_sel [OF 1(5) [unfolded tf]] have m: "offers f2 = sm_set (offers (w_financing w)) x ?o1"
    "negot f2 = negot (w_financing w)" "fin_feebps f2 = fin_feebps (w_financing w)"
    "fin_repayment f2 = fin_repayment (w_financing w)"
    "case postok (w_financing w) of None \<Rightarrow> t2 = t1
      | Some p \<Rightarrow> tk_mint T e p (off_lender o0) (off_amount o0) t1 = Inr t2"
    by (simp_all split: option.splits)
  have res: "resolve_token (off_currency o0) (w_financing w) = Inr tok"
    using 1(1) resolve_token_cong [of ?f1 "w_financing w"] by simp
  obtain i' r' where ir: "ir = (i', r')" by (cases ir)
  have wt: "t2 = w_token w'" by (simp add: tf 2 [symmetric])
  show ?thesis
    by (rule that [OF _ res _ _ _ m(5) [unfolded wt]])
      (use 1(2-4) m(1-4) in \<open>simp_all add: ok tf ir 2 [symmetric]\<close>)
qed

lemma accept_offer_ok:
  assumes "accept_offer T e x a w = Inr (o1, w')"
  obtains o0 i where "\<not> paused (w_financing w)" "authorizes e a" "map_of (offers (w_financing w)) x = Some o0"
    "off_status o0 = OffPending" "\<not> offer_expired e o0"
    "map_of (invoices (w_registry w)) (off_invoice_id o0) = Some i" "inv_originator i = a"
    "inv_status i = InvPending" "settle_acceptance T e x o0 i a w = Inr (o1, w')"
  using assms by (auto simp: accept_offer_def ok Let_def)

text \<open>
  C1. Accepting an offer settles it everywhere at once: when \<open>accept_offer\<close> succeeds, the caller is the
  invoice's originator and authorized the call, the offer was Pending and had not expired and the
  invoice was Pending; afterwards the offer is Accepted and dated now and no other offer changed,
  the registry holds the same invoice as Financed, exactly the offered amount moved from the lender
  to the originator in the token of the offer's currency, and the configured position token - if it
  is a different token - credited the lender with the same amount.
\<close>

theorem accept_offer_settles:
  assumes laws: "sep41_laws T" and run: "accept_offer T e x a w = Inr (o1, w')"
  shows "\<exists>o0 i tok. get_offer x (w_financing w) = Inr o0 \<and> off_status o0 = OffPending \<and>
    \<not> offer_expired e o0 \<and> get_invoice (off_invoice_id o0) (w_registry w) = Inr i \<and>
    inv_originator i = a \<and> inv_status i = InvPending \<and> authorizes e a \<and>
    o1 = o0\<lparr>off_status := OffAccepted, off_funded_at := ledger_timestamp e\<rparr> \<and>
    (\<forall>y. map_of (offers (w_financing w')) y = (if y = x then Some o1 else map_of (offers (w_financing w)) y)) \<and>
    get_invoice (off_invoice_id o0) (w_registry w') = Inr (i\<lparr>inv_status := InvFinanced\<rparr>) \<and>
    resolve_token (off_currency o0) (w_financing w) = Inr tok \<and>
    (postok (w_financing w) \<noteq> Some tok \<longrightarrow>
      (\<forall>y. tk_balance T tok y (w_token w') =
        moved (\<lambda>y. tk_balance T tok y (w_token w)) (off_lender o0) a (off_amount o0) y)) \<and>
    (\<forall>p. postok (w_financing w) = Some p \<and> p \<noteq> tok \<longrightarrow>
      tk_balance T p (off_lender o0) (w_token w') = tk_balance T p (off_lender o0) (w_token w) + off_amount o0)"
  using run
proof (rule accept_offer_ok)
  fix o0 i
  assume o0: "map_of (offers (w_financing w)) x = Some o0" "off_status o0 = OffPending"
      "\<not> offer_expired e o0" "authorizes e a"
    and i: "map_of (invoices (w_registry w)) (off_invoice_id o0) = Some i" "inv_originator i = a"
      "inv_status i = InvPending"
    and settle: "settle_acceptance T e x o0 i a w = Inr (o1, w')"
  from settle show ?thesis
  proof (rule settle_ok)
    fix tok t1 r' i'
    assume o1: "o1 = o0\<lparr>off_status := OffAccepted, off_funded_at := ledger_timestamp e\<rparr>"
      and tok: "resolve_token (off_currency o0) (w_financing w) = Inr tok"
      and pay: "tk_transfer_from T e tok (current_contract e) (off_lender o0) (inv_originator i)
        (off_amount o0) (w_token w) = Inr t1"
      and reg: "financing_marks_invoice_financed (e\<lparr>current_contract := deployed_at e RegistryC,
        invoker := Some (current_contract e)\<rparr>) (off_invoice_id o0) (w_registry w) = Inr (i', r')"
      and mint: "case postok (w_financing w) of None \<Rightarrow> w_token w' = t1
        | Some p \<Rightarrow> tk_mint T e p (off_lender o0) (off_amount o0) t1 = Inr (w_token w')"
      and w': "w_registry w' = r'" "offers (w_financing w') = sm_set (offers (w_financing w)) x o1"
    have moved1: "tk_balance T tok y t1 =
        moved (\<lambda>y. tk_balance T tok y (w_token w)) (off_lender o0) a (off_amount o0) y"
      and others: "tok' \<noteq> tok \<Longrightarrow> tk_balance T tok' y t1 = tk_balance T tok' y (w_token w)" for y tok'
      using laws pay unfolding sep41_laws_def i(2) [symmetric] by blast+
    have minted: "tk_balance T p y (w_token w') =
        tk_balance T p y t1 + (if y = off_lender o0 then off_amount o0 else 0)"
      and unminted: "tok' \<noteq> p \<Longrightarrow> tk_balance T tok' y (w_token w') = tk_balance T tok' y t1"
      if "postok (w_financing w) = Some p" for p y tok'
      using laws mint that unfolding sep41_laws_def by fastforce+
    have "get_invoice (off_invoice_id o0) r' = Inr (i\<lparr>inv_status := InvFinanced\<rparr>)"
      using reg i(1) by (auto simp: financing_marks_invoice_financed_ok may_move_def ok)
    moreover have "postok (w_financing w) \<noteq> Some tok \<longrightarrow> (\<forall>y. tk_balance T tok y (w_token w') =
        moved (\<lambda>y. tk_balance T tok y (w_token w)) (off_lender o0) a (off_amount o0) y)"
      using mint moved1 unminted by (cases "postok (w_financing w)") auto
    ultimately show ?thesis
      using o0 i o1 tok w' minted others
      by (intro exI [of _ o0] exI [of _ i] exI [of _ tok]) (simp add: ok)
  qed
qed

text \<open>A deployment with one Pending offer of \<open>Address 3\<close> on the invoice of \<open>Address 2\<close>.\<close>

definition empty_financing :: financing where
  "empty_financing =
     \<lparr>admcfg = None, paused = False, ver_current = None, ver_previous = None,
      wasm_previous = None, upgrade_pending = None, curtok = Map.empty, default_token = None,
      trn_log = Map.empty, wasm_running = 0, events = [],
      offers = [], lstats = Map.empty, fstats = None, scheds = Map.empty, negot = Map.empty,
      negdl = Map.empty, negend = Map.empty, registry_ref = None, fin_repayment = None,
      postok = None, negwin = None, fin_feebps = None\<rparr>"

definition demo_offer :: financing_offer where
  "demo_offer = \<lparr>off_id = Symbol ''o'', off_invoice_id = Symbol ''a'', off_lender = Address 3,
     off_amount = 40000000, off_currency = Symbol ''USDC'', off_interest_rate = 500,
     off_duration = 864000, off_expires_at = 0, off_status = OffPending, off_funded_at = 0,
     off_amount_repaid = 0\<rparr>"

definition demo_world :: "ledger fworld" where
  "demo_world =
     \<lparr>w_registry = empty_registry\<lparr>invoices := [(Symbol ''a'', demo_invoice ''a'' 2)],
        financing_addr := Some (Address 101)\<rparr>,
      w_financing = empty_financing\<lparr>registry_ref := Some (Address 100),
        default_token := Some (Address 50), offers := [(Symbol ''o'', demo_offer)]\<rparr>,
      w_token = oracle_ledger\<rparr>"

lemma demo_offer_sel [simp]:
  "off_status demo_offer = OffPending" "off_lender demo_offer = Address 3"
  "off_invoice_id demo_offer = Symbol ''a''" "off_amount demo_offer = 40000000"
  "off_currency demo_offer = Symbol ''USDC''" "off_interest_rate demo_offer = 500"
  "off_duration demo_offer = 864000" "off_expires_at demo_offer = 0" "off_id demo_offer = Symbol ''o''"
  "off_amount_repaid demo_offer = 0" "off_funded_at demo_offer = 0"
  by (simp_all add: demo_offer_def)

lemma demo_world_sel [simp]:
  "invoices (w_registry demo_world) = [(Symbol ''a'', demo_invoice ''a'' 2)]"
  "paused (w_registry demo_world) = False" "financing_addr (w_registry demo_world) = Some (Address 101)"
  "blklist (w_registry demo_world) = []" "w_token demo_world = oracle_ledger"
  "offers (w_financing demo_world) = [(Symbol ''o'', demo_offer)]" "paused (w_financing demo_world) = False"
  "registry_ref (w_financing demo_world) = Some (Address 100)"
  "curtok (w_financing demo_world) = Map.empty" "default_token (w_financing demo_world) = Some (Address 50)"
  "negot (w_financing demo_world) = Map.empty" "negend (w_financing demo_world) = Map.empty"
  "negdl (w_financing demo_world) = Map.empty" "negwin (w_financing demo_world) = None"
  "postok (w_financing demo_world) = None" "fstats (w_financing demo_world) = None"
  "lstats (w_financing demo_world) = Map.empty" "scheds (w_financing demo_world) = Map.empty"
  "fin_feebps (w_financing demo_world) = None" "events (w_financing demo_world) = []"
  by (simp_all add: demo_world_def empty_financing_def)

lemma demo_deployed [simp]:
  "deployed_at (demo_env t c) RegistryC = Address 100" "deployed_at (demo_env t c) FinancingC = Address 101"
  "deployed_at (demo_env t c) RepaymentC = Address 102" "deployed_at (demo_env t c) InsuranceC = Address 103"
  "deployed_at (demo_env t c) ReputationC = Address 104"
  by (simp_all add: demo_env_def)

lemma demo_registry_call [simp]:
  "authorizes (demo_env t c\<lparr>current_contract := c', invoker := Some c\<rparr>) a"
  by (simp add: demo_env_def authorizes_def)

lemma demo_accept:
  "\<exists>o1 w'. accept_offer ledger_token (demo_env 5 (Address 101)) (Symbol ''o'') (Address 2) demo_world = Inr (o1, w')"
proof -
  let ?e = "demo_env 5 (Address 101)\<lparr>current_contract := Address 100, invoker := Some (Address 101)\<rparr>"
  obtain i' r' where "financing_marks_invoice_financed ?e (Symbol ''a'') (w_registry demo_world) = Inr (i', r')"
    by (auto simp: financing_marks_invoice_financed_ok may_move_def)
  then show ?thesis
    by (simp add: accept_offer_def settle_acceptance_def Let_def assert_not_paused_def require_auth_def
        get_offer_def offer_expired_def read_invoice_def registry_env_def callee_def get_invoice_def
        resolve_token_def get_currency_token_def load_currency_registry_def close_negotiation_on_settlement_def
        load_negotiation_def ledger_transfer_from_def oracle_ledger_def mint_position_def fin_load_stats_def
        load_lender_stats_def add_i128_def chk_i128_def in_i128_def)
qed

lemma accept_offer_settles_witness:
  "\<exists>o1 w'. accept_offer ledger_token (demo_env 5 (Address 101)) (Symbol ''o'') (Address 2) demo_world = Inr (o1, w') \<and>
     off_status o1 = OffAccepted \<and>
     get_invoice (Symbol ''a'') (w_registry w') = Inr ((demo_invoice ''a'' 2)\<lparr>inv_status := InvFinanced\<rparr>) \<and>
     balances (w_token w') (Address 50) (Address 2) = 100000000"
proof -
  obtain o1 w' where run: "accept_offer ledger_token (demo_env 5 (Address 101)) (Symbol ''o'') (Address 2)
      demo_world = Inr (o1, w')" using demo_accept by blast
  from accept_offer_settles [OF sep41_laws_ledger run] run show ?thesis
    by (auto simp: ok resolve_token_def get_currency_token_def load_currency_registry_def moved_def oracle_ledger_def)
qed

subsection \<open>Amending and countering\<close>

lemma execute_agreement_ok:
  assumes "execute_agreement T e x closer w = Inr (o1, w')"
  obtains o0 i where "map_of (offers (w_financing w)) x = Some o0"
    "map_of (invoices (w_registry w)) (off_invoice_id o0) = Some i" "inv_status i = InvPending"
    "\<not> offer_expired e o0" "\<not> is_blacklisted (off_lender o0) (w_registry w)"
    "\<not> is_blacklisted (inv_originator i) (w_registry w)"
    "settle_acceptance T e x o0 i closer w = Inr (o1, w')"
  using assms by (auto simp: execute_agreement_def fin_assert_not_blacklisted_def ok)

definition terms_valid :: "int \<Rightarrow> nat \<Rightarrow> nat \<Rightarrow> bool" where
  "terms_valid amount rate dur \<longleftrightarrow> 0 < amount \<and> 1 \<le> rate \<and> rate \<le> 10000 \<and> 86400 \<le> dur \<and> dur \<le> 31536000"

lemma assert_terms_valid_Inr_iff [ok]:
  "assert_terms_valid amount rate dur = Inr u \<longleftrightarrow> terms_valid amount rate dur"
  by (auto simp: assert_terms_valid_def terms_valid_def ok Let_def)

lemma assert_negotiable_Inr_iff [ok]:
  "assert_negotiable e x o0 n f = Inr h \<longleftrightarrow>
     off_status o0 = OffPending \<and> get_negotiation_status e x f \<in> {NegNone, NegOpen} \<and>
     h = load_negotiation x f \<and> length h = n \<and> n < 20"
  by (auto simp: assert_negotiable_def ok Let_def)

lemma write_amendment_sel [simp]:
  "offers (write_amendment e x a h amount rate dur o1 ls f) = sm_set (offers f) x o1"
  "negot (write_amendment e x a h amount rate dur o1 ls f) = (negot f)(x \<mapsto> h @ [\<lparr>neg_party = ByLender,
     neg_amount = amount, neg_interest_rate = rate, neg_duration = dur, neg_timestamp = ledger_timestamp e\<rparr>])"
  "fin_feebps (write_amendment e x a h amount rate dur o1 ls f) = fin_feebps f"
  "fin_repayment (write_amendment e x a h amount rate dur o1 ls f) = fin_repayment f"
  by (simp_all add: write_amendment_def Let_def)

lemma amend_offer_ok:
  assumes "amend_offer T e x a n amount rate dur w = Inr (o1, w')"
  obtains o0 ls where "\<not> paused (w_financing w)" "authorizes e a"
    "\<not> is_blacklisted a (w_registry w)" "terms_valid amount rate dur"
    "map_of (offers (w_financing w)) x = Some o0" "off_lender o0 = a" "off_status o0 = OffPending"
    "get_negotiation_status e x (w_financing w) \<in> {NegNone, NegOpen}"
    "length (load_negotiation x (w_financing w)) = n" "n < 20"
    "in_i128 (total_offered (load_lender_stats a (w_financing w)) + (amount - off_amount o0))"
    "ls = (load_lender_stats a (w_financing w))
       \<lparr>total_offered := total_offered (load_lender_stats a (w_financing w)) + (amount - off_amount o0)\<rparr>"
    "(if meets_proposal (load_negotiation x (w_financing w)) amount rate dur
      then execute_agreement T e x a (w\<lparr>w_financing := write_amendment e x a
        (load_negotiation x (w_financing w)) amount rate dur
        (o0\<lparr>off_amount := amount, off_interest_rate := rate, off_duration := dur\<rparr>) ls (w_financing w)\<rparr>) =
          Inr (o1, w')
      else o1 = o0\<lparr>off_amount := amount, off_interest_rate := rate, off_duration := dur\<rparr> \<and>
        w' = w\<lparr>w_financing := write_amendment e x a
        (load_negotiation x (w_financing w)) amount rate dur
        (o0\<lparr>off_amount := amount, off_interest_rate := rate, off_duration := dur\<rparr>) ls (w_financing w)\<rparr>)"
proof -
  let ?ls = "load_lender_stats a (w_financing w)"
  let ?o1 = "\<lambda>o0 :: financing_offer. o0\<lparr>off_amount := amount, off_interest_rate := rate, off_duration := dur\<rparr>"
  let ?w = "\<lambda>o0 h ls. w\<lparr>w_financing := write_amendment e x a h amount rate dur (?o1 o0) ls (w_financing w)\<rparr>"
  from assms obtain u1 u2 u3 u4 o0 h delta tot where 1: "assert_not_paused (w_financing w) = Inr u1"
    "require_auth e a = Inr u2" "fin_assert_not_blacklisted e a w = Inr u3"
    "assert_terms_valid amount rate dur = Inr u4"
    "get_offer x (w_financing w) = Inr o0" "\<not> off_lender o0 \<noteq> a"
    "assert_negotiable e x o0 n (w_financing w) = Inr h"
    "sub_i128 amount (off_amount o0) = Inr delta" "add_i128 (total_offered ?ls) delta = Inr tot"
    and 2: "(if meets_proposal h amount rate dur then execute_agreement T e x a (?w o0 h (?ls\<lparr>total_offered := tot\<rparr>))
     else Inr (?o1 o0, ?w o0 h (?ls\<lparr>total_offered := tot\<rparr>))) = Inr (o1, w')"
    unfolding amend_offer_def Let_def bindE_Inr_iff ensure_Inr_iff by (elim exE conjE) (rule that)
  show ?thesis
    by (rule that [of o0 "?ls\<lparr>total_offered := tot\<rparr>"])
      (use 1 2 in \<open>auto simp: ok fin_assert_not_blacklisted_def split: if_splits\<close>)
qed

lemma counter_offer_ok:
  assumes "counter_offer T e x a n amount rate dur w = Inr (o1, w')"
  obtains o0 i f where "\<not> paused (w_financing w)" "authorizes e a"
    "\<not> is_blacklisted a (w_registry w)" "terms_valid amount rate dur"
    "map_of (offers (w_financing w)) x = Some o0" "off_status o0 = OffPending"
    "map_of (invoices (w_registry w)) (off_invoice_id o0) = Some i" "inv_originator i = a"
    "get_negotiation_status e x (w_financing w) \<in> {NegNone, NegOpen}"
    "length (load_negotiation x (w_financing w)) = n" "n < 20"
    "f = publish (Ev_ctr_off x a amount rate dur) (record_round e x (load_negotiation x (w_financing w))
       ByOriginator amount rate dur (w_financing w))"
    "(if amount = off_amount o0 \<and> rate = off_interest_rate o0 \<and> dur = off_duration o0
      then execute_agreement T e x a (w\<lparr>w_financing := f\<rparr>) = Inr (o1, w')
      else o1 = o0 \<and> w' = w\<lparr>w_financing := f\<rparr>)"
proof -
  let ?w = "\<lambda>h. w\<lparr>w_financing := publish (Ev_ctr_off x a amount rate dur)
    (record_round e x h ByOriginator amount rate dur (w_financing w))\<rparr>"
  from assms obtain u1 u2 u3 u4 o0 i h where 1: "assert_not_paused (w_financing w) = Inr u1"
    "require_auth e a = Inr u2" "fin_assert_not_blacklisted e a w = Inr u3"
    "assert_terms_valid amount rate dur = Inr u4" "get_offer x (w_financing w) = Inr o0"
    "read_invoice e (off_invoice_id o0) w = Inr i" "\<not> inv_originator i \<noteq> a"
    "assert_negotiable e x o0 n (w_financing w) = Inr h"
    and 2: "(if amount = off_amount o0 \<and> rate = off_interest_rate o0 \<and> dur = off_duration o0
       then execute_agreement T e x a (?w h) else Inr (o0, ?w h)) = Inr (o1, w')"
    unfolding counter_offer_def Let_def bindE_Inr_iff ensure_Inr_iff by (elim exE conjE) (rule that)
  show ?thesis
    by (rule that [of o0 i, OF _ _ _ _ _ _ _ _ _ _ _ refl])
      (use 1 2 in \<open>auto simp: ok fin_assert_not_blacklisted_def split: if_splits\<close>)
qed

subsection \<open>The life of an offer\<close>

inductive offer_step :: "'t sep41 \<Rightarrow> ('t, 'z) fworld_scheme \<Rightarrow> ('t, 'z) fworld_scheme \<Rightarrow> bool" for T where
  "create_offer e x iid a amt c r d ex w = Inr (o1, w') \<Longrightarrow> offer_step T w w'"
| "withdraw_offer e x a w = Inr (o1, w') \<Longrightarrow> offer_step T w w'"
| "accept_offer T e x a w = Inr (o1, w') \<Longrightarrow> offer_step T w w'"
| "reject_offer e x a w = Inr (o1, w') \<Longrightarrow> offer_step T w w'"
| "amend_offer T e x a n amt r d w = Inr (o1, w') \<Longrightarrow> offer_step T w w'"
| "counter_offer T e x a n amt r d w = Inr (o1, w') \<Longrightarrow> offer_step T w w'"
| "close_negotiation e x a w = Inr (st, w') \<Longrightarrow> offer_step T w w'"
| "schedule_repayment e x a fr n d w = Inr (sc, w') \<Longrightarrow> offer_step T w w'"

text \<open>What an offer keeps as long as the parties act on it.\<close>

definition same_deal :: "financing_offer \<Rightarrow> financing_offer \<Rightarrow> bool" where
  "same_deal a b \<longleftrightarrow> off_id b = off_id a \<and> off_invoice_id b = off_invoice_id a \<and>
     off_lender b = off_lender a \<and> off_currency b = off_currency a \<and>
     off_expires_at b = off_expires_at a \<and> off_amount_repaid b = off_amount_repaid a"

definition offer_edge :: "financing_offer \<Rightarrow> financing_offer \<Rightarrow> bool" where
  "offer_edge a b \<longleftrightarrow> off_status a = OffPending \<and> same_deal a b \<and>
     off_status b \<in> {OffPending, OffAccepted, OffRejected}"

definition offer_at :: "('t, 'z) fworld_scheme \<Rightarrow> symbol \<Rightarrow> financing_offer option" where
  "offer_at w x = map_of (offers (w_financing w)) x"

lemma same_deal_trans: "same_deal a b \<Longrightarrow> same_deal b c \<Longrightarrow> same_deal a c"
  by (simp add: same_deal_def)

lemma settle_offer_at:
  assumes "settle_acceptance T e x o0 i c w = Inr (o1, w')"
  shows "offer_at w' = (offer_at w)(x \<mapsto> o0\<lparr>off_status := OffAccepted, off_funded_at := ledger_timestamp e\<rparr>)"
  using assms by (rule settle_ok) (simp add: offer_at_def fun_eq_iff)

lemma execute_offer_at:
  assumes "execute_agreement T e x c w = Inr (o1, w')"
  shows "\<exists>o0. offer_at w x = Some o0 \<and>
    offer_at w' = (offer_at w)(x \<mapsto> o0\<lparr>off_status := OffAccepted, off_funded_at := ledger_timestamp e\<rparr>)"
  using assms by (rule execute_agreement_ok) (auto simp: settle_offer_at offer_at_def)

text \<open>The effect of every step on the offers: a new key, one Pending offer moved, or nothing.\<close>

definition offer_effect :: "('t, 'z) fworld_scheme \<Rightarrow> ('t, 'z) fworld_scheme \<Rightarrow> bool" where
  "offer_effect w w' \<longleftrightarrow> offer_at w' = offer_at w \<or>
     (\<exists>x b. offer_at w' = (offer_at w)(x \<mapsto> b) \<and>
        (offer_at w x = None \<and> off_status b = OffPending \<and> off_amount_repaid b = 0 \<or> (\<exists>a. offer_at w x = Some a \<and> offer_edge a b)))"

lemma offer_effectI:
  "offer_at w' = (offer_at w)(x \<mapsto> b) \<Longrightarrow> offer_at w x = Some a \<Longrightarrow> offer_edge a b \<Longrightarrow> offer_effect w w'"
  by (auto simp: offer_effect_def)

lemma offer_effect_same: "offer_at w' = offer_at w \<Longrightarrow> offer_effect w w'"
  by (simp add: offer_effect_def)

lemma amend_effect:
  assumes "amend_offer T e x a n amt r d w = Inr (o1, w')"
  shows "offer_effect w w'"
  using assms
proof (rule amend_offer_ok)
  fix o0 :: financing_offer and ls
  let ?o1 = "o0\<lparr>off_amount := amt, off_interest_rate := r, off_duration := d\<rparr>"
  let ?w = "w\<lparr>w_financing := write_amendment e x a (load_negotiation x (w_financing w)) amt r d ?o1 ls
    (w_financing w)\<rparr>"
  assume o0: "map_of (offers (w_financing w)) x = Some o0" "off_status o0 = OffPending"
    and run: "if meets_proposal (load_negotiation x (w_financing w)) amt r d
      then execute_agreement T e x a ?w = Inr (o1, w') else o1 = ?o1 \<and> w' = ?w"
  have "offer_at ?w = (offer_at w)(x \<mapsto> ?o1)" by (simp add: offer_at_def fun_eq_iff)
  with run execute_offer_at [of T e x a ?w o1 w'] have
    "offer_at w' = (offer_at w)(x \<mapsto> ?o1) \<or>
     offer_at w' = (offer_at w)(x \<mapsto> ?o1\<lparr>off_status := OffAccepted, off_funded_at := ledger_timestamp e\<rparr>)"
    by (auto split: if_splits)
  then show ?thesis
    using o0 by (elim disjE; elim offer_effectI) (simp_all add: offer_edge_def same_deal_def offer_at_def)
qed

lemma counter_effect:
  assumes "counter_offer T e x a n amt r d w = Inr (o1, w')"
  shows "offer_effect w w'"
  using assms
proof (rule counter_offer_ok)
  fix o0 f
  let ?w = "w\<lparr>w_financing := f\<rparr>"
  assume o0: "map_of (offers (w_financing w)) x = Some o0" "off_status o0 = OffPending"
    and f: "f = publish (Ev_ctr_off x a amt r d) (record_round e x (load_negotiation x (w_financing w))
       ByOriginator amt r d (w_financing w))"
    and run: "if amt = off_amount o0 \<and> r = off_interest_rate o0 \<and> d = off_duration o0
      then execute_agreement T e x a ?w = Inr (o1, w') else o1 = o0 \<and> w' = ?w"
  have "offer_at ?w = offer_at w" by (simp add: offer_at_def fun_eq_iff f)
  with run o0 execute_offer_at [of T e x a ?w o1 w'] have
    "offer_at w' = offer_at w \<or>
     offer_at w' = (offer_at w)(x \<mapsto> o0\<lparr>off_status := OffAccepted, off_funded_at := ledger_timestamp e\<rparr>)"
    by (auto simp: offer_at_def split: if_splits)
  then show ?thesis
    using o0 by (elim disjE offer_effect_same; elim offer_effectI)
      (simp_all add: offer_edge_def same_deal_def offer_at_def)
qed

lemma offer_step_effect: "offer_step T w w' \<Longrightarrow> offer_effect w w'"
proof (induction rule: offer_step.induct)
  case (1 e x iid a amt c r d ex w o1 w')
  then have "offer_at w x = None" "off_status o1 = OffPending" "off_amount_repaid o1 = 0" "offer_at w' = (offer_at w)(x \<mapsto> o1)"
    by (auto simp: create_offer_def ok Let_def offer_at_def sm_has_def fun_eq_iff)
  then show ?case by (auto simp: offer_effect_def)
next
  case (2 e x a w o1 w')
  then obtain o0 where "offer_at w x = Some o0" "off_status o0 = OffPending"
    "offer_at w' = (offer_at w)(x \<mapsto> o0\<lparr>off_status := OffRejected\<rparr>)"
    by (auto simp: withdraw_offer_def ok Let_def offer_at_def fun_eq_iff)
  then show ?case by (elim offer_effectI) (simp_all add: offer_edge_def same_deal_def)
next
  case (3 e x a w o1 w')
  then obtain o0 i where "offer_at w x = Some o0" "off_status o0 = OffPending"
    "settle_acceptance T e x o0 i a w = Inr (o1, w')"
    by (auto elim: accept_offer_ok simp: offer_at_def)
  then show ?case
    by (intro offer_effectI [OF settle_offer_at]) (auto simp: offer_edge_def same_deal_def)
next
  case (4 e x a w o1 w')
  then obtain o0 where "offer_at w x = Some o0" "off_status o0 = OffPending"
    "offer_at w' = (offer_at w)(x \<mapsto> o0\<lparr>off_status := OffRejected\<rparr>)"
    by (auto simp: reject_offer_def ok Let_def offer_at_def fun_eq_iff)
  then show ?case by (elim offer_effectI) (simp_all add: offer_edge_def same_deal_def)
next
  case (7 e x a w st w')
  then show ?case by (auto simp: close_negotiation_def ok Let_def offer_effect_def offer_at_def fun_eq_iff)
next
  case (8 e x a fr n d w sc w')
  then show ?case by (auto simp: schedule_repayment_def ok Let_def offer_effect_def offer_at_def fun_eq_iff)
qed (auto intro: amend_effect counter_effect)

interpretation offer_life: lifecycle offer_at "offer_step T" offer_edge for T
proof
  fix w w' x a
  assume "offer_step T w w'" "offer_at w x = Some a"
  from offer_step_effect [OF this(1)] this(2)
  show "\<exists>b. offer_at w' x = Some b \<and> (b = a \<or> offer_edge a b)"
    by (auto simp: offer_effect_def split: if_splits)
qed

lemma offer_edges_same_deal: "offer_edge\<^sup>*\<^sup>* a b \<Longrightarrow> same_deal a b"
  by (induction rule: rtranclp_induct) (auto simp: offer_edge_def same_deal_def)

text \<open>
  What the parties cannot change: along any run of the entry points lenders and originators call in
  this contract, an offer keeps its lender, invoice, currency and expiry and never disappears, and
  once it is no longer Pending none of them changes any field of it.
\<close>

lemma offer_decided_by_parties:
  assumes "(offer_step T)\<^sup>*\<^sup>* w w'" and "get_offer x (w_financing w) = Inr a"
  shows "\<exists>b. get_offer x (w_financing w') = Inr b \<and> same_deal a b \<and>
    (off_status a \<noteq> OffPending \<longrightarrow> b = a)"
proof -
  have start: "offer_at w x = Some a" using assms(2) by (simp add: offer_at_def ok)
  from offer_life.steps_edges [OF assms(1) start] obtain b
    where b: "offer_at w' x = Some b" "same_deal a b" by (auto dest: offer_edges_same_deal)
  have "b = a" if "off_status a \<noteq> OffPending"
    using offer_life.terminal_absorbing [OF assms(1) start] that b(1) by (simp add: offer_edge_def)
  with b show ?thesis by (auto simp: offer_at_def ok)
qed

end
