(* ===== verification/Insurance.thy ===== *)
theory Insurance
  imports Registry
begin

text \<open>
  \<open>insurance/src/lib.rs\<close>: the coverage pool. Stakers deposit the staking token into the flat pool
  or into one of three tiers; the repayment contract draws payouts, each staker absorbing a
  pro-rata share; offers can reserve capacity and claim it in parts; a flat yield accrues on
  stakes. \<open>insurance\<close> has one field per storage key. Entry points that move tokens run on the pair
  of this contract's state and the token state; \<open>pay_out\<close> also reads the registry.
\<close>

definition MIN_STAKE_AMOUNT :: int where
  [simp]: "MIN_STAKE_AMOUNT = 1000000"

definition SECONDS_PER_YEAR :: int where
  [simp]: "SECONDS_PER_YEAR = 31536000"

definition BPS_DENOMINATOR :: int where
  [simp]: "BPS_DENOMINATOR = 10000"

definition RISK_AGE_SECS :: nat where
  [simp]: "RISK_AGE_SECS = 30 * 86400"

definition RISK_LARGE_INVOICE_AMOUNT :: int where
  [simp]: "RISK_LARGE_INVOICE_AMOUNT = 1000000000"

record pool_record =
  pool_balance :: int
  pool_reserved :: int
  pool_apy_bps :: nat
  pool_payout_cap_bps :: nat

record insurance = base +
  ins_stakes :: "(address, int) smap"
  pooltot :: int
  ins_token :: "address option"
  yldrate :: nat
  stk_ts :: "address \<rightharpoonup> nat"
  yld_acc :: "address \<rightharpoonup> int"
  tot_out :: int
  resrvd :: "(symbol, int) smap"
  paid_map :: "(symbol, int) smap"
  paycall :: "address option"
  ins_registry :: "address option"
  pools :: "insurance_tier \<rightharpoonup> pool_record"
  tstakes :: "(tier_stake_key, int) smap"
  tstk_ts :: "tier_stake_key \<rightharpoonup> nat"
  tyld_acc :: "tier_stake_key \<rightharpoonup> int"
  tresrv :: "(tier_offer_key, int) smap"
  tpaid :: "(tier_offer_key, int) smap"

subsection \<open>Storage\<close>

primrec tier_parameters :: "insurance_tier \<Rightarrow> nat \<times> nat" where
  "tier_parameters Conservative = (200, 5000)"
| "tier_parameters Balanced = (500, 7500)"
| "tier_parameters Aggressive = (1000, 10000)"

definition tier_key :: "address \<Rightarrow> insurance_tier \<Rightarrow> tier_stake_key" where
  "tier_key staker tier = TierStakeKey staker tier"

definition load_tier_pools :: "insurance \<Rightarrow> (insurance_tier \<rightharpoonup> pool_record)" where
  [simp]: "load_tier_pools s = pools s"

definition load_tier_pool :: "insurance_tier \<Rightarrow> insurance \<Rightarrow> pool_record" where
  "load_tier_pool tier s =
     (case tier_parameters tier of (apy_bps, payout_cap_bps) \<Rightarrow>
        case load_tier_pools s tier of
          Some p \<Rightarrow> p
        | None \<Rightarrow> \<lparr>pool_balance = 0, pool_reserved = 0, pool_apy_bps = apy_bps,
                   pool_payout_cap_bps = payout_cap_bps\<rparr>)"

definition tier_offer_key :: "symbol \<Rightarrow> insurance_tier \<Rightarrow> tier_offer_key" where
  "tier_offer_key offer_id tier = TierOfferKey offer_id tier"

definition load_tier_reservations :: "insurance \<Rightarrow> (tier_offer_key, int) smap" where
  [simp]: "load_tier_reservations s = tresrv s"

definition save_tier_reservations :: "(tier_offer_key, int) smap \<Rightarrow> insurance \<Rightarrow> insurance" where
  [simp]: "save_tier_reservations m s = s\<lparr>tresrv := m\<rparr>"

definition load_tier_paid :: "insurance \<Rightarrow> (tier_offer_key, int) smap" where
  [simp]: "load_tier_paid s = tpaid s"

definition save_tier_paid :: "(tier_offer_key, int) smap \<Rightarrow> insurance \<Rightarrow> insurance" where
  [simp]: "save_tier_paid m s = s\<lparr>tpaid := m\<rparr>"

definition save_tier_pool :: "insurance_tier \<Rightarrow> pool_record \<Rightarrow> insurance \<Rightarrow> insurance" where
  [simp]: "save_tier_pool tier p s = s\<lparr>pools := (load_tier_pools s)(tier \<mapsto> p)\<rparr>"

definition load_tier_stakes :: "insurance \<Rightarrow> (tier_stake_key, int) smap" where
  [simp]: "load_tier_stakes s = tstakes s"

definition save_tier_stakes :: "(tier_stake_key, int) smap \<Rightarrow> insurance \<Rightarrow> insurance" where
  [simp]: "save_tier_stakes m s = s\<lparr>tstakes := m\<rparr>"

definition load_tier_timestamps :: "insurance \<Rightarrow> (tier_stake_key \<rightharpoonup> nat)" where
  [simp]: "load_tier_timestamps s = tstk_ts s"

definition save_tier_timestamps :: "(tier_stake_key \<rightharpoonup> nat) \<Rightarrow> insurance \<Rightarrow> insurance" where
  [simp]: "save_tier_timestamps m s = s\<lparr>tstk_ts := m\<rparr>"

definition load_tier_accruals :: "insurance \<Rightarrow> (tier_stake_key \<rightharpoonup> int)" where
  [simp]: "load_tier_accruals s = tyld_acc s"

definition save_tier_accruals :: "(tier_stake_key \<rightharpoonup> int) \<Rightarrow> insurance \<Rightarrow> insurance" where
  [simp]: "save_tier_accruals m s = s\<lparr>tyld_acc := m\<rparr>"

definition load_stakes :: "insurance \<Rightarrow> (address, int) smap" where
  [simp]: "load_stakes s = ins_stakes s"

definition save_stakes :: "(address, int) smap \<Rightarrow> insurance \<Rightarrow> insurance" where
  [simp]: "save_stakes m s = s\<lparr>ins_stakes := m\<rparr>"

definition load_pool_total :: "insurance \<Rightarrow> int" where
  [simp]: "load_pool_total s = pooltot s"

definition save_pool_total :: "int \<Rightarrow> insurance \<Rightarrow> insurance" where
  [simp]: "save_pool_total n s = s\<lparr>pooltot := n\<rparr>"

definition load_token :: "insurance \<Rightarrow> error + address" where
  "load_token s = fetch (ins_token s) (Panic ''Not initialized'')"

definition load_yield_rate :: "insurance \<Rightarrow> nat" where
  [simp]: "load_yield_rate s = yldrate s"

definition save_yield_rate :: "nat \<Rightarrow> insurance \<Rightarrow> insurance" where
  [simp]: "save_yield_rate r s = s\<lparr>yldrate := r\<rparr>"

definition load_stake_ts :: "insurance \<Rightarrow> (address \<rightharpoonup> nat)" where
  [simp]: "load_stake_ts s = stk_ts s"

definition save_stake_ts :: "(address \<rightharpoonup> nat) \<Rightarrow> insurance \<Rightarrow> insurance" where
  [simp]: "save_stake_ts m s = s\<lparr>stk_ts := m\<rparr>"

definition load_yield_acc :: "insurance \<Rightarrow> (address \<rightharpoonup> int)" where
  [simp]: "load_yield_acc s = yld_acc s"

definition save_yield_acc :: "(address \<rightharpoonup> int) \<Rightarrow> insurance \<Rightarrow> insurance" where
  [simp]: "save_yield_acc m s = s\<lparr>yld_acc := m\<rparr>"

definition load_total_outstanding :: "insurance \<Rightarrow> int" where
  [simp]: "load_total_outstanding s = tot_out s"

definition save_total_outstanding :: "int \<Rightarrow> insurance \<Rightarrow> insurance" where
  [simp]: "save_total_outstanding n s = s\<lparr>tot_out := n\<rparr>"

definition load_reserved :: "symbol \<Rightarrow> insurance \<Rightarrow> int" where
  "load_reserved offer_id s = sm_get_or (resrvd s) offer_id 0"

definition save_reserved :: "symbol \<Rightarrow> int \<Rightarrow> insurance \<Rightarrow> insurance" where
  "save_reserved offer_id amount s =
     s\<lparr>resrvd := if amount = 0 then sm_remove (resrvd s) offer_id else sm_set (resrvd s) offer_id amount\<rparr>"

definition load_paid :: "symbol \<Rightarrow> insurance \<Rightarrow> int" where
  "load_paid offer_id s = sm_get_or (paid_map s) offer_id 0"

definition save_paid :: "symbol \<Rightarrow> int \<Rightarrow> insurance \<Rightarrow> insurance" where
  "save_paid offer_id amount s =
     s\<lparr>paid_map := if amount = 0 then sm_remove (paid_map s) offer_id else sm_set (paid_map s) offer_id amount\<rparr>"

subsection \<open>Yield\<close>

definition get_or :: "('k \<rightharpoonup> 'v) \<Rightarrow> 'k \<Rightarrow> 'v \<Rightarrow> 'v" where
  "get_or m k d = (case m k of None \<Rightarrow> d | Some v \<Rightarrow> v)"

definition compute_yield :: "int \<Rightarrow> nat \<Rightarrow> nat \<Rightarrow> error + int" where
  "compute_yield staked rate_bps elapsed_secs =
     (if staked = 0 \<or> rate_bps = 0 \<or> elapsed_secs = 0 then Inr 0
      else bindE (mul_i128 staked (int elapsed_secs)) (\<lambda>x.
           bindE (mul_i128 x (int rate_bps)) (\<lambda>y.
           div_i128 y (SECONDS_PER_YEAR * 10000))))"

definition bank_accrued_yield ::
  "address \<Rightarrow> (address, int) smap \<Rightarrow> nat \<Rightarrow> nat \<Rightarrow> (address \<rightharpoonup> nat) \<times> (address \<rightharpoonup> int) \<Rightarrow>
     error + int \<times> (address \<rightharpoonup> nat) \<times> (address \<rightharpoonup> int)" where
  "bank_accrued_yield staker stakes rate now = (\<lambda>(timestamps, accruals).
     let staked = sm_get_or stakes staker 0
     in if staked = 0 then Inr (0, timestamps, accruals)
        else
          let start = get_or timestamps staker now;
              elapsed = now - start
          in bindE (compute_yield staked rate elapsed) (\<lambda>earned.
             bindE (if earned > 0
                    then bindE (add_i128 (get_or accruals staker 0) earned) (\<lambda>v. Inr (accruals(staker \<mapsto> v)))
                    else Inr accruals) (\<lambda>accruals.
             Inr (earned, timestamps(staker \<mapsto> now), accruals))))"

definition tier_yield :: "int \<Rightarrow> nat \<Rightarrow> nat \<Rightarrow> error + int" where
  "tier_yield staked apy_bps elapsed_secs =
     (if staked = 0 \<or> elapsed_secs = 0 then Inr 0
      else bindE (mul_i128 staked (int apy_bps)) (\<lambda>x.
           bindE (mul_i128 x (int elapsed_secs)) (\<lambda>y.
           div_i128 y (BPS_DENOMINATOR * SECONDS_PER_YEAR))))"

definition bank_tier_yield ::
  "tier_stake_key \<Rightarrow> pool_record \<Rightarrow> (tier_stake_key, int) smap \<Rightarrow> nat \<Rightarrow>
     (tier_stake_key \<rightharpoonup> nat) \<times> (tier_stake_key \<rightharpoonup> int) \<Rightarrow>
     error + (tier_stake_key \<rightharpoonup> nat) \<times> (tier_stake_key \<rightharpoonup> int)" where
  "bank_tier_yield key p stakes now = (\<lambda>(timestamps, accruals).
     let staked = sm_get_or stakes key 0;
         start = get_or timestamps key now
     in bindE (tier_yield staked (pool_apy_bps p) (now - start)) (\<lambda>earned.
        bindE (if earned > 0
               then bindE (add_i128 (get_or accruals key 0) earned) (\<lambda>v. Inr (accruals(key \<mapsto> v)))
               else Inr accruals) (\<lambda>accruals.
        Inr (timestamps(key \<mapsto> now), accruals))))"

subsection \<open>Configuration\<close>

definition insurance_constructor :: "address \<Rightarrow> address \<Rightarrow> insurance \<Rightarrow> error + insurance" where
  "insurance_constructor admin tok s =
     bindE (init_admin_config admin s) (\<lambda>s.
     bindE (initialize_contract_version CARGO_PKG_VERSION s) (\<lambda>s.
     Inr (s\<lparr>ins_token := Some tok\<rparr>)))"

definition set_staking_token :: "env \<Rightarrow> address list \<Rightarrow> address \<Rightarrow> insurance \<Rightarrow> error + insurance" where
  "set_staking_token e sgs tok s =
     bindE (assert_not_paused s) (\<lambda>_.
     bindE (assert_admin e sgs s) (\<lambda>_. Inr (s\<lparr>ins_token := Some tok\<rparr>)))"

definition get_staking_token :: "insurance \<Rightarrow> error + address" where
  "get_staking_token s = load_token s"

definition set_payout_caller :: "env \<Rightarrow> address list \<Rightarrow> address \<Rightarrow> insurance \<Rightarrow> error + insurance" where
  "set_payout_caller e sgs c s =
     bindE (assert_not_paused s) (\<lambda>_.
     bindE (assert_admin e sgs s) (\<lambda>_. Inr (s\<lparr>paycall := Some c\<rparr>)))"

definition get_payout_caller :: "insurance \<Rightarrow> address option" where
  "get_payout_caller s = paycall s"

definition insurance_set_registry :: "env \<Rightarrow> address list \<Rightarrow> address \<Rightarrow> insurance \<Rightarrow> error + insurance" where
  "insurance_set_registry e sgs r s =
     bindE (assert_admin e sgs s) (\<lambda>_. Inr (s\<lparr>ins_registry := Some r\<rparr>))"

definition insurance_get_registry :: "insurance \<Rightarrow> address option" where
  "insurance_get_registry s = ins_registry s"

definition set_yield_rate :: "env \<Rightarrow> address list \<Rightarrow> nat \<Rightarrow> insurance \<Rightarrow> error + insurance" where
  "set_yield_rate e sgs rate_bps s =
     bindE (assert_not_paused s) (\<lambda>_.
     bindE (assert_admin e sgs s) (\<lambda>_.
     let stakes = load_stakes s; now = ledger_timestamp e
     in bindE (foldE (\<lambda>k st. bindE (bank_accrued_yield k stakes (load_yield_rate s) now st) (\<lambda>(_, st). Inr st))
               (sm_keys stakes) (load_stake_ts s, load_yield_acc s)) (\<lambda>(timestamps, accruals).
        Inr (save_yield_rate rate_bps (save_yield_acc accruals (save_stake_ts timestamps s))))))"

definition get_yield_rate :: "insurance \<Rightarrow> nat" where
  "get_yield_rate s = load_yield_rate s"

definition get_pool :: "insurance_tier \<Rightarrow> insurance \<Rightarrow> pool_record" where
  "get_pool tier s = load_tier_pool tier s"

definition assess_risk :: "nat \<Rightarrow> nat \<Rightarrow> nat \<Rightarrow> int \<Rightarrow> insurance_tier" where
  "assess_risk invoice_age_secs originator_repayments originator_defaults invoice_amount =
     (if invoice_amount \<le> 0 then Aggressive
      else
        let points = (if RISK_AGE_SECS \<le> invoice_age_secs then 1 else 0)
              + (if originator_repayments < originator_defaults then 1 else 0)
              + (if RISK_LARGE_INVOICE_AMOUNT \<le> invoice_amount then 1 else 0) :: nat
        in if points = 0 then Conservative else if points = 1 then Balanced else Aggressive)"

subsection \<open>The flat pool\<close>

definition stake ::
  "'t sep41 \<Rightarrow> env \<Rightarrow> address \<Rightarrow> int \<Rightarrow> insurance \<times> 't \<Rightarrow> error + insurance \<times> 't" where
  "stake T e staker amount = (\<lambda>(s, t).
     bindE (assert_not_paused s) (\<lambda>_.
     bindE (require_auth e staker) (\<lambda>_.
     bindE (ensure (\<not> amount \<le> 0) (Contract InvalidInput)) (\<lambda>_.
     let existing = sm_get_or (load_stakes s) staker 0 in
     bindE (add_i128 existing amount) (\<lambda>new_stake.
     bindE (ensure (\<not> new_stake < MIN_STAKE_AMOUNT) (Contract InvalidInput)) (\<lambda>_.
     bindE (load_token s) (\<lambda>token_addr.
     bindE (tk_transfer_from T e token_addr (current_contract e) staker (current_contract e) amount t) (\<lambda>t.
     let stakes = load_stakes s; now = ledger_timestamp e in
     bindE (if existing > 0
            then bindE (bank_accrued_yield staker stakes (load_yield_rate s) now (load_stake_ts s, load_yield_acc s))
                   (\<lambda>(_, st). Inr st)
            else Inr ((load_stake_ts s)(staker \<mapsto> now), load_yield_acc s)) (\<lambda>(timestamps, accruals).
     let s = save_yield_acc accruals (save_stake_ts timestamps
               (save_stakes (sm_set stakes staker new_stake) s)) in
     bindE (add_i128 (load_pool_total s) amount) (\<lambda>total.
     Inr (publish (Ev_pool_stk staker None amount) (save_pool_total total s), t)))))))))))"

text \<open>
  What is left of a withdrawn position: nothing, or the rest with its banked yield cleared. The
  yield is transferred separately when there is any.
\<close>

definition write_position ::
  "address \<Rightarrow> int \<Rightarrow> (address, int) smap \<Rightarrow> (address \<rightharpoonup> nat) \<Rightarrow> (address \<rightharpoonup> int) \<Rightarrow> insurance \<Rightarrow> insurance" where
  "write_position staker new_balance stakes timestamps accruals s =
     (if new_balance = 0
      then save_yield_acc (accruals(staker := None)) (save_stake_ts (timestamps(staker := None))
             (save_stakes (sm_remove stakes staker) s))
      else save_yield_acc (accruals(staker \<mapsto> 0)) (save_stake_ts timestamps
             (save_stakes (sm_set stakes staker new_balance) s)))"

definition pay_yield ::
  "'t sep41 \<Rightarrow> env \<Rightarrow> address \<Rightarrow> address \<Rightarrow> insurance_tier option \<Rightarrow> int \<Rightarrow> insurance \<times> 't \<Rightarrow>
     error + insurance \<times> 't" where
  "pay_yield T e token_addr staker tier yield_payout = (\<lambda>(s, t).
     if yield_payout > 0
     then bindE (tk_transfer T e token_addr (current_contract e) staker yield_payout t) (\<lambda>t.
          Inr (publish (Ev_pool_yld staker tier yield_payout) s, t))
     else Inr (s, t))"

definition unstake ::
  "'t sep41 \<Rightarrow> env \<Rightarrow> address \<Rightarrow> int \<Rightarrow> insurance \<times> 't \<Rightarrow> error + insurance \<times> 't" where
  "unstake T e staker amount = (\<lambda>(s, t).
     bindE (require_auth e staker) (\<lambda>_.
     bindE (ensure (\<not> amount \<le> 0) (Contract InvalidInput)) (\<lambda>_.
     let stakes = load_stakes s;
         balance = sm_get_or stakes staker 0 in
     bindE (ensure (\<not> balance < amount) (Contract InsufficientBalance)) (\<lambda>_.
     bindE (bank_accrued_yield staker stakes (load_yield_rate s) (ledger_timestamp e)
              (load_stake_ts s, load_yield_acc s)) (\<lambda>(_, timestamps, accruals).
     let yield_payout = get_or accruals staker 0 in
     bindE (sub_i128 balance amount) (\<lambda>new_balance.
     let s = write_position staker new_balance stakes timestamps accruals s in
     bindE (sub_i128 (load_pool_total s) amount) (\<lambda>total.
     let s = save_pool_total total s in
     bindE (load_token s) (\<lambda>token_addr.
     bindE (tk_transfer T e token_addr (current_contract e) staker amount t) (\<lambda>t.
     bindE (pay_yield T e token_addr staker None yield_payout (s, t)) (\<lambda>(s, t).
     Inr (publish (Ev_pool_un staker None amount) s, t)))))))))))"

text \<open>
  The guard of the five payout entry points: not paused, the configured payout caller authorizes,
  a positive amount.
\<close>

definition payout_guard :: "env \<Rightarrow> int \<Rightarrow> insurance \<Rightarrow> error + unit" where
  "payout_guard e amount s =
     bindE (assert_not_paused s) (\<lambda>_.
     bindE (fetch (paycall s) (Panic ''No payout caller configured'')) (\<lambda>payout_caller.
     bindE (require_auth e payout_caller) (\<lambda>_.
     ensure (\<not> amount \<le> 0) (Contract InvalidInput))))"

text \<open>The cross-contract read of the registry: the invoice must be in status \<open>Defaulted\<close>.\<close>

definition assert_defaulted :: "env \<Rightarrow> symbol \<Rightarrow> registry \<Rightarrow> insurance \<Rightarrow> error + unit" where
  "assert_defaulted e invoice_id r s =
     bindE (fetch (ins_registry s) (Panic ''Registry not configured'')) (\<lambda>registry_addr.
     bindE (callee e registry_addr RegistryC) (\<lambda>_.
     bindE (get_invoice invoice_id r) (\<lambda>i.
     ensure (inv_status i = InvDefaulted) (Contract InvalidTransition))))"

text \<open>
  One iteration of the pro-rata loop: staker \<open>i\<close> of \<open>n\<close> gives up its share of \<open>payout\<close>, the last one
  what is left of it.
\<close>

definition reduce_stake ::
  "nat \<Rightarrow> int \<Rightarrow> int \<Rightarrow> nat \<times> 'k::linorder \<Rightarrow> ('k, int) smap \<times> int \<Rightarrow> error + ('k, int) smap \<times> int" where
  "reduce_stake n payout pool_total = (\<lambda>(i, key) (stakes, reductions).
     let balance = sm_get_or stakes key 0 in
     bindE (sub_i128 payout reductions) (\<lambda>left_over.
     bindE (if i = n - 1 then Inr left_over
            else bindE (mul_i128 balance payout) (\<lambda>x.
                 bindE (div_i128 x pool_total) (\<lambda>share. Inr (min share left_over)))) (\<lambda>reduction.
     bindE (sub_i128 balance reduction) (\<lambda>new_balance.
     bindE (add_i128 reductions reduction) (\<lambda>reductions.
     Inr (if new_balance = 0 then sm_remove stakes key else sm_set stakes key new_balance, reductions))))))"

definition reduce_stakes ::
  "'k::linorder list \<Rightarrow> int \<Rightarrow> int \<Rightarrow> ('k, int) smap \<Rightarrow> error + ('k, int) smap \<times> int" where
  "reduce_stakes keys payout pool_total stakes =
     foldE (reduce_stake (length keys) payout pool_total) (enumerate 0 keys) (stakes, 0)"

definition pay_out ::
  "'t sep41 \<Rightarrow> env \<Rightarrow> symbol \<Rightarrow> address \<Rightarrow> int \<Rightarrow> registry \<Rightarrow> insurance \<times> 't \<Rightarrow>
     error + int \<times> insurance \<times> 't" where
  "pay_out T e invoice_id beneficiary amount r = (\<lambda>(s, t).
     bindE (payout_guard e amount s) (\<lambda>_.
     bindE (assert_defaulted e invoice_id r s) (\<lambda>_.
     let pool_total = load_pool_total s;
         payout = min amount pool_total
     in if payout \<le> 0 then Inr (0, s, t)
        else
          bindE (reduce_stakes (sm_keys (load_stakes s)) payout pool_total (load_stakes s)) (\<lambda>(stakes, _).
          bindE (sub_i128 pool_total payout) (\<lambda>total.
          let s = save_pool_total total (save_stakes stakes s) in
          bindE (load_token s) (\<lambda>token_addr.
          bindE (tk_transfer T e token_addr (current_contract e) beneficiary payout t) (\<lambda>t.
          Inr (payout, publish (Ev_pool_pay beneficiary None payout) s, t))))))))"

definition reserve_payout :: "env \<Rightarrow> symbol \<Rightarrow> int \<Rightarrow> insurance \<Rightarrow> error + int \<times> insurance" where
  "reserve_payout e offer_id amount s =
     bindE (payout_guard e amount s) (\<lambda>_.
     let total_outstanding = load_total_outstanding s in
     bindE (sub_i128 (load_pool_total s) total_outstanding) (\<lambda>available.
     let reserved = min amount available
     in if reserved \<le> 0 then Inr (0, s)
        else
          bindE (add_i128 (load_reserved offer_id s) reserved) (\<lambda>total_reserved.
          bindE (add_i128 total_outstanding reserved) (\<lambda>outstanding.
          Inr (reserved, publish (Ev_ins_rsrv offer_id None reserved)
                 (save_total_outstanding outstanding (save_reserved offer_id total_reserved s)))))))"

definition claim_payout ::
  "'t sep41 \<Rightarrow> env \<Rightarrow> symbol \<Rightarrow> address \<Rightarrow> int \<Rightarrow> insurance \<times> 't \<Rightarrow>
     error + (int \<times> int) \<times> insurance \<times> 't" where
  "claim_payout T e offer_id lender amount = (\<lambda>(s, t).
     bindE (payout_guard e amount s) (\<lambda>_.
     let already_paid = load_paid offer_id s in
     bindE (sub_i128 (load_reserved offer_id s) already_paid) (\<lambda>remaining_reserved.
     bindE (ensure (\<not> remaining_reserved \<le> 0) (Contract InsufficientBalance)) (\<lambda>_.
     let claim_amount = min amount remaining_reserved;
         total_outstanding = load_total_outstanding s;
         pool_total = load_pool_total s in
     bindE (sub_i128 total_outstanding remaining_reserved) (\<lambda>others.
     bindE (sub_i128 pool_total others) (\<lambda>pool_available.
     let paid = min claim_amount pool_available
     in if paid \<le> 0 then Inr ((0, remaining_reserved), s, t)
        else
          bindE (add_i128 already_paid paid) (\<lambda>paid_total.
          bindE (sub_i128 total_outstanding paid) (\<lambda>outstanding.
          let s = save_total_outstanding outstanding (save_paid offer_id paid_total s) in
          bindE (reduce_stakes (sm_keys (load_stakes s)) paid pool_total (load_stakes s)) (\<lambda>(stakes, _).
          bindE (sub_i128 pool_total paid) (\<lambda>total.
          let s = save_pool_total total (save_stakes stakes s) in
          bindE (load_token s) (\<lambda>token_addr.
          bindE (tk_transfer T e token_addr (current_contract e) lender paid t) (\<lambda>t.
          bindE (sub_i128 remaining_reserved paid) (\<lambda>new_remaining.
          Inr ((paid, new_remaining), publish (Ev_ins_pay offer_id None paid new_remaining) s, t))))))))))))))"

subsection \<open>The tier pools\<close>

definition stake_tier ::
  "'t sep41 \<Rightarrow> env \<Rightarrow> address \<Rightarrow> insurance_tier \<Rightarrow> int \<Rightarrow> insurance \<times> 't \<Rightarrow> error + insurance \<times> 't" where
  "stake_tier T e staker tier amount = (\<lambda>(s, t).
     bindE (assert_not_paused s) (\<lambda>_.
     bindE (require_auth e staker) (\<lambda>_.
     bindE (ensure (\<not> amount \<le> 0) (Contract InvalidInput)) (\<lambda>_.
     let key = tier_key staker tier;
         existing = sm_get_or (load_tier_stakes s) key 0 in
     bindE (add_i128 existing amount) (\<lambda>new_stake.
     bindE (ensure (\<not> new_stake < MIN_STAKE_AMOUNT) (Contract InvalidInput)) (\<lambda>_.
     bindE (load_token s) (\<lambda>token_addr.
     bindE (tk_transfer_from T e token_addr (current_contract e) staker (current_contract e) amount t) (\<lambda>t.
     let stakes = load_tier_stakes s; p = load_tier_pool tier s; now = ledger_timestamp e in
     bindE (if existing > 0
            then bank_tier_yield key p stakes now (load_tier_timestamps s, load_tier_accruals s)
            else Inr ((load_tier_timestamps s)(key \<mapsto> now), load_tier_accruals s)) (\<lambda>(timestamps, accruals).
     bindE (add_i128 (pool_balance p) amount) (\<lambda>balance.
     let s = save_tier_pool tier (p\<lparr>pool_balance := balance\<rparr>)
               (save_tier_accruals accruals (save_tier_timestamps timestamps
                 (save_tier_stakes (sm_set stakes key new_stake) s)))
     in Inr (publish (Ev_pool_stk staker (Some tier) amount) s, t)))))))))))"

definition write_tier_position ::
  "tier_stake_key \<Rightarrow> int \<Rightarrow> (tier_stake_key, int) smap \<Rightarrow> (tier_stake_key \<rightharpoonup> nat) \<Rightarrow>
     (tier_stake_key \<rightharpoonup> int) \<Rightarrow> insurance \<Rightarrow> insurance" where
  "write_tier_position key remaining stakes timestamps accruals s =
     (if remaining = 0
      then save_tier_accruals (accruals(key := None)) (save_tier_timestamps (timestamps(key := None))
             (save_tier_stakes (sm_remove stakes key) s))
      else save_tier_accruals (accruals(key \<mapsto> 0)) (save_tier_timestamps timestamps
             (save_tier_stakes (sm_set stakes key remaining) s)))"

definition unstake_tier ::
  "'t sep41 \<Rightarrow> env \<Rightarrow> address \<Rightarrow> insurance_tier \<Rightarrow> int \<Rightarrow> insurance \<times> 't \<Rightarrow> error + insurance \<times> 't" where
  "unstake_tier T e staker tier amount = (\<lambda>(s, t).
     bindE (assert_not_paused s) (\<lambda>_.
     bindE (require_auth e staker) (\<lambda>_.
     bindE (ensure (\<not> amount \<le> 0) (Contract InvalidInput)) (\<lambda>_.
     let key = tier_key staker tier;
         stakes = load_tier_stakes s;
         balance = sm_get_or stakes key 0 in
     bindE (ensure (\<not> balance < amount) (Contract InsufficientBalance)) (\<lambda>_.
     let p = load_tier_pool tier s in
     bindE (bank_tier_yield key p stakes (ledger_timestamp e) (load_tier_timestamps s, load_tier_accruals s))
       (\<lambda>(timestamps, accruals).
     let yield_payout = get_or accruals key 0 in
     bindE (sub_i128 balance amount) (\<lambda>remaining.
     bindE (sub_i128 (pool_balance p) amount) (\<lambda>pool_left.
     let s = save_tier_pool tier (p\<lparr>pool_balance := pool_left\<rparr>)
               (write_tier_position key remaining stakes timestamps accruals s) in
     bindE (load_token s) (\<lambda>token_addr.
     bindE (tk_transfer T e token_addr (current_contract e) staker amount t) (\<lambda>t.
     bindE (pay_yield T e token_addr staker (Some tier) yield_payout (s, t)) (\<lambda>(s, t).
     Inr (publish (Ev_pool_un staker (Some tier) amount) s, t))))))))))))"

definition get_tier_stake :: "address \<Rightarrow> insurance_tier \<Rightarrow> insurance \<Rightarrow> int" where
  "get_tier_stake staker tier s = sm_get_or (load_tier_stakes s) (tier_key staker tier) 0"

definition accrued_tier_yield :: "env \<Rightarrow> address \<Rightarrow> insurance_tier \<Rightarrow> insurance \<Rightarrow> error + int" where
  "accrued_tier_yield e staker tier s =
     (let key = tier_key staker tier;
          banked = get_or (load_tier_accruals s) key 0;
          staked = sm_get_or (load_tier_stakes s) key 0;
          start = get_or (load_tier_timestamps s) key (ledger_timestamp e)
      in bindE (tier_yield staked (pool_apy_bps (load_tier_pool tier s)) (ledger_timestamp e - start)) (\<lambda>y.
         add_i128 banked y))"

text \<open>The keys of one tier, in map order.\<close>

definition keys_of_tier :: "insurance_tier \<Rightarrow> (tier_stake_key, int) smap \<Rightarrow> tier_stake_key list" where
  "keys_of_tier tier stakes = filter (\<lambda>k. tsk_tier k = tier) (sm_keys stakes)"

definition pay_out_tier ::
  "'t sep41 \<Rightarrow> env \<Rightarrow> symbol \<Rightarrow> insurance_tier \<Rightarrow> address \<Rightarrow> int \<Rightarrow> registry \<Rightarrow> insurance \<times> 't \<Rightarrow>
     error + int \<times> insurance \<times> 't" where
  "pay_out_tier T e invoice_id tier beneficiary amount r = (\<lambda>(s, t).
     bindE (payout_guard e amount s) (\<lambda>_.
     bindE (assert_defaulted e invoice_id r s) (\<lambda>_.
     let p = load_tier_pool tier s in
     bindE (mul_i128 amount (int (pool_payout_cap_bps p))) (\<lambda>x.
     bindE (div_i128 x BPS_DENOMINATOR) (\<lambda>capped_claim.
     let payout = min capped_claim (pool_balance p)
     in if payout \<le> 0 then Inr (0, s, t)
        else
          let keys = keys_of_tier tier (load_tier_stakes s) in
          bindE (reduce_stakes keys payout (pool_balance p) (load_tier_stakes s)) (\<lambda>(stakes, reductions).
          bindE (ensure (reductions = payout) (Contract InsufficientBalance)) (\<lambda>_.
          bindE (sub_i128 (pool_balance p) payout) (\<lambda>balance.
          let s = save_tier_pool tier (p\<lparr>pool_balance := balance\<rparr>) (save_tier_stakes stakes s) in
          bindE (load_token s) (\<lambda>token_addr.
          bindE (tk_transfer T e token_addr (current_contract e) beneficiary payout t) (\<lambda>t.
          Inr (payout, publish (Ev_pool_pay beneficiary (Some tier) payout) s, t)))))))))))"

definition reserve_payout_tier ::
  "env \<Rightarrow> symbol \<Rightarrow> insurance_tier \<Rightarrow> int \<Rightarrow> insurance \<Rightarrow> error + int \<times> insurance" where
  "reserve_payout_tier e offer_id tier amount s =
     bindE (payout_guard e amount s) (\<lambda>_.
     let p = load_tier_pool tier s;
         key = tier_offer_key offer_id tier;
         already_reserved = sm_get_or (load_tier_reservations s) key 0 in
     bindE (mul_i128 amount (int (pool_payout_cap_bps p))) (\<lambda>x.
     bindE (div_i128 x BPS_DENOMINATOR) (\<lambda>capped_total.
     bindE (sub_i128 (pool_balance p) (pool_reserved p)) (\<lambda>free.
     let reserve = min (sat_i128 (capped_total - already_reserved)) free
     in if reserve \<le> 0 then Inr (0, s)
        else
          bindE (add_i128 already_reserved reserve) (\<lambda>total_reserved.
          bindE (add_i128 (pool_reserved p) reserve) (\<lambda>reserved.
          Inr (reserve, publish (Ev_ins_rsrv offer_id (Some tier) reserve)
                 (save_tier_pool tier (p\<lparr>pool_reserved := reserved\<rparr>)
                   (save_tier_reservations (sm_set (load_tier_reservations s) key total_reserved) s)))))))))"

definition claim_payout_tier ::
  "'t sep41 \<Rightarrow> env \<Rightarrow> symbol \<Rightarrow> insurance_tier \<Rightarrow> address \<Rightarrow> int \<Rightarrow> insurance \<times> 't \<Rightarrow>
     error + (int \<times> int) \<times> insurance \<times> 't" where
  "claim_payout_tier T e offer_id tier lender amount = (\<lambda>(s, t).
     bindE (payout_guard e amount s) (\<lambda>_.
     let key = tier_offer_key offer_id tier;
         paid_before = sm_get_or (load_tier_paid s) key 0 in
     bindE (sub_i128 (sm_get_or (load_tier_reservations s) key 0) paid_before) (\<lambda>remaining.
     bindE (ensure (\<not> remaining \<le> 0) (Contract InsufficientBalance)) (\<lambda>_.
     let p = load_tier_pool tier s;
         paid = min (min amount remaining) (pool_balance p)
     in if paid \<le> 0 then Inr ((0, remaining), s, t)
        else
          let keys = keys_of_tier tier (load_tier_stakes s) in
          bindE (reduce_stakes keys paid (pool_balance p) (load_tier_stakes s)) (\<lambda>(stakes, reductions).
          bindE (ensure (reductions = paid) (Contract InsufficientBalance)) (\<lambda>_.
          bindE (add_i128 paid_before paid) (\<lambda>paid_total.
          bindE (sub_i128 (pool_balance p) paid) (\<lambda>balance.
          bindE (sub_i128 (pool_reserved p) paid) (\<lambda>reserved.
          let s = save_tier_pool tier (p\<lparr>pool_balance := balance, pool_reserved := reserved\<rparr>)
                    (save_tier_paid (sm_set (load_tier_paid s) key paid_total) (save_tier_stakes stakes s)) in
          bindE (load_token s) (\<lambda>token_addr.
          bindE (tk_transfer T e token_addr (current_contract e) lender paid t) (\<lambda>t.
          bindE (sub_i128 remaining paid) (\<lambda>remaining_after.
          Inr ((paid, remaining_after),
               publish (Ev_ins_pay offer_id (Some tier) paid remaining_after) s, t)))))))))))))"

subsection \<open>Queries\<close>

definition get_reserved :: "symbol \<Rightarrow> insurance \<Rightarrow> int" where
  "get_reserved offer_id s = load_reserved offer_id s"

definition get_paid :: "symbol \<Rightarrow> insurance \<Rightarrow> int" where
  "get_paid offer_id s = load_paid offer_id s"

definition get_stake :: "address \<Rightarrow> insurance \<Rightarrow> int" where
  "get_stake staker s = sm_get_or (load_stakes s) staker 0"

definition get_pool_total :: "insurance \<Rightarrow> int" where
  "get_pool_total s = load_pool_total s"

definition get_stakers_count :: "insurance \<Rightarrow> nat" where
  "get_stakers_count s = length (load_stakes s)"

definition get_contract_token_balance :: "'t sep41 \<Rightarrow> env \<Rightarrow> insurance \<times> 't \<Rightarrow> error + int" where
  "get_contract_token_balance T e = (\<lambda>(s, t).
     bindE (load_token s) (\<lambda>token_addr. Inr (tk_balance T token_addr (current_contract e) t)))"

definition accrued_yield :: "env \<Rightarrow> address \<Rightarrow> insurance \<Rightarrow> error + int" where
  "accrued_yield e staker s =
     (let staked = sm_get_or (load_stakes s) staker 0;
          banked = get_or (load_yield_acc s) staker 0
      in if staked = 0 then Inr banked
         else
           let now = ledger_timestamp e;
               start = get_or (load_stake_ts s) staker now
           in bindE (compute_yield staked (load_yield_rate s) (now - start)) (\<lambda>y. add_i128 banked y))"

subsection \<open>Governance entry points of this contract\<close>

definition insurance_get_admin ::
  "insurance \<Rightarrow> error + address" where
  "insurance_get_admin s = get_admin s"

definition insurance_get_admin_config ::
  "insurance \<Rightarrow> error + admin_config" where
  "insurance_get_admin_config s = get_admin_config s"

definition insurance_get_signers ::
  "insurance \<Rightarrow> error + address list" where
  "insurance_get_signers s = get_signers s"

definition insurance_get_threshold ::
  "insurance \<Rightarrow> error + nat" where
  "insurance_get_threshold s = get_threshold s"

definition insurance_set_signers ::
  "env \<Rightarrow> address list \<Rightarrow> address list \<Rightarrow> nat \<Rightarrow> insurance \<Rightarrow> error + insurance" where
  "insurance_set_signers e sgs new thr s = set_signers e sgs new thr s"

definition insurance_transfer_admin ::
  "env \<Rightarrow> address list \<Rightarrow> address \<Rightarrow> insurance \<Rightarrow> error + insurance" where
  "insurance_transfer_admin e sgs new_admin s = transfer_admin e sgs new_admin s"

definition insurance_pause ::
  "env \<Rightarrow> address list \<Rightarrow> insurance \<Rightarrow> error + insurance" where
  "insurance_pause e sgs s = pause e sgs s"

definition insurance_unpause ::
  "env \<Rightarrow> address list \<Rightarrow> insurance \<Rightarrow> error + insurance" where
  "insurance_unpause e sgs s = unpause e sgs s"

definition insurance_is_paused ::
  "insurance \<Rightarrow> bool" where
  "insurance_is_paused s = contract_is_paused s"

definition insurance_version ::
  "insurance \<Rightarrow> error + string" where
  "insurance_version s = version s"

definition insurance_upgrade ::
  "env \<Rightarrow> address list \<Rightarrow> bytes32 \<Rightarrow> bytes32 \<Rightarrow> string \<Rightarrow> insurance \<Rightarrow> error + insurance" where
  "insurance_upgrade e sgs cur new v s = upgrade e sgs cur new v s"

definition insurance_post_upgrade ::
  "env \<Rightarrow> address list \<Rightarrow> insurance \<Rightarrow> error + insurance" where
  "insurance_post_upgrade e sgs s = post_upgrade_with (\<lambda>s. s) e sgs s"

definition insurance_rollback ::
  "env \<Rightarrow> address list \<Rightarrow> insurance \<Rightarrow> error + insurance" where
  "insurance_rollback e sgs s = rollback e sgs s"

end
