(* ===== verification/Reputation.thy ===== *)
theory Reputation
  imports Types Governance
begin

text \<open>
  \<open>reputation/src/lib.rs\<close>: repayment outcomes per originator, with step decay of the weighted
  counts and dispute corrections. \<open>reputation\<close> has one field per storage key; \<open>decay_loop\<close> is the
  \<open>while\<close> loop of \<open>apply_pending_decay\<close> on the two weights and the elapsed time. The lemmas give
  the loop its closed form (a division by a power of two), the invariant that ties the weights to
  the raw counts, and with it the fact that recording cannot trap on a weight.
\<close>

definition OUTCOME_REPAID :: nat where
  [simp]: "OUTCOME_REPAID = 0"

definition OUTCOME_DEFAULTED :: nat where
  [simp]: "OUTCOME_DEFAULTED = 1"

definition DECAY_HALF_LIFE_SECS :: nat where
  [simp]: "DECAY_HALF_LIFE_SECS = 7776000"

record reputation_record =
  rr_repayments :: nat
  rr_defaults :: nat
  rr_weighted_repayments :: int
  rr_weighted_defaults :: int
  rr_last_recompute :: nat

record reputation = base +
  rep_records :: "(address, reputation_record) smap"
  recorder :: "address option"

subsection \<open>Storage and decay\<close>

definition load_records :: "reputation \<Rightarrow> (address, reputation_record) smap" where
  [simp]: "load_records s = rep_records s"

definition save_records :: "(address, reputation_record) smap \<Rightarrow> reputation \<Rightarrow> reputation" where
  [simp]: "save_records m s = s\<lparr>rep_records := m\<rparr>"

definition fresh_record :: reputation_record where
  "fresh_record = \<lparr>rr_repayments = 0, rr_defaults = 0, rr_weighted_repayments = 0,
     rr_weighted_defaults = 0, rr_last_recompute = 0\<rparr>"

function decay_loop :: "int \<Rightarrow> int \<Rightarrow> nat \<Rightarrow> int \<times> int" where
  "decay_loop wr wd elapsed =
     (if DECAY_HALF_LIFE_SECS \<le> elapsed
      then decay_loop (wr sdiv 2) (wd sdiv 2) (elapsed - DECAY_HALF_LIFE_SECS)
      else (wr, wd))"
  by pat_completeness auto
termination by (relation "measure (\<lambda>(wr, wd, elapsed). elapsed)") auto

declare decay_loop.simps [simp del]

definition apply_pending_decay :: "reputation_record \<Rightarrow> nat \<Rightarrow> reputation_record" where
  "apply_pending_decay r now =
     (if rr_last_recompute r < now \<and> 0 < rr_last_recompute r
      then case decay_loop (rr_weighted_repayments r) (rr_weighted_defaults r) (now - rr_last_recompute r) of
        (wr, wd) \<Rightarrow> r\<lparr>rr_weighted_repayments := wr, rr_weighted_defaults := wd, rr_last_recompute := now\<rparr>
      else r\<lparr>rr_last_recompute := now\<rparr>)"

definition score_of :: "reputation_record \<Rightarrow> error + int" where
  "score_of r =
     bindE (sub_i128 (rr_weighted_repayments r) (rr_weighted_defaults r)) (\<lambda>d. Inr (max d 0))"

subsection \<open>Entry points\<close>

definition reputation_constructor :: "address \<Rightarrow> reputation \<Rightarrow> error + reputation" where
  "reputation_constructor admin s =
     bindE (init_admin_config admin s) (\<lambda>s.
     initialize_contract_version CARGO_PKG_VERSION s)"

definition set_recorder :: "env \<Rightarrow> address list \<Rightarrow> address \<Rightarrow> reputation \<Rightarrow> error + reputation" where
  "set_recorder e sgs r s =
     bindE (assert_not_paused s) (\<lambda>_.
     bindE (assert_admin e sgs s) (\<lambda>_.
     Inr (s\<lparr>recorder := Some r\<rparr>)))"

definition get_recorder :: "reputation \<Rightarrow> address option" where
  "get_recorder s = recorder s"

text \<open>The new outcome at full weight; the counters are \<open>u32\<close>, the weights \<open>i128\<close>.\<close>

definition add_outcome :: "nat \<Rightarrow> reputation_record \<Rightarrow> error + reputation_record" where
  "add_outcome outcome r =
     (if outcome = OUTCOME_REPAID
      then bindE (add_u32 (rr_repayments r) 1) (\<lambda>n.
           bindE (add_i128 (rr_weighted_repayments r) 1) (\<lambda>w.
           Inr (r\<lparr>rr_repayments := n, rr_weighted_repayments := w\<rparr>)))
      else bindE (add_u32 (rr_defaults r) 1) (\<lambda>n.
           bindE (add_i128 (rr_weighted_defaults r) 2) (\<lambda>w.
           Inr (r\<lparr>rr_defaults := n, rr_weighted_defaults := w\<rparr>))))"

definition record_outcome :: "env \<Rightarrow> address \<Rightarrow> nat \<Rightarrow> reputation \<Rightarrow> error + reputation" where
  "record_outcome e originator outcome s =
     bindE (assert_not_paused s) (\<lambda>_.
     bindE (fetch (recorder s) (Panic ''No recorder configured'')) (\<lambda>rec.
     bindE (require_auth e rec) (\<lambda>_.
     bindE (ensure (\<not> (outcome \<noteq> OUTCOME_REPAID \<and> outcome \<noteq> OUTCOME_DEFAULTED)) (Contract InvalidInput)) (\<lambda>_.
     let r = sm_get_or (load_records s) originator fresh_record in
     bindE (score_of r) (\<lambda>old_score.
     bindE (add_outcome outcome (apply_pending_decay r (ledger_timestamp e))) (\<lambda>r.
     bindE (score_of r) (\<lambda>new_score.
     let s = publish (Ev_reputn originator outcome)
               (save_records (sm_set (load_records s) originator r) s)
     in Inr (if new_score \<noteq> old_score then publish (Ev_rep_chg originator new_score) s else s))))))))"

definition forgive_default :: "bool \<Rightarrow> reputation_record \<Rightarrow> error + reputation_record" where
  "forgive_default originator_favourable r =
     (if originator_favourable \<and> 0 < rr_defaults r
      then bindE (sub_i128 (rr_weighted_defaults r) 2) (\<lambda>w.
           Inr (r\<lparr>rr_defaults := rr_defaults r - 1, rr_weighted_defaults := max w 0\<rparr>))
      else Inr r)"

definition reputation_resolve_dispute ::
  "env \<Rightarrow> address list \<Rightarrow> address \<Rightarrow> bool \<Rightarrow> reputation \<Rightarrow> error + (int \<times> reputation)" where
  "reputation_resolve_dispute e sgs originator originator_favourable s =
     bindE (assert_not_paused s) (\<lambda>_.
     bindE (assert_admin e sgs s) (\<lambda>_.
     let r = sm_get_or (load_records s) originator fresh_record in
     bindE (score_of r) (\<lambda>old_score.
     bindE (forgive_default originator_favourable (apply_pending_decay r (ledger_timestamp e))) (\<lambda>r.
     bindE (score_of r) (\<lambda>new_score.
     let s = save_records (sm_set (load_records s) originator r) s
     in Inr (new_score,
          if new_score \<noteq> old_score then publish (Ev_rep_chg originator new_score) s else s))))))"

definition get_score :: "address \<Rightarrow> reputation \<Rightarrow> error + int" where
  "get_score originator s = score_of (sm_get_or (load_records s) originator fresh_record)"

definition get_record :: "address \<Rightarrow> reputation \<Rightarrow> reputation_record" where
  "get_record originator s = sm_get_or (load_records s) originator fresh_record"

subsection \<open>Governance entry points of this contract\<close>

definition reputation_get_admin :: "reputation \<Rightarrow> error + address" where
  "reputation_get_admin s = get_admin s"

definition reputation_get_admin_config :: "reputation \<Rightarrow> error + admin_config" where
  "reputation_get_admin_config s = get_admin_config s"

definition reputation_get_signers :: "reputation \<Rightarrow> error + address list" where
  "reputation_get_signers s = get_signers s"

definition reputation_get_threshold :: "reputation \<Rightarrow> error + nat" where
  "reputation_get_threshold s = get_threshold s"

definition reputation_set_signers ::
  "env \<Rightarrow> address list \<Rightarrow> address list \<Rightarrow> nat \<Rightarrow> reputation \<Rightarrow> error + reputation" where
  "reputation_set_signers e sgs new thr s = set_signers e sgs new thr s"

definition reputation_transfer_admin ::
  "env \<Rightarrow> address list \<Rightarrow> address \<Rightarrow> reputation \<Rightarrow> error + reputation" where
  "reputation_transfer_admin e sgs new_admin s = transfer_admin e sgs new_admin s"

definition reputation_pause :: "env \<Rightarrow> address list \<Rightarrow> reputation \<Rightarrow> error + reputation" where
  "reputation_pause e sgs s = pause e sgs s"

definition reputation_unpause :: "env \<Rightarrow> address list \<Rightarrow> reputation \<Rightarrow> error + reputation" where
  "reputation_unpause e sgs s = unpause e sgs s"

definition reputation_is_paused :: "reputation \<Rightarrow> bool" where
  "reputation_is_paused s = contract_is_paused s"

definition reputation_version :: "reputation \<Rightarrow> error + string" where
  "reputation_version s = version s"

definition reputation_upgrade ::
  "env \<Rightarrow> address list \<Rightarrow> bytes32 \<Rightarrow> bytes32 \<Rightarrow> string \<Rightarrow> reputation \<Rightarrow> error + reputation" where
  "reputation_upgrade e sgs cur new v s = upgrade e sgs cur new v s"

definition reputation_post_upgrade :: "env \<Rightarrow> address list \<Rightarrow> reputation \<Rightarrow> error + reputation" where
  "reputation_post_upgrade = post_upgrade_with (\<lambda>s. s)"

definition reputation_rollback :: "env \<Rightarrow> address list \<Rightarrow> reputation \<Rightarrow> error + reputation" where
  "reputation_rollback e sgs s = rollback e sgs s"

subsection \<open>Decay in closed form\<close>

lemma decay_loop_closed:
  "0 \<le> wr \<Longrightarrow> 0 \<le> wd \<Longrightarrow>
     decay_loop wr wd t = (wr div 2 ^ (t div DECAY_HALF_LIFE_SECS), wd div 2 ^ (t div DECAY_HALF_LIFE_SECS))"
proof (induction wr wd t rule: decay_loop.induct)
  case (1 wr wd t)
  show ?case
  proof (cases "DECAY_HALF_LIFE_SECS \<le> t")
    case True
    then have half: "x div 2 ^ (t div DECAY_HALF_LIFE_SECS) =
        x div 2 div 2 ^ ((t - DECAY_HALF_LIFE_SECS) div DECAY_HALF_LIFE_SECS)" for x :: int
      by (subst le_div_geq) (auto simp: zdiv_zmult2_eq)
    from True 1 show ?thesis
      by (subst decay_loop.simps) (simp only: half, simp)
  qed (subst decay_loop.simps, simp)
qed

definition half_lives :: "reputation_record \<Rightarrow> nat \<Rightarrow> nat" where
  "half_lives r now =
     (if rr_last_recompute r = 0 then 0 else (now - rr_last_recompute r) div DECAY_HALF_LIFE_SECS)"

definition record_ok :: "reputation_record \<Rightarrow> bool" where
  "record_ok r \<longleftrightarrow> 0 \<le> rr_weighted_repayments r \<and> rr_weighted_repayments r \<le> int (rr_repayments r) \<and>
     0 \<le> rr_weighted_defaults r \<and> rr_weighted_defaults r \<le> 2 * int (rr_defaults r) \<and>
     rr_repayments r < 2 ^ 32 \<and> rr_defaults r < 2 ^ 32"

lemma apply_pending_decay_eq:
  assumes "record_ok r"
  shows "apply_pending_decay r now =
    r\<lparr>rr_weighted_repayments := rr_weighted_repayments r div 2 ^ half_lives r now,
      rr_weighted_defaults := rr_weighted_defaults r div 2 ^ half_lives r now,
      rr_last_recompute := now\<rparr>"
  using assms by (cases r) (auto simp: apply_pending_decay_def record_ok_def half_lives_def decay_loop_closed)

lemma div_pow2_le: "0 \<le> w \<Longrightarrow> 0 \<le> w div 2 ^ k \<and> w div 2 ^ k \<le> w" for w :: int
  using zdiv_mono2 [of w 1 "2 ^ k"] by (simp add: pos_imp_zdiv_nonneg_iff)

lemma record_ok_decay: "record_ok r \<Longrightarrow> record_ok (apply_pending_decay r now)"
  using div_pow2_le [of "rr_weighted_repayments r" "half_lives r now"]
    div_pow2_le [of "rr_weighted_defaults r" "half_lives r now"]
  by (subst apply_pending_decay_eq) (auto simp: record_ok_def)

lemma fresh_record_sel [simp]:
  "rr_repayments fresh_record = 0" "rr_defaults fresh_record = 0" "rr_weighted_repayments fresh_record = 0"
  "rr_weighted_defaults fresh_record = 0" "rr_last_recompute fresh_record = 0"
  by (simp_all add: fresh_record_def)

lemma record_ok_fresh [simp]: "record_ok fresh_record"
  by (simp add: record_ok_def fresh_record_def)

lemma score_of_ok: "record_ok r \<Longrightarrow> score_of r = Inr (max (rr_weighted_repayments r - rr_weighted_defaults r) 0)"
  by (simp add: score_of_def sub_i128_def chk_i128_def in_i128_def record_ok_def)

lemma record_ok_add: "record_ok r \<Longrightarrow> add_outcome o1 r = Inr r' \<Longrightarrow> record_ok r'"
  by (auto simp: add_outcome_def record_ok_def ok split: if_splits)

lemma record_ok_forgive: "record_ok r \<Longrightarrow> forgive_default b r = Inr r' \<Longrightarrow> record_ok r'"
  by (auto simp: forgive_default_def record_ok_def ok split: if_splits)

subsection \<open>Reachable states\<close>

definition records_ok :: "reputation \<Rightarrow> bool" where
  "records_ok s \<longleftrightarrow> (\<forall>a. record_ok (get_record a s))"

inductive reputation_step :: "reputation \<Rightarrow> reputation \<Rightarrow> bool" where
  rp_outcome: "record_outcome e a out s = Inr s' \<Longrightarrow> reputation_step s s'"
| rp_dispute: "reputation_resolve_dispute e sgs a b s = Inr (sc, s') \<Longrightarrow> reputation_step s s'"
| rp_recorder: "set_recorder e sgs a s = Inr s' \<Longrightarrow> reputation_step s s'"
| rp_gov: "gov_step s s' \<Longrightarrow> reputation_step s s'"

definition reputation_start :: "reputation \<Rightarrow> bool" where
  "reputation_start s \<longleftrightarrow> (\<exists>admin s0. rep_records s0 = [] \<and> reputation_constructor admin s0 = Inr s)"

lemma gov_step_records: "gov_step s s' \<Longrightarrow> rep_records s' = rep_records s \<and> recorder s' = recorder s"
  for s :: reputation
  by (drule gov_step_more) (cases s; cases s'; simp)

lemma record_outcome_ok:
  assumes "record_outcome e a out s = Inr s'"
  obtains r old new where "\<not> paused s" "out \<in> {0, 1}"
    "score_of (get_record a s) = Inr old"
    "add_outcome out (apply_pending_decay (get_record a s) (ledger_timestamp e)) = Inr r"
    "score_of r = Inr new" "rep_records s' = sm_set (rep_records s) a r"
  using assms
  by (auto simp: record_outcome_def ok Let_def get_record_def assert_not_paused_def publish_def split: if_splits)

lemma dispute_record_ok:
  assumes "reputation_resolve_dispute e sgs a b s = Inr (sc, s')"
  obtains r old where "score_of (get_record a s) = Inr old"
    "forgive_default b (apply_pending_decay (get_record a s) (ledger_timestamp e)) = Inr r"
    "score_of r = Inr sc" "rep_records s' = sm_set (rep_records s) a r"
  using assms
  by (auto simp: reputation_resolve_dispute_def ok Let_def get_record_def publish_def split: if_splits)

lemma get_record_set:
  "rep_records s' = sm_set (rep_records s) a r \<Longrightarrow> get_record b s' = (if b = a then r else get_record b s)"
  by (simp add: get_record_def)

lemma get_record_same: "rep_records s' = rep_records s \<Longrightarrow> get_record b s' = get_record b s"
  by (simp add: get_record_def)

interpretation reputation_system: invariant_system reputation_start reputation_step records_ok
proof
  show "records_ok s" if "reputation_start s" for s
    using that by (auto simp: reputation_start_def reputation_constructor_def init_admin_config_def
        initialize_contract_version_def ok records_ok_def get_record_def publish_def save_admin_config_def)
  show "records_ok s'" if inv: "records_ok s" and step: "reputation_step s s'" for s s'
    using step
  proof cases
    case (rp_outcome e a out)
    then show ?thesis using inv
      by (elim record_outcome_ok) (auto simp: records_ok_def get_record_set intro: record_ok_add record_ok_decay)
  next
    case (rp_dispute e sgs a b sc)
    then show ?thesis using inv
      by (elim dispute_record_ok) (auto simp: records_ok_def get_record_set intro: record_ok_forgive record_ok_decay)
  next
    case (rp_recorder e sgs a)
    then show ?thesis using inv by (auto simp: set_recorder_def ok records_ok_def get_record_def)
  next
    case rp_gov
    then show ?thesis using inv by (auto simp: records_ok_def get_record_def dest: gov_step_records)
  qed
qed

subsection \<open>Recording and forgiving\<close>

lemma add_outcome_eq:
  assumes "record_ok d" and "out \<in> {0, 1}" and "(if out = 0 then rr_repayments d else rr_defaults d) < 2 ^ 32 - 1"
  shows "add_outcome out d = Inr \<lparr>rr_repayments = rr_repayments d + (if out = 0 then 1 else 0),
      rr_defaults = rr_defaults d + (if out = 0 then 0 else 1),
      rr_weighted_repayments = rr_weighted_repayments d + (if out = 0 then 1 else 0),
      rr_weighted_defaults = rr_weighted_defaults d + (if out = 0 then 0 else 2),
      rr_last_recompute = rr_last_recompute d\<rparr>"
  using assms by (cases d)
    (auto simp: add_outcome_def add_u32_def add_i128_def chk_i128_def in_i128_def record_ok_def)

definition empty_reputation :: reputation where
  "empty_reputation = \<lparr>admcfg = None, paused = False, ver_current = None, ver_previous = None,
     wasm_previous = None, upgrade_pending = None, curtok = Map.empty, default_token = None,
     trn_log = Map.empty, wasm_running = 0, events = [], rep_records = [], recorder = None\<rparr>"

definition recording_reputation :: "reputation" where
  "recording_reputation = empty_reputation\<lparr>admcfg := Some \<lparr>signers = [Address 9], threshold = 1\<rparr>,
     ver_current := Some CARGO_PKG_VERSION, events := [Ev_contract_initialized CARGO_PKG_VERSION],
     recorder := Some (Address 9)\<rparr>"

lemma reach_recording: "reach reputation_start reputation_step recording_reputation"
proof -
  let ?s = "recording_reputation\<lparr>recorder := None\<rparr>"
  have "reputation_constructor (Address 9) empty_reputation = Inr ?s"
    by (simp add: reputation_constructor_def init_admin_config_def initialize_contract_version_def
        empty_reputation_def recording_reputation_def publish_def parse_cargo_version)
  then have "reputation_start ?s"
    unfolding reputation_start_def by (intro exI [of _ "Address 9"] exI [of _ empty_reputation])
      (simp add: empty_reputation_def)
  moreover have "set_recorder (demo_env 0 (Address 100)) [Address 9] (Address 9) ?s = Inr recording_reputation"
    by (simp add: set_recorder_def assert_not_paused_def assert_admin_def load_admin_config_def assert_threshold_def
        is_signer_def require_auth_def recording_reputation_def empty_reputation_def)
  ultimately show ?thesis by (blast intro: reach_step reach_init rp_recorder)
qed

definition scored :: "nat \<Rightarrow> nat \<Rightarrow> reputation_record \<Rightarrow> reputation_record" where
  "scored now out r =
     \<lparr>rr_repayments = rr_repayments r + (if out = 0 then 1 else 0),
      rr_defaults = rr_defaults r + (if out = 0 then 0 else 1),
      rr_weighted_repayments = rr_weighted_repayments r div 2 ^ half_lives r now + (if out = 0 then 1 else 0),
      rr_weighted_defaults = rr_weighted_defaults r div 2 ^ half_lives r now + (if out = 0 then 0 else 2),
      rr_last_recompute = now\<rparr>"

lemma scored_sel [simp]:
  "rr_repayments (scored now out r) = rr_repayments r + (if out = 0 then 1 else 0)"
  "rr_defaults (scored now out r) = rr_defaults r + (if out = 0 then 0 else 1)"
  "rr_last_recompute (scored now out r) = now"
  by (simp_all add: scored_def)

lemma record_outcome_runs:
  assumes "record_ok (get_record a s)" and "\<not> paused s" and "recorder s = Some rec" and "authorizes e rec"
    and "out \<in> {0, 1}"
    and "(if out = 0 then rr_repayments (get_record a s) else rr_defaults (get_record a s)) < 2 ^ 32 - 1"
  obtains s' where "record_outcome e a out s = Inr s'"
    "rep_records s' = sm_set (rep_records s) a (scored (ledger_timestamp e) out (get_record a s))"
    "record_ok (scored (ledger_timestamp e) out (get_record a s))"
    "paused s' = paused s" "recorder s' = recorder s" "admcfg s' = admcfg s"
proof -
  let ?r = "get_record a s" and ?now = "ledger_timestamp e"
  let ?d = "apply_pending_decay ?r ?now"
  have "(if out = 0 then rr_repayments ?d else rr_defaults ?d) < 2 ^ 32 - 1"
    using assms(6) by (simp add: apply_pending_decay_eq [OF assms(1)] split: if_splits)
  from add_outcome_eq [OF record_ok_decay [OF assms(1)] assms(5) this]
  have add: "add_outcome out ?d = Inr (scored ?now out ?r)"
    by (simp add: apply_pending_decay_eq [OF assms(1)] scored_def)
  then have "record_ok (scored ?now out ?r)" using record_ok_add record_ok_decay [OF assms(1)] by blast
  moreover from this add have "\<exists>s'. record_outcome e a out s = Inr s' \<and>
      rep_records s' = sm_set (rep_records s) a (scored ?now out ?r) \<and>
      paused s' = paused s \<and> recorder s' = recorder s \<and> admcfg s' = admcfg s"
    using assms(2-5) score_of_ok [OF assms(1)] score_of_ok [of "scored ?now out ?r"]
    by (auto simp: record_outcome_def Let_def assert_not_paused_def require_auth_def get_record_def publish_def)
  ultimately show ?thesis using that by blast
qed

lemma record_outcome_succeeds:
  assumes "record_ok (get_record a s)" and "\<not> paused s" and "recorder s = Some rec" and "authorizes e rec"
    and "out \<in> {0, 1}"
    and "rr_repayments (get_record a s) < 2 ^ 32 - 1" and "rr_defaults (get_record a s) < 2 ^ 32 - 1"
  obtains s' where "record_outcome e a out s = Inr s'"
    "rep_records s' = sm_set (rep_records s) a (scored (ledger_timestamp e) out (get_record a s))"
    "record_ok (scored (ledger_timestamp e) out (get_record a s))"
    "paused s' = paused s" "recorder s' = recorder s" "admcfg s' = admcfg s"
  by (rule record_outcome_runs [OF assms(1-5)]) (use assms(6,7) that in auto)

text \<open>
  C18. Recording an outcome does exactly what the scoring rule says and cannot be blocked by the
  stored weights: in every reachable state in which the contract is not paused, the configured
  recorder authorizes the call and the counter of the outcome is below the \<open>u32\<close> limit,
  \<open>record_outcome\<close> succeeds; the weights are halved once for each full half-life since the last
  record, the outcome is added at full weight (one for a repayment, two for a default), the score
  read afterwards is the difference of the new weights floored at zero, and no other originator's
  record changes.
\<close>

theorem record_outcome_exact:
  assumes "reach reputation_start reputation_step s"
    and "\<not> paused s" and "recorder s = Some rec" and "authorizes e rec" and "out \<in> {0, 1}"
    and "(if out = 0 then rr_repayments (get_record a s) else rr_defaults (get_record a s)) < 2 ^ 32 - 1"
  defines "r \<equiv> get_record a s"
  defines "wr \<equiv> rr_weighted_repayments r div 2 ^ half_lives r (ledger_timestamp e) + (if out = 0 then 1 else 0)"
    and "wd \<equiv> rr_weighted_defaults r div 2 ^ half_lives r (ledger_timestamp e) + (if out = 0 then 0 else 2)"
  shows "\<exists>s'. record_outcome e a out s = Inr s' \<and>
    get_record a s' = \<lparr>rr_repayments = rr_repayments r + (if out = 0 then 1 else 0),
      rr_defaults = rr_defaults r + (if out = 0 then 0 else 1),
      rr_weighted_repayments = wr, rr_weighted_defaults = wd, rr_last_recompute = ledger_timestamp e\<rparr> \<and>
    get_score a s' = Inr (max (wr - wd) 0) \<and> (\<forall>b. b \<noteq> a \<longrightarrow> get_record b s' = get_record b s)"
proof -
  have "record_ok (get_record a s)" using reputation_system.reach_inv [OF assms(1)] by (simp add: records_ok_def)
  from record_outcome_runs [OF this assms(2-6)] obtain s' where s': "record_outcome e a out s = Inr s'"
    "rep_records s' = sm_set (rep_records s) a (scored (ledger_timestamp e) out r)"
    "record_ok (scored (ledger_timestamp e) out r)" by (auto simp: r_def)
  moreover have "scored (ledger_timestamp e) out r = \<lparr>rr_repayments = rr_repayments r + (if out = 0 then 1 else 0),
      rr_defaults = rr_defaults r + (if out = 0 then 0 else 1),
      rr_weighted_repayments = wr, rr_weighted_defaults = wd, rr_last_recompute = ledger_timestamp e\<rparr>"
    by (simp add: scored_def wr_def wd_def)
  ultimately show ?thesis using score_of_ok [OF s'(3)]
    by (auto simp: get_record_set get_score_def get_record_def)
qed

lemma record_outcome_exact_witness:
  "\<exists>s'. record_outcome (demo_env 100 (Address 100)) (Address 2) 0 recording_reputation = Inr s' \<and>
     get_score (Address 2) s' = Inr 1"
proof -
  show ?thesis
    using record_outcome_exact [OF reach_recording, of "Address 9" "demo_env 100 (Address 100)" 0 "Address 2"]
    by (auto simp: recording_reputation_def empty_reputation_def get_record_def
        fresh_record_def)
qed

text \<open>
  C37. Forgiving undoes a default: when a default is recorded in a reachable state and the admin
  resolves the dispute in the originator's favour before another half-life has passed, the record
  is the one from before the default with its pending decay applied - same counters, same weights -
  and the score returned is that record's.
\<close>

theorem dispute_undoes_default:
  assumes "reach reputation_start reputation_step s"
    and "record_outcome e1 a 1 s = Inr s1"
    and "reputation_resolve_dispute e2 sgs a True s1 = Inr (sc, s2)"
    and "ledger_timestamp e2 < ledger_timestamp e1 + DECAY_HALF_LIFE_SECS"
  shows "get_record a s2 = (apply_pending_decay (get_record a s) (ledger_timestamp e1))
      \<lparr>rr_last_recompute := ledger_timestamp e2\<rparr> \<and> get_score a s2 = Inr sc"
proof -
  let ?t1 = "ledger_timestamp e1" and ?t2 = "ledger_timestamp e2"
  define d where "d = apply_pending_decay (get_record a s) ?t1"
  have d: "record_ok d" using reputation_system.reach_inv [OF assms(1)] record_ok_decay
    by (auto simp: records_ok_def d_def)
  have last: "rr_last_recompute d = ?t1"
    using reputation_system.reach_inv [OF assms(1)] by (simp add: d_def records_ok_def apply_pending_decay_eq)
  from assms(2) obtain r1 where r1: "add_outcome 1 d = Inr r1" "get_record a s1 = r1"
    by (rule record_outcome_ok) (auto simp: get_record_set d_def)
  have "r1 = d\<lparr>rr_defaults := rr_defaults d + 1, rr_weighted_defaults := rr_weighted_defaults d + 2\<rparr>"
    using r1(1) by (auto simp: add_outcome_def ok)
  moreover have "record_ok r1" using record_ok_add [OF d r1(1)] .
  ultimately have d1: "apply_pending_decay r1 ?t2 = d\<lparr>rr_defaults := rr_defaults d + 1,
      rr_weighted_defaults := rr_weighted_defaults d + 2, rr_last_recompute := ?t2\<rparr>"
    using assms(4) last by (simp add: apply_pending_decay_eq half_lives_def less_diff_conv2)
  from assms(3) obtain r2 where r2: "forgive_default True (apply_pending_decay r1 ?t2) = Inr r2"
    "score_of r2 = Inr sc" "get_record a s2 = r2"
    by (rule dispute_record_ok) (auto simp: get_record_set r1(2))
  have "r2 = d\<lparr>rr_last_recompute := ?t2\<rparr>"
    using r2(1) d by (auto simp: d1 forgive_default_def ok record_ok_def)
  with r2 show ?thesis by (simp add: d_def get_score_def get_record_def)
qed

lemma dispute_undoes_default_witness:
  "\<exists>s1 s2. record_outcome (demo_env 100 (Address 100)) (Address 2) 1 recording_reputation = Inr s1 \<and>
     reputation_resolve_dispute (demo_env 200 (Address 100)) [Address 9] (Address 2) True s1 = Inr (0, s2) \<and>
     get_score (Address 2) s2 = Inr 0"
proof -
  let ?e1 = "demo_env 100 (Address 100)" and ?e2 = "demo_env 200 (Address 100)" and ?a = "Address 2"
  let ?s = recording_reputation
  have s: "get_record ?a ?s = fresh_record" "\<not> paused ?s" "recorder ?s = Some (Address 9)"
    "admcfg ?s = Some \<lparr>signers = [Address 9], threshold = 1\<rparr>"
    by (simp_all add: recording_reputation_def empty_reputation_def get_record_def)
  obtain s1 where s1: "record_outcome ?e1 ?a 1 ?s = Inr s1" "rep_records s1 = sm_set (rep_records ?s) ?a (scored 100 1 fresh_record)"
      "\<not> paused s1" "admcfg s1 = Some \<lparr>signers = [Address 9], threshold = 1\<rparr>"
    by (rule record_outcome_succeeds [of ?a ?s "Address 9" ?e1 1])
      (use s in simp_all)
  have "\<exists>s2. reputation_resolve_dispute ?e2 [Address 9] ?a True s1 = Inr (0, s2)"
    using s1(2-4) by (simp add: reputation_resolve_dispute_def assert_not_paused_def assert_admin_def load_admin_config_def
      assert_threshold_def is_signer_def require_auth_def Let_def scored_def fresh_record_def half_lives_def
      score_of_def sub_i128_def chk_i128_def in_i128_def forgive_default_def apply_pending_decay_def decay_loop.simps)
  then obtain s2 where s2: "reputation_resolve_dispute ?e2 [Address 9] ?a True s1 = Inr (0, s2)" ..
  moreover have "get_score ?a s2 = Inr 0"
    using dispute_undoes_default [OF reach_recording s1(1) s2] by simp
  ultimately show ?thesis using s1(1) by blast
qed

subsection \<open>Decay under steady activity\<close>

definition record_run :: "address \<Rightarrow> (env \<times> nat) list \<Rightarrow> reputation \<Rightarrow> error + reputation" where
  "record_run a = foldE (\<lambda>(e, out). record_outcome e a out)"

definition undecayed :: "reputation_record \<Rightarrow> bool" where
  "undecayed r \<longleftrightarrow> record_ok r \<and> rr_weighted_repayments r = int (rr_repayments r) \<and>
     rr_weighted_defaults r = 2 * int (rr_defaults r)"

lemma undecayed_step:
  assumes "record_outcome e a out s = Inr s1" and "undecayed (get_record a s)"
    and "half_lives (get_record a s) (ledger_timestamp e) = 0"
  shows "undecayed (get_record a s1)" "rr_last_recompute (get_record a s1) = ledger_timestamp e"
proof -
  from assms(1) obtain r where r: "add_outcome out (apply_pending_decay (get_record a s) (ledger_timestamp e)) = Inr r"
    "get_record a s1 = r"
    by (rule record_outcome_ok) (auto simp: get_record_set)
  have "undecayed r \<and> rr_last_recompute r = ledger_timestamp e"
    using r(1) assms(2,3)
    by (auto simp: apply_pending_decay_eq undecayed_def add_outcome_def record_ok_def ok split: if_splits)
  then show "undecayed (get_record a s1)" "rr_last_recompute (get_record a s1) = ledger_timestamp e"
    by (simp_all add: r(2))
qed

lemma undecayed_run:
  assumes "record_run a xs s = Inr s'" and "undecayed (get_record a s)"
    and "successively (\<lambda>t t'. t' < t + DECAY_HALF_LIFE_SECS) (map (ledger_timestamp \<circ> fst) xs)"
    and "xs \<noteq> [] \<Longrightarrow> half_lives (get_record a s) (ledger_timestamp (fst (hd xs))) = 0"
  shows "undecayed (get_record a s')"
  using assms
proof (induction xs arbitrary: s)
  case Nil
  then show ?case by (simp add: record_run_def)
next
  case (Cons x xs)
  obtain e out where x: "x = (e, out)" by fastforce
  with Cons.prems(1) obtain s1 where s1: "record_outcome e a out s = Inr s1" "record_run a xs s1 = Inr s'"
    by (auto simp: record_run_def ok)
  have step: "undecayed (get_record a s1)" "rr_last_recompute (get_record a s1) = ledger_timestamp e"
    using undecayed_step [OF s1(1) Cons.prems(2)] Cons.prems(4) x by auto
  show ?case
  proof (rule Cons.IH [OF s1(2) step(1)])
    show "successively (\<lambda>t t'. t' < t + DECAY_HALF_LIFE_SECS) (map (ledger_timestamp \<circ> fst) xs)"
      using Cons.prems(3) by (cases xs) (auto simp: o_def)
    show "half_lives (get_record a s1) (ledger_timestamp (fst (hd xs))) = 0" if "xs \<noteq> []"
      using that Cons.prems(3) step(2) x by (cases xs) (auto simp: half_lives_def)
  qed
qed

text \<open>
  Decay restarts at every record: whatever the total time that passes, as long as the outcomes of
  an originator arrive less than one half-life apart, no outcome ever loses weight. The score after
  such a run is the undecayed count \<open>repayments - 2 * defaults\<close>, floored at zero, so a default stays at
  full weight for as long as the originator stays active.
\<close>

theorem steady_activity_never_decays:
  assumes "record_run a xs s = Inr s'" and "get_record a s = fresh_record"
    and "successively (\<lambda>t t'. t' < t + DECAY_HALF_LIFE_SECS) (map (ledger_timestamp \<circ> fst) xs)"
  shows "get_score a s' =
    Inr (max (int (rr_repayments (get_record a s')) - 2 * int (rr_defaults (get_record a s'))) 0)"
proof -
  have "undecayed (get_record a s')"
    by (rule undecayed_run [OF assms(1) _ assms(3)]) (simp_all add: assms(2) undecayed_def half_lives_def)
  then show ?thesis using score_of_ok [of "get_record a s'"]
    by (simp add: undecayed_def get_score_def get_record_def)
qed

lemma record_run_Cons:
  assumes "record_ok (get_record a s)" and "\<not> paused s" and "recorder s = Some rec" and "authorizes e rec"
    and "out \<in> {0, 1}"
    and "rr_repayments (get_record a s) < 2 ^ 32 - 1" and "rr_defaults (get_record a s) < 2 ^ 32 - 1"
  obtains s1 where "record_run a ((e, out) # xs) s = record_run a xs s1"
    "get_record a s1 = scored (ledger_timestamp e) out (get_record a s)"
    "record_ok (get_record a s1)" "\<not> paused s1" "recorder s1 = Some rec"
  by (rule record_outcome_succeeds [OF assms], rule that)
    (use assms(2,3) in \<open>auto simp: record_run_def get_record_def\<close>)

lemma steady_activity_never_decays_witness:
  "\<exists>s'. record_run (Address 2) [(demo_env 100 (Address 100), 0), (demo_env 7000000 (Address 100), 0),
       (demo_env 14000000 (Address 100), 0)] recording_reputation = Inr s' \<and> get_score (Address 2) s' = Inr 3"
proof -
  let ?a = "Address 2" and ?s = recording_reputation and ?e = "\<lambda>t. demo_env t (Address 100)"
  let ?xs = "[(?e 100, 0), (?e 7000000, 0), (?e 14000000, 0)]"
  have s: "get_record ?a ?s = fresh_record" "\<not> paused ?s" "recorder ?s = Some (Address 9)"
    by (simp_all add: recording_reputation_def empty_reputation_def get_record_def)
  obtain s1 where s1: "record_run ?a ?xs ?s = record_run ?a (tl ?xs) s1" "get_record ?a s1 = scored 100 0 fresh_record"
    "record_ok (get_record ?a s1)" "\<not> paused s1" "recorder s1 = Some (Address 9)"
    by (rule record_run_Cons [of ?a ?s "Address 9" "?e 100" 0 "tl ?xs"]) (use s in simp_all)
  obtain s2 where s2: "record_run ?a (tl ?xs) s1 = record_run ?a (tl (tl ?xs)) s2"
    "get_record ?a s2 = scored 7000000 0 (scored 100 0 fresh_record)"
    "record_ok (get_record ?a s2)" "\<not> paused s2" "recorder s2 = Some (Address 9)"
    by (rule record_run_Cons [of ?a s1 "Address 9" "?e 7000000" 0 "tl (tl ?xs)"])
      (use s1(2-) in simp_all)
  obtain s3 where s3: "record_run ?a (tl (tl ?xs)) s2 = Inr s3"
    "get_record ?a s3 = scored 14000000 0 (scored 7000000 0 (scored 100 0 fresh_record))"
    by (rule record_run_Cons [of ?a s2 "Address 9" "?e 14000000" 0 "[]"])
      (use s2(2-) in \<open>simp_all add: record_run_def\<close>)
  have run: "record_run ?a ?xs ?s = Inr s3" using s1(1) s2(1) s3(1) by simp
  have "get_score ?a s3 = Inr 3"
    using steady_activity_never_decays [OF run s(1)] by (simp add: s3(2))
  with run show ?thesis by blast
qed

end
