(* ===== verification/Repayment.thy ===== *)
theory Repayment
  imports Settlement Insurance Reputation
begin

text \<open>
  \<open>repayment/src/lib.rs\<close>: repayments, the overdue penalty, reclaiming after default, and the payment
  history. \<open>repayment\<close> has one field per storage key. Its entry points call all the other contracts,
  so they run on \<open>rworld\<close>, the financing world extended with the states of the repayment, insurance
  and reputation contracts. Every call goes through \<open>callee\<close>: the stored address must be where the
  contract is deployed, and the callee's frame has the repayment contract as its invoker.
\<close>

definition SECS_PER_DAY :: nat where [simp]: "SECS_PER_DAY = 86400"
definition MAX_PENALTY_BPS :: nat where [simp]: "MAX_PENALTY_BPS = 500"
definition MIN_PARTIAL_PAYMENT_BPS :: nat where [simp]: "MIN_PARTIAL_PAYMENT_BPS = 100"
definition MAX_PAYMENTS_PER_INVOICE :: nat where [simp]: "MAX_PAYMENTS_PER_INVOICE = 1000"

record repayment = base +
  rp_registry :: "address option"
  rp_financing :: "address option"
  insadd :: "address option"
  repadd :: "address option"
  penbps :: "nat option"
  pencap :: "nat option"
  pays :: "symbol \<rightharpoonup> payment_record list"

record 't rworld = "'t fworld" +
  w_repayment :: repayment
  w_insurance :: insurance
  w_reputation :: reputation

subsection \<open>Overdue penalty\<close>

text \<open>Multiplication saturates; the divisions truncate towards zero.\<close>

definition accrued_penalty :: "env \<Rightarrow> int \<Rightarrow> nat \<Rightarrow> nat \<Rightarrow> nat \<Rightarrow> int" where
  "accrued_penalty e total_due due_date penalty_bps cap_bps =
     (if penalty_bps = 0 \<or> cap_bps = 0 \<or> total_due \<le> 0 then 0
      else if ledger_timestamp e \<le> due_date then 0
      else let elapsed_days = int ((ledger_timestamp e - due_date) div SECS_PER_DAY)
        in if elapsed_days = 0 then 0
           else let raw = sat_i128 (sat_i128 (total_due * int penalty_bps) * elapsed_days) sdiv 10000;
                    cap = sat_i128 (total_due * int cap_bps) sdiv 10000
             in min raw cap)"

definition load_penalty_config :: "repayment \<Rightarrow> nat \<times> nat" where
  "load_penalty_config p =
     (case penbps p of None \<Rightarrow> 0 | Some n \<Rightarrow> n, case pencap p of None \<Rightarrow> 0 | Some n \<Rightarrow> n)"

text \<open>Principal plus flat yield, the frozen base of the penalty.\<close>

definition flat_total_due :: "financing_offer \<Rightarrow> error + int" where
  "flat_total_due offer =
     bindE (mul_i128 (off_amount offer) (int (off_interest_rate offer))) (\<lambda>x.
     bindE (div_i128 x 10000) (\<lambda>yield_amount.
     add_i128 (off_amount offer) yield_amount))"

definition rp_registry_env :: "env \<Rightarrow> repayment \<Rightarrow> error + env" where
  "rp_registry_env e p =
     bindE (fetch (rp_registry p) (Panic ''Not initialized'')) (\<lambda>a. callee e a RegistryC)"

definition rp_financing_env :: "env \<Rightarrow> repayment \<Rightarrow> error + env" where
  "rp_financing_env e p =
     bindE (fetch (rp_financing p) (Panic ''Not initialized'')) (\<lambda>a. callee e a FinancingC)"

definition penalty_for_offer :: "env \<Rightarrow> financing_offer \<Rightarrow> registry \<Rightarrow> repayment \<Rightarrow> error + int" where
  "penalty_for_offer e offer r p =
     bindE (rp_registry_env e p) (\<lambda>_.
     bindE (get_invoice (off_invoice_id offer) r) (\<lambda>invoice.
     bindE (flat_total_due offer) (\<lambda>total_due.
     let (penalty_bps, cap_bps) = load_penalty_config p
     in Inr (accrued_penalty e total_due (inv_due_date invoice) penalty_bps cap_bps))))"

subsection \<open>Payment history\<close>

definition load_payments :: "symbol \<Rightarrow> repayment \<Rightarrow> payment_record list" where
  "load_payments x p = (case pays p x of None \<Rightarrow> [] | Some h \<Rightarrow> h)"

definition save_payments :: "symbol \<Rightarrow> payment_record list \<Rightarrow> repayment \<Rightarrow> repayment" where
  "save_payments x h p = p\<lparr>pays := (pays p)(x \<mapsto> h)\<rparr>"

definition pro_rata_interest :: "int \<Rightarrow> nat \<Rightarrow> int \<Rightarrow> int" where
  "pro_rata_interest remaining_principal rate_bps days_elapsed =
     (if remaining_principal \<le> 0 \<or> rate_bps = 0 \<or> days_elapsed \<le> 0 then 0
      else sat_i128 (sat_i128 (remaining_principal * int rate_bps) * days_elapsed) sdiv 3650000)"

text \<open>The loop reads the first \<open>min(len, MAX_PAYMENTS_PER_INVOICE)\<close> records, adding with overflow check.\<close>

definition total_principal_repaid :: "payment_record list \<Rightarrow> error + int" where
  "total_principal_repaid payments =
     foldE (\<lambda>record total. add_i128 total (pay_principal_paid record))
       (take (min (length payments) MAX_PAYMENTS_PER_INVOICE) payments) 0"

definition remaining_of :: "payment_record list \<Rightarrow> financing_offer \<Rightarrow> error + int" where
  "remaining_of payments offer =
     bindE (total_principal_repaid payments) (\<lambda>principal_repaid.
     bindE (sub_i128 (off_amount offer) principal_repaid) (\<lambda>d. Inr (max d 0)))"

definition days_since_funded :: "env \<Rightarrow> financing_offer \<Rightarrow> error + int" where
  "days_since_funded e offer =
     bindE (sub_u64 (ledger_timestamp e) (off_funded_at offer)) (\<lambda>d. Inr (int (d div SECS_PER_DAY)))"

subsection \<open>Administration\<close>

definition repayment_constructor ::
  "address \<Rightarrow> address \<Rightarrow> address \<Rightarrow> address \<Rightarrow> repayment \<Rightarrow> error + repayment" where
  "repayment_constructor admin registry financing token p =
     bindE (init_admin_config admin p) (\<lambda>p.
     bindE (initialize_contract_version CARGO_PKG_VERSION p) (\<lambda>p.
     Inr (p\<lparr>rp_registry := Some registry, rp_financing := Some financing, default_token := Some token\<rparr>)))"

definition set_insurance :: "env \<Rightarrow> address list \<Rightarrow> address \<Rightarrow> repayment \<Rightarrow> error + repayment" where
  "set_insurance e sgs insurance p =
     bindE (assert_not_paused p) (\<lambda>_.
     bindE (assert_admin e sgs p) (\<lambda>_. Inr (p\<lparr>insadd := Some insurance\<rparr>)))"

definition get_insurance :: "repayment \<Rightarrow> address option" where
  "get_insurance p = insadd p"

definition set_reputation :: "env \<Rightarrow> address list \<Rightarrow> address \<Rightarrow> repayment \<Rightarrow> error + repayment" where
  "set_reputation e sgs reputation p =
     bindE (assert_not_paused p) (\<lambda>_.
     bindE (assert_admin e sgs p) (\<lambda>_. Inr (p\<lparr>repadd := Some reputation\<rparr>)))"

definition get_reputation :: "repayment \<Rightarrow> address option" where
  "get_reputation p = repadd p"

definition set_penalty :: "env \<Rightarrow> address list \<Rightarrow> nat \<Rightarrow> nat \<Rightarrow> repayment \<Rightarrow> error + repayment" where
  "set_penalty e sgs penalty_bps cap_bps p =
     bindE (assert_not_paused p) (\<lambda>_.
     bindE (assert_admin e sgs p) (\<lambda>_.
     bindE (ensure (\<not> penalty_bps > MAX_PENALTY_BPS) (Contract InvalidInput)) (\<lambda>_.
     bindE (ensure (\<not> cap_bps > 10000) (Contract InvalidInput)) (\<lambda>_.
     Inr (p\<lparr>penbps := Some penalty_bps, pencap := Some cap_bps\<rparr>)))))"

definition get_penalty_bps :: "repayment \<Rightarrow> nat" where
  "get_penalty_bps p = fst (load_penalty_config p)"

definition get_penalty_cap_bps :: "repayment \<Rightarrow> nat" where
  "get_penalty_cap_bps p = snd (load_penalty_config p)"

subsection \<open>Repayment\<close>

text \<open>
  \<open>repay_invoice\<close> in the steps of its body: the guards on the invoice and the offer, the obligation
  and the limits on the amount, the transfers, the payment record, the callbacks to the financing
  contract, the report to the reputation contract, and the events.
\<close>

definition repay_invoice_guard :: "env \<Rightarrow> symbol \<Rightarrow> address \<Rightarrow> ('t, 'z) rworld_scheme \<Rightarrow> error + invoice" where
  "repay_invoice_guard e invoice_id repayer w =
     bindE (rp_registry_env e (w_repayment w)) (\<lambda>_.
     bindE (get_invoice invoice_id (w_registry w)) (\<lambda>invoice.
     bindE (ensure (\<not> inv_originator invoice \<noteq> repayer) (Contract Unauthorized)) (\<lambda>_.
     bindE (ensure (\<not> inv_status invoice = InvRepaid) (Contract InvalidTransition)) (\<lambda>_.
     bindE (ensure (\<not> inv_status invoice \<noteq> InvFinanced) (Contract InvalidTransition)) (\<lambda>_.
     Inr invoice)))))"

definition repay_offer_guard ::
  "env \<Rightarrow> symbol \<Rightarrow> symbol \<Rightarrow> ('t, 'z) rworld_scheme \<Rightarrow> error + financing_offer" where
  "repay_offer_guard e invoice_id offer_id w =
     bindE (rp_financing_env e (w_repayment w)) (\<lambda>_.
     bindE (get_offer offer_id (w_financing w)) (\<lambda>offer.
     bindE (ensure (\<not> off_invoice_id offer \<noteq> invoice_id) (Contract InvalidInput)) (\<lambda>_.
     bindE (ensure (\<not> off_status offer = OffRepaid) (Contract InvalidTransition)) (\<lambda>_.
     bindE (ensure (\<not> (off_status offer \<noteq> OffAccepted \<and> off_status offer \<noteq> OffFinanced))
       (Contract InvalidTransition)) (\<lambda>_.
     Inr offer)))))"

definition repay_obligation ::
  "env \<Rightarrow> symbol \<Rightarrow> invoice \<Rightarrow> financing_offer \<Rightarrow> int \<Rightarrow> repayment \<Rightarrow> error + int \<times> int" where
  "repay_obligation e invoice_id invoice offer amount p =
     bindE (remaining_of (load_payments invoice_id p) offer) (\<lambda>remaining_principal.
     bindE (ensure (\<not> remaining_principal \<le> 0) (Contract InvalidTransition)) (\<lambda>_.
     bindE (days_since_funded e offer) (\<lambda>days.
     let accrued_interest = pro_rata_interest remaining_principal (off_interest_rate offer) days in
     bindE (flat_total_due offer) (\<lambda>frozen_base.
     let (penalty_bps, cap_bps) = load_penalty_config p;
         penalty = accrued_penalty e frozen_base (inv_due_date invoice) penalty_bps cap_bps in
     bindE (add_i128 remaining_principal accrued_interest) (\<lambda>x.
     bindE (add_i128 x penalty) (\<lambda>total_owed.
     bindE (mul_i128 (off_amount offer) (int MIN_PARTIAL_PAYMENT_BPS)) (\<lambda>x.
     bindE (div_i128 x 10000) (\<lambda>min_payment.
     bindE (ensure (\<not> (amount < min_payment \<and> amount < total_owed)) (Contract InvalidInput)) (\<lambda>_.
     bindE (ensure (\<not> amount > total_owed) (Contract InsufficientBalance)) (\<lambda>_.
     Inr (remaining_principal, accrued_interest)))))))))))"

definition repay_transfers ::
  "'t sep41 \<Rightarrow> env \<Rightarrow> address \<Rightarrow> address \<Rightarrow> address \<Rightarrow> int \<Rightarrow> financing \<Rightarrow> registry \<Rightarrow> 't \<Rightarrow> error + int \<times> 't" where
  "repay_transfers T e token_id repayer lender amount f r t =
     (let fee_bps = get_fee_bps f in
     bindE (mul_i128 amount (int fee_bps)) (\<lambda>x.
     bindE (div_i128 x 10000) (\<lambda>fee_amount.
     bindE (sub_i128 amount fee_amount) (\<lambda>lender_amount.
     bindE (tk_transfer T e token_id repayer lender lender_amount t) (\<lambda>t.
     if fee_amount > 0
     then bindE (get_fee_recipient r) (\<lambda>fee_recipient.
          bindE (tk_transfer T e token_id repayer fee_recipient fee_amount t) (\<lambda>t.
          Inr (fee_amount, t)))
     else Inr (fee_amount, t))))))"

definition append_payment ::
  "env \<Rightarrow> symbol \<Rightarrow> address \<Rightarrow> int \<Rightarrow> int \<Rightarrow> int \<Rightarrow> repayment \<Rightarrow> error + repayment" where
  "append_payment e invoice_id repayer amount interest_portion principal_portion p =
     (let payments = load_payments invoice_id p in
     bindE (add_u32 (length payments) 1) (\<lambda>payment_id.
     let record = \<lparr>pay_id = payment_id, pay_amount = amount, pay_interest_paid = interest_portion,
           pay_principal_paid = principal_portion, pay_timestamp = ledger_timestamp e, pay_payer = repayer\<rparr>
     in Inr (save_payments invoice_id (payments @ [record]) p)))"

definition repay_callbacks ::
  "env \<Rightarrow> symbol \<Rightarrow> financing_offer \<Rightarrow> int \<Rightarrow> int \<Rightarrow> int \<Rightarrow> bool \<Rightarrow> financing \<Rightarrow> error + financing" where
  "repay_callbacks e offer_id offer principal_portion amount fee_amount fully_repaid f =
     bindE (add_i128 (off_amount_repaid offer) principal_portion) (\<lambda>amount_repaid.
     let new_status = (if fully_repaid then OffRepaid else OffFinanced) in
     bindE (update_offer_status e offer_id new_status f) (\<lambda>f.
     bindE (update_offer_amount_repaid e offer_id amount_repaid f) (\<lambda>f.
     bindE (update_lender_stats_repaid e (off_lender offer) fully_repaid f) (\<lambda>f.
     update_stats_repaid e amount fee_amount f))))"

definition report_outcome ::
  "env \<Rightarrow> address \<Rightarrow> nat \<Rightarrow> repayment \<Rightarrow> reputation \<Rightarrow> error + reputation" where
  "report_outcome e originator outcome p s =
     (case repadd p of
        None \<Rightarrow> Inr s
      | Some reputation_addr \<Rightarrow>
          bindE (callee e reputation_addr ReputationC) (\<lambda>e'. record_outcome e' originator outcome s))"

definition repay_events ::
  "symbol \<Rightarrow> symbol \<Rightarrow> int \<Rightarrow> int \<Rightarrow> int \<Rightarrow> int \<Rightarrow> bool \<Rightarrow> repayment \<Rightarrow> repayment" where
  "repay_events invoice_id offer_id amount principal_portion interest_portion new_remaining fully_repaid p =
     publish (Ev_inv_rep invoice_id offer_id amount fully_repaid)
       (if fully_repaid
        then publish (Ev_inv_frp invoice_id offer_id amount principal_portion interest_portion) p
        else publish (Ev_parpay invoice_id offer_id amount principal_portion interest_portion new_remaining) p)"

definition repay_invoice ::
  "'t sep41 \<Rightarrow> env \<Rightarrow> symbol \<Rightarrow> symbol \<Rightarrow> address \<Rightarrow> int \<Rightarrow> ('t, 'z) rworld_scheme \<Rightarrow>
     error + invoice \<times> ('t, 'z) rworld_scheme" where
  "repay_invoice T e invoice_id offer_id repayer amount w =
     (let p = w_repayment w in
     bindE (assert_not_paused p) (\<lambda>_.
     bindE (require_auth e repayer) (\<lambda>_.
     bindE (repay_invoice_guard e invoice_id repayer w) (\<lambda>invoice.
     bindE (repay_offer_guard e invoice_id offer_id w) (\<lambda>offer.
     bindE (ensure (amount > 0) (Panic ''repayment amount must be greater than zero'')) (\<lambda>_.
     bindE (resolve_token (off_currency offer) p) (\<lambda>token_id.
     bindE (repay_obligation e invoice_id invoice offer amount p) (\<lambda>(remaining_principal, accrued_interest).
     let interest_portion = min amount accrued_interest in
     bindE (sub_i128 amount interest_portion) (\<lambda>principal_portion.
     bindE (repay_transfers T e token_id repayer (off_lender offer) amount (w_financing w) (w_registry w)
       (w_token w)) (\<lambda>(fee_amount, t).
     bindE (append_payment e invoice_id repayer amount interest_portion principal_portion p) (\<lambda>p.
     bindE (sub_i128 remaining_principal principal_portion) (\<lambda>new_remaining.
     let fully_repaid = (new_remaining \<le> 0) in
     bindE (rp_financing_env e p) (\<lambda>ef.
     bindE (repay_callbacks ef offer_id offer principal_portion amount fee_amount fully_repaid (w_financing w)) (\<lambda>f.
     bindE (rp_registry_env e p) (\<lambda>er.
     bindE (repayment_marks_invoice_repaid er invoice_id fully_repaid (w_registry w)) (\<lambda>(updated_invoice, r).
     bindE (if fully_repaid then report_outcome e (inv_originator invoice) 0 p (w_reputation w)
            else Inr (w_reputation w)) (\<lambda>rep.
     let p = repay_events invoice_id offer_id amount principal_portion interest_portion new_remaining fully_repaid p
     in Inr (updated_invoice,
          w\<lparr>w_registry := r, w_financing := f, w_token := t, w_repayment := p, w_reputation := rep\<rparr>))))))))))))))))))"

subsection \<open>Overdue and default\<close>

definition mark_overdue ::
  "env \<Rightarrow> symbol \<Rightarrow> ('t, 'z) rworld_scheme \<Rightarrow> error + invoice \<times> ('t, 'z) rworld_scheme" where
  "mark_overdue e invoice_id w =
     bindE (assert_not_paused (w_repayment w)) (\<lambda>_.
     bindE (rp_registry_env e (w_repayment w)) (\<lambda>er.
     bindE (mark_invoice_overdue er invoice_id (w_registry w)) (\<lambda>(invoice, r).
     Inr (invoice, w\<lparr>w_registry := r\<rparr>))))"

definition reclaim_guard ::
  "env \<Rightarrow> symbol \<Rightarrow> symbol \<Rightarrow> address \<Rightarrow> ('t, 'z) rworld_scheme \<Rightarrow> error + invoice \<times> financing_offer" where
  "reclaim_guard e invoice_id offer_id lender w =
     bindE (rp_registry_env e (w_repayment w)) (\<lambda>_.
     bindE (get_invoice invoice_id (w_registry w)) (\<lambda>invoice.
     bindE (ensure (\<not> inv_status invoice \<noteq> InvOverdue) (Contract InvalidTransition)) (\<lambda>_.
     bindE (add_u64 (inv_due_date invoice) GRACE_PERIOD_SECS) (\<lambda>grace_end.
     bindE (ensure (\<not> ledger_timestamp e < grace_end) (Contract InvalidTransition)) (\<lambda>_.
     bindE (rp_financing_env e (w_repayment w)) (\<lambda>_.
     bindE (get_offer offer_id (w_financing w)) (\<lambda>offer.
     bindE (ensure (\<not> off_invoice_id offer \<noteq> invoice_id) (Contract InvalidInput)) (\<lambda>_.
     bindE (ensure (\<not> off_lender offer \<noteq> lender) (Contract Unauthorized)) (\<lambda>_.
     bindE (ensure (\<not> (off_status offer \<noteq> OffAccepted \<and> off_status offer \<noteq> OffFinanced))
       (Contract InvalidTransition)) (\<lambda>_.
     Inr (invoice, offer)))))))))))"

definition claim_insurance ::
  "'t sep41 \<Rightarrow> env \<Rightarrow> symbol \<Rightarrow> address \<Rightarrow> int \<Rightarrow> registry \<Rightarrow> repayment \<Rightarrow> insurance \<times> 't \<Rightarrow>
     error + int \<times> insurance \<times> 't" where
  "claim_insurance T e invoice_id lender remaining_due r p = (\<lambda>(s, t).
     case insadd p of
       None \<Rightarrow> Inr (0, s, t)
     | Some insurance_addr \<Rightarrow>
         bindE (callee e insurance_addr InsuranceC) (\<lambda>e'.
         pay_out T e' invoice_id lender remaining_due r (s, t)))"

definition reclaim_invoice ::
  "'t sep41 \<Rightarrow> env \<Rightarrow> symbol \<Rightarrow> symbol \<Rightarrow> address \<Rightarrow> ('t, 'z) rworld_scheme \<Rightarrow>
     error + financing_offer \<times> ('t, 'z) rworld_scheme" where
  "reclaim_invoice T e invoice_id offer_id lender w =
     (let p = w_repayment w in
     bindE (assert_not_paused p) (\<lambda>_.
     bindE (require_auth e lender) (\<lambda>_.
     bindE (reclaim_guard e invoice_id offer_id lender w) (\<lambda>(invoice, offer).
     bindE (rp_financing_env e p) (\<lambda>ef.
     bindE (update_offer_status ef offer_id OffDefaulted (w_financing w)) (\<lambda>f.
     let offer = offer\<lparr>off_status := OffDefaulted\<rparr> in
     bindE (rp_registry_env e p) (\<lambda>er.
     bindE (repayment_marks_defaulted er invoice_id (w_registry w)) (\<lambda>(_, r).
     bindE (flat_total_due offer) (\<lambda>total_due.
     bindE (sub_i128 total_due (off_amount_repaid offer)) (\<lambda>d.
     let remaining_due = max d 0;
         (penalty_bps, cap_bps) = load_penalty_config p;
         penalty = accrued_penalty e total_due (inv_due_date invoice) penalty_bps cap_bps in
     bindE (claim_insurance T e invoice_id (off_lender offer) remaining_due r p (w_insurance w, w_token w))
       (\<lambda>(payout, s, t).
     bindE (report_outcome e (inv_originator invoice) 1 p (w_reputation w)) (\<lambda>rep.
     let p = publish (Ev_off_def (off_id offer) (off_invoice_id offer) (off_lender offer) payout penalty) p
     in Inr (offer, w\<lparr>w_registry := r, w_financing := f, w_token := t, w_repayment := p,
          w_insurance := s, w_reputation := rep\<rparr>)))))))))))))"

subsection \<open>Queries\<close>

definition settled :: "financing_offer \<Rightarrow> bool" where
  "settled offer \<longleftrightarrow> off_status offer = OffRepaid \<or> off_status offer = OffDefaulted"

definition calculate_total_due :: "env \<Rightarrow> symbol \<Rightarrow> ('t, 'z) rworld_scheme \<Rightarrow> error + int" where
  "calculate_total_due e offer_id w =
     bindE (rp_financing_env e (w_repayment w)) (\<lambda>_.
     bindE (get_offer offer_id (w_financing w)) (\<lambda>offer.
     if settled offer then Inr 0
     else
       bindE (remaining_of (load_payments (off_invoice_id offer) (w_repayment w)) offer) (\<lambda>remaining.
       bindE (days_since_funded e offer) (\<lambda>days.
       let interest = pro_rata_interest remaining (off_interest_rate offer) days in
       bindE (penalty_for_offer e offer (w_registry w) (w_repayment w)) (\<lambda>penalty.
       bindE (add_i128 remaining interest) (\<lambda>x.
       bindE (add_i128 x penalty) (\<lambda>x. Inr (max x 0))))))))"

definition calculate_penalty :: "env \<Rightarrow> symbol \<Rightarrow> ('t, 'z) rworld_scheme \<Rightarrow> error + int" where
  "calculate_penalty e offer_id w =
     bindE (rp_financing_env e (w_repayment w)) (\<lambda>_.
     bindE (get_offer offer_id (w_financing w)) (\<lambda>offer.
     if settled offer then Inr 0
     else penalty_for_offer e offer (w_registry w) (w_repayment w)))"

definition get_duration_limits :: "env \<Rightarrow> nat \<times> nat" where
  "get_duration_limits e = (MIN_OFFER_DURATION_SECS, MAX_OFFER_DURATION_SECS)"

definition repayment_get_installment_due :: "env \<Rightarrow> symbol \<Rightarrow> ('t, 'z) rworld_scheme \<Rightarrow> error + nat" where
  "repayment_get_installment_due e offer_id w =
     bindE (rp_financing_env e (w_repayment w)) (\<lambda>ef. Inr (get_installment_due ef offer_id (w_financing w)))"

definition get_payment_history :: "symbol \<Rightarrow> repayment \<Rightarrow> payment_record list" where
  "get_payment_history invoice_id p = load_payments invoice_id p"

definition get_remaining_principal :: "env \<Rightarrow> symbol \<Rightarrow> ('t, 'z) rworld_scheme \<Rightarrow> error + int" where
  "get_remaining_principal e offer_id w =
     bindE (rp_financing_env e (w_repayment w)) (\<lambda>_.
     bindE (get_offer offer_id (w_financing w)) (\<lambda>offer.
     if settled offer then Inr 0
     else remaining_of (load_payments (off_invoice_id offer) (w_repayment w)) offer))"

definition calculate_accrued_interest :: "env \<Rightarrow> symbol \<Rightarrow> ('t, 'z) rworld_scheme \<Rightarrow> error + int" where
  "calculate_accrued_interest e offer_id w =
     bindE (rp_financing_env e (w_repayment w)) (\<lambda>_.
     bindE (get_offer offer_id (w_financing w)) (\<lambda>offer.
     if settled offer then Inr 0
     else
       bindE (remaining_of (load_payments (off_invoice_id offer) (w_repayment w)) offer) (\<lambda>remaining.
       bindE (days_since_funded e offer) (\<lambda>days.
       Inr (pro_rata_interest remaining (off_interest_rate offer) days)))))"

subsection \<open>Governance entry points of this contract\<close>

definition repayment_get_admin ::
  "repayment \<Rightarrow> error + address" where
  "repayment_get_admin s = get_admin s"

definition repayment_get_admin_config ::
  "repayment \<Rightarrow> error + admin_config" where
  "repayment_get_admin_config s = get_admin_config s"

definition repayment_get_signers ::
  "repayment \<Rightarrow> error + address list" where
  "repayment_get_signers s = get_signers s"

definition repayment_get_threshold ::
  "repayment \<Rightarrow> error + nat" where
  "repayment_get_threshold s = get_threshold s"

definition repayment_set_signers ::
  "env \<Rightarrow> address list \<Rightarrow> address list \<Rightarrow> nat \<Rightarrow> repayment \<Rightarrow> error + repayment" where
  "repayment_set_signers e sgs new thr s = set_signers e sgs new thr s"

definition repayment_transfer_admin ::
  "env \<Rightarrow> address list \<Rightarrow> address \<Rightarrow> repayment \<Rightarrow> error + repayment" where
  "repayment_transfer_admin e sgs new_admin s = transfer_admin e sgs new_admin s"

definition repayment_pause ::
  "env \<Rightarrow> address list \<Rightarrow> repayment \<Rightarrow> error + repayment" where
  "repayment_pause e sgs s = pause e sgs s"

definition repayment_unpause ::
  "env \<Rightarrow> address list \<Rightarrow> repayment \<Rightarrow> error + repayment" where
  "repayment_unpause e sgs s = unpause e sgs s"

definition repayment_is_paused ::
  "repayment \<Rightarrow> bool" where
  "repayment_is_paused s = contract_is_paused s"

definition repayment_version ::
  "repayment \<Rightarrow> error + string" where
  "repayment_version s = version s"

definition repayment_upgrade ::
  "env \<Rightarrow> address list \<Rightarrow> bytes32 \<Rightarrow> bytes32 \<Rightarrow> string \<Rightarrow> repayment \<Rightarrow> error + repayment" where
  "repayment_upgrade e sgs cur new v s = upgrade e sgs cur new v s"

definition repayment_post_upgrade ::
  "env \<Rightarrow> address list \<Rightarrow> repayment \<Rightarrow> error + repayment" where
  "repayment_post_upgrade e sgs s = post_upgrade_with (\<lambda>s. s) e sgs s"

definition repayment_rollback ::
  "env \<Rightarrow> address list \<Rightarrow> repayment \<Rightarrow> error + repayment" where
  "repayment_rollback e sgs s = rollback e sgs s"

end
