(* ===== verification/Pool.thy ===== *)
theory Pool
  imports Insurance
begin

text \<open>
  What the insurance contract guarantees: the pool totals equal the sums of the stakes, in the flat
  pool and in each tier, the outstanding total equals what is reserved and not yet paid, payouts
  are capped, a claim stays within its reservation, and a rate change is prospective. Sums run
  over the keys of a host map and use the laws of \<open>ordered_map\<close> only.
\<close>

subsection \<open>Sums over host maps\<close>

definition sm_sum :: "('k \<Rightarrow> bool) \<Rightarrow> ('k::linorder, int) smap \<Rightarrow> int" where
  "sm_sum P m = (\<Sum>k\<leftarrow>sm_keys m. if P k then the (map_of m k) else 0)"

lemma sm_sum_Nil [simp]: "sm_sum P [] = 0"
  by (simp add: sm_sum_def sm_keys_def)

lemma sm_sum_set:
  "sm_wf m \<Longrightarrow> sm_sum P (sm_set m k v) = sm_sum P m + (if P k then v - sm_get_or m k 0 else 0)"
  unfolding sm_sum_def host_map.sum_keys_set [of m "\<lambda>k v. if P k then v else 0"]
  by (simp add: sm_get_or_def split: option.split)

lemma sm_sum_remove:
  "sm_wf m \<Longrightarrow> sm_sum P (sm_remove m k) = sm_sum P m - (if P k then sm_get_or m k 0 else 0)"
  unfolding sm_sum_def host_map.sum_keys_remove [of m "\<lambda>k v. if P k then v else 0"]
  by (simp add: sm_get_or_def split: option.split)

lemma sm_sum_eq: "sm_sum P m = (\<Sum>k\<leftarrow>filter P (sm_keys m). sm_get_or m k 0)"
proof -
  have "(\<Sum>k\<leftarrow>ks. if P k then the (map_of m k) else 0) = (\<Sum>k\<leftarrow>filter P ks. sm_get_or m k 0)"
    if "set ks \<subseteq> set (sm_keys m)" for ks
    using that by (induction ks) (auto simp: sm_get_or_def set_sm_keys)
  then show ?thesis by (simp add: sm_sum_def)
qed

lemma sm_sum_set_of:
  assumes "sm_wf m" and "finite A" and "dom (map_of m) \<subseteq> A"
  shows "sm_sum P m = (\<Sum>k\<in>A. if P k then sm_get_or m k 0 else 0)"
proof -
  have "sm_sum P m = (\<Sum>k\<in>dom (map_of m). if P k then the (map_of m k) else 0)"
    unfolding sm_sum_def by (rule host_map.sum_keys [of m "\<lambda>k v. if P k then v else 0", OF assms(1)])
  also have "\<dots> = (\<Sum>k\<in>A. if P k then sm_get_or m k 0 else 0)"
    by (rule sum.mono_neutral_cong_left [OF assms(2,3)]) (auto simp: sm_get_or_def domIff)
  finally show ?thesis .
qed

text \<open>What is paid never exceeds what is reserved, so each offer's open reservation is part of the total.\<close>

lemma open_reservation_le:
  assumes "sm_wf r" and "sm_wf p" and "\<And>k. sm_get_or p k 0 \<le> sm_get_or r k (0 :: int)"
    and "P x"
  shows "sm_get_or r x 0 - sm_get_or p x 0 \<le> sm_sum P r - sm_sum P p"
proof -
  let ?A = "insert x (dom (map_of r) \<union> dom (map_of p))" and ?d = "\<lambda>k. if P k then sm_get_or r k 0 - sm_get_or p k 0 else 0"
  have fin: "finite ?A" by (simp add: finite_dom_map_of)
  have "sm_sum P r - sm_sum P p = sum ?d ?A"
    by (subst (1 2) sm_sum_set_of [OF _ fin]) (auto simp: assms(1,2) sum_subtractf [symmetric] intro!: sum.cong)
  moreover have "?d x \<le> sum ?d ?A"
    by (rule member_le_sum) (use fin assms(3) in auto)
  ultimately show ?thesis using assms(4) by simp
qed

subsection \<open>The pro-rata loop\<close>

lemma reduce_stake_ok:
  assumes "reduce_stake n payout tot (i, k) (m, red) = Inr (m', red')" and "sm_wf m"
  shows "sm_wf m'" "sm_sum P m' = sm_sum P m - (if P k then red' - red else 0)"
    "i = n - 1 \<Longrightarrow> red' = payout" "\<And>j. j \<noteq> k \<Longrightarrow> map_of m' j = map_of m j"
  using assms by (auto simp: reduce_stake_def ok Let_def sm_sum_set sm_sum_remove split: if_splits)

lemma reduce_loop_ok:
  assumes "foldE (reduce_stake n payout tot) (enumerate i ks) (m, red) = Inr (m', red')" and "sm_wf m"
    and "n = i + length ks"
  shows "sm_wf m' \<and> (\<forall>P. (\<forall>k \<in> set ks. P k) \<longrightarrow> sm_sum P m' = sm_sum P m - (red' - red)) \<and>
    (\<forall>P. (\<forall>k \<in> set ks. \<not> P k) \<longrightarrow> sm_sum P m' = sm_sum P m) \<and>
    (if ks = [] then red' = red else red' = payout)"
  using assms
proof (induction ks arbitrary: i m red)
  case Nil
  then show ?case by simp
next
  case (Cons k ks)
  then obtain m1 red1 where s1: "reduce_stake n payout tot (i, k) (m, red) = Inr (m1, red1)"
    "foldE (reduce_stake n payout tot) (enumerate (Suc i) ks) (m1, red1) = Inr (m', red')"
    by (auto simp: ok)
  note step = reduce_stake_ok [OF s1(1) Cons.prems(2)]
  have IH: "sm_wf m' \<and> (\<forall>P. (\<forall>k \<in> set ks. P k) \<longrightarrow> sm_sum P m' = sm_sum P m1 - (red' - red1)) \<and>
    (\<forall>P. (\<forall>k \<in> set ks. \<not> P k) \<longrightarrow> sm_sum P m' = sm_sum P m1) \<and>
    (if ks = [] then red' = red1 else red' = payout)"
    by (rule Cons.IH [OF s1(2) step(1)]) (use Cons.prems(3) in simp)
  have "red' = payout" using IH step(3) Cons.prems(3) by (cases ks) auto
  with IH step(2) show ?case by auto
qed

lemma reduce_stakes_ok:
  assumes "reduce_stakes ks payout tot m = Inr (m', red)" and "sm_wf m"
  shows "sm_wf m'" "(\<forall>k \<in> set ks. P k) \<Longrightarrow> sm_sum P m' = sm_sum P m - red"
    "(\<forall>k \<in> set ks. \<not> P k) \<Longrightarrow> sm_sum P m' = sm_sum P m"
    "ks \<noteq> [] \<Longrightarrow> red = payout" "ks = [] \<Longrightarrow> red = 0"
  using reduce_loop_ok [OF assms(1) [unfolded reduce_stakes_def] assms(2)] by (auto split: if_splits)

subsection \<open>The invariant\<close>

definition flat_ok :: "insurance \<Rightarrow> bool" where
  "flat_ok s \<longleftrightarrow> sm_wf (ins_stakes s) \<and> sm_sum (\<lambda>_. True) (ins_stakes s) = pooltot s"

definition tiers_ok :: "insurance \<Rightarrow> bool" where
  "tiers_ok s \<longleftrightarrow> sm_wf (tstakes s) \<and>
     (\<forall>tier. sm_sum (\<lambda>k. tsk_tier k = tier) (tstakes s) = pool_balance (load_tier_pool tier s))"

definition reservations_ok :: "insurance \<Rightarrow> bool" where
  "reservations_ok s \<longleftrightarrow> sm_wf (resrvd s) \<and> sm_wf (paid_map s) \<and>
     tot_out s = sm_sum (\<lambda>_. True) (resrvd s) - sm_sum (\<lambda>_. True) (paid_map s) \<and>
     (\<forall>x. 0 \<le> load_paid x s \<and> load_paid x s \<le> load_reserved x s)"

definition tier_reservations_ok :: "insurance \<Rightarrow> bool" where
  "tier_reservations_ok s \<longleftrightarrow> sm_wf (tresrv s) \<and> sm_wf (tpaid s) \<and>
     (\<forall>tier. pool_reserved (load_tier_pool tier s) =
        sm_sum (\<lambda>k. tok_tier k = tier) (tresrv s) - sm_sum (\<lambda>k. tok_tier k = tier) (tpaid s)) \<and>
     (\<forall>k. 0 \<le> sm_get_or (tpaid s) k 0 \<and> sm_get_or (tpaid s) k 0 \<le> sm_get_or (tresrv s) k 0)"

definition insurance_ok :: "insurance \<Rightarrow> bool" where
  "insurance_ok s \<longleftrightarrow> flat_ok s \<and> tiers_ok s \<and> reservations_ok s \<and> tier_reservations_ok s"

lemmas ok_defs = insurance_ok_def flat_ok_def tiers_ok_def reservations_ok_def tier_reservations_ok_def

text \<open>The part of the state the invariant reads.\<close>

definition accounts :: "insurance \<Rightarrow> (address, int) smap \<times> int \<times> int \<times> (symbol, int) smap \<times> (symbol, int) smap \<times>
    (insurance_tier \<rightharpoonup> pool_record) \<times> (tier_stake_key, int) smap \<times> (tier_offer_key, int) smap \<times> (tier_offer_key, int) smap" where
  "accounts s = (ins_stakes s, pooltot s, tot_out s, resrvd s, paid_map s, pools s, tstakes s, tresrv s, tpaid s)"

lemma insurance_ok_cong: "accounts s' = accounts s \<Longrightarrow> insurance_ok s' = insurance_ok s"
  by (simp add: accounts_def ok_defs load_paid_def load_reserved_def load_tier_pool_def)

subsection \<open>Operations\<close>

lemma stake_accounts:
  assumes "stake T e a amt (s, t) = Inr (s', t')"
  shows "0 < amt \<and> accounts s' = (sm_set (ins_stakes s) a (get_stake a s + amt), pooltot s + amt,
    tot_out s, resrvd s, paid_map s, pools s, tstakes s, tresrv s, tpaid s)"
  using assms by (auto simp: stake_def ok Let_def get_stake_def accounts_def publish_def)

lemma write_position_accounts:
  "accounts (write_position a n m ts acc s) = (if n = 0 then sm_remove m a else sm_set m a n,
     pooltot s, tot_out s, resrvd s, paid_map s, pools s, tstakes s, tresrv s, tpaid s)"
  "pooltot (write_position a n m ts acc s) = pooltot s" "ins_token (write_position a n m ts acc s) = ins_token s"
  by (simp_all add: write_position_def accounts_def)

lemma write_tier_position_accounts:
  "accounts (write_tier_position k n m ts acc s) = (ins_stakes s, pooltot s, tot_out s, resrvd s, paid_map s, pools s,
     if n = 0 then sm_remove m k else sm_set m k n, tresrv s, tpaid s)"
  "pools (write_tier_position k n m ts acc s) = pools s"
  "ins_token (write_tier_position k n m ts acc s) = ins_token s"
  by (simp_all add: write_tier_position_def accounts_def)

lemma pay_yield_accounts: "pay_yield T e tok a tier y (s, t) = Inr (s', t') \<Longrightarrow> accounts s' = accounts s"
  by (auto simp: pay_yield_def ok accounts_def publish_def split: if_splits)

lemma accounts_updates:
  "accounts (publish ev s) = accounts s"
  "accounts (s\<lparr>pooltot := n\<rparr>) = (case accounts s of (m, _, r) \<Rightarrow> (m, n, r))"
  "accounts (s\<lparr>pools := ps\<rparr>) = (case accounts s of (m, n, out, re, pd, _, r) \<Rightarrow> (m, n, out, re, pd, ps, r))"
  by (simp_all add: accounts_def publish_def)

lemma unstake_accounts:
  assumes "unstake T e a amt (s, t) = Inr (s', t')"
  shows "0 < amt \<and> amt \<le> get_stake a s \<and> accounts s' =
    (if get_stake a s = amt then sm_remove (ins_stakes s) a else sm_set (ins_stakes s) a (get_stake a s - amt),
     pooltot s - amt, tot_out s, resrvd s, paid_map s, pools s, tstakes s, tresrv s, tpaid s)"
  using assms
  by (auto simp: unstake_def ok Let_def get_stake_def accounts_updates write_position_accounts
      dest!: pay_yield_accounts)

lemma pay_out_accounts:
  assumes "pay_out T e x b amt r (s, t) = Inr (p, s', t')"
  shows "0 < amt \<and> (\<exists>i. get_invoice x r = Inr i \<and> inv_status i = InvDefaulted) \<and>
    (\<exists>c. paycall s = Some c \<and> authorizes e c) \<and> p = max 0 (min amt (pooltot s)) \<and>
    (if p = 0 then s' = s \<and> t' = t
     else \<exists>m red tok. reduce_stakes (sm_keys (ins_stakes s)) p (pooltot s) (ins_stakes s) = Inr (m, red) \<and>
       ins_token s = Some tok \<and> tk_transfer T e tok (current_contract e) b p t = Inr t' \<and>
       accounts s' = (m, pooltot s - p, tot_out s, resrvd s, paid_map s, pools s, tstakes s, tresrv s, tpaid s))"
  using assms
  by (auto simp: pay_out_def payout_guard_def assert_defaulted_def ok Let_def accounts_def publish_def
      load_token_def not_le split: if_splits)

lemma reserve_payout_accounts:
  assumes "reserve_payout e x amt s = Inr (p, s')"
  shows "0 < amt \<and> p = max 0 (min amt (pooltot s - tot_out s)) \<and>
    (if p = 0 then s' = s
     else accounts s' = (ins_stakes s, pooltot s, tot_out s + p, resrvd (save_reserved x (load_reserved x s + p) s),
       paid_map s, pools s, tstakes s, tresrv s, tpaid s))"
  using assms
  by (auto simp: reserve_payout_def payout_guard_def ok Let_def accounts_def publish_def save_reserved_def not_le
      split: if_splits)

lemma claim_payout_accounts:
  assumes "claim_payout T e x b amt (s, t) = Inr ((p, rem), s', t')"
  shows "0 < amt \<and> load_paid x s < load_reserved x s \<and> rem = load_reserved x s - load_paid x s - p \<and>
    p = max 0 (min (min amt (load_reserved x s - load_paid x s)) (pooltot s - (tot_out s - (load_reserved x s - load_paid x s)))) \<and>
    (if p = 0 then s' = s \<and> t' = t
     else \<exists>m red tok. reduce_stakes (sm_keys (ins_stakes s)) p (pooltot s) (ins_stakes s) = Inr (m, red) \<and>
       ins_token s = Some tok \<and> tk_transfer T e tok (current_contract e) b p t = Inr t' \<and>
       accounts s' = (m, pooltot s - p, tot_out s - p, resrvd s, paid_map (save_paid x (load_paid x s + p) s),
         pools s, tstakes s, tresrv s, tpaid s))"
  using assms
  by (auto simp: claim_payout_def payout_guard_def ok Let_def accounts_def publish_def save_paid_def load_token_def
      not_le split: if_splits)

lemma stake_tier_accounts:
  assumes "stake_tier T e a tier amt (s, t) = Inr (s', t')"
  shows "0 < amt \<and> accounts s' = (ins_stakes s, pooltot s, tot_out s, resrvd s, paid_map s,
    (pools s)(tier \<mapsto> (load_tier_pool tier s)\<lparr>pool_balance := pool_balance (load_tier_pool tier s) + amt\<rparr>),
    sm_set (tstakes s) (TierStakeKey a tier) (get_tier_stake a tier s + amt), tresrv s, tpaid s)"
  using assms
  by (auto simp: stake_tier_def ok Let_def get_tier_stake_def tier_key_def accounts_def publish_def)

lemma unstake_tier_accounts:
  assumes "unstake_tier T e a tier amt (s, t) = Inr (s', t')"
  shows "0 < amt \<and> amt \<le> get_tier_stake a tier s \<and> accounts s' = (ins_stakes s, pooltot s, tot_out s, resrvd s, paid_map s,
    (pools s)(tier \<mapsto> (load_tier_pool tier s)\<lparr>pool_balance := pool_balance (load_tier_pool tier s) - amt\<rparr>),
    if get_tier_stake a tier s = amt then sm_remove (tstakes s) (TierStakeKey a tier)
    else sm_set (tstakes s) (TierStakeKey a tier) (get_tier_stake a tier s - amt), tresrv s, tpaid s)"
  using assms
  by (auto simp: unstake_tier_def ok Let_def get_tier_stake_def tier_key_def accounts_updates
      write_tier_position_accounts dest!: pay_yield_accounts)

lemma pay_out_tier_accounts:
  assumes "pay_out_tier T e x tier b amt r (s, t) = Inr (p, s', t')"
  defines "pl \<equiv> load_tier_pool tier s"
  shows "0 < amt \<and> (\<exists>i. get_invoice x r = Inr i \<and> inv_status i = InvDefaulted) \<and>
    p = max 0 (min ((amt * int (pool_payout_cap_bps pl)) sdiv 10000) (pool_balance pl)) \<and>
    (if p = 0 then s' = s \<and> t' = t
     else \<exists>m tok. reduce_stakes (keys_of_tier tier (tstakes s)) p (pool_balance pl) (tstakes s) = Inr (m, p) \<and>
       ins_token s = Some tok \<and> tk_transfer T e tok (current_contract e) b p t = Inr t' \<and>
       accounts s' = (ins_stakes s, pooltot s, tot_out s, resrvd s, paid_map s,
         (pools s)(tier \<mapsto> pl\<lparr>pool_balance := pool_balance pl - p\<rparr>), m, tresrv s, tpaid s))"
  using assms
  by (auto simp: pay_out_tier_def payout_guard_def assert_defaulted_def ok Let_def accounts_def publish_def
      load_token_def not_le split: if_splits)

lemma reserve_payout_tier_accounts:
  assumes "reserve_payout_tier e x tier amt s = Inr (p, s')"
  defines "pl \<equiv> load_tier_pool tier s" and "k \<equiv> TierOfferKey x tier"
  shows "0 < amt \<and> 0 \<le> p \<and>
    (if p = 0 then s' = s
     else accounts s' = (ins_stakes s, pooltot s, tot_out s, resrvd s, paid_map s,
       (pools s)(tier \<mapsto> pl\<lparr>pool_reserved := pool_reserved pl + p\<rparr>), tstakes s,
       sm_set (tresrv s) k (sm_get_or (tresrv s) k 0 + p), tpaid s))"
  using assms
  by (auto simp: reserve_payout_tier_def payout_guard_def ok Let_def accounts_def publish_def tier_offer_key_def not_le
      split: if_splits)

lemma claim_payout_tier_accounts:
  assumes "claim_payout_tier T e x tier b amt (s, t) = Inr ((p, rem), s', t')"
  defines "pl \<equiv> load_tier_pool tier s" and "k \<equiv> TierOfferKey x tier"
  shows "0 < amt \<and> 0 \<le> p \<and> p \<le> amt \<and> p \<le> sm_get_or (tresrv s) k 0 - sm_get_or (tpaid s) k 0 \<and>
    (if p = 0 then s' = s \<and> t' = t
     else \<exists>m tok. reduce_stakes (keys_of_tier tier (tstakes s)) p (pool_balance pl) (tstakes s) = Inr (m, p) \<and>
       ins_token s = Some tok \<and> tk_transfer T e tok (current_contract e) b p t = Inr t' \<and>
       accounts s' = (ins_stakes s, pooltot s, tot_out s, resrvd s, paid_map s,
         (pools s)(tier \<mapsto> pl\<lparr>pool_balance := pool_balance pl - p, pool_reserved := pool_reserved pl - p\<rparr>),
         m, tresrv s, sm_set (tpaid s) k (sm_get_or (tpaid s) k 0 + p)))"
  using assms
  by (auto simp: claim_payout_tier_def payout_guard_def ok Let_def accounts_def publish_def tier_offer_key_def
      load_token_def not_le split: if_splits)

subsection \<open>Every operation keeps the accounts balanced\<close>

lemma load_tier_pool_upd:
  "pools s' = (pools s)(tier \<mapsto> pl) \<Longrightarrow>
     load_tier_pool t s' = (if t = tier then pl else load_tier_pool t s)"
  by (simp add: load_tier_pool_def split: prod.split)

lemma load_tier_pool_same: "pools s' = pools s \<Longrightarrow> load_tier_pool t s' = load_tier_pool t s"
  by (simp add: load_tier_pool_def)

lemma flat_step:
  assumes "insurance_ok s" and "accounts s' = (m, n, out, resrvd s, pd, pools s, tstakes s, tresrv s, tpaid s)"
    and "sm_wf m" and "sm_sum (\<lambda>_. True) m = n"
    and "sm_wf pd" and "out = sm_sum (\<lambda>_. True) (resrvd s) - sm_sum (\<lambda>_. True) pd"
    and "\<And>x. 0 \<le> sm_get_or pd x 0 \<and> sm_get_or pd x 0 \<le> load_reserved x s"
  shows "insurance_ok s'"
  using assms by (simp add: accounts_def ok_defs load_paid_def load_reserved_def load_tier_pool_same [of s'])

lemma keep_paid:
  assumes "insurance_ok s"
  shows "sm_wf (paid_map s)" "tot_out s = sm_sum (\<lambda>_. True) (resrvd s) - sm_sum (\<lambda>_. True) (paid_map s)"
    "0 \<le> sm_get_or (paid_map s) x 0 \<and> sm_get_or (paid_map s) x 0 \<le> load_reserved x s"
  using assms by (auto simp: ok_defs load_paid_def)

lemma stake_inv: "stake T e a amt (s, t) = Inr (s', t') \<Longrightarrow> insurance_ok s \<Longrightarrow> insurance_ok s'"
  by (drule stake_accounts, elim conjE, rule flat_step, assumption, assumption)
    (auto simp: keep_paid sm_sum_set, auto simp: ok_defs get_stake_def sm_sum_set)

lemma unstake_inv: "unstake T e a amt (s, t) = Inr (s', t') \<Longrightarrow> insurance_ok s \<Longrightarrow> insurance_ok s'"
  by (drule unstake_accounts, elim conjE, rule flat_step, assumption, assumption)
    (auto simp: keep_paid, auto simp: ok_defs get_stake_def sm_sum_set sm_sum_remove split: if_splits)

lemma outstanding_covers: "insurance_ok s \<Longrightarrow> load_reserved x s - load_paid x s \<le> tot_out s"
  unfolding insurance_ok_def reservations_ok_def load_reserved_def load_paid_def
  by (elim conjE) (simp add: open_reservation_le)

lemma flat_reduction:
  assumes "insurance_ok s" and "reduce_stakes (sm_keys (ins_stakes s)) p (pooltot s) (ins_stakes s) = Inr (m, red)"
    and "p \<noteq> 0" and "p \<le> pooltot s" and "0 \<le> p"
  shows "sm_wf m" "sm_sum (\<lambda>_. True) m = pooltot s - p"
proof -
  from assms(1) have ok: "sm_wf (ins_stakes s)" "sm_sum (\<lambda>_. True) (ins_stakes s) = pooltot s" by (auto simp: ok_defs)
  then have "sm_keys (ins_stakes s) \<noteq> []" using assms(3-5) by (auto simp: sm_sum_def)
  with reduce_stakes_ok [OF assms(2) ok(1)] ok(2) show "sm_wf m" "sm_sum (\<lambda>_. True) m = pooltot s - p" by auto
qed

lemma pay_out_inv: "pay_out T e x b amt r (s, t) = Inr (p, s', t') \<Longrightarrow> insurance_ok s \<Longrightarrow> insurance_ok s'"
proof (cases "p = 0")
  case False
  assume run: "pay_out T e x b amt r (s, t) = Inr (p, s', t')" and inv: "insurance_ok s"
  from pay_out_accounts [OF run] False obtain m red where p: "0 < p" "p \<le> pooltot s"
    and m: "reduce_stakes (sm_keys (ins_stakes s)) p (pooltot s) (ins_stakes s) = Inr (m, red)"
    and acc: "accounts s' = (m, pooltot s - p, tot_out s, resrvd s, paid_map s, pools s, tstakes s, tresrv s, tpaid s)"
    by (auto simp: max_def split: if_splits)
  from flat_reduction [OF inv m False] p show ?thesis
    by (intro flat_step [OF inv acc]) (auto simp: keep_paid [OF inv])
qed (auto dest!: pay_out_accounts)

lemma claim_payout_inv:
  "claim_payout T e x b amt (s, t) = Inr ((p, rem), s', t') \<Longrightarrow> insurance_ok s \<Longrightarrow> insurance_ok s'"
proof (cases "p = 0")
  case False
  assume run: "claim_payout T e x b amt (s, t) = Inr ((p, rem), s', t')" and inv: "insurance_ok s"
  let ?pd = "paid_map (save_paid x (load_paid x s + p) s)"
  have out: "load_reserved x s - load_paid x s \<le> tot_out s"
    using outstanding_covers [OF inv] .
  from claim_payout_accounts [OF run] False out obtain m red where p: "0 < p" "p \<le> pooltot s"
      "p \<le> load_reserved x s - load_paid x s"
    and m: "reduce_stakes (sm_keys (ins_stakes s)) p (pooltot s) (ins_stakes s) = Inr (m, red)"
    and acc: "accounts s' = (m, pooltot s - p, tot_out s - p, resrvd s, ?pd, pools s, tstakes s, tresrv s, tpaid s)"
    by (auto simp: max_def split: if_splits)
  have pd: "?pd = sm_set (paid_map s) x (load_paid x s + p)" using p(1) inv
    by (auto simp: save_paid_def ok_defs) (metis add_nonneg_pos less_irrefl)
  show ?thesis
    by (rule flat_step [OF inv acc [unfolded pd]])
      (use flat_reduction [OF inv m False] p keep_paid [OF inv] in \<open>auto simp: sm_sum_set load_paid_def\<close>)
qed (auto dest!: claim_payout_accounts)

lemma reserve_payout_inv: "reserve_payout e x amt s = Inr (p, s') \<Longrightarrow> insurance_ok s \<Longrightarrow> insurance_ok s'"
proof (cases "p = 0")
  case False
  assume run: "reserve_payout e x amt s = Inr (p, s')" and inv: "insurance_ok s"
  let ?r = "resrvd (save_reserved x (load_reserved x s + p) s)"
  from reserve_payout_accounts [OF run] False have p: "0 < p"
    and acc: "accounts s' = (ins_stakes s, pooltot s, tot_out s + p, ?r, paid_map s, pools s, tstakes s, tresrv s, tpaid s)"
    by (auto simp: max_def split: if_splits)
  have "0 \<le> load_reserved x s" using inv by (auto simp: ok_defs intro: order_trans)
  with p have r: "?r = sm_set (resrvd s) x (load_reserved x s + p)" by (simp add: save_reserved_def)
  have fields: "ins_stakes s' = ins_stakes s" "pooltot s' = pooltot s" "tot_out s' = tot_out s + p"
    "resrvd s' = sm_set (resrvd s) x (load_reserved x s + p)" "paid_map s' = paid_map s" "pools s' = pools s"
    "tstakes s' = tstakes s" "tresrv s' = tresrv s" "tpaid s' = tpaid s"
    using acc by (simp_all add: accounts_def r)
  from inv p show ?thesis
    by (auto simp: ok_defs fields load_tier_pool_same [of s' s] sm_sum_set load_reserved_def load_paid_def
        intro: order_trans)
qed (auto dest!: reserve_payout_accounts)

lemma tier_step:
  assumes "insurance_ok s"
    and "accounts s' = (ins_stakes s, pooltot s, tot_out s, resrvd s, paid_map s, (pools s)(tier \<mapsto> pl), m, rs, pd)"
    and "sm_wf m" and "\<And>t. sm_sum (\<lambda>k. tsk_tier k = t) m =
      (if t = tier then pool_balance pl else sm_sum (\<lambda>k. tsk_tier k = t) (tstakes s))"
    and "sm_wf rs" and "sm_wf pd"
    and "\<And>t. sm_sum (\<lambda>k. tok_tier k = t) rs - sm_sum (\<lambda>k. tok_tier k = t) pd =
      (if t = tier then pool_reserved pl
       else sm_sum (\<lambda>k. tok_tier k = t) (tresrv s) - sm_sum (\<lambda>k. tok_tier k = t) (tpaid s))"
    and "\<And>k. 0 \<le> sm_get_or pd k 0 \<and> sm_get_or pd k 0 \<le> sm_get_or rs k 0"
  shows "insurance_ok s'"
proof -
  have fields: "ins_stakes s' = ins_stakes s" "pooltot s' = pooltot s" "tot_out s' = tot_out s" "resrvd s' = resrvd s"
    "paid_map s' = paid_map s" "tstakes s' = m" "tresrv s' = rs" "tpaid s' = pd" "pools s' = (pools s)(tier \<mapsto> pl)"
    using assms(2) by (simp_all add: accounts_def)
  with assms show ?thesis
    by (simp add: ok_defs load_paid_def load_reserved_def load_tier_pool_upd [OF fields(9)])
qed

lemma tier_keep:
  assumes "insurance_ok s"
  shows "sm_wf (tstakes s)" "sm_wf (tresrv s)" "sm_wf (tpaid s)"
    "sm_sum (\<lambda>k. tsk_tier k = t) (tstakes s) = pool_balance (load_tier_pool t s)"
    "sm_sum (\<lambda>k. tok_tier k = t) (tresrv s) = pool_reserved (load_tier_pool t s) + sm_sum (\<lambda>k. tok_tier k = t) (tpaid s)"
    "0 \<le> sm_get_or (tpaid s) k 0" "sm_get_or (tpaid s) k 0 \<le> sm_get_or (tresrv s) k 0"
  using assms by (auto simp: ok_defs)

lemma stake_tier_inv: "stake_tier T e a tier amt (s, t) = Inr (s', t') \<Longrightarrow> insurance_ok s \<Longrightarrow> insurance_ok s'"
  by (drule stake_tier_accounts, elim conjE, rule tier_step, assumption, assumption)
    (auto simp: tier_keep sm_sum_set get_tier_stake_def tier_key_def)

lemma unstake_tier_inv: "unstake_tier T e a tier amt (s, t) = Inr (s', t') \<Longrightarrow> insurance_ok s \<Longrightarrow> insurance_ok s'"
  by (drule unstake_tier_accounts, elim conjE, rule tier_step, assumption, assumption)
    (auto simp: tier_keep sm_sum_set sm_sum_remove get_tier_stake_def tier_key_def)

lemma tier_reduction:
  assumes "insurance_ok s"
    and "reduce_stakes (keys_of_tier tier (tstakes s)) p tot (tstakes s) = Inr (m, p)"
  shows "sm_wf m" "sm_sum (\<lambda>k. tsk_tier k = t) m =
    (if t = tier then pool_balance (load_tier_pool tier s) - p else sm_sum (\<lambda>k. tsk_tier k = t) (tstakes s))"
  using reduce_stakes_ok [OF assms(2) tier_keep(1) [OF assms(1)]] tier_keep(4) [OF assms(1)]
  by (auto simp: keys_of_tier_def)

lemma pay_out_tier_inv:
  "pay_out_tier T e x tier b amt r (s, t) = Inr (p, s', t') \<Longrightarrow> insurance_ok s \<Longrightarrow> insurance_ok s'"
  by (drule pay_out_tier_accounts, cases "p = 0", simp, elim conjE, simp, elim conjE exE, rule tier_step, assumption, assumption)
    (auto simp: tier_keep tier_reduction)

lemma reserve_payout_tier_inv:
  "reserve_payout_tier e x tier amt s = Inr (p, s') \<Longrightarrow> insurance_ok s \<Longrightarrow> insurance_ok s'"
  by (drule reserve_payout_tier_accounts, cases "p = 0", simp, elim conjE, simp, rule tier_step, assumption, assumption)
    (auto simp: tier_keep sm_sum_set algebra_simps intro: order_trans [OF tier_keep(7)])

lemma claim_payout_tier_inv:
  "claim_payout_tier T e x tier b amt (s, t) = Inr ((p, rem), s', t') \<Longrightarrow> insurance_ok s \<Longrightarrow> insurance_ok s'"
  by (drule claim_payout_tier_accounts, cases "p = 0", simp, elim conjE, simp, elim conjE exE, rule tier_step, assumption, assumption)
    (auto simp: tier_keep tier_reduction sm_sum_set algebra_simps)

subsection \<open>Reachable states\<close>

inductive insurance_step :: "'t sep41 \<Rightarrow> insurance \<times> 't \<Rightarrow> insurance \<times> 't \<Rightarrow> bool" for T where
  is_stake: "stake T e a amt (s, t) = Inr (s', t') \<Longrightarrow> insurance_step T (s, t) (s', t')"
| is_unstake: "unstake T e a amt (s, t) = Inr (s', t') \<Longrightarrow> insurance_step T (s, t) (s', t')"
| is_pay_out: "pay_out T e x b amt r (s, t) = Inr (p, s', t') \<Longrightarrow> insurance_step T (s, t) (s', t')"
| is_reserve: "reserve_payout e x amt s = Inr (p, s') \<Longrightarrow> insurance_step T (s, t) (s', t)"
| is_claim: "claim_payout T e x b amt (s, t) = Inr (pr, s', t') \<Longrightarrow> insurance_step T (s, t) (s', t')"
| is_stake_tier: "stake_tier T e a tier amt (s, t) = Inr (s', t') \<Longrightarrow> insurance_step T (s, t) (s', t')"
| is_unstake_tier: "unstake_tier T e a tier amt (s, t) = Inr (s', t') \<Longrightarrow> insurance_step T (s, t) (s', t')"
| is_pay_out_tier: "pay_out_tier T e x tier b amt r (s, t) = Inr (p, s', t') \<Longrightarrow> insurance_step T (s, t) (s', t')"
| is_reserve_tier: "reserve_payout_tier e x tier amt s = Inr (p, s') \<Longrightarrow> insurance_step T (s, t) (s', t)"
| is_claim_tier: "claim_payout_tier T e x tier b amt (s, t) = Inr (pr, s', t') \<Longrightarrow> insurance_step T (s, t) (s', t')"
| is_rate: "set_yield_rate e sgs rate s = Inr s' \<Longrightarrow> insurance_step T (s, t) (s', t)"
| is_token: "set_staking_token e sgs a s = Inr s' \<Longrightarrow> insurance_step T (s, t) (s', t)"
| is_caller: "set_payout_caller e sgs a s = Inr s' \<Longrightarrow> insurance_step T (s, t) (s', t)"
| is_registry: "insurance_set_registry e sgs a s = Inr s' \<Longrightarrow> insurance_step T (s, t) (s', t)"
| is_gov: "gov_step s s' \<Longrightarrow> insurance_step T (s, t) (s', t)"
| is_tokens: "insurance_step T (s, t) (s, t')"

definition empty_insurance :: insurance where
  "empty_insurance = \<lparr>admcfg = None, paused = False, ver_current = None, ver_previous = None,
     wasm_previous = None, upgrade_pending = None, curtok = Map.empty, default_token = None,
     trn_log = Map.empty, wasm_running = 0, events = [], ins_stakes = [], pooltot = 0, ins_token = None,
     yldrate = 0, stk_ts = Map.empty, yld_acc = Map.empty, tot_out = 0, resrvd = [], paid_map = [],
     paycall = None, ins_registry = None, pools = Map.empty, tstakes = [], tstk_ts = Map.empty,
     tyld_acc = Map.empty, tresrv = [], tpaid = []\<rparr>"

definition insurance_start :: "insurance \<times> 't \<Rightarrow> bool" where
  "insurance_start st \<longleftrightarrow> (\<exists>admin tok. insurance_constructor admin tok empty_insurance = Inr (fst st))"

lemma gov_step_accounts: "gov_step s s' \<Longrightarrow> accounts s' = accounts s"
  by (drule gov_step_more) (cases s; cases s'; simp add: accounts_def)

lemma config_accounts:
  "set_yield_rate e sgs rate s = Inr s' \<Longrightarrow> accounts s' = accounts s"
  "set_staking_token e sgs a s = Inr s' \<Longrightarrow> accounts s' = accounts s"
  "set_payout_caller e sgs a s = Inr s' \<Longrightarrow> accounts s' = accounts s"
  "insurance_set_registry e sgs a s = Inr s' \<Longrightarrow> accounts s' = accounts s"
  by (auto simp: set_yield_rate_def set_staking_token_def set_payout_caller_def insurance_set_registry_def ok
      Let_def accounts_def)

interpretation pool: invariant_system insurance_start "insurance_step T" "\<lambda>st. insurance_ok (fst st)"
  for T :: "'t sep41"
proof
  show "insurance_ok (fst st)" if "insurance_start st" for st :: "insurance \<times> 't"
  proof -
    have "insurance_ok empty_insurance"
      by (auto simp: ok_defs empty_insurance_def load_paid_def load_reserved_def load_tier_pool_def split: prod.splits)
    moreover have "accounts (fst st) = accounts empty_insurance"
      using that by (auto simp: insurance_start_def insurance_constructor_def init_admin_config_def
          initialize_contract_version_def save_admin_config_def ok accounts_def publish_def
          dest!: arg_cong [of _ "fst st" accounts])
    ultimately show ?thesis using insurance_ok_cong by blast
  qed
  show "insurance_ok (fst st')" if "insurance_ok (fst st)" "insurance_step T st st'" for st st' :: "insurance \<times> 't"
    using that(2,1)
  proof (induction rule: insurance_step.induct)
    case (is_claim e x b amt s t pr s' t')
    then show ?case by (cases pr) (auto dest: claim_payout_inv)
  next
    case (is_claim_tier e x tier b amt s t pr s' t')
    then show ?case by (cases pr) (auto dest: claim_payout_tier_inv)
  qed (auto dest: stake_inv unstake_inv pay_out_inv reserve_payout_inv stake_tier_inv unstake_tier_inv
      pay_out_tier_inv reserve_payout_tier_inv config_accounts gov_step_accounts insurance_ok_cong)
qed

subsection \<open>What stakers and lenders are promised\<close>

definition staking_insurance :: insurance where
  "staking_insurance = empty_insurance\<lparr>admcfg := Some \<lparr>signers = [Address 9], threshold = 1\<rparr>,
     ver_current := Some CARGO_PKG_VERSION, events := [Ev_contract_initialized CARGO_PKG_VERSION],
     ins_token := Some (Address 50), paycall := Some (Address 102), ins_registry := Some (Address 100)\<rparr>"

definition staker_ledger :: ledger where
  "staker_ledger = \<lparr>balances = (\<lambda>tok a. 10000000), allowances = (\<lambda>tok a sp. 10000000)\<rparr>"

abbreviation "ienv t \<equiv> demo_env t (Address 103)"

lemma reach_staking: "reach insurance_start (insurance_step ledger_token) (staking_insurance, t)"
proof -
  let ?s1 = "staking_insurance\<lparr>ins_registry := None\<rparr>" and ?s0 = "staking_insurance\<lparr>ins_registry := None, paycall := None\<rparr>"
  note run = assert_admin_def load_admin_config_def assert_threshold_def is_signer_def require_auth_def
    assert_not_paused_def staking_insurance_def empty_insurance_def
  have "insurance_constructor (Address 9) (Address 50) empty_insurance = Inr ?s0"
    by (simp add: insurance_constructor_def init_admin_config_def initialize_contract_version_def
        parse_cargo_version publish_def staking_insurance_def empty_insurance_def)
  then have "reach insurance_start (insurance_step ledger_token) (?s0, t)"
    by (intro reach_init) (auto simp: insurance_start_def)
  moreover have "set_payout_caller (ienv 0) [Address 9] (Address 102) ?s0 = Inr ?s1"
    by (simp add: set_payout_caller_def run)
  moreover have "insurance_set_registry (ienv 0) [Address 9] (Address 100) ?s1 = Inr staking_insurance"
    by (simp add: insurance_set_registry_def run)
  ultimately show ?thesis by (blast intro: reach_step is_caller is_registry)
qed

subsection \<open>Runs of the pool\<close>

definition pool_with :: "(address, int) smap \<Rightarrow> int \<Rightarrow> (address \<rightharpoonup> nat) \<Rightarrow> (address \<rightharpoonup> int) \<Rightarrow> event list \<Rightarrow> insurance" where
  "pool_with m n ts acc evs = staking_insurance\<lparr>ins_stakes := m, pooltot := n, stk_ts := ts, yld_acc := acc,
     events := events staking_insurance @ evs\<rparr>"

lemma pool_with_sel [simp]:
  "ins_stakes (pool_with m n ts acc evs) = m" "pooltot (pool_with m n ts acc evs) = n"
  "stk_ts (pool_with m n ts acc evs) = ts" "yld_acc (pool_with m n ts acc evs) = acc"
  "\<not> paused (pool_with m n ts acc evs)" "yldrate (pool_with m n ts acc evs) = 0"
  "ins_token (pool_with m n ts acc evs) = Some (Address 50)" "paycall (pool_with m n ts acc evs) = Some (Address 102)"
  "ins_registry (pool_with m n ts acc evs) = Some (Address 100)"
  by (simp_all add: pool_with_def staking_insurance_def empty_insurance_def)

lemma pool_with_upd [simp]:
  "pool_with m n ts acc evs\<lparr>ins_stakes := m'\<rparr> = pool_with m' n ts acc evs"
  "pool_with m n ts acc evs\<lparr>pooltot := n'\<rparr> = pool_with m n' ts acc evs"
  "pool_with m n ts acc evs\<lparr>stk_ts := ts'\<rparr> = pool_with m n ts' acc evs"
  "pool_with m n ts acc evs\<lparr>yld_acc := acc'\<rparr> = pool_with m n ts acc' evs"
  "publish ev (pool_with m n ts acc evs) = pool_with m n ts acc (evs @ [ev])"
  by (simp_all add: pool_with_def publish_def)

lemma staking_pool_with: "staking_insurance = pool_with [] 0 Map.empty Map.empty []"
  by (simp add: pool_with_def staking_insurance_def empty_insurance_def)

lemmas pool_run = assert_not_paused_def require_auth_def add_i128_def sub_i128_def mul_i128_def div_i128_def
  chk_i128_def in_i128_def load_token_def Let_def ledger_transfer_from_def ledger_transfer_def staker_ledger_def
  bank_accrued_yield_def compute_yield_def write_position_def pay_yield_def
  sm_remove_def payout_guard_def assert_defaulted_def reduce_stakes_def reduce_stake_def sm_keys_def

definition defaulted_registry :: registry where
  "defaulted_registry = empty_registry\<lparr>invoices := [(Symbol ''x'', (demo_invoice ''x'' 7)\<lparr>inv_status := InvDefaulted\<rparr>)]\<rparr>"

lemma registry_callee [simp]: "callee (ienv k) (Address 100) RegistryC = Inr ((ienv k)\<lparr>current_contract := Address 100, invoker := Some (Address 103)\<rparr>)"
  by (simp add: callee_def demo_env_def)

text \<open>
  The states a run passes through: the stakes \<open>m\<close>, the total \<open>n\<close>, no yield, and every account holding
  and allowing at least \<open>k\<close> of every token.
\<close>

definition rich :: "int \<Rightarrow> ledger \<Rightarrow> bool" where
  "rich k t \<longleftrightarrow> (\<forall>tok a. k \<le> balances t tok a \<and> (\<forall>sp. k \<le> allowances t tok a sp))"

definition pool_state :: "(address, int) smap \<Rightarrow> int \<Rightarrow> int \<Rightarrow> insurance \<times> ledger \<Rightarrow> bool" where
  "pool_state m n k st \<longleftrightarrow> (\<exists>ts acc evs t. st = (pool_with m n ts acc evs, t) \<and> (\<forall>x. get_or acc x 0 = 0) \<and> rich k t)"

lemma rich_transfer:
  assumes "rich k t" and "0 \<le> amt" "amt \<le> k"
  shows "\<exists>t'. ledger_transfer e tok a b amt t = Inr t' \<and> rich (k - amt) t'"
    and "\<exists>t'. ledger_transfer_from e tok sp a b amt t = Inr t' \<and> rich (k - amt) t'"
proof -
  have k: "k \<le> balances t tok' a'" "k \<le> allowances t tok' a' sp'" for tok' a' sp'
    using assms(1) by (auto simp: rich_def)
  have low: "k - amt \<le> balances t tok' a'" "k - amt \<le> allowances t tok' a' sp'" "amt \<le> balances t tok' a'"
    "amt \<le> allowances t tok' a' sp'" "k - amt \<le> balances t tok' a' - amt" "k - amt \<le> allowances t tok' a' sp' - amt"
    "k - amt \<le> balances t tok' a' + amt" for tok' a' sp'
    using k [of tok' a'] k(2) [of tok' a' sp'] assms(2,3) by linarith+
  show "\<exists>t'. ledger_transfer e tok a b amt t = Inr t' \<and> rich (k - amt) t'"
    "\<exists>t'. ledger_transfer_from e tok sp a b amt t = Inr t' \<and> rich (k - amt) t'"
    using assms(2) by (auto simp: ledger_transfer_def ledger_transfer_from_def rich_def moved_def Let_def low)
qed

lemma run_stake:
  assumes "pool_state m n k st" and "sm_get_or m a 0 = 0" and "1000000 \<le> amt" "amt \<le> k"
    and "0 \<le> n" "n \<le> 100000000" "amt \<le> 100000000"
  shows "\<exists>st'. stake ledger_token (ienv 5) a amt st = Inr st' \<and> pool_state (sm_set m a amt) (n + amt) (k - amt) st'"
proof -
  from assms(1) obtain ts acc evs t where st: "st = (pool_with m n ts acc evs, t)" "\<forall>x. get_or acc x 0 = 0" "rich k t"
    by (auto simp: pool_state_def)
  from rich_transfer(2) [OF st(3), of amt] assms(3,4) obtain t' where
    "ledger_transfer_from (ienv 5) (Address 50) (Address 103) a (Address 103) amt t = Inr t'" "rich (k - amt) t'"
    by fastforce
  with st assms(2-) show ?thesis
    unfolding pool_state_def
    by (simp add: stake_def assert_not_paused_def require_auth_def add_i128_def chk_i128_def in_i128_def
        load_token_def Let_def bank_accrued_yield_def) blast
qed

lemma run_unstake:
  assumes "pool_state m n k st" and "0 < amt" "amt \<le> k" and "amt \<le> sm_get_or m a 0" "sm_get_or m a 0 \<le> 10000000"
    and "-100 \<le> n" "n \<le> 100000000"
  shows "\<exists>st'. unstake ledger_token (ienv 5) a amt st = Inr st' \<and>
    pool_state (if sm_get_or m a 0 = amt then sm_remove m a else sm_set m a (sm_get_or m a 0 - amt)) (n - amt) (k - amt) st'"
proof -
  from assms(1) obtain ts acc evs t where st: "st = (pool_with m n ts acc evs, t)" "\<forall>x. get_or acc x 0 = 0" "rich k t"
    by (auto simp: pool_state_def)
  from rich_transfer(1) [OF st(3), of amt] assms(2,3) obtain t' where
    t': "ledger_transfer (ienv 5) (Address 50) (Address 103) a amt t = Inr t'" "rich (k - amt) t'"
    by fastforce
  have acc: "\<forall>x. get_or (acc(a := None)) x 0 = 0" "\<forall>x. get_or (acc(a \<mapsto> 0)) x 0 = 0"
    using st(2) by (simp_all add: get_or_def)
  show ?thesis
  proof (cases "sm_get_or m a 0 = amt")
    case True
    with st t' assms(2-) acc(1) show ?thesis unfolding pool_state_def by (simp add: unstake_def pool_run) blast
  next
    case False
    with st t' assms(2-) acc(2) show ?thesis unfolding pool_state_def by (simp add: unstake_def pool_run) blast
  qed
qed

lemma run_pay_out:
  assumes "pool_state m n k st" and "0 < amt" "amt \<le> k" "amt \<le> n" "n \<le> 1000000"
    and "reduce_stakes (sm_keys m) amt n m = Inr (m', red)"
  shows "\<exists>st'. pay_out ledger_token (ienv 5) (Symbol ''x'') (Address 8) amt defaulted_registry st = Inr (amt, st') \<and>
    pool_state m' (n - amt) (k - amt) st'"
proof -
  from assms(1) obtain ts acc evs t where st: "st = (pool_with m n ts acc evs, t)" "\<forall>x. get_or acc x 0 = 0" "rich k t"
    by (auto simp: pool_state_def)
  from rich_transfer(1) [OF st(3), of amt] assms(2,3) obtain t' where
    t': "ledger_transfer (ienv 5) (Address 50) (Address 103) (Address 8) amt t = Inr t'" "rich (k - amt) t'"
    by fastforce
  with st assms(2-) show ?thesis
    unfolding pool_state_def
    by (simp add: pay_out_def payout_guard_def assert_defaulted_def assert_not_paused_def
        require_auth_def sub_i128_def chk_i128_def in_i128_def load_token_def Let_def
        defaulted_registry_def empty_registry_def get_invoice_def) blast
qed

text \<open>Three stakers whose stakes are the remainders 10, 10 and 1 of partial withdrawals.\<close>

abbreviation "three_stakers \<equiv> [(Address 2, 10), (Address 3, 10), (Address 4, 1 :: int)]"

lemma run_three:
  "\<exists>w1 w2 w3 w4 w5 w6.
     stake ledger_token (ienv 5) (Address 2) 1000010 (staking_insurance, staker_ledger) = Inr w1 \<and>
     stake ledger_token (ienv 5) (Address 3) 1000010 w1 = Inr w2 \<and>
     stake ledger_token (ienv 5) (Address 4) 1000001 w2 = Inr w3 \<and>
     unstake ledger_token (ienv 5) (Address 2) 1000000 w3 = Inr w4 \<and>
     unstake ledger_token (ienv 5) (Address 3) 1000000 w4 = Inr w5 \<and>
     unstake ledger_token (ienv 5) (Address 4) 1000000 w5 = Inr w6 \<and>
     pool_state three_stakers 21 3999979 w6"
proof -
  have "pool_state [] 0 10000000 (staking_insurance, staker_ledger)"
    unfolding pool_state_def staking_pool_with
    by (intro exI [of _ Map.empty] exI [of _ "[]"] exI [of _ staker_ledger]) (simp add: get_or_def rich_def staker_ledger_def)
  from run_stake [OF this, of "Address 2" 1000010] obtain w1 where
    w1: "stake ledger_token (ienv 5) (Address 2) 1000010 (staking_insurance, staker_ledger) = Inr w1"
    "pool_state [(Address 2, 1000010)] 1000010 8999990 w1" by (auto simp: sm_get_or_def)
  from run_stake [OF w1(2), of "Address 3" 1000010] obtain w2 where
    w2: "stake ledger_token (ienv 5) (Address 3) 1000010 w1 = Inr w2"
    "pool_state [(Address 2, 1000010), (Address 3, 1000010)] 2000020 7999980 w2" by (auto simp: sm_get_or_def)
  from run_stake [OF w2(2), of "Address 4" 1000001] obtain w3 where
    w3: "stake ledger_token (ienv 5) (Address 4) 1000001 w2 = Inr w3"
    "pool_state [(Address 2, 1000010), (Address 3, 1000010), (Address 4, 1000001)] 3000021 6999979 w3"
    by (auto simp: sm_get_or_def)
  from run_unstake [OF w3(2), of 1000000 "Address 2"] obtain w4 where
    w4: "unstake ledger_token (ienv 5) (Address 2) 1000000 w3 = Inr w4"
    "pool_state [(Address 2, 10), (Address 3, 1000010), (Address 4, 1000001)] 2000021 5999979 w4"
    by (auto simp: sm_get_or_def)
  from run_unstake [OF w4(2), of 1000000 "Address 3"] obtain w5 where
    w5: "unstake ledger_token (ienv 5) (Address 3) 1000000 w4 = Inr w5"
    "pool_state [(Address 2, 10), (Address 3, 10), (Address 4, 1000001)] 1000021 4999979 w5"
    by (auto simp: sm_get_or_def)
  from run_unstake [OF w5(2), of 1000000 "Address 4"] obtain w6 where
    w6: "unstake ledger_token (ienv 5) (Address 4) 1000000 w5 = Inr w6" "pool_state three_stakers 21 3999979 w6"
    by (auto simp: sm_get_or_def)
  with w1(1) w2(1) w3(1) w4(1) w5(1) show ?thesis by blast
qed

lemma insurance_step_calls:
  "stake T e a amt w = Inr w' \<Longrightarrow> insurance_step T w w'"
  "unstake T e a amt w = Inr w' \<Longrightarrow> insurance_step T w w'"
  "pay_out T e x b amt r w = Inr (p, w') \<Longrightarrow> insurance_step T w w'"
  by (cases w; cases w'; simp add: is_stake is_unstake is_pay_out)+

lemma three_stakers_reached:
  "\<exists>ts acc evs. (\<forall>x. get_or acc x 0 = 0) \<and>
     reach insurance_start (insurance_step ledger_token) (pool_with three_stakers 21 ts acc evs, staker_ledger)"
proof -
  from run_three obtain w1 w2 w3 w4 w5 w6 where
    "stake ledger_token (ienv 5) (Address 2) 1000010 (staking_insurance, staker_ledger) = Inr w1"
    "stake ledger_token (ienv 5) (Address 3) 1000010 w1 = Inr w2"
    "stake ledger_token (ienv 5) (Address 4) 1000001 w2 = Inr w3"
    "unstake ledger_token (ienv 5) (Address 2) 1000000 w3 = Inr w4"
    "unstake ledger_token (ienv 5) (Address 3) 1000000 w4 = Inr w5"
    "unstake ledger_token (ienv 5) (Address 4) 1000000 w5 = Inr w6"
    and w6: "pool_state three_stakers 21 3999979 w6" by blast
  then have "reach insurance_start (insurance_step ledger_token) w6"
    using reach_staking by (meson reach_step insurance_step_calls)
  with w6 show ?thesis unfolding pool_state_def by (blast intro: reach_step is_tokens)
qed

lemma reduce_three:
  "reduce_stakes (sm_keys three_stakers) 20 21 three_stakers =
     Inr ([(Address 2, 1), (Address 3, 1), (Address 4, -1)], 20)"
  by (simp add: reduce_stakes_def reduce_stake_def sm_keys_def sub_i128_def mul_i128_def div_i128_def add_i128_def
      chk_i128_def in_i128_def sm_get_or_def Let_def)

text \<open>
  C7. The pool is backed: in every reachable state the recorded pool total is the sum of all stakes, the
  balance of every tier is the sum of that tier's stakes, the outstanding total is what offers
  have reserved minus what they were paid, no offer was paid more than it reserved, and no tier's
  reserve counter differs from its reservations minus its payments.
\<close>

theorem pool_backs_stakes:
  assumes "reach insurance_start (insurance_step T) (s, t)"
  shows "get_pool_total s = (\<Sum>a\<leftarrow>sm_keys (load_stakes s). get_stake a s) \<and>
    (\<forall>tier. pool_balance (get_pool tier s) =
       (\<Sum>k\<leftarrow>keys_of_tier tier (load_tier_stakes s). get_tier_stake (tsk_staker k) tier s)) \<and>
    load_total_outstanding s =
      (\<Sum>x\<leftarrow>sm_keys (resrvd s). get_reserved x s) - (\<Sum>x\<leftarrow>sm_keys (paid_map s). get_paid x s) \<and>
    (\<forall>x. 0 \<le> get_paid x s \<and> get_paid x s \<le> get_reserved x s) \<and>
    (\<forall>tier. pool_reserved (get_pool tier s) =
       sm_sum (\<lambda>k. tok_tier k = tier) (tresrv s) - sm_sum (\<lambda>k. tok_tier k = tier) (tpaid s))"
proof -
  have inv: "insurance_ok s" using pool.reach_inv [OF assms] by simp
  have "(\<Sum>k\<leftarrow>keys_of_tier tier (load_tier_stakes s). get_tier_stake (tsk_staker k) tier s) =
      sm_sum (\<lambda>k. tsk_tier k = tier) (tstakes s)" for tier
    unfolding sm_sum_eq keys_of_tier_def load_tier_stakes_def
    by (rule arg_cong [of _ _ sum_list], rule map_cong) (auto simp: get_tier_stake_def tier_key_def)
  with inv show ?thesis
    by (simp add: ok_defs sm_sum_eq get_pool_total_def get_stake_def get_pool_def get_reserved_def get_paid_def
        load_reserved_def load_paid_def)
qed

lemma pool_backs_stakes_witness:
  "\<exists>ts acc evs. get_pool_total (pool_with three_stakers 21 ts acc evs) =
     (\<Sum>a\<leftarrow>[Address 2, Address 3, Address 4]. get_stake a (pool_with three_stakers 21 ts acc evs))"
proof -
  obtain ts acc evs where
    "reach insurance_start (insurance_step ledger_token) (pool_with three_stakers 21 ts acc evs, staker_ledger)"
    using three_stakers_reached by blast
  from pool_backs_stakes [OF this]
  have "get_pool_total (pool_with three_stakers 21 ts acc evs) =
     (\<Sum>a\<leftarrow>[Address 2, Address 3, Address 4]. get_stake a (pool_with three_stakers 21 ts acc evs))"
    by (simp add: sm_keys_def)
  then show ?thesis by blast
qed

text \<open>
  C13. Payouts are capped and accounted: a successful \<open>pay_out\<close> was authorized by the configured payout
  caller for a defaulted invoice; it pays the smaller of the request and the pool total (nothing
  from an empty pool), the pool total drops by exactly that amount, the beneficiary receives it
  from the contract in the staking token, and neither the reservation or the payments of any offer
  nor any tier or other token balance changes.
\<close>

theorem payout_capped:
  assumes "sep41_laws T" and "reach insurance_start (insurance_step T) (s, t)"
    and "pay_out T e x b amt r (s, t) = Inr (p, s', t')"
  shows "(\<exists>i. get_invoice x r = Inr i \<and> inv_status i = InvDefaulted) \<and>
    (\<exists>c. get_payout_caller s = Some c \<and> authorizes e c) \<and>
    p = max 0 (min amt (get_pool_total s)) \<and> get_pool_total s' = get_pool_total s - p \<and>
    (\<Sum>a\<leftarrow>sm_keys (load_stakes s'). get_stake a s') = (\<Sum>a\<leftarrow>sm_keys (load_stakes s). get_stake a s) - p \<and>
    load_total_outstanding s' = load_total_outstanding s \<and> (\<forall>tier. get_pool tier s' = get_pool tier s) \<and>
    (\<forall>y. get_reserved y s' = get_reserved y s \<and> get_paid y s' = get_paid y s) \<and>
    (\<forall>tok a. tk_balance T tok a t' =
       (if get_staking_token s = Inr tok
        then moved (\<lambda>a. tk_balance T tok a t) (current_contract e) b p a else tk_balance T tok a t))"
proof -
  note run = pay_out_accounts [OF assms(3)]
  have inv: "insurance_ok s" using pool.reach_inv [OF assms(2)] by simp
  have sums: "(\<Sum>a\<leftarrow>sm_keys (ins_stakes u). get_stake a u) = pooltot u" if "insurance_ok u" for u
    using that by (simp add: ok_defs sm_sum_eq get_stake_def)
  have inv': "insurance_ok s'" using pay_out_inv [OF assms(3) inv] .
  show ?thesis
  proof (cases "p = 0")
    case True
    with run show ?thesis
      by (auto simp: get_payout_caller_def get_pool_total_def moved_def sums [OF inv] sums [OF inv'] Let_def)
  next
    case False
    with run obtain m tok where tok: "ins_token s = Some tok" "tk_transfer T e tok (current_contract e) b p t = Inr t'"
      and acc: "accounts s' = (m, pooltot s - p, tot_out s, resrvd s, paid_map s, pools s, tstakes s, tresrv s, tpaid s)"
      by auto
    from run acc tok(1) sep41_transfer(3) [OF assms(1) tok(2)] show ?thesis
      by (auto simp: get_payout_caller_def get_pool_total_def sums [OF inv] sums [OF inv'] accounts_def
          get_pool_def load_tier_pool_def get_staking_token_def load_token_def get_reserved_def load_reserved_def
          get_paid_def load_paid_def split: prod.splits)
  qed
qed

lemma payout_capped_witness:
  "\<exists>s s' t'. pay_out ledger_token (ienv 5) (Symbol ''x'') (Address 8) 100 defaulted_registry (s, staker_ledger) =
      Inr (21, s', t') \<and> get_pool_total s' = 0"
proof -
  obtain ts acc evs where reach:
    "reach insurance_start (insurance_step ledger_token) (pool_with three_stakers 21 ts acc evs, staker_ledger)"
    using three_stakers_reached by blast
  let ?s = "pool_with three_stakers 21 ts acc evs"
  have "\<exists>s' t'. pay_out ledger_token (ienv 5) (Symbol ''x'') (Address 8) 100 defaulted_registry (?s, staker_ledger) =
      Inr (21, s', t')"
    by (simp add: pay_out_def pool_run defaulted_registry_def empty_registry_def get_invoice_def sm_get_or_def)
  then obtain s' t' where run: "pay_out ledger_token (ienv 5) (Symbol ''x'') (Address 8) 100 defaulted_registry
      (?s, staker_ledger) = Inr (21, s', t')" by blast
  with payout_capped [OF sep41_laws_ledger reach this] show ?thesis by (auto simp: get_pool_total_def)
qed

lemma pool_state_reads:
  "pool_state m n k w \<Longrightarrow> get_stake a (fst w) = sm_get_or m a 0 \<and> get_pool_total (fst w) = n"
  by (auto simp: pool_state_def get_stake_def get_pool_total_def)

text \<open>
  C38. The pro-rata loop can push a stake below zero: the last staker in map order absorbs the rounding
  of all others, also when that exceeds its stake. The run of calls: on a fresh pool three accounts
  stake 1000010, 1000010 and 1000001 (each above the minimum stake) and each withdraws 1000000,
  which leaves stakes of 10, 10 and 1 and a pool total of 21; a payout of 20 then succeeds and
  leaves stakes of 1, 1 and -1 and a total of 1; the first two stakers withdraw their 1 each, more than
  the total between them, and the pool total becomes -1.
\<close>

theorem rounding_overdraws_last_staker:
  "reach insurance_start (insurance_step ledger_token) (staking_insurance, staker_ledger) \<and>
   (\<exists>w1 w2 w3 w4 w5 w6 w7 w8 w9.
     stake ledger_token (ienv 5) (Address 2) 1000010 (staking_insurance, staker_ledger) = Inr w1 \<and>
     stake ledger_token (ienv 5) (Address 3) 1000010 w1 = Inr w2 \<and>
     stake ledger_token (ienv 5) (Address 4) 1000001 w2 = Inr w3 \<and>
     unstake ledger_token (ienv 5) (Address 2) 1000000 w3 = Inr w4 \<and>
     unstake ledger_token (ienv 5) (Address 3) 1000000 w4 = Inr w5 \<and>
     unstake ledger_token (ienv 5) (Address 4) 1000000 w5 = Inr w6 \<and>
     get_stake (Address 2) (fst w6) = 10 \<and> get_stake (Address 3) (fst w6) = 10 \<and> get_stake (Address 4) (fst w6) = 1 \<and>
     get_pool_total (fst w6) = 21 \<and>
     pay_out ledger_token (ienv 5) (Symbol ''x'') (Address 8) 20 defaulted_registry w6 = Inr (20, w7) \<and>
     get_stake (Address 2) (fst w7) = 1 \<and> get_stake (Address 3) (fst w7) = 1 \<and> get_stake (Address 4) (fst w7) = -1 \<and>
     get_pool_total (fst w7) = 1 \<and>
     unstake ledger_token (ienv 5) (Address 2) 1 w7 = Inr w8 \<and>
     unstake ledger_token (ienv 5) (Address 3) 1 w8 = Inr w9 \<and>
     get_stake (Address 4) (fst w9) = -1 \<and> get_pool_total (fst w9) = -1)"
proof -
  from run_three obtain w1 w2 w3 w4 w5 w6 where
    run: "stake ledger_token (ienv 5) (Address 2) 1000010 (staking_insurance, staker_ledger) = Inr w1"
    "stake ledger_token (ienv 5) (Address 3) 1000010 w1 = Inr w2"
    "stake ledger_token (ienv 5) (Address 4) 1000001 w2 = Inr w3"
    "unstake ledger_token (ienv 5) (Address 2) 1000000 w3 = Inr w4"
    "unstake ledger_token (ienv 5) (Address 3) 1000000 w4 = Inr w5"
    "unstake ledger_token (ienv 5) (Address 4) 1000000 w5 = Inr w6"
    and w6: "pool_state three_stakers 21 3999979 w6" by blast
  from run_pay_out [OF w6 _ _ _ _ reduce_three] obtain w7 where
    w7: "pay_out ledger_token (ienv 5) (Symbol ''x'') (Address 8) 20 defaulted_registry w6 = Inr (20, w7)"
    "pool_state [(Address 2, 1), (Address 3, 1), (Address 4, -1)] 1 3999959 w7" by auto
  from run_unstake [OF w7(2), of 1 "Address 2"] obtain w8 where
    w8: "unstake ledger_token (ienv 5) (Address 2) 1 w7 = Inr w8"
    "pool_state [(Address 3, 1), (Address 4, -1)] 0 3999958 w8" by (auto simp: sm_get_or_def sm_remove_def)
  from run_unstake [OF w8(2), of 1 "Address 3"] obtain w9 where
    w9: "unstake ledger_token (ienv 5) (Address 3) 1 w8 = Inr w9"
    "pool_state [(Address 4, -1)] (-1) 3999957 w9" by (auto simp: sm_get_or_def sm_remove_def)
  have reads: "get_stake (Address 2) (fst w6) = 10" "get_stake (Address 3) (fst w6) = 10" "get_stake (Address 4) (fst w6) = 1"
    "get_pool_total (fst w6) = 21" "get_stake (Address 2) (fst w7) = 1" "get_stake (Address 3) (fst w7) = 1"
    "get_stake (Address 4) (fst w7) = -1" "get_pool_total (fst w7) = 1" "get_stake (Address 4) (fst w9) = -1"
    "get_pool_total (fst w9) = -1"
    using pool_state_reads [OF w6] pool_state_reads [OF w7(2)] pool_state_reads [OF w9(2)] by (simp_all add: sm_get_or_def)
  show ?thesis
    by (intro conjI exI) (rule reach_staking run reads w7(1) w8(1) w9(1))+
qed

text \<open>
  C25. A claim stays within its reservation: in every reachable state a successful \<open>claim_payout\<close> pays at
  most the request and at most what the offer has reserved and not yet been paid, reports what is
  left of the reservation, leaves every other offer's reservation and payments alone, and leaves
  the unreserved capacity of the pool (pool total minus outstanding) unchanged; when it pays, all
  open reservations of other offers are still covered by the pool.
\<close>

theorem claim_within_reservation:
  assumes "reach insurance_start (insurance_step T) (s, t)"
    and "claim_payout T e x b amt (s, t) = Inr ((p, rem), s', t')"
  shows "0 \<le> p \<and> p \<le> amt \<and> p \<le> get_reserved x s - get_paid x s \<and> get_paid x s' = get_paid x s + p \<and>
    rem = get_reserved x s' - get_paid x s' \<and> (\<forall>y. get_reserved y s' = get_reserved y s) \<and>
    (\<forall>y. y \<noteq> x \<longrightarrow> get_paid y s' = get_paid y s) \<and>
    get_pool_total s' - load_total_outstanding s' = get_pool_total s - load_total_outstanding s \<and>
    (0 < p \<longrightarrow> load_total_outstanding s' - rem \<le> get_pool_total s')"
proof -
  have inv: "insurance_ok s" using pool.reach_inv [OF assms(1)] by simp
  then have nonneg: "0 \<le> load_paid x s" by (simp add: ok_defs)
  note run = claim_payout_accounts [OF assms(2)]
  show ?thesis
  proof (cases "p = 0")
    case True
    with run nonneg show ?thesis by (auto simp: get_reserved_def get_paid_def)
  next
    case False
    let ?open = "load_reserved x s - load_paid x s"
    from run have p: "p = max 0 (min (min amt ?open) (pooltot s - (tot_out s - ?open)))" "rem = ?open - p" by blast+
    then have bounds: "0 < p" "p \<le> amt" "p \<le> ?open" "p \<le> pooltot s - (tot_out s - ?open)"
      using False by linarith+
    from run False obtain m where "accounts s' = (m, pooltot s - p, tot_out s - p, resrvd s,
        paid_map (save_paid x (load_paid x s + p) s), pools s, tstakes s, tresrv s, tpaid s)"
      by auto
    then have fields: "pooltot s' = pooltot s - p" "tot_out s' = tot_out s - p" "resrvd s' = resrvd s"
      "paid_map s' = sm_set (paid_map s) x (load_paid x s + p)"
      using bounds(1) nonneg by (simp_all add: accounts_def save_paid_def)
    show ?thesis
      using bounds p(2)
      by (simp add: get_reserved_def get_paid_def load_reserved_def load_paid_def get_pool_total_def fields)
  qed
qed

lemma claim_within_reservation_witness:
  "\<exists>s s' t'. claim_payout ledger_token (ienv 6) (Symbol ''o'') (Address 8) 3 (s, staker_ledger) = Inr ((3, 2), s', t') \<and>
     get_reserved (Symbol ''o'') s' - get_paid (Symbol ''o'') s' = 2"
proof -
  obtain ts acc evs where reach:
    "reach insurance_start (insurance_step ledger_token) (pool_with three_stakers 21 ts acc evs, staker_ledger)"
    using three_stakers_reached by blast
  let ?s = "pool_with three_stakers 21 ts acc evs"
  have "\<exists>s1 s2 t2. reserve_payout (ienv 5) (Symbol ''o'') 5 ?s = Inr (5, s1) \<and>
      claim_payout ledger_token (ienv 6) (Symbol ''o'') (Address 8) 3 (s1, staker_ledger) = Inr ((3, 2), s2, t2)"
    by (simp add: reserve_payout_def claim_payout_def pool_run sm_get_or_def save_reserved_def save_paid_def
        load_reserved_def load_paid_def pool_with_def staking_insurance_def empty_insurance_def publish_def)
  then obtain s1 s2 t2 where run: "reserve_payout (ienv 5) (Symbol ''o'') 5 ?s = Inr (5, s1)"
    "claim_payout ledger_token (ienv 6) (Symbol ''o'') (Address 8) 3 (s1, staker_ledger) = Inr ((3, 2), s2, t2)" by blast
  from claim_within_reservation [OF reach_step [OF reach is_reserve [OF run(1)]] run(2)] run(2) show ?thesis by auto
qed

subsection \<open>Rate changes\<close>

lemma bank_accrued_yield_ok:
  assumes "bank_accrued_yield k stakes rate now (ts, acc) = Inr (earned, ts', acc')"
  shows "x \<noteq> k \<Longrightarrow> ts' x = ts x" "x \<noteq> k \<Longrightarrow> acc' x = acc x"
    "0 < sm_get_or stakes k 0 \<Longrightarrow> ts' k = Some now \<and>
      compute_yield (sm_get_or stakes k 0) rate (now - get_or ts k now) = Inr earned \<and> get_or acc' k 0 = get_or acc k 0 + earned"
proof -
  have nonneg: "0 \<le> v" if "compute_yield n r d = Inr v" "0 < n" for n r d v
    using that by (auto simp: compute_yield_def ok pos_imp_zdiv_nonneg_iff split: if_splits)
  show "x \<noteq> k \<Longrightarrow> ts' x = ts x" "x \<noteq> k \<Longrightarrow> acc' x = acc x"
    using assms by (auto simp: bank_accrued_yield_def ok Let_def split: if_splits)
  assume "0 < sm_get_or stakes k 0"
  with assms show "ts' k = Some now \<and>
      compute_yield (sm_get_or stakes k 0) rate (now - get_or ts k now) = Inr earned \<and> get_or acc' k 0 = get_or acc k 0 + earned"
    by (auto simp: bank_accrued_yield_def ok Let_def get_or_def dest!: nonneg split: if_splits)
qed

lemma bank_loop_ok:
  assumes "foldE (\<lambda>k st. bindE (bank_accrued_yield k stakes rate now st) (\<lambda>(_, st). Inr st)) ks (ts, acc) = Inr (ts', acc')"
    and "distinct ks"
  shows "(x \<notin> set ks \<longrightarrow> ts' x = ts x \<and> acc' x = acc x) \<and>
    (x \<in> set ks \<and> 0 < sm_get_or stakes x 0 \<longrightarrow> ts' x = Some now \<and>
      (\<exists>earned. compute_yield (sm_get_or stakes x 0) rate (now - get_or ts x now) = Inr earned \<and>
         get_or acc' x 0 = get_or acc x 0 + earned))"
  using assms
proof (induction ks arbitrary: ts acc)
  case Nil
  then show ?case by simp
next
  case (Cons k ks)
  then obtain earned ts1 acc1 where s1: "bank_accrued_yield k stakes rate now (ts, acc) = Inr (earned, ts1, acc1)"
    "foldE (\<lambda>k st. bindE (bank_accrued_yield k stakes rate now st) (\<lambda>(_, st). Inr st)) ks (ts1, acc1) = Inr (ts', acc')"
    by (auto simp: ok)
  note step = bank_accrued_yield_ok [OF s1(1)]
  have IH: "(x \<notin> set ks \<longrightarrow> ts' x = ts1 x \<and> acc' x = acc1 x) \<and>
    (x \<in> set ks \<and> 0 < sm_get_or stakes x 0 \<longrightarrow> ts' x = Some now \<and>
      (\<exists>earned. compute_yield (sm_get_or stakes x 0) rate (now - get_or ts1 x now) = Inr earned \<and>
         get_or acc' x 0 = get_or acc1 x 0 + earned))"
    by (rule Cons.IH [OF s1(2)]) (use Cons.prems(2) in simp)
  show ?case
  proof (cases "x = k")
    case True
    with IH step(3) Cons.prems(2) show ?thesis by (auto simp: get_or_def)
  next
    case False
    with step(1,2) have "ts1 x = ts x" "acc1 x = acc x" by auto
    with IH False show ?thesis by (auto simp: get_or_def)
  qed
qed

text \<open>
  Rate changes are strictly prospective: when the admin changes the yield rate in a reachable state,
  a staker with a positive stake keeps the yield accrued so far at the old rate, and at any later
  time its accrued yield is that amount plus what the new rate earns on its stake since the change.
\<close>

theorem rate_change_prospective:
  assumes "reach insurance_start (insurance_step T) (s, t)"
    and "set_yield_rate e sgs rate s = Inr s'" and "0 < get_stake a s"
    and "accrued_yield e a s = Inr y"
  shows "accrued_yield e' a s' = bindE (compute_yield (get_stake a s) rate (ledger_timestamp e' - ledger_timestamp e))
      (\<lambda>z. add_i128 y z) \<and> get_stake a s' = get_stake a s \<and> get_yield_rate s' = rate"
proof -
  have wf: "distinct (sm_keys (ins_stakes s))"
    using pool.reach_inv [OF assms(1)] by (auto simp: ok_defs dest: sm_wf_sorted simp: strict_sorted_iff)
  from assms(2) obtain ts acc where
    loop: "foldE (\<lambda>k st. bindE (bank_accrued_yield k (ins_stakes s) (yldrate s) (ledger_timestamp e) st) (\<lambda>(_, st). Inr st))
      (sm_keys (ins_stakes s)) (stk_ts s, yld_acc s) = Inr (ts, acc)"
    and s': "s' = s\<lparr>stk_ts := ts, yld_acc := acc, yldrate := rate\<rparr>"
    by (auto simp: set_yield_rate_def ok Let_def)
  have "a \<in> set (sm_keys (ins_stakes s))"
    using assms(3) by (auto simp: get_stake_def sm_get_or_def set_sm_keys split: option.splits)
  with bank_loop_ok [OF loop wf, of a] assms(3) obtain earned where
    bank: "ts a = Some (ledger_timestamp e)" "get_or acc a 0 = get_or (yld_acc s) a 0 + earned"
    "compute_yield (get_stake a s) (yldrate s) (ledger_timestamp e - get_or (stk_ts s) a (ledger_timestamp e)) = Inr earned"
    by (auto simp: get_stake_def)
  have "y = get_or (yld_acc s) a 0 + earned"
    using assms(3,4) bank(3) by (auto simp: accrued_yield_def get_stake_def ok Let_def)
  with bank(1,2) assms(3) show ?thesis
    by (simp add: accrued_yield_def s' get_stake_def Let_def get_yield_rate_def) (simp add: get_or_def)
qed

lemma rate_change_prospective_witness:
  "\<exists>s s'. set_yield_rate (ienv 7) [Address 9] 500 s = Inr s' \<and> accrued_yield (ienv 63072007) (Address 2) s' = Inr 1"
proof -
  obtain ts acc evs where reach:
    "reach insurance_start (insurance_step ledger_token) (pool_with three_stakers 21 ts acc evs, staker_ledger)"
    and acc: "\<forall>x. get_or acc x 0 = 0"
    using three_stakers_reached by blast
  let ?s = "pool_with three_stakers 21 ts acc evs"
  have adm: "assert_admin e [Address 9] ?s = Inr ()" if "authorizes e (Address 9)" for e
    using that by (simp add: assert_admin_def load_admin_config_def assert_threshold_def is_signer_def
        require_auth_def pool_with_def staking_insurance_def empty_insurance_def)
  have "\<exists>s'. set_yield_rate (ienv 7) [Address 9] 500 ?s = Inr s'"
    by (simp add: set_yield_rate_def adm assert_not_paused_def Let_def sm_keys_def bank_accrued_yield_def
        compute_yield_def sm_get_or_def)
  then obtain s' where run: "set_yield_rate (ienv 7) [Address 9] 500 ?s = Inr s'" ..
  have "accrued_yield (ienv 7) (Address 2) ?s = Inr 0"
    using acc by (simp add: accrued_yield_def Let_def sm_get_or_def compute_yield_def add_i128_def chk_i128_def in_i128_def)
  from rate_change_prospective [OF reach run _ this, of "ienv 63072007"]
  have "accrued_yield (ienv 63072007) (Address 2) s' = Inr 1"
    by (simp add: get_stake_def sm_get_or_def compute_yield_def mul_i128_def div_i128_def add_i128_def chk_i128_def in_i128_def)
  with run show ?thesis by blast
qed

end
