(* ===== verification/Repayment_Books.thy ===== *)
theory Repayment_Books
  imports Repayment Pool
begin

text \<open>
  What a repayment and a reclaim do across the contracts: inversion lemmas for the steps of
  \<open>repay_invoice\<close> and \<open>reclaim_invoice\<close>, the bounds of the overdue penalty, and the properties of the
  two entry points.
\<close>

subsection \<open>Selectors\<close>

lemma sm_set_sm_set [simp]: "sm_set (sm_set m k v) k v' = sm_set m k v'"
  by (induction m k v rule: sm_set.induct) auto

lemma publish_repayment [simp]:
  "rp_registry (publish ev p) = rp_registry p" "rp_financing (publish ev p) = rp_financing p"
  "insadd (publish ev p) = insadd p" "repadd (publish ev p) = repadd p" "penbps (publish ev p) = penbps p"
  "pencap (publish ev p) = pencap p" "pays (publish ev p) = pays p"
  by (simp_all add: publish_def)

lemma repay_events_sel [simp]:
  "rp_registry (repay_events x y n pr it nr b p) = rp_registry p"
  "rp_financing (repay_events x y n pr it nr b p) = rp_financing p"
  "insadd (repay_events x y n pr it nr b p) = insadd p" "repadd (repay_events x y n pr it nr b p) = repadd p"
  "penbps (repay_events x y n pr it nr b p) = penbps p" "pencap (repay_events x y n pr it nr b p) = pencap p"
  "pays (repay_events x y n pr it nr b p) = pays p" "curtok (repay_events x y n pr it nr b p) = curtok p"
  "paused (repay_events x y n pr it nr b p) = paused p" "admcfg (repay_events x y n pr it nr b p) = admcfg p"
  "default_token (repay_events x y n pr it nr b p) = default_token p"
  by (simp_all add: repay_events_def)

lemma rp_env_Inr_iff [ok]:
  "rp_registry_env e p = Inr e' \<longleftrightarrow> rp_registry p = Some (deployed_at e RegistryC) \<and>
     e' = e\<lparr>current_contract := deployed_at e RegistryC, invoker := Some (current_contract e)\<rparr>"
  "rp_financing_env e p = Inr e' \<longleftrightarrow> rp_financing p = Some (deployed_at e FinancingC) \<and>
     e' = e\<lparr>current_contract := deployed_at e FinancingC, invoker := Some (current_contract e)\<rparr>"
  by (auto simp: rp_registry_env_def rp_financing_env_def ok)

subsection \<open>Steps of a repayment\<close>

lemma repay_guards_ok [ok]:
  "repay_invoice_guard e x a w = Inr i \<longleftrightarrow> rp_registry (w_repayment w) = Some (deployed_at e RegistryC) \<and>
     map_of (invoices (w_registry w)) x = Some i \<and> inv_originator i = a \<and> inv_status i = InvFinanced"
  "repay_offer_guard e x y w = Inr o0 \<longleftrightarrow> rp_financing (w_repayment w) = Some (deployed_at e FinancingC) \<and>
     map_of (offers (w_financing w)) y = Some o0 \<and> off_invoice_id o0 = x \<and>
     off_status o0 \<in> {OffAccepted, OffFinanced}"
  by (auto simp: repay_invoice_guard_def repay_offer_guard_def ok)

lemma flat_total_due_ok [ok]:
  "flat_total_due o0 = Inr n \<longleftrightarrow> (let x = off_amount o0 * int (off_interest_rate o0) in
     in_i128 x \<and> in_i128 (x sdiv 10000) \<and> in_i128 (off_amount o0 + x sdiv 10000) \<and> n = off_amount o0 + x sdiv 10000)"
  by (auto simp: flat_total_due_def ok Let_def)

lemma foldE_add_i128:
  "foldE (\<lambda>r n. add_i128 n (f r)) xs k = Inr n \<Longrightarrow> n = k + (\<Sum>r\<leftarrow>xs. f r)"
  by (induction xs arbitrary: k) (fastforce simp: ok)+

definition principal_repaid :: "payment_record list \<Rightarrow> int" where
  "principal_repaid h = (\<Sum>r\<leftarrow>take MAX_PAYMENTS_PER_INVOICE h. pay_principal_paid r)"

lemma total_principal_repaid_sum: "total_principal_repaid h = Inr n \<Longrightarrow> n = principal_repaid h"
  by (auto simp: total_principal_repaid_def principal_repaid_def min_def dest!: foldE_add_i128 split: if_splits)

lemma remaining_of_eq: "remaining_of h o0 = Inr n \<Longrightarrow> n = max (off_amount o0 - principal_repaid h) 0"
  by (auto simp: remaining_of_def ok dest: total_principal_repaid_sum)

lemma days_since_funded_ok [ok]:
  "days_since_funded e o0 = Inr d \<longleftrightarrow> off_funded_at o0 \<le> ledger_timestamp e \<and>
     d = int ((ledger_timestamp e - off_funded_at o0) div 86400)"
  by (auto simp: days_since_funded_def ok)

text \<open>The obligation the guards of a payment compute: principal, interest and penalty.\<close>

definition interest_now :: "env \<Rightarrow> int \<Rightarrow> financing_offer \<Rightarrow> int" where
  "interest_now e remaining o0 =
     pro_rata_interest remaining (off_interest_rate o0) (int ((ledger_timestamp e - off_funded_at o0) div 86400))"

definition penalty_now :: "env \<Rightarrow> nat \<Rightarrow> financing_offer \<Rightarrow> repayment \<Rightarrow> int" where
  "penalty_now e due o0 p = accrued_penalty e (off_amount o0 + off_amount o0 * int (off_interest_rate o0) sdiv 10000)
     due (get_penalty_bps p) (get_penalty_cap_bps p)"

lemma repay_obligation_ok:
  assumes "repay_obligation e x i o0 amt p = Inr (rem, acc)"
  shows "rem = off_amount o0 - principal_repaid (load_payments x p) \<and> 0 < rem \<and>
    off_funded_at o0 \<le> ledger_timestamp e \<and> acc = interest_now e rem o0 \<and>
    amt \<le> rem + acc + penalty_now e (inv_due_date i) o0 p \<and>
    (amt < off_amount o0 * 100 sdiv 10000 \<longrightarrow> amt = rem + acc + penalty_now e (inv_due_date i) o0 p)"
  using assms
  by (auto simp: repay_obligation_def ok Let_def interest_now_def penalty_now_def get_penalty_bps_def
      get_penalty_cap_bps_def split_beta dest!: remaining_of_eq)

lemma repay_transfers_ok:
  assumes "repay_transfers T e tok a l amt f r t = Inr (fee, t')"
  obtains t1 where "fee = amt * int (get_fee_bps f) sdiv 10000"
    "tk_transfer T e tok a l (amt - fee) t = Inr t1"
    "if 0 < fee then \<exists>b. get_fee_recipient r = Inr b \<and> tk_transfer T e tok a b fee t1 = Inr t' else t' = t1"
  using assms by (auto simp: repay_transfers_def ok Let_def split: if_splits)

lemma append_payment_ok [ok]:
  "append_payment e x a amt it pr p = Inr p' \<longleftrightarrow> length (load_payments x p) + 1 < 2 ^ 32 \<and>
     p' = p\<lparr>pays := (pays p)(x \<mapsto> load_payments x p @ [\<lparr>pay_id = length (load_payments x p) + 1, pay_amount = amt,
       pay_interest_paid = it, pay_principal_paid = pr, pay_timestamp = ledger_timestamp e, pay_payer = a\<rparr>])\<rparr>"
  by (auto simp: append_payment_def ok Let_def save_payments_def)

lemma assert_only_repayment_ok [ok]:
  "assert_only_repayment e f = Inr u \<longleftrightarrow> (\<exists>a. fin_repayment f = Some a \<and> authorizes e a)"
  by (auto simp: assert_only_repayment_def ok)

lemma repay_callbacks_ok:
  assumes "repay_callbacks e y o0 pr amt fee full f = Inr f'" and "map_of (offers f) y = Some o0"
  shows "offers f' = sm_set (offers f) y (o0\<lparr>off_status := if full then OffRepaid else OffFinanced,
      off_amount_repaid := off_amount_repaid o0 + pr\<rparr>) \<and> in_i128 (off_amount_repaid o0 + pr) \<and>
    fin_repayment f' = fin_repayment f \<and> (\<exists>a. fin_repayment f = Some a \<and> authorizes e a) \<and> \<not> paused f"
  using assms
  by (auto simp: repay_callbacks_def update_offer_status_def update_offer_amount_repaid_def
      update_lender_stats_repaid_def update_stats_repaid_def ok Let_def split: if_splits)

lemma report_outcome_cong [simp]:
  "report_outcome e a n (p\<lparr>pays := h\<rparr>) s = report_outcome e a n p s"
  by (simp add: report_outcome_def)

lemma rp_env_pays [simp]:
  "rp_registry_env e (p\<lparr>pays := h\<rparr>) = rp_registry_env e p"
  "rp_financing_env e (p\<lparr>pays := h\<rparr>) = rp_financing_env e p"
  by (simp_all add: rp_registry_env_def rp_financing_env_def)

definition call_env :: "env \<Rightarrow> contract_id \<Rightarrow> env" where
  "call_env e c = e\<lparr>current_contract := deployed_at e c, invoker := Some (current_contract e)\<rparr>"

definition paid_record :: "env \<Rightarrow> symbol \<Rightarrow> address \<Rightarrow> int \<Rightarrow> int \<Rightarrow> repayment \<Rightarrow> payment_record" where
  "paid_record e x a amt acc p = \<lparr>pay_id = length (load_payments x p) + 1, pay_amount = amt,
     pay_interest_paid = min amt acc, pay_principal_paid = amt - min amt acc,
     pay_timestamp = ledger_timestamp e, pay_payer = a\<rparr>"

definition paid_offer :: "int \<Rightarrow> bool \<Rightarrow> financing_offer \<Rightarrow> financing_offer" where
  "paid_offer pr full o0 = o0\<lparr>off_status := if full then OffRepaid else OffFinanced,
     off_amount_repaid := off_amount_repaid o0 + pr\<rparr>"

lemma repay_invoice_ok:
  assumes "repay_invoice T e x y a amt w = Inr (i', w')"
  obtains i o0 tok rem acc fee full where
    "\<not> paused (w_repayment w)" "authorizes e a"
    "map_of (invoices (w_registry w)) x = Some i" "inv_originator i = a" "inv_status i = InvFinanced"
    "map_of (offers (w_financing w)) y = Some o0" "off_invoice_id o0 = x" "off_status o0 \<in> {OffAccepted, OffFinanced}"
    "0 < amt" "resolve_token (off_currency o0) (w_repayment w) = Inr tok"
    "repay_obligation e x i o0 amt (w_repayment w) = Inr (rem, acc)"
    "full \<longleftrightarrow> rem \<le> amt - min amt acc"
    "repay_transfers T e tok a (off_lender o0) amt (w_financing w) (w_registry w) (w_token w) = Inr (fee, w_token w')"
    "offers (w_financing w') = sm_set (offers (w_financing w)) y (paid_offer (amt - min amt acc) full o0)"
    "repayment_marks_invoice_repaid (call_env e RegistryC) x full (w_registry w) = Inr (i', w_registry w')"
    "if full then report_outcome e a 0 (w_repayment w) (w_reputation w) = Inr (w_reputation w')
     else w_reputation w' = w_reputation w"
    "pays (w_repayment w') = (pays (w_repayment w))(x \<mapsto> load_payments x (w_repayment w) @
       [paid_record e x a amt acc (w_repayment w)])"
    "penbps (w_repayment w') = penbps (w_repayment w)" "pencap (w_repayment w') = pencap (w_repayment w)"
    "curtok (w_repayment w') = curtok (w_repayment w)" "default_token (w_repayment w') = default_token (w_repayment w)"
    "fin_repayment (w_financing w') = fin_repayment (w_financing w)" "w_insurance w' = w_insurance w"
    "\<exists>ef. repay_callbacks ef y o0 (amt - min amt acc) amt fee full (w_financing w) = Inr (w_financing w')"
proof -
  let ?p = "w_repayment w"
  from assms obtain i o0 tok rem acc fee t p1 nr ef f er rep ir where
    1: "assert_not_paused ?p = Inr ()" "require_auth e a = Inr ()" "repay_invoice_guard e x a w = Inr i"
      "repay_offer_guard e x y w = Inr o0" "0 < amt" "resolve_token (off_currency o0) ?p = Inr tok"
      "repay_obligation e x i o0 amt ?p = Inr (rem, acc)"
      "repay_transfers T e tok a (off_lender o0) amt (w_financing w) (w_registry w) (w_token w) = Inr (fee, t)"
      "append_payment e x a amt (min amt acc) (amt - min amt acc) ?p = Inr p1"
      "nr = rem - (amt - min amt acc)" "rp_financing_env e p1 = Inr ef"
      "repay_callbacks ef y o0 (amt - min amt acc) amt fee (nr \<le> 0) (w_financing w) = Inr f"
      "rp_registry_env e p1 = Inr er" "repayment_marks_invoice_repaid er x (nr \<le> 0) (w_registry w) = Inr ir"
      "(if nr \<le> 0 then report_outcome e (inv_originator i) 0 p1 (w_reputation w) else Inr (w_reputation w)) = Inr rep"
    and 2: "w' = w\<lparr>w_registry := snd ir, w_financing := f, w_token := t,
      w_repayment := repay_events x y amt (amt - min amt acc) (min amt acc) nr (nr \<le> 0) p1, w_reputation := rep\<rparr>"
      "i' = fst ir"
    by (auto simp: repay_invoice_def bindE_Inr_iff Let_def ensure_Inr_iff sub_i128_Inr_iff split_beta)
  note g = 1(3) [unfolded repay_guards_ok] and h = 1(4) [unfolded repay_guards_ok]
  have o0: "map_of (offers (w_financing w)) y = Some o0" using h by simp
  note cb = repay_callbacks_ok [OF 1(12) o0]
  show ?thesis
    by (rule that [of i o0 tok rem acc "nr \<le> 0" fee])
      (use 1 2 g h cb in \<open>auto simp: ok paid_offer_def call_env_def paid_record_def split: if_splits\<close>)
qed

lemma marks_repaid_effect:
  assumes "repayment_marks_invoice_repaid e x full r = Inr (i', r')" and "map_of (invoices r) x = Some i"
  shows "i' = i\<lparr>inv_status := if full then InvRepaid else InvFinanced\<rparr> \<and> get_invoice x r' = Inr i' \<and>
    (\<forall>z. z \<noteq> x \<longrightarrow> get_invoice z r' = get_invoice z r)"
  using assms
  by (auto simp: repayment_marks_invoice_repaid_ok may_move_def get_invoice_def)

lemma moved_zero [simp]: "moved b x y 0 = b"
  by (auto simp: moved_def Let_def)

lemma repay_money:
  assumes laws: "sep41_laws T" and run: "repay_transfers T e tok a l amt f r t = Inr (fee, t')" and pos: "0 < amt"
  shows "fee = amt * int (get_fee_bps f) div 10000 \<and> 0 \<le> fee \<and> (\<exists>b. (0 < fee \<longrightarrow> get_fee_recipient r = Inr b) \<and>
    (\<forall>tok' z. tk_balance T tok' z t' = (if tok' = tok
       then moved (moved (\<lambda>z. tk_balance T tok z t) a l (amt - fee)) a b fee z else tk_balance T tok' z t)))"
  using run
proof (rule repay_transfers_ok)
  fix t1
  assume fee: "fee = amt * int (get_fee_bps f) sdiv 10000"
    and t1: "tk_transfer T e tok a l (amt - fee) t = Inr t1"
    and t2: "if 0 < fee then \<exists>b. get_fee_recipient r = Inr b \<and> tk_transfer T e tok a b fee t1 = Inr t' else t' = t1"
  have fee': "fee = amt * int (get_fee_bps f) div 10000" "0 \<le> fee"
    using pos by (simp_all add: fee pos_imp_zdiv_nonneg_iff)
  show ?thesis
  proof (cases "0 < fee")
    case True
    with t2 obtain b where b: "get_fee_recipient r = Inr b" "tk_transfer T e tok a b fee t1 = Inr t'" by auto
    have "(\<lambda>z. tk_balance T tok z t1) = moved (\<lambda>z. tk_balance T tok z t) a l (amt - fee)"
      using sep41_transfer(3) [OF laws t1, of tok] by auto
    with b(1) sep41_transfer(3) [OF laws b(2)] sep41_transfer(3) [OF laws t1] show ?thesis
      using fee' by (intro conjI exI [of _ b]) auto
  next
    case False
    with fee' t2 sep41_transfer(3) [OF laws t1] show ?thesis by auto
  qed
qed

subsection \<open>Repaying\<close>

text \<open>
  C2. A repayment settles in every contract: when \<open>repay_invoice\<close> succeeds, the caller is the invoice's
  originator and authorized it, the invoice is Financed and the offer is a live offer on that
  invoice; the amount is positive and at most remaining principal plus interest plus penalty.
  Interest is covered first and the rest is principal; one record with exactly this split is
  appended to the invoice's history, the offer's repaid amount grows by the principal part, and the
  offer and the invoice become Repaid if the principal is covered and stay Financed otherwise. The
  payer pays the whole amount in the resolved token, split between the lender and the fee
  recipient, and nothing else moves: no other offer, invoice, history or token.
\<close>

theorem repayment_settles:
  assumes "sep41_laws T" and "repay_invoice T e x y a amt w = Inr (i', w')"
  shows "\<exists>i o0 tok rem acc fee b. authorizes e a \<and>
    get_invoice x (w_registry w) = Inr i \<and> inv_originator i = a \<and> inv_status i = InvFinanced \<and>
    get_offer y (w_financing w) = Inr o0 \<and> off_invoice_id o0 = x \<and> off_status o0 \<in> {OffAccepted, OffFinanced} \<and>
    rem = off_amount o0 - principal_repaid (get_payment_history x (w_repayment w)) \<and> 0 < rem \<and>
    acc = interest_now e rem o0 \<and> 0 < amt \<and> amt \<le> rem + acc + penalty_now e (inv_due_date i) o0 (w_repayment w) \<and>
    (let pr = amt - min amt acc; full = (rem \<le> pr) in
      (\<forall>z. get_payment_history z (w_repayment w') = get_payment_history z (w_repayment w) @
        (if z = x then [paid_record e x a amt acc (w_repayment w)] else [])) \<and>
      (\<forall>z. get_offer z (w_financing w') = (if z = y then Inr (paid_offer pr full o0) else get_offer z (w_financing w))) \<and>
      i' = i\<lparr>inv_status := if full then InvRepaid else InvFinanced\<rparr> \<and>
      (\<forall>z. get_invoice z (w_registry w') = (if z = x then Inr i' else get_invoice z (w_registry w)))) \<and>
    resolve_token (off_currency o0) (w_repayment w) = Inr tok \<and>
    fee = amt * int (get_fee_bps (w_financing w)) div 10000 \<and> (0 < fee \<longrightarrow> get_fee_recipient (w_registry w) = Inr b) \<and>
    (\<forall>tok' z. tk_balance T tok' z (w_token w') = (if tok' = tok
       then moved (moved (\<lambda>z. tk_balance T tok z (w_token w)) a (off_lender o0) (amt - fee)) a b fee z
       else tk_balance T tok' z (w_token w)))"
  using assms(2)
proof (rule repay_invoice_ok)
  fix i o0 tok rem acc fee full
  assume auth: "authorizes e a" and i: "map_of (invoices (w_registry w)) x = Some i" "inv_originator i = a" "inv_status i = InvFinanced"
    and o0: "map_of (offers (w_financing w)) y = Some o0" "off_invoice_id o0 = x" "off_status o0 \<in> {OffAccepted, OffFinanced}"
    and amt: "0 < amt" and tok: "resolve_token (off_currency o0) (w_repayment w) = Inr tok"
    and ob: "repay_obligation e x i o0 amt (w_repayment w) = Inr (rem, acc)" and full: "full \<longleftrightarrow> rem \<le> amt - min amt acc"
    and tr: "repay_transfers T e tok a (off_lender o0) amt (w_financing w) (w_registry w) (w_token w) = Inr (fee, w_token w')"
    and offs: "offers (w_financing w') = sm_set (offers (w_financing w)) y (paid_offer (amt - min amt acc) full o0)"
    and reg: "repayment_marks_invoice_repaid (call_env e RegistryC) x full (w_registry w) = Inr (i', w_registry w')"
    and hist: "pays (w_repayment w') = (pays (w_repayment w))(x \<mapsto> load_payments x (w_repayment w) @
       [paid_record e x a amt acc (w_repayment w)])"
  from repay_money [OF assms(1) tr amt] obtain b where fee: "fee = amt * int (get_fee_bps (w_financing w)) div 10000"
    and b: "0 < fee \<longrightarrow> get_fee_recipient (w_registry w) = Inr b"
      "\<forall>tok' z. tk_balance T tok' z (w_token w') = (if tok' = tok
       then moved (moved (\<lambda>z. tk_balance T tok z (w_token w)) a (off_lender o0) (amt - fee)) a b fee z
       else tk_balance T tok' z (w_token w))" by blast
  have payments: "get_payment_history z (w_repayment w') = get_payment_history z (w_repayment w) @
        (if z = x then [paid_record e x a amt acc (w_repayment w)] else [])" for z
    by (simp add: get_payment_history_def load_payments_def hist)
  show ?thesis
    by (rule exI [of _ i], rule exI [of _ o0], rule exI [of _ tok], rule exI [of _ rem], rule exI [of _ acc],
        rule exI [of _ fee], rule exI [of _ b])
      (use auth i o0 amt tok repay_obligation_ok [OF ob] full offs marks_repaid_effect [OF reg i(1)] payments fee b in
        \<open>auto simp: ok get_payment_history_def get_offer_def Let_def\<close>)
qed

text \<open>
  The other direction: what makes a repayment succeed. \<open>connected\<close> is the deployment the guide describes -
  no contract paused, every stored address pointing at the deployed contract - \<open>wired\<close> is one without
  a reputation contract, and \<open>in_range\<close> says that the running totals stay inside their machine types.
\<close>

definition connected :: "env \<Rightarrow> ('t, 'z) rworld_scheme \<Rightarrow> bool" where
  "connected e w \<longleftrightarrow> \<not> paused (w_repayment w) \<and> \<not> paused (w_financing w) \<and> \<not> paused (w_registry w) \<and>
     rp_registry (w_repayment w) = Some (deployed_at e RegistryC) \<and>
     rp_financing (w_repayment w) = Some (deployed_at e FinancingC) \<and>
     fin_repayment (w_financing w) = Some (current_contract e) \<and>
     repayment_addr (w_registry w) = Some (current_contract e) \<and>
     get_fee_bps (w_financing w) = 0"

definition wired :: "env \<Rightarrow> ('t, 'z) rworld_scheme \<Rightarrow> bool" where
  "wired e w \<longleftrightarrow> connected e w \<and> repadd (w_repayment w) = None"

definition in_range :: "symbol \<Rightarrow> int \<Rightarrow> financing_offer \<Rightarrow> ('t, 'z) rworld_scheme \<Rightarrow> bool" where
  "in_range x amt o0 w \<longleftrightarrow> in_i128 amt \<and> in_i128 (total_repaid (fin_load_stats (w_financing w)) + amt) \<and>
     in_i128 (total_fee_revenue (fin_load_stats (w_financing w))) \<and>
     0 \<le> off_amount_repaid o0 \<and> in_i128 (off_amount_repaid o0 + amt) \<and>
     offers_repaid (load_lender_stats (off_lender o0) (w_financing w)) < 2 ^ 32 - 1 \<and>
     length (load_payments x (w_repayment w)) < 2 ^ 32 - 1"

definition repaid_financing :: "symbol \<Rightarrow> financing_offer \<Rightarrow> int \<Rightarrow> int \<Rightarrow> bool \<Rightarrow> financing \<Rightarrow> financing" where
  "repaid_financing y o0 pr amt full f =
     (let ls = load_lender_stats (off_lender o0) f; st = fin_load_stats f
      in f\<lparr>offers := sm_set (offers f) y (paid_offer pr full o0),
           lstats := (lstats f)(off_lender o0 \<mapsto> if full then ls\<lparr>offers_repaid := offers_repaid ls + 1\<rparr> else ls),
           fstats := Some (st\<lparr>total_repaid := total_repaid st + amt\<rparr>)\<rparr>)"

lemma repay_callbacks_succeed:
  assumes "\<not> paused f" and "fin_repayment f = Some c" and "authorizes e c" and "map_of (offers f) y = Some o0"
    and "in_i128 (off_amount_repaid o0 + pr)" and "offers_repaid (load_lender_stats (off_lender o0) f) < 2 ^ 32 - 1"
    and "in_i128 (total_repaid (fin_load_stats f) + amt)" and "in_i128 (total_fee_revenue (fin_load_stats f))"
  shows "repay_callbacks e y o0 pr amt 0 full f = Inr (repaid_financing y o0 pr amt full f)"
proof -
  have fs: "fin_load_stats (f\<lparr>offers := a, lstats := b\<rparr>) = fin_load_stats f" for a b by (simp add: fin_load_stats_def)
  have ls: "load_lender_stats l (f\<lparr>offers := a\<rparr>) = load_lender_stats l f" for l a by (simp add: load_lender_stats_def)
  have only: "assert_only_repayment e g = Inr ()" if "fin_repayment g = Some c" for g
    using that assms(3) by (auto simp: assert_only_repayment_ok)
  show ?thesis
    using assms
    by (simp add: repay_callbacks_def update_offer_status_def update_offer_amount_repaid_def
        update_lender_stats_repaid_def update_stats_repaid_def repaid_financing_def paid_offer_def add_i128_def chk_i128_def
        add_u32_def assert_not_paused_def get_offer_def only fs ls Let_def)
qed

lemma in_i128_mono: "in_i128 a \<Longrightarrow> in_i128 b \<Longrightarrow> a \<le> x \<Longrightarrow> x \<le> b \<Longrightarrow> in_i128 x"
  by (auto simp: in_i128_def)

lemma call_env_authorizes [simp]: "authorizes (call_env e c) (current_contract e)"
  by (simp add: call_env_def authorizes_def)

lemma repay_invoice_reports:
  assumes conn: "connected e w" and auth: "authorizes e a"
    and i: "map_of (invoices (w_registry w)) x = Some i" "inv_originator i = a" "inv_status i = InvFinanced"
    and o0: "map_of (offers (w_financing w)) y = Some o0" "off_invoice_id o0 = x" "off_status o0 \<in> {OffAccepted, OffFinanced}"
    and amt: "0 < amt" "resolve_token (off_currency o0) (w_repayment w) = Inr tok"
    and ob: "repay_obligation e x i o0 amt (w_repayment w) = Inr (rem, acc)" "0 \<le> acc" "in_i128 rem"
    and pay: "tk_transfer T e tok a (off_lender o0) amt (w_token w) = Inr t"
    and rng: "in_range x amt o0 w"
    and rep: "if rem \<le> amt - min amt acc then report_outcome e a 0 (w_repayment w) (w_reputation w) = Inr rep'
      else rep' = w_reputation w"
  defines "pr \<equiv> amt - min amt acc"
  defines "full \<equiv> rem \<le> pr"
  shows "\<exists>r p. repay_invoice T e x y a amt w = Inr (i\<lparr>inv_status := if full then InvRepaid else InvFinanced\<rparr>,
      w\<lparr>w_registry := r, w_financing := repaid_financing y o0 pr amt full (w_financing w), w_token := t,
        w_repayment := p, w_reputation := rep'\<rparr>) \<and>
    repayment_marks_invoice_repaid (call_env e RegistryC) x full (w_registry w) =
      Inr (i\<lparr>inv_status := if full then InvRepaid else InvFinanced\<rparr>, r) \<and>
    p = repay_events x y amt pr (min amt acc) (rem - pr) full
      ((w_repayment w)\<lparr>pays := (pays (w_repayment w))(x \<mapsto> load_payments x (w_repayment w) @
         [paid_record e x a amt acc (w_repayment w)])\<rparr>)"
proof -
  note W = conn [unfolded connected_def] and R = rng [unfolded in_range_def]
  let ?p = "w_repayment w" and ?i = "i\<lparr>inv_status := if full then InvRepaid else InvFinanced\<rparr>"
  have rem: "0 < rem" using repay_obligation_ok [OF ob(1)] by simp
  have "0 \<le> pr" "pr \<le> amt" using amt ob(2) by (simp_all add: pr_def)
  moreover have "- amt \<le> rem - pr" "rem - pr \<le> rem" "in_i128 (- amt)" using rem calculation R amt(1) by (auto simp: in_i128_def)
  ultimately have ranges: "in_i128 pr" "in_i128 (off_amount_repaid o0 + pr)" "in_i128 (rem - pr)"
    using R ob(3) by (auto simp: in_i128_def)
  obtain r where r: "repayment_marks_invoice_repaid (call_env e RegistryC) x full (w_registry w) = Inr (?i, r)"
    using W i by (auto simp: repayment_marks_invoice_repaid_ok may_move_def)
  have cb: "repay_callbacks (call_env e FinancingC) y o0 pr amt 0 full (w_financing w) =
      Inr (repaid_financing y o0 pr amt full (w_financing w))"
    using W R o0 ranges by (intro repay_callbacks_succeed [of _ "current_contract e"]) auto
  have envs: "rp_registry_env e p = Inr (call_env e RegistryC)" "rp_financing_env e p = Inr (call_env e FinancingC)"
    if "rp_registry p = rp_registry ?p" "rp_financing p = rp_financing ?p" for p
    using W that by (auto simp: ok call_env_def)
  have guards: "repay_invoice_guard e x a w = Inr i" "repay_offer_guard e x y w = Inr o0"
    using W i o0 by (auto simp: repay_guards_ok)
  have tr: "repay_transfers T e tok a (off_lender o0) amt (w_financing w) (w_registry w) (w_token w) = Inr (0, t)"
    using pay W R by (simp add: repay_transfers_def mul_i128_def div_i128_def sub_i128_def chk_i128_def in_i128_def)
  have app: "append_payment e x a amt (min amt acc) pr ?p = Inr (?p\<lparr>pays := (pays ?p)(x \<mapsto> load_payments x ?p @
      [paid_record e x a amt acc ?p])\<rparr>)"
    using R by (auto simp: append_payment_ok paid_record_def pr_def)
  have subs: "sub_i128 amt (min amt acc) = Inr pr" "sub_i128 rem pr = Inr (rem - pr)"
    using ranges by (simp_all add: sub_i128_def chk_i128_def pr_def)
  have full': "(rem - pr \<le> 0) = full" by (auto simp: full_def)
  have rep': "(if full then report_outcome e a 0 ?p (w_reputation w) else Inr (w_reputation w)) = Inr rep'"
    using rep by (auto simp: full_def pr_def split: if_splits)
  have "repay_invoice T e x y a amt w = Inr (?i, w\<lparr>w_registry := r,
      w_financing := repaid_financing y o0 pr amt full (w_financing w), w_token := t,
      w_repayment := repay_events x y amt pr (min amt acc) (rem - pr) full
        (?p\<lparr>pays := (pays ?p)(x \<mapsto> load_payments x ?p @ [paid_record e x a amt acc ?p])\<rparr>), w_reputation := rep'\<rparr>)"
    unfolding repay_invoice_def Let_def
    using W auth amt guards tr app subs cb r envs full' rep' i(2) ob(1)
    by (cases full) (simp_all add: assert_not_paused_def require_auth_def)
  with r show ?thesis by blast
qed

lemma repay_invoice_succeeds:
  assumes wired: "wired e w" and auth: "authorizes e a"
    and i: "map_of (invoices (w_registry w)) x = Some i" "inv_originator i = a" "inv_status i = InvFinanced"
    and o0: "map_of (offers (w_financing w)) y = Some o0" "off_invoice_id o0 = x" "off_status o0 \<in> {OffAccepted, OffFinanced}"
    and amt: "0 < amt" "resolve_token (off_currency o0) (w_repayment w) = Inr tok"
    and ob: "repay_obligation e x i o0 amt (w_repayment w) = Inr (rem, acc)" "0 \<le> acc" "in_i128 rem"
    and pay: "tk_transfer T e tok a (off_lender o0) amt (w_token w) = Inr t"
    and rng: "in_range x amt o0 w"
  defines "pr \<equiv> amt - min amt acc"
  defines "full \<equiv> rem \<le> pr"
  shows "\<exists>r p. repay_invoice T e x y a amt w = Inr (i\<lparr>inv_status := if full then InvRepaid else InvFinanced\<rparr>,
      w\<lparr>w_registry := r, w_financing := repaid_financing y o0 pr amt full (w_financing w), w_token := t,
        w_repayment := p\<rparr>) \<and>
    repayment_marks_invoice_repaid (call_env e RegistryC) x full (w_registry w) =
      Inr (i\<lparr>inv_status := if full then InvRepaid else InvFinanced\<rparr>, r) \<and>
    p = repay_events x y amt pr (min amt acc) (rem - pr) full
      ((w_repayment w)\<lparr>pays := (pays (w_repayment w))(x \<mapsto> load_payments x (w_repayment w) @
         [paid_record e x a amt acc (w_repayment w)])\<rparr>)"
proof -
  have "w_reputation w = rep' \<Longrightarrow> w\<lparr>w_registry := r, w_financing := f, w_token := t, w_repayment := p, w_reputation := rep'\<rparr> =
      w\<lparr>w_registry := r, w_financing := f, w_token := t, w_repayment := p\<rparr>" for rep' r f p by (cases w) simp
  then show ?thesis
    using repay_invoice_reports [OF _ auth i o0 amt ob pay rng, of "w_reputation w"] wired
    by (simp add: wired_def report_outcome_def pr_def full_def)
qed

text \<open>A financed deployment: \<open>Address 2\<close> owes \<open>Address 3\<close> an offer of 40000000 at 500 bps, funded at 0.\<close>

definition empty_repayment :: repayment where
  "empty_repayment =
     \<lparr>admcfg = None, paused = False, ver_current = None, ver_previous = None,
      wasm_previous = None, upgrade_pending = None, curtok = Map.empty, default_token = None,
      trn_log = Map.empty, wasm_running = 0, events = [],
      rp_registry = None, rp_financing = None, insadd = None, repadd = None, penbps = None, pencap = None,
      pays = Map.empty\<rparr>"

definition demo_repayment :: repayment where
  "demo_repayment = empty_repayment\<lparr>rp_registry := Some (Address 100), rp_financing := Some (Address 101),
     default_token := Some (Address 50), penbps := Some 100, pencap := Some 1000\<rparr>"

definition rep_world :: "invoice_status \<Rightarrow> (symbol, financing_offer) smap \<Rightarrow> ledger rworld" where
  "rep_world st offs =
     \<lparr>w_registry = empty_registry\<lparr>invoices := [(Symbol ''a'', (demo_invoice ''a'' 2)\<lparr>inv_status := st\<rparr>)],
        financing_addr := Some (Address 101), repayment_addr := Some (Address 102)\<rparr>,
      w_financing = empty_financing\<lparr>registry_ref := Some (Address 100), fin_repayment := Some (Address 102),
        default_token := Some (Address 50), offers := offs\<rparr>,
      w_token = oracle_ledger, w_repayment = demo_repayment, w_insurance = empty_insurance, w_reputation = empty_reputation\<rparr>"

definition loan :: financing_offer where
  "loan = demo_offer\<lparr>off_status := OffAccepted\<rparr>"

lemma loan_sel [simp]:
  "off_id loan = Symbol ''o''" "off_invoice_id loan = Symbol ''a''" "off_lender loan = Address 3" "off_amount loan = 40000000"
  "off_currency loan = Symbol ''USDC''" "off_interest_rate loan = 500" "off_status loan = OffAccepted"
  "off_funded_at loan = 0" "off_amount_repaid loan = 0"
  by (simp_all add: loan_def)

lemma demo_repayment_sel [simp]:
  "rp_registry demo_repayment = Some (Address 100)" "rp_financing demo_repayment = Some (Address 101)"
  "default_token demo_repayment = Some (Address 50)" "penbps demo_repayment = Some 100"
  "pencap demo_repayment = Some 1000" "pays demo_repayment = Map.empty" "curtok demo_repayment = Map.empty"
  "paused demo_repayment = False" "repadd demo_repayment = None" "insadd demo_repayment = None"
  by (simp_all add: demo_repayment_def empty_repayment_def)

lemma rep_world_sel [simp]:
  "w_registry (rep_world st offs) = empty_registry\<lparr>invoices := [(Symbol ''a'', (demo_invoice ''a'' 2)\<lparr>inv_status := st\<rparr>)],
        financing_addr := Some (Address 101), repayment_addr := Some (Address 102)\<rparr>"
  "w_financing (rep_world st offs) = empty_financing\<lparr>registry_ref := Some (Address 100),
     fin_repayment := Some (Address 102), default_token := Some (Address 50), offers := offs\<rparr>"
  "w_token (rep_world st offs) = oracle_ledger" "w_repayment (rep_world st offs) = demo_repayment"
  "w_insurance (rep_world st offs) = empty_insurance" "w_reputation (rep_world st offs) = empty_reputation"
  by (simp_all add: rep_world_def)

lemma empty_financing_sel [simp]:
  "offers empty_financing = []" "paused empty_financing = False" "curtok empty_financing = Map.empty"
  "negot empty_financing = Map.empty" "negend empty_financing = Map.empty" "negdl empty_financing = Map.empty"
  "postok empty_financing = None" "fstats empty_financing = None" "lstats empty_financing = Map.empty"
  "fin_feebps empty_financing = None" "scheds empty_financing = Map.empty"
  by (simp_all add: empty_financing_def)

abbreviation "renv t \<equiv> demo_env t (Address 102)"

lemma wired_rep_world: "wired (renv t) (rep_world st offs)"
  by (simp add: wired_def connected_def get_fee_bps_def)

lemma demo_obligation:
  "repay_obligation (renv 173800) (Symbol ''a'') ((demo_invoice ''a'' 2)\<lparr>inv_status := st\<rparr>) loan 40010958 demo_repayment =
     Inr (40000000, 10958)"
  by (simp add: repay_obligation_def Let_def remaining_of_def total_principal_repaid_def load_payments_def
      sub_i128_def chk_i128_def in_i128_def days_since_funded_def sub_u64_def pro_rata_interest_def sat_i128_def
      flat_total_due_def mul_i128_def div_i128_def add_i128_def load_penalty_config_def accrued_penalty_def loan_def)

lemma demo_repay:
  "\<exists>i' w'. repay_invoice ledger_token (renv 173800) (Symbol ''a'') (Symbol ''o'') (Address 2) 40010958
     (rep_world InvFinanced [(Symbol ''o'', loan)]) = Inr (i', w')"
proof -
  have "\<exists>t. tk_transfer ledger_token (renv 173800) (Address 50) (Address 2) (off_lender loan) 40010958 oracle_ledger = Inr t"
    by (simp add: ledger_transfer_def oracle_ledger_def)
  then obtain t where t: "tk_transfer ledger_token (renv 173800) (Address 50) (Address 2) (off_lender loan) 40010958
    oracle_ledger = Inr t" by blast
  have "in_range (Symbol ''a'') 40010958 loan (rep_world InvFinanced [(Symbol ''o'', loan)])"
    by (simp add: in_range_def in_i128_def fin_load_stats_def load_lender_stats_def load_payments_def loan_def)
  from repay_invoice_succeeds [OF wired_rep_world [of 173800 InvFinanced "[(Symbol ''o'', loan)]"], of "Address 2"
      "Symbol ''a''" "(demo_invoice ''a'' 2)\<lparr>inv_status := InvFinanced\<rparr>" "Symbol ''o''" loan 40010958 "Address 50"
      40000000 10958 ledger_token t] this t demo_obligation
  show ?thesis
    by (fastforce simp: loan_def resolve_token_def get_currency_token_def load_currency_registry_def in_i128_def)
qed

lemma repayment_settles_witness:
  "\<exists>i' w'. repay_invoice ledger_token (renv 173800) (Symbol ''a'') (Symbol ''o'') (Address 2) 40010958
     (rep_world InvFinanced [(Symbol ''o'', loan)]) = Inr (i', w') \<and>
     length (get_payment_history (Symbol ''a'') (w_repayment w')) = 1"
proof -
  obtain i' w' where run: "repay_invoice ledger_token (renv 173800) (Symbol ''a'') (Symbol ''o'') (Address 2) 40010958
     (rep_world InvFinanced [(Symbol ''o'', loan)]) = Inr (i', w')" using demo_repay by blast
  from repayment_settles [OF sep41_laws_ledger run] have
    "length (get_payment_history (Symbol ''a'') (w_repayment w')) = length (get_payment_history (Symbol ''a'') demo_repayment) + 1"
    by (auto simp: Let_def)
  with run show ?thesis by (auto simp: get_payment_history_def load_payments_def)
qed

subsection \<open>The overdue penalty\<close>

lemma sat_i128_mono: "x \<le> y \<Longrightarrow> sat_i128 x \<le> sat_i128 y"
  by (auto simp: sat_i128_def)

lemma sat_i128_nonneg: "0 \<le> x \<Longrightarrow> 0 \<le> sat_i128 x \<and> sat_i128 x \<le> x"
  by (auto simp: sat_i128_def)

lemma accrued_penalty_eq:
  assumes "0 < tot" "0 < bps" "0 < cap"
  shows "accrued_penalty e tot due bps cap =
    min (sat_i128 (sat_i128 (tot * int bps) * int ((ledger_timestamp e - due) div 86400)) div 10000)
      (sat_i128 (tot * int cap) div 10000)"
proof (cases "(ledger_timestamp e - due) div 86400 = 0")
  case True
  then have "accrued_penalty e tot due bps cap = 0" by (simp add: accrued_penalty_def)
  moreover have "0 \<le> sat_i128 (tot * int cap) div 10000"
    using assms sat_i128_nonneg [of "tot * int cap"] by (simp add: pos_imp_zdiv_nonneg_iff)
  ultimately show ?thesis using True by (simp add: sat_i128_def)
next
  case False
  then have past: "\<not> ledger_timestamp e \<le> due" "int ((ledger_timestamp e - due) div 86400) \<noteq> 0" by auto
  have "0 \<le> sat_i128 (tot * int bps)" "0 \<le> sat_i128 (tot * int cap)"
    using assms sat_i128_nonneg by simp_all
  moreover from this have "0 \<le> sat_i128 (sat_i128 (tot * int bps) * int ((ledger_timestamp e - due) div 86400))"
    using sat_i128_nonneg by simp
  ultimately show ?thesis using assms past unfolding accrued_penalty_def Let_def by (simp del: of_nat_eq_0_iff)
qed

lemma accrued_penalty_value:
  assumes "0 \<le> tot"
  shows "accrued_penalty e tot due bps cap =
    min (sat_i128 (sat_i128 (tot * int bps) * int ((ledger_timestamp e - due) div 86400)) div 10000)
      (sat_i128 (tot * int cap) div 10000)"
proof (cases "0 < tot \<and> 0 < bps \<and> 0 < cap")
  case True
  then show ?thesis by (intro accrued_penalty_eq) auto
next
  case False
  have "0 \<le> sat_i128 (tot * int bps)" "0 \<le> sat_i128 (tot * int cap)"
    using assms sat_i128_nonneg by simp_all
  moreover from this have "0 \<le> sat_i128 (sat_i128 (tot * int bps) * int ((ledger_timestamp e - due) div 86400))"
    using sat_i128_nonneg by simp
  moreover have zero: "sat_i128 0 = 0" by (simp add: sat_i128_def)
  ultimately have "min (sat_i128 (sat_i128 (tot * int bps) * int ((ledger_timestamp e - due) div 86400)) div 10000)
      (sat_i128 (tot * int cap) div 10000) = 0"
    using False assms by (auto simp: min_def pos_imp_zdiv_nonneg_iff)
  moreover have "accrued_penalty e tot due bps cap = 0" using False assms by (auto simp: accrued_penalty_def)
  ultimately show ?thesis by simp
qed

lemma accrued_penalty_bounds:
  assumes "0 \<le> tot"
  shows "0 \<le> accrued_penalty e tot due bps cap"
    and "accrued_penalty e tot due bps cap \<le> tot * int cap div 10000"
    and "ledger_timestamp e < due + 86400 \<Longrightarrow> accrued_penalty e tot due bps cap = 0"
    and "ledger_timestamp e \<le> ledger_timestamp e' \<Longrightarrow>
      accrued_penalty e tot due bps cap \<le> accrued_penalty e' tot due bps cap"
proof -
  let ?raw = "\<lambda>e. sat_i128 (sat_i128 (tot * int bps) * int ((ledger_timestamp e - due) div 86400)) div 10000"
  let ?cap = "sat_i128 (tot * int cap) div 10000"
  have "0 \<le> accrued_penalty e tot due bps cap \<and> accrued_penalty e tot due bps cap \<le> tot * int cap div 10000 \<and>
    (ledger_timestamp e \<le> ledger_timestamp e' \<longrightarrow> accrued_penalty e tot due bps cap \<le> accrued_penalty e' tot due bps cap)"
  proof (cases "0 < tot \<and> 0 < bps \<and> 0 < cap")
    case True
    have b: "0 \<le> sat_i128 (tot * int bps)" using True sat_i128_nonneg by simp
    then have raw: "0 \<le> ?raw e" using sat_i128_nonneg by (simp add: pos_imp_zdiv_nonneg_iff)
    have cap: "0 \<le> ?cap" "?cap \<le> tot * int cap div 10000"
      using True sat_i128_nonneg [of "tot * int cap"] by (auto simp: pos_imp_zdiv_nonneg_iff intro: zdiv_mono1)
    have mono: "?raw e \<le> ?raw e'" if "ledger_timestamp e \<le> ledger_timestamp e'"
      using that b by (intro zdiv_mono1 sat_i128_mono mult_left_mono) (auto intro: div_le_mono diff_le_mono)
    have eq: "accrued_penalty f tot due bps cap = min (?raw f) ?cap" for f
      using True by (simp only: accrued_penalty_eq)
    show ?thesis
      unfolding eq
      by (intro conjI impI min.boundedI raw cap(1) min.coboundedI2 [OF cap(2)] min.mono mono order_refl)
  next
    case False
    with assms show ?thesis by (auto simp: accrued_penalty_def pos_imp_zdiv_nonneg_iff)
  qed
  then show "0 \<le> accrued_penalty e tot due bps cap" "accrued_penalty e tot due bps cap \<le> tot * int cap div 10000"
    "ledger_timestamp e \<le> ledger_timestamp e' \<Longrightarrow> accrued_penalty e tot due bps cap \<le> accrued_penalty e' tot due bps cap"
    by blast+
  show "accrued_penalty e tot due bps cap = 0" if "ledger_timestamp e < due + 86400"
  proof -
    have "(ledger_timestamp e - due) div 86400 = 0" using that by simp
    then show ?thesis by (simp add: accrued_penalty_def Let_def)
  qed
qed

lemma penalty_for_offer_ok:
  assumes "penalty_for_offer e o0 r p = Inr n"
  obtains i where "map_of (invoices r) (off_invoice_id o0) = Some i" "n = penalty_now e (inv_due_date i) o0 p"
  using assms
  by (auto simp: penalty_for_offer_def ok Let_def penalty_now_def get_penalty_bps_def get_penalty_cap_bps_def split_beta)

text \<open>
  C17. The overdue penalty is exact and bounded, starts late and only grows: for a live offer of a
  non-negative amount, the penalty quoted is the smaller of two numbers, the daily rate times the whole days since the
  invoice's due date, and the cap, both applied to the principal plus its flat yield as agreed in the
  offer - so to a base that does not depend on the payments made - with products saturating at the
  i128 limits. It is never negative, is zero until a full day after the due date, never exceeds the
  configured cap of the base, and a later quote on the same state is never smaller.
\<close>

theorem overdue_penalty_bounded:
  assumes "calculate_penalty e y w = Inr n" and "calculate_penalty e' y w = Inr n'"
    and "ledger_timestamp e \<le> ledger_timestamp e'"
    and "get_offer y (w_financing w) = Inr o0" and "0 \<le> off_amount o0"
    and "off_status o0 \<noteq> OffRepaid" and "off_status o0 \<noteq> OffDefaulted"
  shows "0 \<le> n \<and> n \<le> n' \<and>
    n' \<le> (off_amount o0 + off_amount o0 * int (off_interest_rate o0) div 10000) *
      int (get_penalty_cap_bps (w_repayment w)) div 10000 \<and>
    (\<exists>i. get_invoice (off_invoice_id o0) (w_registry w) = Inr i \<and>
      (ledger_timestamp e < inv_due_date i + 86400 \<longrightarrow> n = 0) \<and>
      (let base = off_amount o0 + off_amount o0 * int (off_interest_rate o0) div 10000;
           days = (ledger_timestamp e - inv_due_date i) div 86400
       in n = min (sat_i128 (sat_i128 (base * int (get_penalty_bps (w_repayment w))) * int days) div 10000)
         (sat_i128 (base * int (get_penalty_cap_bps (w_repayment w))) div 10000)))"
proof -
  let ?base = "off_amount o0 + off_amount o0 * int (off_interest_rate o0) div 10000"
  have quoted: "penalty_for_offer f o0 (w_registry w) (w_repayment w) = Inr k" if "calculate_penalty f y w = Inr k" for f k
    using that assms(4,6,7) by (auto simp: calculate_penalty_def ok settled_def)
  obtain i where i: "map_of (invoices (w_registry w)) (off_invoice_id o0) = Some i"
    "n = penalty_now e (inv_due_date i) o0 (w_repayment w)"
    using quoted [OF assms(1)] by (rule penalty_for_offer_ok)
  have "n' = penalty_now e' (inv_due_date i) o0 (w_repayment w)"
    using quoted [OF assms(2)] i(1) by (auto elim: penalty_for_offer_ok)
  note quotes = i(2) this
  have "0 \<le> off_amount o0 * int (off_interest_rate o0)" using assms(5) by simp
  then have flat: "off_amount o0 * int (off_interest_rate o0) sdiv 10000 = off_amount o0 * int (off_interest_rate o0) div 10000"
    by simp
  note n = quotes(1) [unfolded penalty_now_def flat] and n' = quotes(2) [unfolded penalty_now_def flat]
  have "0 \<le> ?base" using assms(5) by (simp add: pos_imp_zdiv_nonneg_iff)
  note bounds = accrued_penalty_bounds [OF this] and val = accrued_penalty_value [OF this]
  have "get_invoice (off_invoice_id o0) (w_registry w) = Inr i" using i(1) by (simp add: ok)
  moreover have "0 \<le> n \<and> n \<le> n'" "ledger_timestamp e < inv_due_date i + 86400 \<longrightarrow> n = 0"
    "n' \<le> ?base * int (get_penalty_cap_bps (w_repayment w)) div 10000"
    unfolding n n' using bounds assms(3) by auto
  moreover note n [unfolded val]
  ultimately show ?thesis unfolding Let_def by blast
qed

lemma demo_penalty:
  "calculate_penalty (renv 173800) (Symbol ''o'') (rep_world InvFinanced [(Symbol ''o'', loan)]) = Inr 840000"
  "calculate_penalty (renv 87000) (Symbol ''o'') (rep_world InvFinanced [(Symbol ''o'', loan)]) = Inr 0"
  by (simp_all add: calculate_penalty_def penalty_for_offer_def rp_registry_env_def rp_financing_env_def callee_def
      get_offer_def get_invoice_def settled_def loan_def flat_total_due_def mul_i128_def div_i128_def add_i128_def
      chk_i128_def in_i128_def load_penalty_config_def accrued_penalty_def sat_i128_def Let_def)

lemma overdue_penalty_bounded_witness:
  "\<exists>n n'. calculate_penalty (renv 87000) (Symbol ''o'') (rep_world InvFinanced [(Symbol ''o'', loan)]) = Inr n \<and>
     calculate_penalty (renv 173800) (Symbol ''o'') (rep_world InvFinanced [(Symbol ''o'', loan)]) = Inr n' \<and>
     0 \<le> n \<and> n \<le> n' \<and> n' \<le> 4200000"
  using overdue_penalty_bounded [OF demo_penalty(2,1), of loan] demo_penalty
  by (simp add: get_offer_def loan_def get_penalty_cap_bps_def load_penalty_config_def)

text \<open>
  C40. Paying the penalty is optional: a payment of exactly the remaining principal and the accrued
  interest closes the loan - offer and invoice become Repaid - although the quoted total due is
  higher by the whole accrued penalty, which is then never collected.
\<close>

theorem penalty_optional:
  assumes run: "repay_invoice T e x y a amt w = Inr (i', w')"
    and rem: "get_remaining_principal e y w = Inr rem" and acc: "calculate_accrued_interest e y w = Inr acc"
    and pen: "calculate_penalty e y w = Inr pen" and amt: "amt = rem + acc"
  shows "inv_status i' = InvRepaid \<and> get_invoice x (w_registry w') = Inr i' \<and>
    (\<exists>o1. get_offer y (w_financing w') = Inr o1 \<and> off_status o1 = OffRepaid) \<and>
    (\<forall>d. calculate_total_due e y w = Inr d \<longrightarrow> d = max (amt + pen) 0)"
  using run
proof (rule repay_invoice_ok)
  fix i o0 rem1 acc1 full
  assume i: "map_of (invoices (w_registry w)) x = Some i"
    and o0: "map_of (offers (w_financing w)) y = Some o0" "off_invoice_id o0 = x" "off_status o0 \<in> {OffAccepted, OffFinanced}"
    and ob: "repay_obligation e x i o0 amt (w_repayment w) = Inr (rem1, acc1)" and full: "full \<longleftrightarrow> rem1 \<le> amt - min amt acc1"
    and offs: "offers (w_financing w') = sm_set (offers (w_financing w)) y (paid_offer (amt - min amt acc1) full o0)"
    and reg: "repayment_marks_invoice_repaid (call_env e RegistryC) x full (w_registry w) = Inr (i', w_registry w')"
  have live: "\<not> settled o0" using o0(3) by (auto simp: settled_def)
  have rest: "remaining_of (load_payments x (w_repayment w)) o0 = Inr rem"
    using rem o0 live by (auto simp: get_remaining_principal_def ok)
  have "rem1 = rem" using repay_obligation_ok [OF ob] remaining_of_eq [OF rest] by auto
  moreover have acc': "acc = interest_now e rem o0"
    using acc o0 live rest by (auto simp: calculate_accrued_interest_def ok interest_now_def)
  moreover have "acc1 = acc" using repay_obligation_ok [OF ob] calculation by simp
  ultimately have full': full using full amt repay_obligation_ok [OF ob] by simp
  have quote: "d = max (amt + pen) 0" if "calculate_total_due e y w = Inr d" for d
    using that o0 live rest pen acc' amt
    by (auto simp: calculate_total_due_def calculate_penalty_def ok interest_now_def Let_def)
  from marks_repaid_effect [OF reg i] full' offs quote show ?thesis
    by (auto simp: get_offer_def paid_offer_def)
qed

lemma penalty_optional_witness:
  "\<exists>i' w'. repay_invoice ledger_token (renv 173800) (Symbol ''a'') (Symbol ''o'') (Address 2) 40010958
     (rep_world InvFinanced [(Symbol ''o'', loan)]) = Inr (i', w') \<and> inv_status i' = InvRepaid"
proof -
  let ?w = "rep_world InvFinanced [(Symbol ''o'', loan)]"
  obtain i' w' where run: "repay_invoice ledger_token (renv 173800) (Symbol ''a'') (Symbol ''o'') (Address 2) 40010958
     ?w = Inr (i', w')" using demo_repay by blast
  have quotes: "get_remaining_principal (renv 173800) (Symbol ''o'') ?w = Inr 40000000"
    "calculate_accrued_interest (renv 173800) (Symbol ''o'') ?w = Inr 10958"
    by (simp_all add: get_remaining_principal_def calculate_accrued_interest_def rp_financing_env_def callee_def
        get_offer_def settled_def loan_def remaining_of_def total_principal_repaid_def load_payments_def sub_i128_def
        chk_i128_def in_i128_def days_since_funded_def sub_u64_def pro_rata_interest_def sat_i128_def)
  from penalty_optional [OF run quotes demo_penalty(1)] run show ?thesis by auto
qed

subsection \<open>Reclaiming\<close>

lemma reclaim_guard_ok [ok]:
  "reclaim_guard e x y a w = Inr (i, o0) \<longleftrightarrow> rp_registry (w_repayment w) = Some (deployed_at e RegistryC) \<and>
     rp_financing (w_repayment w) = Some (deployed_at e FinancingC) \<and>
     map_of (invoices (w_registry w)) x = Some i \<and> inv_status i = InvOverdue \<and>
     inv_due_date i + 604800 < 2 ^ 64 \<and> inv_due_date i + 604800 \<le> ledger_timestamp e \<and>
     map_of (offers (w_financing w)) y = Some o0 \<and> off_invoice_id o0 = x \<and> off_lender o0 = a \<and>
     off_status o0 \<in> {OffAccepted, OffFinanced}"
  by (auto simp: reclaim_guard_def ok)

lemma update_offer_status_ok:
  assumes "update_offer_status e y st f = Inr f'" and "map_of (offers f) y = Some o0"
  shows "offers f' = sm_set (offers f) y (o0\<lparr>off_status := st\<rparr>) \<and> fin_repayment f' = fin_repayment f \<and>
    (\<exists>a. fin_repayment f = Some a \<and> authorizes e a) \<and> \<not> paused f"
  using assms by (auto simp: update_offer_status_def ok)

lemma claim_insurance_ok:
  assumes "claim_insurance T e x l d r p (s, t) = Inr (payout, s', t')"
  shows "case insadd p of
      None \<Rightarrow> payout = 0 \<and> s' = s \<and> t' = t
    | Some c \<Rightarrow> c = deployed_at e InsuranceC \<and> pay_out T (call_env e InsuranceC) x l d r (s, t) = Inr (payout, s', t')"
  using assms by (auto simp: claim_insurance_def ok call_env_def split: option.splits)

lemma reclaim_invoice_ok:
  assumes "reclaim_invoice T e x y a w = Inr (o1, w')"
  obtains i o0 d payout inv1 where
    "\<not> paused (w_repayment w)" "authorizes e a" "reclaim_guard e x y a w = Inr (i, o0)"
    "o1 = o0\<lparr>off_status := OffDefaulted\<rparr>" "flat_total_due o0 = Inr d"
    "offers (w_financing w') = sm_set (offers (w_financing w)) y o1"
    "repayment_marks_defaulted (call_env e RegistryC) x (w_registry w) = Inr (inv1, w_registry w')"
    "claim_insurance T e x a (max (d - off_amount_repaid o0) 0) (w_registry w') (w_repayment w)
       (w_insurance w, w_token w) = Inr (payout, w_insurance w', w_token w')"
    "report_outcome e (inv_originator i) 1 (w_repayment w) (w_reputation w) = Inr (w_reputation w')"
    "w_repayment w' = publish (Ev_off_def (off_id o0) x a payout (penalty_now e (inv_due_date i) o0 (w_repayment w)))
       (w_repayment w)"
    "fin_repayment (w_financing w') = fin_repayment (w_financing w)"
    "\<exists>ef. update_offer_status ef y OffDefaulted (w_financing w) = Inr (w_financing w')"
proof -
  let ?p = "w_repayment w"
  from assms obtain i o0 ef f er inv1 r d dd payout s t rep where
    1: "assert_not_paused ?p = Inr ()" "require_auth e a = Inr ()" "reclaim_guard e x y a w = Inr (i, o0)"
      "rp_financing_env e ?p = Inr ef" "update_offer_status ef y OffDefaulted (w_financing w) = Inr f"
      "rp_registry_env e ?p = Inr er" "repayment_marks_defaulted er x (w_registry w) = Inr (inv1, r)"
      "flat_total_due (o0\<lparr>off_status := OffDefaulted\<rparr>) = Inr d" "sub_i128 d (off_amount_repaid o0) = Inr dd"
      "claim_insurance T e x (off_lender o0) (max dd 0) r ?p (w_insurance w, w_token w) = Inr (payout, s, t)"
      "report_outcome e (inv_originator i) 1 ?p (w_reputation w) = Inr rep"
    and 2: "o1 = o0\<lparr>off_status := OffDefaulted\<rparr>"
      "w' = w\<lparr>w_registry := r, w_financing := f, w_token := t,
        w_repayment := publish (Ev_off_def (off_id o0) (off_invoice_id o0) (off_lender o0) payout
          (accrued_penalty e d (inv_due_date i) (get_penalty_bps ?p) (get_penalty_cap_bps ?p))) ?p,
        w_insurance := s, w_reputation := rep\<rparr>"
    by (auto simp: reclaim_invoice_def bindE_Inr_iff Let_def split_beta get_penalty_bps_def get_penalty_cap_bps_def)
  from 1(3) have o0: "map_of (offers (w_financing w)) y = Some o0" "off_lender o0 = a" "off_invoice_id o0 = x"
    by (simp_all add: reclaim_guard_ok)
  have d: "flat_total_due o0 = Inr d" using 1(8) by (simp add: flat_total_due_def)
  then have pen: "penalty_now e (inv_due_date i) o0 ?p =
      accrued_penalty e d (inv_due_date i) (get_penalty_bps ?p) (get_penalty_cap_bps ?p)"
    by (simp add: flat_total_due_ok Let_def penalty_now_def)
  show ?thesis
    by (rule that [of i o0 d inv1 payout])
      (use 1 2 o0 d update_offer_status_ok [OF 1(5) o0(1)] in
        \<open>auto simp: rp_env_Inr_iff sub_i128_Inr_iff call_env_def assert_not_paused_Inr_iff require_auth_Inr_iff pen\<close>)
qed

lemma pay_out_money:
  assumes laws: "sep41_laws T" and run: "pay_out T e x b amt r (s, t) = Inr (p, s', t')"
  shows "p = max 0 (min amt (pooltot s))" and "pooltot s' = pooltot s - p"
    and "tk_balance T tok z t' = (if ins_token s = Some tok
      then moved (\<lambda>z. tk_balance T tok z t) (current_contract e) b p z else tk_balance T tok z t)"
proof -
  note acc = pay_out_accounts [OF run]
  show "p = max 0 (min amt (pooltot s))" using acc by blast
  have "pooltot s' = pooltot s - p \<and> tk_balance T tok z t' = (if ins_token s = Some tok
      then moved (\<lambda>z. tk_balance T tok z t) (current_contract e) b p z else tk_balance T tok z t)"
  proof (cases "p = 0")
    case True
    then have "s' = s \<and> t' = t" using acc by simp
    with True show ?thesis by simp
  next
    case False
    with acc obtain m tok1 where "ins_token s = Some tok1"
      and tr: "tk_transfer T e tok1 (current_contract e) b p t = Inr t'"
      and "accounts s' = (m, pooltot s - p, tot_out s, resrvd s, paid_map s, pools s, tstakes s, tresrv s, tpaid s)"
      by auto
    with sep41_transfer(3) [OF laws tr, of tok z] show ?thesis by (auto simp: accounts_def)
  qed
  then show "pooltot s' = pooltot s - p" "tk_balance T tok z t' = (if ins_token s = Some tok
      then moved (\<lambda>z. tk_balance T tok z t) (current_contract e) b p z else tk_balance T tok z t)" by blast+
qed

text \<open>
  C9. Reclaiming defaults the loan and the pool covers no more than the loss: when \<open>reclaim_invoice\<close>
  succeeds, the invoice was Overdue and its grace period of seven days is over, and the caller is
  the lender of a live offer on it and authorized the call; afterwards offer and invoice are
  Defaulted and no other offer, invoice or payment history changed. With an insurance contract
  configured the lender receives, from the pool's balance in the staking token, the smaller of the
  pool total and what is unpaid of principal plus flat yield - never the penalty; without one
  no token moves.
\<close>

theorem reclaim_defaults:
  assumes "sep41_laws T" and "reclaim_invoice T e x y a w = Inr (o1, w')"
  shows "\<exists>i o0 claim payout. authorizes e a \<and> get_invoice x (w_registry w) = Inr i \<and> inv_status i = InvOverdue \<and>
    inv_due_date i + GRACE_PERIOD_SECS \<le> ledger_timestamp e \<and>
    get_offer y (w_financing w) = Inr o0 \<and> off_invoice_id o0 = x \<and> off_lender o0 = a \<and>
    off_status o0 \<in> {OffAccepted, OffFinanced} \<and> o1 = o0\<lparr>off_status := OffDefaulted\<rparr> \<and>
    (\<forall>z. get_offer z (w_financing w') = (if z = y then Inr o1 else get_offer z (w_financing w))) \<and>
    (\<forall>z. get_invoice z (w_registry w') =
      (if z = x then Inr (i\<lparr>inv_status := InvDefaulted\<rparr>) else get_invoice z (w_registry w))) \<and>
    (\<forall>z. get_payment_history z (w_repayment w') = get_payment_history z (w_repayment w)) \<and>
    claim = off_amount o0 + off_amount o0 * int (off_interest_rate o0) sdiv 10000 - off_amount_repaid o0 \<and>
    payout = (if get_insurance (w_repayment w) = None then 0 else max 0 (min claim (get_pool_total (w_insurance w)))) \<and>
    get_pool_total (w_insurance w') = get_pool_total (w_insurance w) - payout \<and>
    (\<forall>tok z. tk_balance T tok z (w_token w') =
       (if get_insurance (w_repayment w) \<noteq> None \<and> get_staking_token (w_insurance w) = Inr tok
        then moved (\<lambda>z. tk_balance T tok z (w_token w)) (deployed_at e InsuranceC) a payout z
        else tk_balance T tok z (w_token w)))"
  using assms(2)
proof (rule reclaim_invoice_ok)
  fix i o0 d payout inv1
  assume auth: "authorizes e a" and guard: "reclaim_guard e x y a w = Inr (i, o0)"
    and o1: "o1 = o0\<lparr>off_status := OffDefaulted\<rparr>" and d: "flat_total_due o0 = Inr d"
    and offs: "offers (w_financing w') = sm_set (offers (w_financing w)) y o1"
    and reg: "repayment_marks_defaulted (call_env e RegistryC) x (w_registry w) = Inr (inv1, w_registry w')"
    and claim: "claim_insurance T e x a (max (d - off_amount_repaid o0) 0) (w_registry w') (w_repayment w)
       (w_insurance w, w_token w) = Inr (payout, w_insurance w', w_token w')"
    and p': "w_repayment w' = publish (Ev_off_def (off_id o0) x a payout
       (penalty_now e (inv_due_date i) o0 (w_repayment w))) (w_repayment w)"
  note g = guard [unfolded reclaim_guard_ok]
  have reg': "get_invoice z (w_registry w') =
      (if z = x then Inr (i\<lparr>inv_status := InvDefaulted\<rparr>) else get_invoice z (w_registry w))" for z
    using reg g by (auto simp: repayment_marks_defaulted_ok may_move_def get_invoice_def)
  have money: "payout = (if get_insurance (w_repayment w) = None then 0
        else max 0 (min (d - off_amount_repaid o0) (get_pool_total (w_insurance w)))) \<and>
    get_pool_total (w_insurance w') = get_pool_total (w_insurance w) - payout \<and>
    (\<forall>tok z. tk_balance T tok z (w_token w') =
       (if get_insurance (w_repayment w) \<noteq> None \<and> get_staking_token (w_insurance w) = Inr tok
        then moved (\<lambda>z. tk_balance T tok z (w_token w)) (deployed_at e InsuranceC) a payout z
        else tk_balance T tok z (w_token w)))"
  proof (cases "insadd (w_repayment w)")
    case None
    with claim_insurance_ok [OF claim] show ?thesis by (auto simp: get_insurance_def)
  next
    case (Some c)
    with claim_insurance_ok [OF claim] have
      run: "pay_out T (call_env e InsuranceC) x a (max (d - off_amount_repaid o0) 0) (w_registry w')
        (w_insurance w, w_token w) = Inr (payout, w_insurance w', w_token w')" by auto
    have "max 0 (min (max (d - off_amount_repaid o0) 0) (pooltot (w_insurance w))) =
        max 0 (min (d - off_amount_repaid o0) (pooltot (w_insurance w)))" by linarith
    with Some pay_out_money [OF assms(1) run] show ?thesis
      by (simp add: get_insurance_def get_pool_total_def call_env_def get_staking_token_def load_token_def fetch_Inr_iff)
  qed
  have hist: "get_payment_history z (w_repayment w') = get_payment_history z (w_repayment w)" for z
    by (simp add: p' get_payment_history_def load_payments_def)
  have d': "d = off_amount o0 + off_amount o0 * int (off_interest_rate o0) sdiv 10000"
    using d by (simp add: flat_total_due_ok Let_def)
  show ?thesis
    by (rule exI [of _ i], rule exI [of _ o0], rule exI [of _ "d - off_amount_repaid o0"], rule exI [of _ payout])
      (use auth g o1 d' offs reg' money hist in \<open>simp add: get_offer_def get_invoice_Inr_iff\<close>)
qed

definition covered_world :: "ledger rworld" where
  "covered_world = (rep_world InvOverdue [(Symbol ''o'', loan)])\<lparr>w_repayment := demo_repayment\<lparr>insadd := Some (Address 103)\<rparr>,
     w_insurance := pool_with [(Address 4, 30000000)] 30000000 Map.empty Map.empty []\<rparr>"

lemma covered_world_sel [simp]:
  "w_registry covered_world = w_registry (rep_world InvOverdue [(Symbol ''o'', loan)])"
  "w_financing covered_world = w_financing (rep_world InvOverdue [(Symbol ''o'', loan)])"
  "w_token covered_world = oracle_ledger" "w_repayment covered_world = demo_repayment\<lparr>insadd := Some (Address 103)\<rparr>"
  "w_insurance covered_world = pool_with [(Address 4, 30000000)] 30000000 Map.empty Map.empty []"
  "w_reputation covered_world = empty_reputation"
  by (simp_all add: covered_world_def)

lemma demo_reclaim:
  "\<exists>o1 w'. reclaim_invoice ledger_token (renv 605800) (Symbol ''a'') (Symbol ''o'') (Address 3) covered_world = Inr (o1, w')"
proof -
  let ?e = "renv 605800"
  have env: "callee ?e (Address 100) RegistryC = Inr (call_env ?e RegistryC)"
    "callee ?e (Address 101) FinancingC = Inr (call_env ?e FinancingC)"
    "callee ?e (Address 103) InsuranceC = Inr (call_env ?e InsuranceC)"
    by (simp_all add: callee_Inr_iff call_env_def)
  have auth: "authorizes (call_env ?e c) a" for c a by (simp add: call_env_def)
  obtain inv1 r where reg: "repayment_marks_defaulted (call_env ?e RegistryC) (Symbol ''a'') (w_registry covered_world) = Inr (inv1, r)"
    by (auto simp: repayment_marks_defaulted_ok may_move_def auth)
  have i: "map_of (invoices r) (Symbol ''a'') = Some ((demo_invoice ''a'' 2)\<lparr>inv_status := InvDefaulted\<rparr>)"
    using reg by (auto simp: repayment_marks_defaulted_ok may_move_def)
  have guard: "reclaim_guard ?e (Symbol ''a'') (Symbol ''o'') (Address 3) covered_world =
      Inr ((demo_invoice ''a'' 2)\<lparr>inv_status := InvOverdue\<rparr>, loan)"
    by (simp add: reclaim_guard_ok loan_def)
  have upd: "update_offer_status (call_env ?e FinancingC) (Symbol ''o'') OffDefaulted (w_financing covered_world) =
      Inr (save_offers [(Symbol ''o'', loan\<lparr>off_status := OffDefaulted\<rparr>)] (w_financing covered_world))"
    by (simp add: update_offer_status_def assert_only_repayment_def assert_not_paused_def require_auth_def auth get_offer_def)
  have callee_in: "callee (call_env ?e InsuranceC) (Address 100) RegistryC = Inr (call_env (call_env ?e InsuranceC) RegistryC)"
    by (simp add: callee_def call_env_def)
  have "\<exists>t' s'. pay_out ledger_token (call_env ?e InsuranceC) (Symbol ''a'') (Address 3) 42000000 r
      (pool_with [(Address 4, 30000000)] 30000000 Map.empty Map.empty [], oracle_ledger) = Inr (30000000, s', t')"
    by (simp add: pay_out_def pool_run i auth callee_in get_invoice_def sm_get_or_def oracle_ledger_def)
  then show ?thesis
    by (auto simp: reclaim_invoice_def Let_def guard assert_not_paused_def require_auth_def rp_registry_env_def
        rp_financing_env_def env upd [simplified] reg [simplified] flat_total_due_def mul_i128_def div_i128_def add_i128_def sub_i128_def
        chk_i128_def in_i128_def claim_insurance_def report_outcome_def split_beta)
qed

lemma reclaim_defaults_witness:
  "\<exists>o1 w'. reclaim_invoice ledger_token (renv 605800) (Symbol ''a'') (Symbol ''o'') (Address 3) covered_world = Inr (o1, w') \<and>
     get_pool_total (w_insurance w') = 0"
proof -
  obtain o1 w' where run: "reclaim_invoice ledger_token (renv 605800) (Symbol ''a'') (Symbol ''o'') (Address 3)
    covered_world = Inr (o1, w')" using demo_reclaim by blast
  from reclaim_defaults [OF sep41_laws_ledger run] run show ?thesis
    by (auto simp: get_offer_def get_insurance_def get_pool_total_def loan_def)
qed

end
