(* ===== verification/Negotiation.thy ===== *)
theory Negotiation
  imports Settlement
begin

text \<open>
  Properties of the negotiation and the schedules of \<open>financing/src/lib.rs\<close>, and of the parameters
  that no entry point of the contract ever writes.
\<close>

subsection \<open>Rounds\<close>

lemma last_proposal_snoc [simp]:
  "last_proposal_by (h @ [r]) p = (if neg_party r = p then Some r else last_proposal_by h p)"
  by (simp add: last_proposal_by_def)

definition history_at :: "('t, 'z) fworld_scheme \<Rightarrow> symbol \<Rightarrow> negotiation_record list option" where
  "history_at w x = Some (load_negotiation x (w_financing w))"

definition round_edge :: "negotiation_record list \<Rightarrow> negotiation_record list \<Rightarrow> bool" where
  "round_edge h h' \<longleftrightarrow> length h < 20 \<and> (\<exists>r. h' = h @ [r])"

lemma settle_history:
  assumes "settle_acceptance T e x o0 i c w = Inr (o1, w')"
  shows "history_at w' = history_at w"
  using assms by (rule settle_ok) (simp add: history_at_def load_negotiation_def fun_eq_iff)

lemma execute_history:
  assumes "execute_agreement T e x c w = Inr (o1, w')"
  shows "history_at w' = history_at w"
  using assms by (rule execute_agreement_ok) (rule settle_history)

lemma history_upd:
  "negot (w_financing w') = (negot (w_financing w))(x \<mapsto> h) \<Longrightarrow>
     history_at w' y = (if y = x then Some h else history_at w y)"
  by (simp add: history_at_def load_negotiation_def)

lemma amend_history:
  assumes "amend_offer T e x a n amt r d w = Inr (o1, w')"
  shows "n < 20 \<and> history_at w x = Some (load_negotiation x (w_financing w)) \<and>
    length (load_negotiation x (w_financing w)) = n \<and>
    (\<forall>y. history_at w' y = (if y = x then Some (load_negotiation x (w_financing w) @ [\<lparr>neg_party = ByLender,
       neg_amount = amt, neg_interest_rate = r, neg_duration = d, neg_timestamp = ledger_timestamp e\<rparr>])
     else history_at w y))"
  using assms
proof (rule amend_offer_ok)
  fix o0 :: financing_offer and ls
  let ?o1 = "o0\<lparr>off_amount := amt, off_interest_rate := r, off_duration := d\<rparr>"
  let ?w = "w\<lparr>w_financing := write_amendment e x a (load_negotiation x (w_financing w)) amt r d ?o1 ls
    (w_financing w)\<rparr>"
  assume n: "length (load_negotiation x (w_financing w)) = n" "n < 20"
    and run: "if meets_proposal (load_negotiation x (w_financing w)) amt r d
      then execute_agreement T e x a ?w = Inr (o1, w') else o1 = ?o1 \<and> w' = ?w"
  have "history_at w' = history_at ?w"
    using run execute_history [of T e x a ?w o1 w'] by (auto split: if_splits)
  then show ?thesis
    using n history_upd [of ?w w x] by (simp add: history_at_def)
qed

lemma counter_history:
  assumes "counter_offer T e x a n amt r d w = Inr (o1, w')"
  shows "n < 20 \<and> history_at w x = Some (load_negotiation x (w_financing w)) \<and>
    length (load_negotiation x (w_financing w)) = n \<and>
    (\<forall>y. history_at w' y = (if y = x then Some (load_negotiation x (w_financing w) @ [\<lparr>neg_party = ByOriginator,
       neg_amount = amt, neg_interest_rate = r, neg_duration = d, neg_timestamp = ledger_timestamp e\<rparr>])
     else history_at w y))"
  using assms
proof (rule counter_offer_ok)
  fix o0 f
  let ?w = "w\<lparr>w_financing := f\<rparr>"
  assume n: "length (load_negotiation x (w_financing w)) = n" "n < 20"
    and f: "f = publish (Ev_ctr_off x a amt r d) (record_round e x (load_negotiation x (w_financing w))
       ByOriginator amt r d (w_financing w))"
    and run: "if amt = off_amount o0 \<and> r = off_interest_rate o0 \<and> d = off_duration o0
      then execute_agreement T e x a ?w = Inr (o1, w') else o1 = o0 \<and> w' = ?w"
  have "history_at w' = history_at ?w"
    using run execute_history [of T e x a ?w o1 w'] by (auto split: if_splits)
  then show ?thesis
    using n history_upd [of ?w w x] by (simp add: history_at_def f)
qed

interpretation rounds: lifecycle history_at "offer_step T" round_edge for T :: "'t sep41"
proof
  fix w w' :: "('t, 'z) fworld_scheme" and x h
  assume "offer_step T w w'" and h: "history_at w x = Some h"
  then show "\<exists>h'. history_at w' x = Some h' \<and> (h' = h \<or> round_edge h h')"
  proof (induction rule: offer_step.induct)
    case (3 e y a w o1 w')
    then show ?case by (auto elim!: accept_offer_ok dest: settle_history)
  next
    case (5 e y a n amt r d w o1 w')
    from amend_history [OF 5(1)] 5(2) show ?case by (auto simp: history_at_def round_edge_def)
  next
    case (6 e y a n amt r d w o1 w')
    from counter_history [OF 6(1)] 6(2) show ?case by (auto simp: history_at_def round_edge_def)
  qed (auto simp: history_at_def create_offer_def withdraw_offer_def reject_offer_def close_negotiation_def
      schedule_repayment_def ok Let_def load_negotiation_def close_negotiation_on_offer_exit_def)
qed

lemma round_edges: "round_edge\<^sup>*\<^sup>* h h' \<Longrightarrow> \<exists>rs. h' = h @ rs \<and> (rs = [] \<or> length h' \<le> 20)"
  by (induction rule: rtranclp_induct) (auto simp: round_edge_def)

text \<open>
  The negotiation record is append-only and bounded: along any run of the entry points lenders and
  originators can call, the rounds recorded for an offer are only ever extended at the end, and a
  negotiation that starts empty never has more than twenty of them.
\<close>

theorem negotiation_append_only:
  assumes "(offer_step T)\<^sup>*\<^sup>* w w'"
  shows "\<exists>rs. get_negotiation x (w_financing w') = get_negotiation x (w_financing w) @ rs \<and>
    (get_negotiation x (w_financing w) = [] \<longrightarrow> length rs \<le> 20)"
proof -
  have "history_at w x = Some (get_negotiation x (w_financing w))"
    by (simp add: history_at_def get_negotiation_def)
  from rounds.steps_edges [OF assms this] obtain h' where
    "get_negotiation x (w_financing w') = h'" "round_edge\<^sup>*\<^sup>* (get_negotiation x (w_financing w)) h'"
    by (auto simp: history_at_def get_negotiation_def)
  with round_edges show ?thesis by fastforce
qed

subsection \<open>Agreement\<close>

lemma amendment_agrees:
  assumes run: "amend_offer T e x who n amt r d w = Inr (o1, w')" and settled: "off_status o1 = OffAccepted"
  shows "\<exists>c i o0. get_offer x (w_financing w) = Inr o0 \<and> off_lender o1 = off_lender o0 \<and>
    who = off_lender o0 \<and> last_proposal_by (get_negotiation x (w_financing w)) ByOriginator = Some c \<and>
    get_offer x (w_financing w') = Inr o1 \<and>
    last_proposal_by (get_negotiation x (w_financing w')) ByOriginator = Some c \<and>
    neg_amount c = off_amount o1 \<and> neg_interest_rate c = off_interest_rate o1 \<and>
    neg_duration c = off_duration o1 \<and>
    off_amount o1 = amt \<and> off_interest_rate o1 = r \<and> off_duration o1 = d \<and>
    authorizes e who \<and> (who = off_lender o1 \<or> who = inv_originator i) \<and>
    get_invoice (off_invoice_id o1) (w_registry w) = Inr i \<and> inv_status i = InvPending \<and>
    \<not> offer_expired e o1 \<and> \<not> is_blacklisted (off_lender o1) (w_registry w) \<and>
    \<not> is_blacklisted (inv_originator i) (w_registry w)"
  using run
proof (rule amend_offer_ok)
  fix o0 :: financing_offer and ls
  let ?h = "load_negotiation x (w_financing w)"
  let ?o1 = "o0\<lparr>off_amount := amt, off_interest_rate := r, off_duration := d\<rparr>"
  let ?w = "w\<lparr>w_financing := write_amendment e x who ?h amt r d ?o1 ls (w_financing w)\<rparr>"
  assume o0: "map_of (offers (w_financing w)) x = Some o0" "off_lender o0 = who" "off_status o0 = OffPending"
      "authorizes e who"
    and step: "if meets_proposal ?h amt r d then execute_agreement T e x who ?w = Inr (o1, w')
      else o1 = ?o1 \<and> w' = ?w"
  with settled have agreed: "meets_proposal ?h amt r d" "execute_agreement T e x who ?w = Inr (o1, w')"
    by (auto split: if_splits)
  have hist: "get_negotiation x (w_financing w') = ?h @ [\<lparr>neg_party = ByLender, neg_amount = amt,
      neg_interest_rate = r, neg_duration = d, neg_timestamp = ledger_timestamp e\<rparr>]"
    using amend_history [OF run] by (auto simp: history_at_def get_negotiation_def dest!: spec [of _ x])
  have before: "get_negotiation x (w_financing w) = ?h" by (simp add: get_negotiation_def)
  from agreed(2) show ?thesis
  proof (rule execute_agreement_ok)
    fix o2 i
    assume o2: "map_of (offers (w_financing ?w)) x = Some o2"
      and i: "map_of (invoices (w_registry ?w)) (off_invoice_id o2) = Some i" "inv_status i = InvPending"
        "\<not> offer_expired e o2" "\<not> is_blacklisted (off_lender o2) (w_registry ?w)"
        "\<not> is_blacklisted (inv_originator i) (w_registry ?w)"
      and settle: "settle_acceptance T e x o2 i who ?w = Inr (o1, w')"
    from settle have "o1 = o2\<lparr>off_status := OffAccepted, off_funded_at := ledger_timestamp e\<rparr>"
      "offers (w_financing w') = sm_set (offers (w_financing ?w)) x o1"
      by (rule settle_ok, simp)+
    with o2 i o0 agreed(1) show ?thesis
      by (auto simp: hist before meets_proposal_def offer_expired_def ok split: option.splits)
  qed
qed

lemma counter_agrees:
  assumes run: "counter_offer T e x who n amt r d w = Inr (o1, w')" and settled: "off_status o1 = OffAccepted"
  shows "\<exists>c i o0. get_offer x (w_financing w) = Inr o0 \<and> off_lender o1 = off_lender o0 \<and>
    who = inv_originator i \<and> off_amount o0 = amt \<and> off_interest_rate o0 = r \<and> off_duration o0 = d \<and>
    get_offer x (w_financing w') = Inr o1 \<and>
    last_proposal_by (get_negotiation x (w_financing w')) ByOriginator = Some c \<and>
    neg_amount c = off_amount o1 \<and> neg_interest_rate c = off_interest_rate o1 \<and>
    neg_duration c = off_duration o1 \<and>
    off_amount o1 = amt \<and> off_interest_rate o1 = r \<and> off_duration o1 = d \<and>
    authorizes e who \<and> (who = off_lender o1 \<or> who = inv_originator i) \<and>
    get_invoice (off_invoice_id o1) (w_registry w) = Inr i \<and> inv_status i = InvPending \<and>
    \<not> offer_expired e o1 \<and> \<not> is_blacklisted (off_lender o1) (w_registry w) \<and>
    \<not> is_blacklisted (inv_originator i) (w_registry w)"
  using run
proof (rule counter_offer_ok)
  fix o0 i f
  let ?w = "w\<lparr>w_financing := f\<rparr>"
  assume o0: "map_of (offers (w_financing w)) x = Some o0" "off_status o0 = OffPending" "authorizes e who"
    and i0: "map_of (invoices (w_registry w)) (off_invoice_id o0) = Some i" "inv_originator i = who"
    and f: "f = publish (Ev_ctr_off x who amt r d) (record_round e x (load_negotiation x (w_financing w))
     ByOriginator amt r d (w_financing w))"
    and step: "if amt = off_amount o0 \<and> r = off_interest_rate o0 \<and> d = off_duration o0
      then execute_agreement T e x who ?w = Inr (o1, w') else o1 = o0 \<and> w' = ?w"
  with settled have agreed: "amt = off_amount o0" "r = off_interest_rate o0" "d = off_duration o0"
    "execute_agreement T e x who ?w = Inr (o1, w')"
    by (auto split: if_splits)
  have hist: "get_negotiation x (w_financing w') = load_negotiation x (w_financing w) @ [\<lparr>neg_party = ByOriginator,
      neg_amount = amt, neg_interest_rate = r, neg_duration = d, neg_timestamp = ledger_timestamp e\<rparr>]"
    using counter_history [OF run] by (auto simp: history_at_def get_negotiation_def dest!: spec [of _ x])
  from agreed(4) show ?thesis
  proof (rule execute_agreement_ok)
    fix o2 i2
    assume o2: "map_of (offers (w_financing ?w)) x = Some o2"
      and i: "map_of (invoices (w_registry ?w)) (off_invoice_id o2) = Some i2" "inv_status i2 = InvPending"
        "\<not> offer_expired e o2" "\<not> is_blacklisted (off_lender o2) (w_registry ?w)"
        "\<not> is_blacklisted (inv_originator i2) (w_registry ?w)"
      and settle: "settle_acceptance T e x o2 i2 who ?w = Inr (o1, w')"
    from settle have "o1 = o2\<lparr>off_status := OffAccepted, off_funded_at := ledger_timestamp e\<rparr>"
      "offers (w_financing w') = sm_set (offers (w_financing ?w)) x o1"
      by (rule settle_ok, simp)+
    with o2 i o0 i0 agreed(1-3) show ?thesis
      by (auto simp: hist offer_expired_def f ok)
  qed
qed

text \<open>The originator meets the lender's standing terms: the offer settles in the same call.\<close>

lemma demo_counter:
  "\<exists>o1 w'. counter_offer ledger_token (demo_env 5 (Address 101)) (Symbol ''o'') (Address 2) 0 40000000 500 864000
      demo_world = Inr (o1, w') \<and> off_status o1 = OffAccepted"
proof -
  let ?e = "demo_env 5 (Address 101)\<lparr>current_contract := Address 100, invoker := Some (Address 101)\<rparr>"
  obtain i' r' where "financing_marks_invoice_financed ?e (Symbol ''a'') (w_registry demo_world) = Inr (i', r')"
    by (auto simp: financing_marks_invoice_financed_ok may_move_def)
  then show ?thesis
    by (simp add: counter_offer_def fin_assert_not_blacklisted_def is_blacklisted_def assert_terms_valid_def
        assert_negotiable_def get_negotiation_status_def execute_agreement_def settle_acceptance_def Let_def
        assert_not_paused_def require_auth_def record_round_def
        get_offer_def offer_expired_def read_invoice_def registry_env_def callee_def get_invoice_def
        resolve_token_def get_currency_token_def load_currency_registry_def close_negotiation_on_settlement_def
        load_negotiation_def ledger_transfer_from_def oracle_ledger_def mint_position_def fin_load_stats_def
        load_lender_stats_def add_i128_def chk_i128_def in_i128_def publish_def)
qed

lemma negotiation_append_only_witness:
  "\<exists>o1 w' rs. counter_offer ledger_token (demo_env 5 (Address 101)) (Symbol ''o'') (Address 2) 0 40000000 500 864000
      demo_world = Inr (o1, w') \<and> get_negotiation (Symbol ''o'') (w_financing w') = rs \<and> length rs \<le> 20"
proof -
  obtain o1 w' where run: "counter_offer ledger_token (demo_env 5 (Address 101)) (Symbol ''o'') (Address 2) 0
      40000000 500 864000 demo_world = Inr (o1, w')"
    using demo_counter by blast
  have "(offer_step ledger_token)\<^sup>*\<^sup>* demo_world w'" using offer_step.intros(6) [OF run] by blast
  moreover have "get_negotiation (Symbol ''o'') (w_financing demo_world) = []"
    by (simp add: get_negotiation_def load_negotiation_def)
  ultimately show ?thesis
    using negotiation_append_only [of ledger_token demo_world w' "Symbol ''o''"] run by auto
qed

subsection \<open>What negotiation lets a lender do\<close>

text \<open>
  Negotiation reaches terms an offer could not be created with: \<open>create_offer\<close> refuses an amount
  above the invoice's, but the lender of a Pending offer without recorded rounds can amend it to any
  positive amount whatsoever - only the arithmetic on the lender's statistics bounds it - and the
  amended amount is what acceptance would then transfer.
\<close>

theorem amendment_ignores_invoice_amount:
  assumes "\<not> paused (w_financing w)" and "authorizes e a" and "\<not> is_blacklisted a (w_registry w)"
    and "registry_ref (w_financing w) = Some (deployed_at e RegistryC)"
    and "get_offer x (w_financing w) = Inr o0" and "off_lender o0 = a" and "off_status o0 = OffPending"
    and "get_negotiation x (w_financing w) = []" and "get_negotiation_status e x (w_financing w) = NegNone"
    and "terms_valid amt r d"
    and "in_i128 (amt - off_amount o0)"
    and "in_i128 (total_offered (get_lender_stats a (w_financing w)) + (amt - off_amount o0))"
  shows "\<exists>w'. amend_offer T e x a 0 amt r d w =
      Inr (o0\<lparr>off_amount := amt, off_interest_rate := r, off_duration := d\<rparr>, w') \<and>
    get_offer x (w_financing w') = Inr (o0\<lparr>off_amount := amt, off_interest_rate := r, off_duration := d\<rparr>)"
proof -
  have "\<not> meets_proposal [] amt r d" by (simp add: meets_proposal_def last_proposal_by_def)
  moreover have "assert_negotiable e x o0 0 (w_financing w) = Inr []"
    using assms by (simp add: ok get_negotiation_def)
  moreover have "assert_terms_valid amt r d = Inr ()" using assms(10) by (simp add: ok)
  moreover have "fin_assert_not_blacklisted e a w = Inr ()"
    using assms by (simp add: fin_assert_not_blacklisted_def ok)
  ultimately show ?thesis
    using assms
    by (simp add: amend_offer_def Let_def assert_not_paused_def require_auth_def sub_i128_def add_i128_def
        chk_i128_def get_lender_stats_def ok)
qed

lemma amendment_ignores_invoice_amount_witness:
  "\<exists>o1 w'. amend_offer ledger_token (demo_env 5 (Address 101)) (Symbol ''o'') (Address 3) 0 900000000 500 864000
      demo_world = Inr (o1, w') \<and> off_amount o1 = 900000000 \<and>
    get_invoice (Symbol ''a'') (w_registry demo_world) = Inr (demo_invoice ''a'' 2) \<and>
    inv_amount (demo_invoice ''a'' 2) < off_amount o1"
proof -
  have "get_offer (Symbol ''o'') (w_financing demo_world) = Inr demo_offer"
    "get_negotiation (Symbol ''o'') (w_financing demo_world) = []"
    "get_negotiation_status (demo_env 5 (Address 101)) (Symbol ''o'') (w_financing demo_world) = NegNone"
    "terms_valid 900000000 500 864000" "\<not> is_blacklisted (Address 3) (w_registry demo_world)"
    "in_i128 (900000000 - off_amount demo_offer)"
    "in_i128 (total_offered (get_lender_stats (Address 3) (w_financing demo_world)) + (900000000 - off_amount demo_offer))"
    by (simp_all add: ok get_negotiation_def load_negotiation_def get_negotiation_status_def terms_valid_def
        is_blacklisted_def in_i128_def get_lender_stats_def load_lender_stats_def)
  from amendment_ignores_invoice_amount [OF _ _ this(5) _ this(1) _ _ this(2,3,4,6,7), of ledger_token]
  show ?thesis by (auto simp: ok)
qed

subsection \<open>Parameters nobody writes\<close>

text \<open>
  All state-changing entry points of the contract: the parties', the repayment contract's, the admin's;
  \<open>fs_others\<close> is whatever the registry, the tokens and the other contracts do in between.
\<close>

inductive financing_step :: "'t sep41 \<Rightarrow> ('t, 'z) fworld_scheme \<Rightarrow> ('t, 'z) fworld_scheme \<Rightarrow> bool" for T where
  fs_party: "offer_step T w w' \<Longrightarrow> financing_step T w w'"
| fs_status: "update_offer_status e x st (w_financing w) = Inr f \<Longrightarrow> financing_step T w (w\<lparr>w_financing := f\<rparr>)"
| fs_amount: "update_offer_amount_repaid e x n (w_financing w) = Inr f \<Longrightarrow> financing_step T w (w\<lparr>w_financing := f\<rparr>)"
| fs_lender: "update_lender_stats_repaid e a b (w_financing w) = Inr f \<Longrightarrow> financing_step T w (w\<lparr>w_financing := f\<rparr>)"
| fs_stats: "update_stats_repaid e n m (w_financing w) = Inr f \<Longrightarrow> financing_step T w (w\<lparr>w_financing := f\<rparr>)"
| fs_repayment: "fin_set_repayment_contract e sgs a (w_financing w) = Inr f \<Longrightarrow> financing_step T w (w\<lparr>w_financing := f\<rparr>)"
| fs_currency: "financing_register_currency e sgs c a (w_financing w) = Inr f \<Longrightarrow> financing_step T w (w\<lparr>w_financing := f\<rparr>)"
| fs_postok: "set_position_token e sgs a (w_financing w) = Inr f \<Longrightarrow> financing_step T w (w\<lparr>w_financing := f\<rparr>)"
| fs_window: "set_negotiation_window e sgs k (w_financing w) = Inr f \<Longrightarrow> financing_step T w (w\<lparr>w_financing := f\<rparr>)"
| fs_gov: "gov_step (w_financing w) f \<Longrightarrow> financing_step T w (w\<lparr>w_financing := f\<rparr>)"
| fs_others: "w_financing w' = w_financing w \<Longrightarrow> financing_step T w w'"

lemma gov_step_fee: "gov_step f f' \<Longrightarrow> fin_feebps f' = fin_feebps f" for f :: financing
  by (induction rule: gov_step.induct) (auto simp: gov_defs ok publish_def)

lemma offer_step_fee: "offer_step T w w' \<Longrightarrow> fin_feebps (w_financing w') = fin_feebps (w_financing w)"
proof (induction rule: offer_step.induct)
  case (3 e x a w o1 w')
  then show ?case by (auto elim!: accept_offer_ok settle_ok)
next
  case (5 e x a n amt r d w o1 w')
  then show ?case
    by (auto elim!: amend_offer_ok execute_agreement_ok settle_ok split: if_splits)
next
  case (6 e x a n amt r d w o1 w')
  then show ?case
    by (auto elim!: counter_offer_ok execute_agreement_ok settle_ok split: if_splits)
qed (auto simp: create_offer_def withdraw_offer_def reject_offer_def close_negotiation_def
    schedule_repayment_def ok Let_def)

definition financing_start :: "('t, 'z) fworld_scheme \<Rightarrow> bool" where
  "financing_start w \<longleftrightarrow> (\<exists>admin reg tok. financing_constructor admin reg tok empty_financing = Inr (w_financing w))"

interpretation fee_unset: invariant_system financing_start "financing_step T"
  "\<lambda>w. fin_feebps (w_financing w) = None" for T :: "'t sep41"
proof
  show "fin_feebps (w_financing w) = None" if "financing_start w" for w :: "('t, 'z) fworld_scheme"
    using that by (auto simp: financing_start_def financing_constructor_def init_admin_config_def
        initialize_contract_version_def ok empty_financing_def publish_def
        dest!: arg_cong [of _ "w_financing w" fin_feebps])
  show "fin_feebps (w_financing w') = None"
    if "fin_feebps (w_financing w) = None" "financing_step T w w'" for w w' :: "('t, 'z) fworld_scheme"
    using that(2,1)
    by (induction rule: financing_step.induct)
      (auto simp: update_offer_status_def update_offer_amount_repaid_def update_lender_stats_repaid_def
        update_stats_repaid_def fin_set_repayment_contract_def financing_register_currency_def
        set_position_token_def set_negotiation_window_def register_currency_token_def
        save_currency_registry_def ok Let_def dest: offer_step_fee gov_step_fee)
qed

text \<open>
  The protocol fee is always zero: the repayment contract asks the financing contract for the fee
  (\<open>get_fee_bps\<close>), but no entry point of the financing contract writes it - the admin's \<open>set_fee\<close> is
  an entry point of the registry and writes the registry's own storage - so in every reachable
  state the fee read is zero, whatever the admin configured.
\<close>

theorem protocol_fee_never_set:
  assumes "reach financing_start (financing_step T) w"
  shows "get_fee_bps (w_financing w) = 0"
  using fee_unset.reach_inv [OF assms] by (simp add: get_fee_bps_def)

lemma protocol_fee_never_set_witness:
  "\<exists>f. financing_constructor (Address 9) (Address 100) (Address 50) empty_financing = Inr f \<and> get_fee_bps f = 0"
proof -
  from parse_cargo_version obtain f where f: "financing_constructor (Address 9) (Address 100) (Address 50) empty_financing = Inr f"
    by (simp add: financing_constructor_def init_admin_config_def initialize_contract_version_def empty_financing_def)
  then have "reach financing_start (financing_step ledger_token) (demo_world\<lparr>w_financing := f\<rparr>)"
    by (intro reach_init) (auto simp: financing_start_def)
  from protocol_fee_never_set [OF this] f show ?thesis by auto
qed

subsection \<open>Whose terms an offer carries\<close>

text \<open>
  The terms stored in an offer are the lender's own: they are those it created the offer with until
  it amends them, and every amendment is recorded as a round of the lender with exactly these terms.
\<close>

definition quoted :: "financing_offer \<Rightarrow> negotiation_record \<Rightarrow> bool" where
  "quoted b l \<longleftrightarrow> neg_amount l = off_amount b \<and> neg_interest_rate l = off_interest_rate b \<and>
     neg_duration l = off_duration b"

fun quote_ok :: "financing_offer option \<Rightarrow> negotiation_record list \<Rightarrow> bool" where
  "quote_ok None h \<longleftrightarrow> h = []"
| "quote_ok (Some b) h \<longleftrightarrow> (\<forall>l. last_proposal_by h ByLender = Some l \<longrightarrow> quoted b l)"

definition quotes_ok :: "financing \<Rightarrow> bool" where
  "quotes_ok f \<longleftrightarrow> (\<forall>x. quote_ok (map_of (offers f) x) (load_negotiation x f))"

lemma quotes_ok_frame: "quotes_ok f \<Longrightarrow> offers f' = offers f \<Longrightarrow> negot f' = negot f \<Longrightarrow> quotes_ok f'"
  unfolding quotes_ok_def load_negotiation_def by (erule ssubst)+

lemma quotes_ok_round:
  assumes "quotes_ok f" and "map_of (offers f') = (map_of (offers f))(x \<mapsto> b)" and "negot f' = (negot f)(x \<mapsto> h)"
    and "quote_ok (Some b) h"
  shows "quotes_ok f'"
  unfolding quotes_ok_def
proof
  fix y
  have "quote_ok (map_of (offers f) y) (load_negotiation y f)" using assms(1) by (simp add: quotes_ok_def)
  with assms(2-4) show "quote_ok (map_of (offers f') y) (load_negotiation y f')"
    by (simp add: load_negotiation_def)
qed

lemma quotes_ok_upd:
  assumes "quotes_ok f" and "offers f' = sm_set (offers f) x b" and "negot f' = negot f"
    and "case map_of (offers f) x of None \<Rightarrow> True | Some a \<Rightarrow> quoted b = quoted a"
  shows "quotes_ok f'"
  unfolding quotes_ok_def
proof
  fix y
  have "quote_ok (map_of (offers f) y) (load_negotiation y f)" using assms(1) by (simp add: quotes_ok_def)
  moreover have "load_negotiation y f' = load_negotiation y f" using assms(3) by (simp add: load_negotiation_def)
  ultimately show "quote_ok (map_of (offers f') y) (load_negotiation y f')"
    using assms(2,4) by (cases "map_of (offers f) x") (auto simp: last_proposal_by_def)
qed

lemma settle_quotes:
  assumes "settle_acceptance T e x o0 i c w = Inr (o1, w')" and "map_of (offers (w_financing w)) x = Some o0"
    and "quotes_ok (w_financing w)"
  shows "quotes_ok (w_financing w')"
  using assms(1) by (rule settle_ok, intro quotes_ok_upd [OF assms(3)]) (auto simp: assms(2) quoted_def fun_eq_iff)

lemma execute_quotes:
  assumes "execute_agreement T e x c w = Inr (o1, w')" and "quotes_ok (w_financing w)"
  shows "quotes_ok (w_financing w')"
  using assms(1) by (rule execute_agreement_ok) (rule settle_quotes [OF _ _ assms(2)])

lemma amend_quotes:
  assumes "amend_offer T e x a n amt r d w = Inr (o1, w')" and "quotes_ok (w_financing w)"
  shows "quotes_ok (w_financing w')"
  using assms(1)
proof (rule amend_offer_ok)
  fix o0 :: financing_offer and ls
  let ?f = "write_amendment e x a (load_negotiation x (w_financing w)) amt r d
    (o0\<lparr>off_amount := amt, off_interest_rate := r, off_duration := d\<rparr>) ls (w_financing w)"
  assume "if meets_proposal (load_negotiation x (w_financing w)) amt r d
    then execute_agreement T e x a (w\<lparr>w_financing := ?f\<rparr>) = Inr (o1, w')
    else o1 = o0\<lparr>off_amount := amt, off_interest_rate := r, off_duration := d\<rparr> \<and> w' = w\<lparr>w_financing := ?f\<rparr>"
  moreover have "quotes_ok ?f"
    by (rule quotes_ok_round [OF assms(2) _ write_amendment_sel(2)]) (auto simp: quoted_def)
  ultimately show ?thesis using execute_quotes [of T e x a "w\<lparr>w_financing := ?f\<rparr>"] by (auto split: if_splits)
qed

lemma counter_quotes:
  assumes "counter_offer T e x a n amt r d w = Inr (o1, w')" and "quotes_ok (w_financing w)"
  shows "quotes_ok (w_financing w')"
  using assms(1)
proof (rule counter_offer_ok)
  fix o0 f
  assume o0: "map_of (offers (w_financing w)) x = Some o0"
    and f: "f = publish (Ev_ctr_off x a amt r d) (record_round e x (load_negotiation x (w_financing w))
       ByOriginator amt r d (w_financing w))"
    and run: "if amt = off_amount o0 \<and> r = off_interest_rate o0 \<and> d = off_duration o0
      then execute_agreement T e x a (w\<lparr>w_financing := f\<rparr>) = Inr (o1, w') else o1 = o0 \<and> w' = w\<lparr>w_financing := f\<rparr>"
  have "quote_ok (Some o0) (load_negotiation x (w_financing w))"
    using assms(2) o0 unfolding quotes_ok_def by metis
  with o0 have "quotes_ok f"
    by (intro quotes_ok_round [OF assms(2), of f x o0 "load_negotiation x (w_financing w) @ [\<lparr>neg_party = ByOriginator,
      neg_amount = amt, neg_interest_rate = r, neg_duration = d, neg_timestamp = ledger_timestamp e\<rparr>]"])
      (auto simp: f)
  with run show ?thesis using execute_quotes [of T e x a "w\<lparr>w_financing := f\<rparr>"] by (auto split: if_splits)
qed

lemma offer_step_quotes: "offer_step T w w' \<Longrightarrow> quotes_ok (w_financing w) \<Longrightarrow> quotes_ok (w_financing w')"
proof (induction rule: offer_step.induct)
  case (1 e x iid a amt c r d ex w o1 w')
  then show ?case
    by (intro quotes_ok_upd [OF 1(2), of _ x o1])
      (auto simp: create_offer_def ok Let_def sm_has_def split: option.splits)
next
  case (2 e x a w o1 w')
  then show ?case
    by (intro quotes_ok_upd [OF 2(2), of _ x o1])
      (auto simp: withdraw_offer_def ok Let_def close_negotiation_on_offer_exit_def quoted_def fun_eq_iff)
next
  case (3 e x a w o1 w')
  then show ?case by (auto elim!: accept_offer_ok intro: settle_quotes)
next
  case (4 e x a w o1 w')
  then show ?case
    by (intro quotes_ok_upd [OF 4(2), of _ x o1])
      (auto simp: reject_offer_def ok Let_def close_negotiation_on_offer_exit_def quoted_def fun_eq_iff)
next
  case (5 e x a n amt r d w o1 w')
  then show ?case by (rule amend_quotes)
next
  case (6 e x a n amt r d w o1 w')
  then show ?case by (rule counter_quotes)
next
  case (7 e x a w st w')
  then show ?case by (intro quotes_ok_frame [OF 7(2)]) (auto simp: close_negotiation_def ok Let_def)
next
  case (8 e x a fr n d w sc w')
  then show ?case by (intro quotes_ok_frame [OF 8(2)]) (auto simp: schedule_repayment_def ok Let_def)
qed

lemma quotes_offer_set:
  assumes "quotes_ok f" and "get_offer x f = Inr b" and "quoted b' = quoted b"
  shows "quotes_ok (f\<lparr>offers := sm_set (offers f) x b'\<rparr>)"
  by (rule quotes_ok_upd [OF assms(1)]) (use assms(2,3) in \<open>auto simp: ok\<close>)

lemma gov_step_quotes: "gov_step f f' \<Longrightarrow> quotes_ok f \<Longrightarrow> quotes_ok f'" for f f' :: financing
  by (drule gov_step_more, erule quotes_ok_frame) (cases f; cases f'; simp)+

text \<open>The entry points that write neither an offer nor a round.\<close>

definition offers_kept :: "financing \<Rightarrow> financing \<Rightarrow> bool" where
  "offers_kept f f' \<longleftrightarrow> offers f' = offers f \<and> negot f' = negot f"

lemma admin_offers_kept:
  "update_lender_stats_repaid e a b f = Inr f' \<Longrightarrow> offers_kept f f'"
  "update_stats_repaid e n m f = Inr f' \<Longrightarrow> offers_kept f f'"
  "fin_set_repayment_contract e sgs ad f = Inr f' \<Longrightarrow> offers_kept f f'"
  "financing_register_currency e sgs c ad f = Inr f' \<Longrightarrow> offers_kept f f'"
  "set_position_token e sgs ad f = Inr f' \<Longrightarrow> offers_kept f f'"
  "set_negotiation_window e sgs k f = Inr f' \<Longrightarrow> offers_kept f f'"
  by (auto simp: offers_kept_def update_lender_stats_repaid_def update_stats_repaid_def fin_set_repayment_contract_def
      financing_register_currency_def set_position_token_def set_negotiation_window_def
      register_currency_token_def save_currency_registry_def ok Let_def)

lemma offers_kept_quotes: "offers_kept f f' \<Longrightarrow> quotes_ok f \<Longrightarrow> quotes_ok f'"
  unfolding offers_kept_def by (elim conjE quotes_ok_frame)

interpretation quotes: invariant_system financing_start "financing_step T" "\<lambda>w. quotes_ok (w_financing w)"
  for T :: "'t sep41"
proof
  show "quotes_ok (w_financing w)" if "financing_start w" for w :: "('t, 'z) fworld_scheme"
  proof -
    from that have "offers (w_financing w) = []" "negot (w_financing w) = Map.empty"
      by (auto simp: financing_start_def financing_constructor_def init_admin_config_def
        initialize_contract_version_def ok empty_financing_def publish_def
        dest!: arg_cong [of _ "w_financing w" "\<lambda>f. (offers f, negot f)"])
    then show ?thesis by (simp add: quotes_ok_def load_negotiation_def)
  qed
  show "quotes_ok (w_financing w')"
    if "quotes_ok (w_financing w)" "financing_step T w w'" for w w' :: "('t, 'z) fworld_scheme"
    using that(2,1)
  proof (induction rule: financing_step.induct)
    case (fs_party w w')
    then show ?case using offer_step_quotes by blast
  next
    case (fs_status e x st w f)
    then obtain b where "get_offer x (w_financing w) = Inr b"
      and f: "f = (w_financing w)\<lparr>offers := sm_set (offers (w_financing w)) x (b\<lparr>off_status := st\<rparr>)\<rparr>"
      by (auto simp: update_offer_status_def ok)
    with quotes_offer_set [OF fs_status(2) this(1)] show ?case by (simp add: quoted_def fun_eq_iff)
  next
    case (fs_amount e x n w f)
    then obtain b where "get_offer x (w_financing w) = Inr b"
      and f: "f = (w_financing w)\<lparr>offers := sm_set (offers (w_financing w)) x (b\<lparr>off_amount_repaid := n\<rparr>)\<rparr>"
      by (auto simp: update_offer_amount_repaid_def ok)
    with quotes_offer_set [OF fs_amount(2) this(1)] show ?case by (simp add: quoted_def fun_eq_iff)
  next
    case (fs_gov w f)
    then show ?case using gov_step_quotes by fastforce
  qed (simp_all, (blast intro: offers_kept_quotes admin_offers_kept)+)
qed

lemma one_round:
  assumes "amend_offer T e x who n amt r d w = Inr (o1, w')" and "counter_offer T e x who n amt r d w = Inr (o1, w')"
  shows False
  using amend_history [OF assms(1)] counter_history [OF assms(2)] by (auto dest!: spec [of _ x])



subsection \<open>Installments\<close>

text \<open>
  The installment helper names the first unpaid installment and only when it is due: for a live
  offer with a schedule of positive installments, a result \<open>n > 0\<close> means that installment \<open>n\<close> exists,
  its due time has come, and the amount repaid covers the \<open>n - 1\<close> installments before it but not
  \<open>n\<close> itself; a result of zero after the first due time means that every installment due by now is
  covered.
\<close>

theorem installment_due_exact:
  assumes "get_schedule x f = Some sch" and "get_offer x f = Inr off"
    and "off_status off \<noteq> OffRepaid" and "off_status off \<noteq> OffDefaulted"
    and "0 < rs_installment_amount sch" and "0 \<le> off_amount_repaid off"
    and "off_amount_repaid off div rs_installment_amount sch < 2 ^ 32"
    and "rs_first_due sch \<le> ledger_timestamp e"
  defines "n \<equiv> get_installment_due e x f"
    and "due_at \<equiv> \<lambda>k. rs_first_due sch + (k - 1) * period_secs (rs_frequency sch)"
  shows "if n > 0
    then n \<le> rs_count sch \<and> due_at n \<le> ledger_timestamp e \<and>
      int (n - 1) * rs_installment_amount sch \<le> off_amount_repaid off \<and>
      off_amount_repaid off < int n * rs_installment_amount sch
    else \<forall>k. 1 \<le> k \<and> k \<le> rs_count sch \<and> due_at k \<le> ledger_timestamp e \<longrightarrow>
      int k * rs_installment_amount sch \<le> off_amount_repaid off"
proof -
  let ?a = "rs_installment_amount sch" and ?r = "off_amount_repaid off" and ?p = "period_secs (rs_frequency sch)"
  let ?q = "(ledger_timestamp e - rs_first_due sch) div ?p"
  let ?elapsed = "min (?q + 1) (rs_count sch)" and ?paid = "nat (?r div ?a)"
  have p: "0 < ?p" by (cases "rs_frequency sch") auto
  have q0: "0 \<le> ?r div ?a" using assms(5,6) by (simp add: pos_imp_zdiv_nonneg_iff)
  have n: "n = (if ?elapsed \<le> ?paid then 0 else ?paid + 1)"
    using assms q0 by (auto simp: n_def get_installment_due_def get_schedule_def ok Let_def not_less)
  have lo: "int ?paid * ?a \<le> ?r" and hi: "?r < int (?paid + 1) * ?a"
  proof -
    have "?r = int ?paid * ?a + ?r mod ?a" using q0 by simp
    moreover have "0 \<le> ?r mod ?a" "?r mod ?a < ?a" using assms(5) by simp_all
    moreover have "int (?paid + 1) * ?a = int ?paid * ?a + ?a" by (simp add: algebra_simps)
    ultimately show "int ?paid * ?a \<le> ?r" "?r < int (?paid + 1) * ?a" by linarith+
  qed
  have due: "due_at k \<le> ledger_timestamp e \<longleftrightarrow> k - 1 \<le> ?q" for k
    using assms(8) p by (auto simp: due_at_def less_eq_div_iff_mult_less_eq algebra_simps)
  show ?thesis
  proof (cases "?elapsed \<le> ?paid")
    case True
    have "int k * ?a \<le> ?r" if "1 \<le> k" "k \<le> rs_count sch" "due_at k \<le> ledger_timestamp e" for k
    proof -
      have "k \<le> ?elapsed" using that due [of k] by simp
      with True have "int k * ?a \<le> int ?paid * ?a" using assms(5) by (intro mult_right_mono) auto
      with lo show ?thesis by linarith
    qed
    with True show ?thesis by (simp add: n)
  next
    case False
    then have "?paid + 1 \<le> rs_count sch" "?paid \<le> ?q" by linarith+
    moreover from this have "due_at (?paid + 1) \<le> ledger_timestamp e" using due [of "?paid + 1"] by simp
    moreover have "n = ?paid + 1" using False n by simp
    ultimately show ?thesis using lo hi by simp
  qed
qed

lemma installment_two:
  assumes "if n > 0 then n \<le> 10 \<and> 100000 + (n - 1) * 86400 \<le> 200000 \<and> int (n - 1) * 100 \<le> 150 \<and> 150 < int n * 100
    else \<forall>k. 1 \<le> k \<and> k \<le> 10 \<and> 100000 + (k - 1) * 86400 \<le> 200000 \<longrightarrow> int k * 100 \<le> (150 :: int)"
  shows "n = (2 :: nat)"
proof (cases "n > 0")
  case True
  then show ?thesis using assms by simp
next
  case False
  then show ?thesis using assms by (auto dest: spec [of _ "2 :: nat"])
qed

lemma installment_due_exact_witness:
  "get_installment_due (demo_env 200000 (Address 101)) (Symbol ''o'')
     (empty_financing\<lparr>offers := [(Symbol ''o'', demo_offer\<lparr>off_amount_repaid := 150\<rparr>)],
        scheds := [Symbol ''o'' \<mapsto> \<lparr>rs_offer_id = Symbol ''o'', rs_count = 10, rs_frequency = Daily,
          rs_installment_amount = 100, rs_first_due = 100000\<rparr>]\<rparr>) = 2"
proof -
  let ?sch = "\<lparr>rs_offer_id = Symbol ''o'', rs_count = 10, rs_frequency = Daily,
          rs_installment_amount = 100, rs_first_due = 100000\<rparr>"
  let ?f = "empty_financing\<lparr>offers := [(Symbol ''o'', demo_offer\<lparr>off_amount_repaid := 150\<rparr>)],
        scheds := [Symbol ''o'' \<mapsto> ?sch]\<rparr>"
  let ?n = "get_installment_due (demo_env 200000 (Address 101)) (Symbol ''o'') ?f"
  have "if ?n > 0 then ?n \<le> 10 \<and> 100000 + (?n - 1) * 86400 \<le> 200000 \<and> int (?n - 1) * 100 \<le> 150 \<and> 150 < int ?n * 100
    else \<forall>k. 1 \<le> k \<and> k \<le> 10 \<and> 100000 + (k - 1) * 86400 \<le> 200000 \<longrightarrow> int k * 100 \<le> (150 :: int)"
    using installment_due_exact [of "Symbol ''o''" ?f ?sch "demo_offer\<lparr>off_amount_repaid := 150\<rparr>" "demo_env 200000 (Address 101)"]
    by (simp add: get_schedule_def ok cong: if_cong)
  then show ?thesis by (rule installment_two)
qed

end
