(* ===== verification/Amendments.thy ===== *)
theory Amendments
  imports Registry
begin

text \<open>
  Invoice amendments of \<open>registry/src/lib.rs\<close>: requests that apply at once while an invoice is
  Pending, and wait for the active lender once it is Financed. The registry resolves the lender
  through the financing contract; \<open>offers_of\<close> is that client (an address and an invoice id to the
  offers on the invoice), and the theory of the protocol instantiates it with the financing
  model's own query.
\<close>

type_synonym financing_client = "address \<Rightarrow> symbol \<Rightarrow> error + financing_offer list"

definition load_amendments :: "registry \<Rightarrow> (symbol \<rightharpoonup> amendment_record list)" where
  [simp]: "load_amendments s = amends s"

definition save_amendments :: "(symbol \<rightharpoonup> amendment_record list) \<Rightarrow> registry \<Rightarrow> registry" where
  [simp]: "save_amendments m s = s\<lparr>amends := m\<rparr>"

definition load_invoice_lenders :: "registry \<Rightarrow> (symbol \<rightharpoonup> address)" where
  [simp]: "load_invoice_lenders s = invlend s"

definition save_invoice_lenders :: "(symbol \<rightharpoonup> address) \<Rightarrow> registry \<Rightarrow> registry" where
  [simp]: "save_invoice_lenders m s = s\<lparr>invlend := m\<rparr>"

definition apply_amendment_to_invoice ::
  "symbol \<Rightarrow> amendment_record \<Rightarrow> registry \<Rightarrow> error + registry" where
  "apply_amendment_to_invoice x amendment s =
     bindE (fetch (map_of (load_invoices s) x) (Contract NotFound)) (\<lambda>invoice.
     let invoice = (case am_field amendment of
           AmendAmount \<Rightarrow> invoice\<lparr>inv_amount := am_new_amount amendment\<rparr>
         | AmendDueDate \<Rightarrow> invoice\<lparr>inv_due_date := am_new_due_date amendment\<rparr>)
     in Inr (save_invoices (sm_set (load_invoices s) x invoice) s))"

definition validate_amendment_value :: "env \<Rightarrow> amendment_field \<Rightarrow> int \<Rightarrow> nat \<Rightarrow> error + unit" where
  "validate_amendment_value e field new_amount new_due_date =
     (case field of
        AmendAmount \<Rightarrow> ensure (\<not> new_amount < MIN_INVOICE_AMOUNT) (Contract InvalidInput)
      | AmendDueDate \<Rightarrow> ensure (\<not> new_due_date \<le> ledger_timestamp e) (Contract InvalidInput))"

definition request_amendment ::
  "env \<Rightarrow> symbol \<Rightarrow> address \<Rightarrow> amendment_field \<Rightarrow> int \<Rightarrow> nat \<Rightarrow> symbol \<Rightarrow> registry \<Rightarrow>
     error + (amendment_record \<times> registry)" where
  "request_amendment e x originator field new_amount new_due_date reason s =
     bindE (assert_not_paused s) (\<lambda>_.
     bindE (require_auth e originator) (\<lambda>_.
     bindE (get_invoice x s) (\<lambda>invoice.
     bindE (ensure (\<not> inv_originator invoice \<noteq> originator) (Contract Unauthorized)) (\<lambda>_.
     bindE (ensure (\<not> (inv_status invoice \<noteq> InvPending \<and> inv_status invoice \<noteq> InvFinanced))
       (Contract InvalidTransition)) (\<lambda>_.
     bindE (validate_amendment_value e field new_amount new_due_date) (\<lambda>_.
     let amendment = \<lparr>am_field = field, am_old_amount = inv_amount invoice,
           am_new_amount = new_amount, am_old_due_date = inv_due_date invoice,
           am_new_due_date = new_due_date, am_reason = reason, am_timestamp = ledger_timestamp e,
           am_status = AmdPending\<rparr>;
         amendment = (if inv_status invoice = InvPending then amendment\<lparr>am_status := AmdApproved\<rparr>
                      else amendment) in
     bindE (if inv_status invoice = InvPending then apply_amendment_to_invoice x amendment s
            else Inr s) (\<lambda>s.
     let amendments = load_amendments s;
         list = (case amendments x of None \<Rightarrow> [] | Some l \<Rightarrow> l);
         s = save_amendments (amendments(x \<mapsto> list @ [amendment])) s
     in Inr (amendment, publish (Ev_amd_req x (am_field amendment) (am_status amendment)
                 (am_timestamp amendment)) s))))))))"

text \<open>The loop over the offers stops at the first active one and caches its lender.\<close>

fun active_lender :: "financing_offer list \<Rightarrow> address option" where
  "active_lender [] = None"
| "active_lender (offer # rest) =
     (if off_status offer = OffAccepted \<or> off_status offer = OffFinanced then Some (off_lender offer)
      else active_lender rest)"

definition get_invoice_lender ::
  "financing_client \<Rightarrow> symbol \<Rightarrow> registry \<Rightarrow> error + (address option \<times> registry)" where
  "get_invoice_lender offers_of x s =
     (case load_invoice_lenders s x of
        Some lender \<Rightarrow> Inr (Some lender, s)
      | None \<Rightarrow>
         (case financing_addr s of
            None \<Rightarrow> Inr (None, s)
          | Some f \<Rightarrow>
             bindE (offers_of f x) (\<lambda>offers.
             Inr (case active_lender offers of
                    None \<Rightarrow> (None, s)
                  | Some lender \<Rightarrow>
                      (Some lender, save_invoice_lenders ((load_invoice_lenders s)(x \<mapsto> lender)) s)))))"

definition set_invoice_lender :: "env \<Rightarrow> symbol \<Rightarrow> address \<Rightarrow> registry \<Rightarrow> error + registry" where
  "set_invoice_lender e x lender s =
     bindE (assert_not_paused s) (\<lambda>_.
     bindE (case financing_addr s of None \<Rightarrow> Inr () | Some f \<Rightarrow> require_auth e f) (\<lambda>_.
     Inr (save_invoice_lenders ((load_invoice_lenders s)(x \<mapsto> lender)) s)))"

text \<open>The authorization that \<open>approve_amendment\<close> and \<open>reject_amendment\<close> both spell out.\<close>

definition amendment_authority ::
  "financing_client \<Rightarrow> symbol \<Rightarrow> invoice \<Rightarrow> address \<Rightarrow> registry \<Rightarrow> error + registry" where
  "amendment_authority offers_of x invoice who s =
     (if inv_status invoice = InvFinanced
      then bindE (get_invoice_lender offers_of x s) (\<lambda>(lender, s).
           bindE (fetch lender (Contract Unauthorized)) (\<lambda>lender.
           bindE (ensure (\<not> who \<noteq> lender) (Contract Unauthorized)) (\<lambda>_. Inr s)))
      else if inv_status invoice = InvPending
      then bindE (ensure (\<not> who \<noteq> inv_originator invoice) (Contract Unauthorized)) (\<lambda>_. Inr s)
      else Inl (Contract InvalidTransition))"

definition pending_amendment ::
  "symbol \<Rightarrow> nat \<Rightarrow> registry \<Rightarrow> error + (amendment_record list \<times> amendment_record)" where
  "pending_amendment x i s =
     bindE (fetch (load_amendments s x) (Contract NotFound)) (\<lambda>list.
     bindE (ensure (\<not> length list \<le> i) (Contract NotFound)) (\<lambda>_.
     bindE (ensure (\<not> am_status (list ! i) \<noteq> AmdPending) (Contract InvalidTransition)) (\<lambda>_.
     Inr (list, list ! i))))"

definition approve_amendment ::
  "financing_client \<Rightarrow> env \<Rightarrow> symbol \<Rightarrow> nat \<Rightarrow> address \<Rightarrow> registry \<Rightarrow>
     error + (amendment_record \<times> registry)" where
  "approve_amendment offers_of e x i approver s =
     bindE (assert_not_paused s) (\<lambda>_.
     bindE (require_auth e approver) (\<lambda>_.
     bindE (get_invoice x s) (\<lambda>invoice.
     bindE (amendment_authority offers_of x invoice approver s) (\<lambda>s.
     bindE (pending_amendment x i s) (\<lambda>(list, amendment).
     bindE (ensure (\<not> (am_field amendment = AmendAmount \<and> am_new_amount amendment < MIN_INVOICE_AMOUNT))
       (Contract InvalidInput)) (\<lambda>_.
     bindE (ensure (\<not> (am_field amendment = AmendDueDate \<and>
                        am_new_due_date amendment \<le> ledger_timestamp e))
       (Contract InvalidInput)) (\<lambda>_.
     let amendment = amendment\<lparr>am_status := AmdApproved\<rparr>;
         amendments = load_amendments s in
     bindE (apply_amendment_to_invoice x amendment s) (\<lambda>s.
     Inr (amendment, publish (Ev_amd_apr x i approver)
       (save_amendments (amendments(x \<mapsto> list[i := amendment])) s))))))))))"

definition reject_amendment ::
  "financing_client \<Rightarrow> env \<Rightarrow> symbol \<Rightarrow> nat \<Rightarrow> address \<Rightarrow> registry \<Rightarrow>
     error + (amendment_record \<times> registry)" where
  "reject_amendment offers_of e x i rejector s =
     bindE (assert_not_paused s) (\<lambda>_.
     bindE (require_auth e rejector) (\<lambda>_.
     bindE (get_invoice x s) (\<lambda>invoice.
     bindE (amendment_authority offers_of x invoice rejector s) (\<lambda>s.
     bindE (pending_amendment x i s) (\<lambda>(list, amendment).
     let amendment = amendment\<lparr>am_status := AmdRejected\<rparr>
     in Inr (amendment, publish (Ev_amd_rj x i rejector)
          (save_amendments ((load_amendments s)(x \<mapsto> list[i := amendment])) s)))))))"

definition get_amendments :: "symbol \<Rightarrow> registry \<Rightarrow> amendment_record list" where
  "get_amendments x s = (case load_amendments s x of None \<Rightarrow> [] | Some l \<Rightarrow> l)"

subsection \<open>What they do\<close>

definition amended :: "amendment_record \<Rightarrow> invoice \<Rightarrow> invoice" where
  "amended am i = (case am_field am of AmendAmount \<Rightarrow> i\<lparr>inv_amount := am_new_amount am\<rparr>
     | AmendDueDate \<Rightarrow> i\<lparr>inv_due_date := am_new_due_date am\<rparr>)"

lemma amended_sel [simp]:
  "inv_id (amended am i) = inv_id i" "inv_status (amended am i) = inv_status i"
  "inv_originator (amended am i) = inv_originator i" "inv_currency (amended am i) = inv_currency i"
  by (cases "am_field am"; simp add: amended_def)+

lemma apply_amendment_ok [ok]:
  "apply_amendment_to_invoice x am s = Inr s' \<longleftrightarrow>
     (\<exists>i. map_of (invoices s) x = Some i \<and> s' = s\<lparr>invoices := sm_set (invoices s) x (amended am i)\<rparr>)"
  by (auto simp: apply_amendment_to_invoice_def ok amended_def Let_def)

lemma get_invoice_lender_ok:
  "get_invoice_lender offers_of x s = Inr (r, s') \<Longrightarrow>
     \<exists>m. s' = s\<lparr>invlend := m\<rparr>"
  by (auto simp: get_invoice_lender_def ok split: option.splits intro: exI [of _ "invlend s"])

text \<open>Whose word decides an amendment: the originator while Pending, the active lender once Financed.\<close>

definition decides :: "financing_client \<Rightarrow> symbol \<Rightarrow> invoice \<Rightarrow> address \<Rightarrow> registry \<Rightarrow> bool" where
  "decides offers_of x i who s \<longleftrightarrow>
     inv_status i = InvPending \<and> who = inv_originator i \<or>
     inv_status i = InvFinanced \<and> (\<exists>s'. get_invoice_lender offers_of x s = Inr (Some who, s'))"

lemma amendment_authority_ok:
  assumes "amendment_authority offers_of x i who s = Inr s'"
  shows "decides offers_of x i who s \<and> (\<exists>m. s' = s\<lparr>invlend := m\<rparr>)"
proof (cases "inv_status i = InvFinanced")
  case True
  with assms obtain l where "get_invoice_lender offers_of x s = Inr (Some l, s')" "l = who"
    by (auto simp: amendment_authority_def ok split: prod.splits)
  with True get_invoice_lender_ok show ?thesis by (auto simp: decides_def)
next
  case False
  with assms have "decides offers_of x i who s \<and> s' = s\<lparr>invlend := invlend s\<rparr>"
    by (auto simp: amendment_authority_def decides_def ok split: if_splits)
  then show ?thesis by blast
qed

lemma pending_amendment_ok:
  "pending_amendment x i s = Inr (list, am) \<longleftrightarrow>
     amends s x = Some list \<and> i < length list \<and> am = list ! i \<and> am_status am = AmdPending"
  by (auto simp: pending_amendment_def ok)

lemma approve_amendment_ok:
  assumes "approve_amendment offers_of e x i who s = Inr (am', s')"
  obtains inv0 list am m where "\<not> paused s" "authorizes e who" "map_of (invoices s) x = Some inv0"
    "decides offers_of x inv0 who s" "amends s x = Some list" "i < length list" "am = list ! i"
    "am_status am = AmdPending" "am' = am\<lparr>am_status := AmdApproved\<rparr>"
    "s' = publish (Ev_amd_apr x i who) (s\<lparr>invlend := m,
       invoices := sm_set (invoices s) x (amended am' inv0), amends := (amends s)(x \<mapsto> list[i := am'])\<rparr>)"
proof -
  from assms obtain u u' inv0 s1 p s2 where 1: "assert_not_paused s = Inr u" "require_auth e who = Inr u'"
    "get_invoice x s = Inr inv0" "amendment_authority offers_of x inv0 who s = Inr s1"
    "pending_amendment x i s1 = Inr p"
    and 2: "apply_amendment_to_invoice x ((snd p)\<lparr>am_status := AmdApproved\<rparr>) s1 = Inr s2"
    "(snd p)\<lparr>am_status := AmdApproved\<rparr> = am'"
    "publish (Ev_amd_apr x i who) (save_amendments
       ((load_amendments s1)(x \<mapsto> (fst p)[i := (snd p)\<lparr>am_status := AmdApproved\<rparr>])) s2) = s'"
    unfolding approve_amendment_def split_def Let_def bindE_Inr_iff ensure_Inr_iff sum.inject prod.inject
    by (elim exE conjE) (rule that)
  from amendment_authority_ok [OF 1(4)] obtain m where m: "s1 = s\<lparr>invlend := m\<rparr>"
    "decides offers_of x inv0 who s" by auto
  obtain list am where p: "p = (list, am)" by (cases p)
  with 1(5) m have am: "amends s x = Some list" "i < length list" "am = list ! i" "am_status am = AmdPending"
    by (auto simp: pending_amendment_ok)
  show ?thesis
    by (rule that [of inv0 list am m]) (use 1 2 m p am in \<open>auto simp: ok\<close>)
qed

lemma reject_amendment_ok:
  assumes "reject_amendment offers_of e x i who s = Inr (am', s')"
  obtains inv0 list am m where "\<not> paused s" "authorizes e who" "map_of (invoices s) x = Some inv0"
    "decides offers_of x inv0 who s" "amends s x = Some list" "i < length list" "am = list ! i"
    "am_status am = AmdPending" "am' = am\<lparr>am_status := AmdRejected\<rparr>"
    "s' = publish (Ev_amd_rj x i who) (s\<lparr>invlend := m, amends := (amends s)(x \<mapsto> list[i := am'])\<rparr>)"
proof -
  from assms obtain u u' inv0 s1 p where 1: "assert_not_paused s = Inr u" "require_auth e who = Inr u'"
    "get_invoice x s = Inr inv0" "amendment_authority offers_of x inv0 who s = Inr s1"
    "pending_amendment x i s1 = Inr p"
    and 2: "(snd p)\<lparr>am_status := AmdRejected\<rparr> = am'"
    "publish (Ev_amd_rj x i who) (save_amendments
       ((load_amendments s1)(x \<mapsto> (fst p)[i := (snd p)\<lparr>am_status := AmdRejected\<rparr>])) s1) = s'"
    unfolding reject_amendment_def split_def Let_def bindE_Inr_iff ensure_Inr_iff sum.inject prod.inject
    by (elim exE conjE) (rule that)
  from amendment_authority_ok [OF 1(4)] obtain m where m: "s1 = s\<lparr>invlend := m\<rparr>"
    "decides offers_of x inv0 who s" by auto
  obtain list am where p: "p = (list, am)" by (cases p)
  with 1(5) m have am: "amends s x = Some list" "i < length list" "am = list ! i" "am_status am = AmdPending"
    by (auto simp: pending_amendment_ok)
  show ?thesis
    by (rule that [of inv0 list am m]) (use 1 2 m p am in \<open>auto simp: ok\<close>)
qed

lemma validate_amendment_ok [ok]:
  "validate_amendment_value e field amt due = Inr u \<longleftrightarrow>
     (field = AmendAmount \<longrightarrow> MIN_INVOICE_AMOUNT \<le> amt) \<and>
     (field = AmendDueDate \<longrightarrow> ledger_timestamp e < due)"
  by (cases field) (auto simp: validate_amendment_value_def ok)

lemma request_amendment_ok:
  assumes "request_amendment e x a field amt due reason s = Inr (am, s')"
  obtains i where "\<not> paused s" "authorizes e a" "map_of (invoices s) x = Some i" "inv_originator i = a"
    "inv_status i \<in> {InvPending, InvFinanced}"
    "field = AmendAmount \<longrightarrow> MIN_INVOICE_AMOUNT \<le> amt" "field = AmendDueDate \<longrightarrow> ledger_timestamp e < due"
    "am = \<lparr>am_field = field, am_old_amount = inv_amount i, am_new_amount = amt,
          am_old_due_date = inv_due_date i, am_new_due_date = due, am_reason = reason,
          am_timestamp = ledger_timestamp e,
          am_status = (if inv_status i = InvPending then AmdApproved else AmdPending)\<rparr>"
    "s' = publish (Ev_amd_req x field (am_status am) (ledger_timestamp e))
          (s\<lparr>invoices := (if inv_status i = InvPending then sm_set (invoices s) x (amended am i) else invoices s),
             amends := (amends s)(x \<mapsto> get_amendments x s @ [am])\<rparr>)"
proof -
  let ?am = "\<lambda>i. if inv_status i = InvPending
    then \<lparr>am_field = field, am_old_amount = inv_amount i, am_new_amount = amt,
          am_old_due_date = inv_due_date i, am_new_due_date = due, am_reason = reason,
          am_timestamp = ledger_timestamp e, am_status = AmdPending\<rparr>\<lparr>am_status := AmdApproved\<rparr>
    else \<lparr>am_field = field, am_old_amount = inv_amount i, am_new_amount = amt,
          am_old_due_date = inv_due_date i, am_new_due_date = due, am_reason = reason,
          am_timestamp = ledger_timestamp e, am_status = AmdPending\<rparr>"
  from assms obtain u1 u2 i u3 s1 where 1: "assert_not_paused s = Inr u1" "require_auth e a = Inr u2"
    "get_invoice x s = Inr i" "\<not> inv_originator i \<noteq> a"
    "\<not> (inv_status i \<noteq> InvPending \<and> inv_status i \<noteq> InvFinanced)"
    "validate_amendment_value e field amt due = Inr u3"
    and 2: "(if inv_status i = InvPending then apply_amendment_to_invoice x (?am i) s else Inr s) = Inr s1"
    "?am i = am"
    "publish (Ev_amd_req x (am_field (?am i)) (am_status (?am i)) (am_timestamp (?am i)))
       (save_amendments ((load_amendments s1)(x \<mapsto>
          (case load_amendments s1 x of None \<Rightarrow> [] | Some l \<Rightarrow> l) @ [?am i])) s1) = s'"
    unfolding request_amendment_def split_def Let_def bindE_Inr_iff ensure_Inr_iff sum.inject prod.inject
    by (elim exE conjE) (rule that)
  have s1: "s1 = s\<lparr>invoices := (if inv_status i = InvPending then sm_set (invoices s) x (amended am i)
      else invoices s)\<rparr>"
    using 1(3) 2(1) unfolding 2(2) by (auto simp: ok split: if_splits)
  have am: "am = \<lparr>am_field = field, am_old_amount = inv_amount i, am_new_amount = amt,
          am_old_due_date = inv_due_date i, am_new_due_date = due, am_reason = reason,
          am_timestamp = ledger_timestamp e,
          am_status = (if inv_status i = InvPending then AmdApproved else AmdPending)\<rparr>"
    using 2(2) by (auto split: if_splits)
  have "s' = publish (Ev_amd_req x field (am_status am) (ledger_timestamp e))
          (s\<lparr>invoices := (if inv_status i = InvPending then sm_set (invoices s) x (amended am i) else invoices s),
             amends := (amends s)(x \<mapsto> get_amendments x s @ [am])\<rparr>)"
    using 2(3) unfolding 2(2) by (simp add: s1 am get_amendments_def)
  then show ?thesis
    by (rule that [rotated -1]) (use 1 am in \<open>auto simp: ok\<close>)
qed


definition demo_amendment :: amendment_record where
  "demo_amendment = \<lparr>am_field = AmendAmount, am_old_amount = 50000000, am_new_amount = 40000000,
     am_old_due_date = 1000, am_new_due_date = 0, am_reason = Symbol ''typo'', am_timestamp = 3,
     am_status = AmdPending\<rparr>"

definition amending_registry :: registry where
  "amending_registry = empty_registry\<lparr>
     invoices := [(Symbol ''a'', (demo_invoice ''a'' 2)\<lparr>inv_status := InvFinanced\<rparr>)],
     amends := [Symbol ''a'' \<mapsto> [demo_amendment]], invlend := [Symbol ''a'' \<mapsto> Address 3]\<rparr>"


text \<open>
  The active-lender cache is unprotected until a financing contract is configured:
  \<open>set_invoice_lender\<close>, documented as callable by the financing contract or an admin, then succeeds
  in every invocation, whoever signed it, and the address it names is the one that decides the
  amendments of a Financed invoice.
\<close>

theorem lender_cache_unprotected:
  assumes "\<not> paused s" and "financing_addr s = None" and "get_invoice x s = Inr inv0"
    and "inv_status inv0 = InvFinanced"
  shows "\<exists>s'. set_invoice_lender e x anyone s = Inr s' \<and> (\<forall>offers_of. decides offers_of x inv0 anyone s')"
  using assms
  by (auto simp: set_invoice_lender_def ok assert_not_paused_def decides_def get_invoice_lender_def)

lemma lender_cache_unprotected_witness:
  "\<exists>s'. set_invoice_lender ((demo_env 5 (Address 100))\<lparr>has_signed := (\<lambda>_ _. False)\<rparr>) (Symbol ''a'')
      (Address 66) amending_registry = Inr s' \<and>
    decides (\<lambda>_ _. Inr []) (Symbol ''a'') ((demo_invoice ''a'' 2)\<lparr>inv_status := InvFinanced\<rparr>) (Address 66) s'"
proof -
  have "\<not> paused amending_registry" "financing_addr amending_registry = None"
    "get_invoice (Symbol ''a'') amending_registry = Inr ((demo_invoice ''a'' 2)\<lparr>inv_status := InvFinanced\<rparr>)"
    by (simp_all add: amending_registry_def ok)
  from lender_cache_unprotected [OF this] show ?thesis by fastforce
qed

end
