(* ===== verification/Registry_System.thy ===== *)
theory Registry_System
  imports Registry_Queries Registry_Token Verification Amendments
begin

text \<open>
  The registry contract as a transition system. \<open>registry_step\<close> has one case per entry point of
  \<open>registry/src/lib.rs\<close> that can write. Every step is a sequence of six elementary effects on the
  invoices, the originator index and the tokens (\<open>core_effect\<close>), and keeps the admin configuration
  and the oracle data or changes them as their own theories say. The invariants are therefore
  proved once per elementary effect and lifted by \<open>invariant_system\<close>; the lifecycle is the
  interpretation of \<open>lifecycle\<close>.
\<close>

subsection \<open>Elementary effects\<close>

definition core :: "registry \<Rightarrow> (symbol, invoice) smap \<times> (address \<rightharpoonup> symbol list) option \<times>
    (bytes32 \<rightharpoonup> address) \<times> (bytes32 \<rightharpoonup> address) \<times> (bytes32 \<rightharpoonup> symbol) \<times> (bytes32 \<rightharpoonup> bool)" where
  "core s = (invoices s, by_origin s, tok_own s, tok_app s, tok_inv s, tok_brn s)"

definition registered :: "env \<Rightarrow> invoice \<Rightarrow> registry \<Rightarrow> registry" where
  "registered e i s =
     save_invoices (sm_set (invoices s) (inv_id i) i)
       (mint_invoice_token e i (index_invoice_originator (inv_originator i) (inv_id i) s))"

inductive core_effect :: "(symbol \<Rightarrow> bytes32) \<Rightarrow> registry \<Rightarrow> registry \<Rightarrow> bool" for h where
  eff_same: "core s' = core s \<Longrightarrow> core_effect h s s'"
| eff_register: "map_of (invoices s) (inv_id i) = None \<Longrightarrow> inv_status i = InvPending \<Longrightarrow>
    sha256_xdr e = h \<Longrightarrow> core s' = core (registered e i s) \<Longrightarrow> core_effect h s s'"
| eff_status: "map_of (invoices s) x = Some i \<Longrightarrow> valid_edge (inv_status i) new \<Longrightarrow>
    sha256_xdr e = h \<Longrightarrow> core s' = core (status_effect e x i new actor s) \<Longrightarrow> core_effect h s s'"
| eff_terms: "map_of (invoices s) x = Some i \<Longrightarrow> inv_id i' = inv_id i \<Longrightarrow>
    inv_originator i' = inv_originator i \<Longrightarrow> inv_status i' = inv_status i \<Longrightarrow>
    core s' = core (s\<lparr>invoices := sm_set (invoices s) x i'\<rparr>) \<Longrightarrow> core_effect h s s'"
| eff_transfer: "may_transfer t from to s \<Longrightarrow> core s' = core (token_moved t from to s) \<Longrightarrow>
    core_effect h s s'"
| eff_approval: "tok_brn s t \<noteq> Some True \<Longrightarrow> tok_own s t \<noteq> None \<Longrightarrow>
    core s' = core (s\<lparr>tok_app := (tok_app s)(t := a)\<rparr>) \<Longrightarrow> core_effect h s s'"
| eff_backfill: "core s' = core (backfill_originator_index s) \<Longrightarrow> core_effect h s s'"

definition oracle_same :: "registry \<Rightarrow> registry \<Rightarrow> bool" where
  "oracle_same s s' \<longleftrightarrow> verifs s' = verifs s \<and> verifrs s' = verifrs s \<and> verthr s' = verthr s"

lemma oracle_same_ok: "oracle_same s s' \<Longrightarrow> oracle_ok s' = oracle_ok s"
  by (rule oracle_ok_cong) (simp_all add: oracle_same_def)

subsection \<open>Entry points\<close>

inductive core_step :: "(symbol \<Rightarrow> bytes32) \<Rightarrow> registry \<Rightarrow> registry \<Rightarrow> bool" for h where
  "sha256_xdr e = h \<Longrightarrow> register_invoice e x a amt c d s = Inr (i, s') \<Longrightarrow> core_step h s s'"
| "sha256_xdr e = h \<Longrightarrow> batch_register_invoices e a args s = Inr (is, s') \<Longrightarrow> core_step h s s'"
| "sha256_xdr e = h \<Longrightarrow> update_invoice_status e x a st s = Inr (i, s') \<Longrightarrow> core_step h s s'"
| "sha256_xdr e = h \<Longrightarrow> update_invoice_amount e x a amt s = Inr (i, s') \<Longrightarrow> core_step h s s'"
| "sha256_xdr e = h \<Longrightarrow> cancel_invoice e x a s = Inr (i, s') \<Longrightarrow> core_step h s s'"
| "sha256_xdr e = h \<Longrightarrow> set_invoice_repaid_status e x a full s = Inr (i, s') \<Longrightarrow> core_step h s s'"
| "sha256_xdr e = h \<Longrightarrow> financing_marks_invoice_financed e x s = Inr (i, s') \<Longrightarrow> core_step h s s'"
| "sha256_xdr e = h \<Longrightarrow> repayment_marks_invoice_repaid e x full s = Inr (i, s') \<Longrightarrow> core_step h s s'"
| "sha256_xdr e = h \<Longrightarrow> repayment_marks_defaulted e x s = Inr (i, s') \<Longrightarrow> core_step h s s'"
| "sha256_xdr e = h \<Longrightarrow> mark_invoice_overdue e x s = Inr (i, s') \<Longrightarrow> core_step h s s'"
| "sha256_xdr e = h \<Longrightarrow> raise_dispute e x a s = Inr (i, s') \<Longrightarrow> core_step h s s'"
| "sha256_xdr e = h \<Longrightarrow> resolve_dispute e sgs x st s = Inr (i, s') \<Longrightarrow> core_step h s s'"
| "sha256_xdr e = h \<Longrightarrow> request_amendment e x a field amt due reason s = Inr (am, s') \<Longrightarrow> core_step h s s'"
| "sha256_xdr e = h \<Longrightarrow> approve_amendment fc e x n a s = Inr (am, s') \<Longrightarrow> core_step h s s'"
| "sha256_xdr e = h \<Longrightarrow> reject_amendment fc e x n a s = Inr (am, s') \<Longrightarrow> core_step h s s'"
| "get_invoice_lender fc x s = Inr (l, s') \<Longrightarrow> core_step h s s'"
| "set_invoice_lender e x a s = Inr s' \<Longrightarrow> core_step h s s'"
| "approve e a t s = Inr s' \<Longrightarrow> core_step h s s'"
| "set_token_approval e a ap t s = Inr s' \<Longrightarrow> core_step h s s'"
| "transfer e from to t s = Inr s' \<Longrightarrow> core_step h s s'"
| "transfer_from e sp from to t s = Inr s' \<Longrightarrow> core_step h s s'"

inductive admin_step :: "registry \<Rightarrow> registry \<Rightarrow> bool" where
  "set_signers e sgs new thr s = Inr s' \<Longrightarrow> admin_step s s'"
| "transfer_admin e sgs a s = Inr s' \<Longrightarrow> admin_step s s'"
| "pause e sgs s = Inr s' \<Longrightarrow> admin_step s s'"
| "unpause e sgs s = Inr s' \<Longrightarrow> admin_step s s'"
| "registry_upgrade e sgs hash1 hash2 v s = Inr s' \<Longrightarrow> admin_step s s'"
| "registry_post_upgrade e sgs s = Inr s' \<Longrightarrow> admin_step s s'"
| "rollback e sgs s = Inr s' \<Longrightarrow> admin_step s s'"
| "set_fee_recipient e sgs a s = Inr s' \<Longrightarrow> admin_step s s'"
| "set_financing_contract e sgs a s = Inr s' \<Longrightarrow> admin_step s s'"
| "set_repayment_contract e sgs a s = Inr s' \<Longrightarrow> admin_step s s'"
| "set_rate e sgs tier n s = Inr s' \<Longrightarrow> admin_step s s'"
| "set_fee e sgs n s = Inr s' \<Longrightarrow> admin_step s s'"
| "blacklist_address e sgs a s = Inr s' \<Longrightarrow> admin_step s s'"
| "unblacklist_address e sgs a s = Inr s' \<Longrightarrow> admin_step s s'"

inductive registry_step ::
  "'t sep41 \<Rightarrow> (symbol \<Rightarrow> bytes32) \<Rightarrow> registry \<times> 't \<Rightarrow> registry \<times> 't \<Rightarrow> bool" for T h where
  of_core: "core_step h s s' \<Longrightarrow> registry_step T h (s, t) (s', t)"
| of_admin: "admin_step s s' \<Longrightarrow> registry_step T h (s, t) (s', t)"
| of_oracle: "oracle_step T p p' \<Longrightarrow> registry_step T h p p'"

subsection \<open>Every entry point is a sequence of elementary effects\<close>

lemma core_publish [simp]: "core (publish ev s) = core s"
  by (simp add: core_def)

lemma core_stats [simp]: "core (s\<lparr>stats := st\<rparr>) = core s"
  by (simp add: core_def)

lemma register_effect:
  assumes "register_invoice e x a amt c d s = Inr (i, s')"
  shows "core_effect (sha256_xdr e) s s' \<and> oracle_same s s'"
proof
  from assms have i: "inv_id i = x" "inv_originator i = a" "inv_status i = InvPending"
      "map_of (invoices s) x = None"
    by (auto simp: register_invoice_def ok sm_has_def Let_def)
  from assms have "core s' = core (registered e i s)" "oracle_same s s'"
    by (auto simp: register_invoice_def ok Let_def registered_def core_def oracle_same_def registry_unfold)
  then show "core_effect (sha256_xdr e) s s'" "oracle_same s s'"
    using i by (auto intro: eff_register)
qed

lemma oracle_same_trans: "oracle_same s s' \<Longrightarrow> oracle_same s' s'' \<Longrightarrow> oracle_same s s''"
  by (simp add: oracle_same_def)

lemma register_each_effect:
  "register_each e a args s = Inr (is, s') \<Longrightarrow>
     (core_effect (sha256_xdr e))\<^sup>*\<^sup>* s s' \<and> oracle_same s s'"
proof (induction e a args s arbitrary: "is" rule: register_each.induct)
  case (1 e a s)
  then show ?case by (simp add: oracle_same_def)
next
  case (2 e a arg args s)
  then obtain i s1 is1 where s1: "register_arg e a arg s = Inr (i, s1)"
    "register_each e a args s1 = Inr (is1, s')" by (auto simp: ok)
  from register_effect [OF s1(1) [unfolded register_arg_def]]
  have "core_effect (sha256_xdr e) s s1" "oracle_same s s1" by auto
  with 2(1) [OF s1(1) refl s1(2)] show ?case
    by (auto intro: converse_rtranclp_into_rtranclp oracle_same_trans)
qed

lemma batch_effect:
  assumes "batch_register_invoices e a args s = Inr (is, s')"
  shows "(core_effect (sha256_xdr e))\<^sup>*\<^sup>* s s' \<and> oracle_same s s'"
proof (cases "args = []")
  case True
  with assms have "core s' = core s" "oracle_same s s'"
    by (auto simp: batch_register_invoices_def ok core_def oracle_same_def)
  then show ?thesis by (auto intro: eff_same)
next
  case False
  with assms register_each_effect show ?thesis by (simp add: batch_sequence)
qed

lemma status_move:
  assumes "may_move x i new s"
  shows "core_effect (sha256_xdr e) s (status_effect e x i new a s)"
    and "core_effect (sha256_xdr e) s (publish ev (status_effect e x i new a s))"
  using assms by (auto simp: may_move_def intro: eff_status)

lemma status_oracle_same:
  "oracle_same s (status_effect e x i new a s)" "oracle_same s (publish ev (status_effect e x i new a s))"
  by (auto simp: oracle_same_def status_effect_def registry_unfold split: option.split)

lemma lifecycle_effect:
  "update_invoice_status e x a st s = Inr (i, s') \<Longrightarrow>
     core_effect (sha256_xdr e) s s' \<and> oracle_same s s'"
  "cancel_invoice e x a s = Inr (i, s') \<Longrightarrow>
     core_effect (sha256_xdr e) s s' \<and> oracle_same s s'"
  "set_invoice_repaid_status e x a full s = Inr (i, s') \<Longrightarrow>
     core_effect (sha256_xdr e) s s' \<and> oracle_same s s'"
  "financing_marks_invoice_financed e x s = Inr (i, s') \<Longrightarrow>
     core_effect (sha256_xdr e) s s' \<and> oracle_same s s'"
  "repayment_marks_invoice_repaid e x full s = Inr (i, s') \<Longrightarrow>
     core_effect (sha256_xdr e) s s' \<and> oracle_same s s'"
  "repayment_marks_defaulted e x s = Inr (i, s') \<Longrightarrow>
     core_effect (sha256_xdr e) s s' \<and> oracle_same s s'"
  "mark_invoice_overdue e x s = Inr (i, s') \<Longrightarrow>
     core_effect (sha256_xdr e) s s' \<and> oracle_same s s'"
  "raise_dispute e x a s = Inr (i, s') \<Longrightarrow>
     core_effect (sha256_xdr e) s s' \<and> oracle_same s s'"
  "resolve_dispute e sgs x st s = Inr (i, s') \<Longrightarrow>
     core_effect (sha256_xdr e) s s' \<and> oracle_same s s'"
  by (auto simp: lifecycle_ok intro: status_move status_oracle_same)

lemma amount_effect:
  assumes "update_invoice_amount e x a amt s = Inr (i, s')"
  shows "core_effect h s s' \<and> oracle_same s s'"
proof -
  from assms obtain i0 where "map_of (invoices s) x = Some i0"
    "s' = publish (Ev_inv_amt (inv_id i0) amt) (s\<lparr>invoices := sm_set (invoices s) x (i0\<lparr>inv_amount := amt\<rparr>)\<rparr>)"
    by (auto simp: update_invoice_amount_def ok Let_def)
  then show ?thesis
    by (auto simp: oracle_same_def intro!: eff_terms [of s x i0 "i0\<lparr>inv_amount := amt\<rparr>"])
qed

lemma amendment_effect:
  "request_amendment e x a field amt due reason s = Inr (am, s') \<Longrightarrow> core_effect h s s' \<and> oracle_same s s'"
  "approve_amendment fc e x n a s = Inr (am, s') \<Longrightarrow> core_effect h s s' \<and> oracle_same s s'"
  "reject_amendment fc e x n a s = Inr (am, s') \<Longrightarrow> core_effect h s s' \<and> oracle_same s s'"
proof -
  have terms: "core_effect h s s'" if "map_of (invoices s) x = Some i"
    "core s' = core (s\<lparr>invoices := sm_set (invoices s) x (amended am i)\<rparr>)" for i
    using that by (auto intro: eff_terms [of s x i "amended am i"])
  show "core_effect h s s' \<and> oracle_same s s'"
    if "request_amendment e x a field amt due reason s = Inr (am, s')"
    using that
  proof (rule request_amendment_ok)
    fix i
    assume "map_of (invoices s) x = Some i"
      and s': "s' = publish (Ev_amd_req x field (am_status am) (ledger_timestamp e))
          (s\<lparr>invoices := (if inv_status i = InvPending then sm_set (invoices s) x (amended am i) else invoices s),
             amends := (amends s)(x \<mapsto> get_amendments x s @ [am])\<rparr>)"
    then show ?thesis
      using terms [of i] eff_same [of s' s h] by (auto simp: oracle_same_def core_def)
  qed
  show "core_effect h s s' \<and> oracle_same s s'" if "approve_amendment fc e x n a s = Inr (am, s')"
    using that
  proof (rule approve_amendment_ok)
    fix i m list
    assume "map_of (invoices s) x = Some i"
      and "s' = publish (Ev_amd_apr x n a) (s\<lparr>invlend := m,
        invoices := sm_set (invoices s) x (amended am i), amends := (amends s)(x \<mapsto> list[n := am])\<rparr>)"
    then show ?thesis using terms [of i] by (auto simp: oracle_same_def core_def)
  qed
  show "core_effect h s s' \<and> oracle_same s s'" if "reject_amendment fc e x n a s = Inr (am, s')"
    using that
  proof (rule reject_amendment_ok)
    fix m list
    assume "s' = publish (Ev_amd_rj x n a) (s\<lparr>invlend := m, amends := (amends s)(x \<mapsto> list[n := am])\<rparr>)"
    then show ?thesis using eff_same [of s' s h] by (auto simp: oracle_same_def core_def)
  qed
qed

lemma lender_effect:
  "get_invoice_lender fc x s = Inr (l, s') \<Longrightarrow> core_effect h s s' \<and> oracle_same s s'"
  "set_invoice_lender e x a s = Inr s' \<Longrightarrow> core_effect h s s' \<and> oracle_same s s'"
proof -
  have "core_effect h s (s\<lparr>invlend := m\<rparr>) \<and> oracle_same s (s\<lparr>invlend := m\<rparr>)" for m
    by (auto simp: core_def oracle_same_def intro!: eff_same)
  then show "get_invoice_lender fc x s = Inr (l, s') \<Longrightarrow> core_effect h s s' \<and> oracle_same s s'"
    "set_invoice_lender e x a s = Inr s' \<Longrightarrow> core_effect h s s' \<and> oracle_same s s'"
    using get_invoice_lender_ok [of fc x s l s'] by (auto simp: set_invoice_lender_def ok)
qed

lemma token_effect:
  "approve e a t s = Inr s' \<Longrightarrow> core_effect h s s' \<and> oracle_same s s'"
  "set_token_approval e a ap t s = Inr s' \<Longrightarrow> core_effect h s s' \<and> oracle_same s s'"
  "transfer e from to t s = Inr s' \<Longrightarrow> core_effect h s s' \<and> oracle_same s s'"
  "transfer_from e sp from to t s = Inr s' \<Longrightarrow> core_effect h s s' \<and> oracle_same s s'"
proof -
  have moved: "core_effect h s (token_moved t own to s) \<and> oracle_same s (token_moved t own to s)"
    if "may_transfer t own to s" for own
    using that by (auto simp: oracle_same_def token_moved_def registry_unfold intro: eff_transfer
        split: option.split)
  have appr: "core_effect h s s' \<and> oracle_same s s'"
    if "s' = publish ev (s\<lparr>tok_app := (tok_app s)(t := b)\<rparr>)" "tok_brn s t \<noteq> Some True" "tok_own s t \<noteq> None"
    for ev b
    using that by (auto simp: oracle_same_def intro: eff_approval)
  show "approve e a t s = Inr s' \<Longrightarrow> core_effect h s s' \<and> oracle_same s s'"
    "set_token_approval e a ap t s = Inr s' \<Longrightarrow> core_effect h s s' \<and> oracle_same s s'"
    using appr by (auto simp: approve_def set_token_approval_def ok)
  show "transfer e from to t s = Inr s' \<Longrightarrow> core_effect h s s' \<and> oracle_same s s'"
    "transfer_from e sp from to t s = Inr s' \<Longrightarrow> core_effect h s s' \<and> oracle_same s s'"
    by (auto simp: transfer_ok transfer_from_ok moved)
qed

lemmas single_effects = register_effect lifecycle_effect amount_effect amendment_effect lender_effect
  token_effect

lemma core_step_effects: "core_step h s s' \<Longrightarrow> (core_effect h)\<^sup>*\<^sup>* s s' \<and> oracle_same s s'"
  by (induction rule: core_step.induct) (auto dest: single_effects batch_effect)

lemmas admin_defs = gov_defs registry_upgrade_def registry_post_upgrade_def set_fee_recipient_def
  set_financing_contract_def set_repayment_contract_def set_rate_def set_fee_def
  blacklist_address_def unblacklist_address_def

lemma admin_step_effects: "admin_step s s' \<Longrightarrow> core_effect h s s' \<and> oracle_same s s'"
proof (cases rule: admin_step.cases)
  fix e sgs
  assume "registry_post_upgrade e sgs s = Inr s'"
  then have "core s' = core (backfill_originator_index s)" "oracle_same s s'"
    by (auto simp: admin_defs ok core_def oracle_same_def backfill_originator_index_def)
  then show ?thesis by (auto intro: eff_backfill)
qed (auto simp: admin_defs ok core_def oracle_same_def publish_def split: if_splits intro!: eff_same)

lemma oracle_step_effects: "oracle_step T p p' \<Longrightarrow> core_effect h (fst p) (fst p')"
proof (induction rule: oracle_step.induct)
  case (1 e x v ty hash ap s t a s' t')
  then show ?case by (rule attest_ok) (auto simp: core_def intro: eff_same)
qed (auto simp: expire_verifications_ok add_verifier_def remove_verifier_def set_verifier_threshold_def
    set_verification_fee_def set_attestation_validity_def registry_register_currency_def
    register_currency_token_def save_currency_registry_def ok Let_def core_def
    split: if_splits intro!: eff_same)

lemma registry_step_effects: "registry_step T h p p' \<Longrightarrow> (core_effect h)\<^sup>*\<^sup>* (fst p) (fst p')"
  by (induction rule: registry_step.induct)
    (auto dest: core_step_effects admin_step_effects [of _ _ h] oracle_step_effects [of _ _ _ h])

lemma registry_steps_effects: "(registry_step T h)\<^sup>*\<^sup>* p p' \<Longrightarrow> (core_effect h)\<^sup>*\<^sup>* (fst p) (fst p')"
  by (induction rule: rtranclp_induct) (auto dest: registry_step_effects)

subsection \<open>The lifecycle\<close>

lemma core_eqD:
  "core s' = core s \<Longrightarrow> invoices s' = invoices s" "core s' = core s \<Longrightarrow> by_origin s' = by_origin s"
  "core s' = core s \<Longrightarrow> tok_own s' = tok_own s" "core s' = core s \<Longrightarrow> tok_app s' = tok_app s"
  "core s' = core s \<Longrightarrow> tok_inv s' = tok_inv s" "core s' = core s \<Longrightarrow> tok_brn s' = tok_brn s"
  by (simp_all add: core_def)

lemma registered_sel [simp]:
  "invoices (registered e i s) = sm_set (invoices s) (inv_id i) i"
  "tok_own (registered e i s) = (tok_own s)(sha256_xdr e (inv_id i) \<mapsto> inv_originator i)"
  "tok_inv (registered e i s) = (tok_inv s)(sha256_xdr e (inv_id i) \<mapsto> inv_id i)"
  "tok_brn (registered e i s) = tok_brn s" "tok_app (registered e i s) = tok_app s"
  "by_origin (registered e i s) = Some ((load_originator_index s)(inv_originator i \<mapsto>
     insert_sorted_id (ids_of (load_originator_index s) (inv_originator i)) (inv_id i)))"
  by (simp_all add: registered_def registry_unfold)

lemma backfill_sel [simp]:
  "invoices (backfill_originator_index s) = invoices s" "tok_own (backfill_originator_index s) = tok_own s"
  "tok_app (backfill_originator_index s) = tok_app s" "tok_inv (backfill_originator_index s) = tok_inv s"
  "tok_brn (backfill_originator_index s) = tok_brn s"
  by (simp_all add: backfill_originator_index_def)

definition status_of :: "registry \<Rightarrow> symbol \<Rightarrow> invoice_status option" where
  "status_of s x = map_option inv_status (map_of (invoices s) x)"

interpretation invoice_life: lifecycle status_of "core_effect h" valid_edge for h
proof
  fix s s' x a
  assume "core_effect h s s'" and a: "status_of s x = Some a"
  then show "\<exists>b. status_of s' x = Some b \<and> (b = a \<or> valid_edge a b)"
  proof (induction rule: core_effect.induct)
    case (eff_transfer t src to s s')
    then show ?case
      by (auto simp: status_of_def core_def invoices_token_moved split: option.split)
  qed (auto simp: status_of_def core_def)
qed

text \<open>
  The invoice state machine is respected by the whole contract: along any run of entry points -
  registrations, lifecycle calls by anyone, disputes, amendments, token transfers, oracle and
  admin calls - an invoice never disappears, its status only ever moves along edges of the
  transition table, and once it is Repaid, Cancelled or Defaulted it keeps that status forever.
\<close>

theorem invoice_lifecycle:
  assumes "(registry_step T h)\<^sup>*\<^sup>* (s, t) (s', t')" and "get_invoice x s = Inr i"
  shows "\<exists>i'. get_invoice x s' = Inr i' \<and> valid_edge\<^sup>*\<^sup>* (inv_status i) (inv_status i') \<and>
    (is_terminal (inv_status i) \<longrightarrow> inv_status i' = inv_status i)"
proof -
  from registry_steps_effects [OF assms(1)] have run: "(core_effect h)\<^sup>*\<^sup>* s s'" by simp
  have start: "status_of s x = Some (inv_status i)" using assms(2) by (simp add: status_of_def ok)
  from invoice_life.steps_edges [OF run start] obtain i'
    where i': "get_invoice x s' = Inr i'" "valid_edge\<^sup>*\<^sup>* (inv_status i) (inv_status i')"
    by (auto simp: status_of_def ok)
  have "inv_status i' = inv_status i" if "is_terminal (inv_status i)"
    using invoice_life.terminal_absorbing [OF run start terminal_no_edge [OF that]] i'(1)
    by (simp add: status_of_def ok)
  with i' show ?thesis by blast
qed

lemma invoice_lifecycle_witness:
  "\<exists>s'. cancel_invoice (demo_env 5 (Address 100)) (Symbol ''a'') (Address 2) three_invoices =
      Inr ((demo_invoice ''a'' 2)\<lparr>inv_status := InvCancelled\<rparr>, s') \<and>
    (\<exists>i'. get_invoice (Symbol ''a'') s' = Inr i' \<and> valid_edge\<^sup>*\<^sup>* InvPending (inv_status i'))"
proof -
  have "map_of (invoices three_invoices) (Symbol ''a'') = Some (demo_invoice ''a'' 2)"
    "\<not> paused three_invoices" by (simp_all add: three_invoices_def)
  then obtain s' where s': "cancel_invoice (demo_env 5 (Address 100)) (Symbol ''a'') (Address 2) three_invoices =
      Inr ((demo_invoice ''a'' 2)\<lparr>inv_status := InvCancelled\<rparr>, s')"
    by (auto simp: cancel_invoice_ok may_move_def)
  then have "registry_step ledger_token (sha256_xdr (demo_env 5 (Address 100)))
      (three_invoices, oracle_ledger) (s', oracle_ledger)"
    by (auto intro: of_core core_step.intros)
  from invoice_lifecycle [OF r_into_rtranclp [of "registry_step _ _", OF this],
      of "Symbol ''a''" "demo_invoice ''a'' 2"] s' show ?thesis
    by (simp add: three_invoices_def ok)
qed

subsection \<open>Invariants of the store, the index and the tokens\<close>

definition registry_init :: "registry \<Rightarrow> bool" where
  "registry_init s \<longleftrightarrow> (\<exists>admin. registry_constructor admin empty_registry = Inr s)"

definition store_ok :: "registry \<Rightarrow> bool" where
  "store_ok s \<longleftrightarrow> sm_wf (invoices s) \<and> (\<forall>x i. map_of (invoices s) x = Some i \<longrightarrow> inv_id i = x)"

definition index_ok :: "registry \<Rightarrow> bool" where
  "index_ok s \<longleftrightarrow>
     (by_origin s = None \<longrightarrow> invoices s = []) \<and>
     (\<forall>a. sorted (ids_of (load_originator_index s) a)) \<and>
     (\<forall>a x. x \<in> set (ids_of (load_originator_index s) a) \<longrightarrow> map_of (invoices s) x \<noteq> None) \<and>
     (\<forall>x i. map_of (invoices s) x = Some i \<longrightarrow>
        x \<in> set (ids_of (load_originator_index s) (inv_originator i)))"

definition token_state_ok :: "(symbol \<Rightarrow> bytes32) \<Rightarrow> registry \<Rightarrow> symbol \<Rightarrow> invoice \<Rightarrow> bool" where
  "token_state_ok h s x i \<longleftrightarrow>
     tok_inv s (h x) = Some x \<and>
     (if is_terminal (inv_status i)
      then tok_brn s (h x) = Some True \<and> tok_own s (h x) = None \<and> tok_app s (h x) = None
      else tok_brn s (h x) \<noteq> Some True \<and> tok_own s (h x) = Some (inv_originator i))"

definition tokens_ok :: "(symbol \<Rightarrow> bytes32) \<Rightarrow> registry \<Rightarrow> bool" where
  "tokens_ok h s \<longleftrightarrow> (inj_on h (dom (map_of (invoices s))) \<longrightarrow>
     (\<forall>x i. map_of (invoices s) x = Some i \<longrightarrow> token_state_ok h s x i) \<and>
     (\<forall>t. tok_own s t \<noteq> None \<or> tok_brn s t = Some True \<longrightarrow> t \<in> h ` dom (map_of (invoices s))))"

definition registry_ok :: "(symbol \<Rightarrow> bytes32) \<Rightarrow> registry \<Rightarrow> bool" where
  "registry_ok h s \<longleftrightarrow> store_ok s \<and> index_ok s \<and> tokens_ok h s"

lemma ids_of_upd [simp]: "ids_of (m(a \<mapsto> l)) b = (if b = a then l else ids_of m b)"
  by (simp add: ids_of_def)

lemma core_ok_cong:
  assumes "core s' = core s"
  shows "store_ok s' = store_ok s" "index_ok s' = index_ok s" "tokens_ok h s' = tokens_ok h s"
  using core_eqD [OF assms]
  by (auto simp: store_ok_def index_ok_def tokens_ok_def token_state_ok_def load_originator_index_def)

lemma store_ok_effect: "core_effect h s s' \<Longrightarrow> store_ok s \<Longrightarrow> store_ok s'"
proof (induction rule: core_effect.induct)
  case (eff_transfer t src to s s')
  then show ?case
    by (auto simp: core_ok_cong [OF eff_transfer(2)])
      (auto simp: store_ok_def invoices_token_moved split: option.split)
qed (auto simp: core_def store_ok_def)

lemma load_index_Some: "by_origin s = Some m \<Longrightarrow> load_originator_index s = m"
  by (simp add: load_originator_index_def)

lemma index_ok_effect: "core_effect h s s' \<Longrightarrow> index_ok s \<Longrightarrow> store_ok s \<Longrightarrow> index_ok s'"
proof (induction rule: core_effect.induct)
  case (eff_register s i e s')
  then show ?case
    by (auto simp: core_ok_cong [OF eff_register(4)])
      (auto simp: index_ok_def load_index_Some [OF registered_sel(6)] sorted_insert_sorted_id; metis)
next
  case (eff_transfer t src to s s')
  show ?case
  proof (cases "tok_inv s t = None \<or> map_of (invoices s) (the (tok_inv s t)) = None")
    case True
    then have "by_origin (token_moved t src to s) = by_origin s"
      "invoices (token_moved t src to s) = invoices s"
      by (auto simp: by_origin_token_moved invoices_token_moved split: option.split)
    with eff_transfer(3) show ?thesis
      unfolding core_ok_cong(2) [OF eff_transfer(2)] by (simp add: index_ok_def load_originator_index_def)
  next
    case False
    then obtain x i where "tok_inv s t = Some x" "map_of (invoices s) x = Some i" by auto
    with eff_transfer show ?thesis
      by (auto simp: core_ok_cong [OF eff_transfer(2)])
        (auto simp: index_ok_def by_origin_token_moved invoices_token_moved load_index_Some
          sorted_insert_sorted_id split: if_splits)
  qed
next
  case (eff_backfill s' s)
  then have "backfill_originator_index s = s"
    by (auto simp: backfill_originator_index_def index_ok_def)
  with eff_backfill core_ok_cong(2) [of s' s] show ?case by simp
qed (auto simp: core_def index_ok_def load_originator_index_def)

lemma tokens_okD:
  assumes "tokens_ok h s" "inj_on h D" "dom (map_of (invoices s)) \<subseteq> D"
  shows "\<And>x i. map_of (invoices s) x = Some i \<Longrightarrow> token_state_ok h s x i"
    and "\<And>t. tok_own s t \<noteq> None \<or> tok_brn s t = Some True \<Longrightarrow> t \<in> h ` dom (map_of (invoices s))"
    and "\<And>x y. x \<in> D \<Longrightarrow> y \<in> D \<Longrightarrow> h x = h y \<Longrightarrow> x = y"
  using assms inj_on_subset [OF assms(2,3)] by (auto simp: tokens_ok_def dest: inj_onD)

lemma tokens_ok_register:
  assumes ok: "tokens_ok h s" and "map_of (invoices s) (inv_id i) = None" "inv_status i = InvPending"
    and h: "sha256_xdr e = h"
  shows "tokens_ok h (registered e i s)"
  unfolding tokens_ok_def
proof (intro impI conjI allI)
  let ?D = "dom (map_of (invoices (registered e i s)))"
  assume inj: "inj_on h ?D"
  have sub: "dom (map_of (invoices s)) \<subseteq> ?D" by auto
  note D = tokens_okD [OF ok inj sub]
  have fresh: "h y \<noteq> h (inv_id i)" if "map_of (invoices s) y = Some j" for y j
  proof
    assume "h y = h (inv_id i)"
    moreover have "y \<in> ?D" "inv_id i \<in> ?D" using that by auto
    ultimately have "y = inv_id i" by (intro D(3))
    with that assms(2) show False by simp
  qed
  have unburned: "tok_brn s (h (inv_id i)) \<noteq> Some True"
    using D(2) [of "h (inv_id i)"] fresh by (metis domD imageE)
  show "token_state_ok h (registered e i s) x j" if "map_of (invoices (registered e i s)) x = Some j" for x j
    using that D(1) [of x j] fresh [of x j] unburned assms(3)
    by (auto simp: token_state_ok_def h split: if_splits)
  show "t \<in> h ` ?D" if "tok_own (registered e i s) t \<noteq> None \<or> tok_brn (registered e i s) t = Some True" for t
    using that D(2) [of t] by (auto simp: h split: if_splits)
qed

lemma tokens_ok_status:
  assumes ok: "tokens_ok h s" and i: "map_of (invoices s) x = Some i" and edge: "valid_edge (inv_status i) new"
    and h: "sha256_xdr e = h"
  shows "tokens_ok h (status_effect e x i new actor s)"
  unfolding tokens_ok_def
proof (intro impI conjI allI)
  let ?s = "status_effect e x i new actor s"
  assume inj: "inj_on h (dom (map_of (invoices ?s)))"
  have dom: "dom (map_of (invoices ?s)) = dom (map_of (invoices s))" using i by auto
  note D = tokens_okD [OF ok inj, unfolded dom, OF subset_refl]
  have live: "\<not> is_terminal (inv_status i)" using edge terminal_no_edge by blast
  show "token_state_ok h ?s y j" if "map_of (invoices ?s) y = Some j" for y j
  proof (cases "y = x")
    case True
    with that D(1) [OF i] live show ?thesis by (auto simp: token_state_ok_def h)
  next
    case False
    with that have j: "map_of (invoices s) y = Some j" by simp
    with D(3) [of y x] i False have "h y \<noteq> h x" by auto
    with D(1) [OF j] show ?thesis by (auto simp: token_state_ok_def h)
  qed
  show "t \<in> h ` dom (map_of (invoices ?s))" if "tok_own ?s t \<noteq> None \<or> tok_brn ?s t = Some True" for t
    using that D(2) [of t] D(1) [OF i] live i unfolding dom
    by (auto simp: h token_state_ok_def split: if_splits)
qed

lemma tokens_ok_transfer:
  assumes ok: "tokens_ok h s" and may: "may_transfer t src to s"
  shows "tokens_ok h (token_moved t src to s)"
  unfolding tokens_ok_def
proof (intro impI conjI allI)
  let ?s = "token_moved t src to s"
  assume inj: "inj_on h (dom (map_of (invoices ?s)))"
  have dom: "dom (map_of (invoices ?s)) = dom (map_of (invoices s))"
    by (auto simp: invoices_token_moved split: option.splits if_splits)
  note D = tokens_okD [OF ok inj, unfolded dom, OF subset_refl]
  from may D(2) [of t] obtain x i where x: "t = h x" "map_of (invoices s) x = Some i"
    by (auto simp: may_transfer_def)
  from D(1) [OF x(2)] may have st: "tok_inv s t = Some x" "\<not> is_terminal (inv_status i)"
    "tok_brn s t \<noteq> Some True"
    by (auto simp: token_state_ok_def may_transfer_def x(1) split: if_splits)
  have inv': "invoices ?s = sm_set (invoices s) x (i\<lparr>inv_originator := to\<rparr>)"
    by (simp add: invoices_token_moved st(1) x(2))
  show "token_state_ok h ?s y j" if "map_of (invoices ?s) y = Some j" for y j
  proof (cases "y = x")
    case True
    with that have "j = i\<lparr>inv_originator := to\<rparr>" by (simp add: inv')
    with True st show ?thesis by (simp add: token_state_ok_def x(1))
  next
    case False
    with that have j: "map_of (invoices s) y = Some j" by (simp add: inv')
    with D(3) [of y x] x(2) False have "h y \<noteq> h x" by auto
    with D(1) [OF j] show ?thesis by (auto simp: token_state_ok_def x(1))
  qed
  show "t' \<in> h ` dom (map_of (invoices ?s))" if "tok_own ?s t' \<noteq> None \<or> tok_brn ?s t' = Some True" for t'
    using that D(2) [of t'] x unfolding dom by (auto split: if_splits)
qed

lemma tokens_ok_approval:
  assumes ok: "tokens_ok h s" and "tok_own s t \<noteq> None"
  shows "tokens_ok h (s\<lparr>tok_app := (tok_app s)(t := a)\<rparr>)"
  unfolding tokens_ok_def
proof (intro impI conjI allI)
  let ?s = "s\<lparr>tok_app := (tok_app s)(t := a)\<rparr>"
  assume inj: "inj_on h (dom (map_of (invoices ?s)))"
  note D = tokens_okD [OF ok inj, simplified]
  show "token_state_ok h ?s y j" if "map_of (invoices ?s) y = Some j" for y j
    using that D(1) [of y j] assms(2) by (auto simp: token_state_ok_def)
  show "t' \<in> h ` dom (map_of (invoices ?s))" if "tok_own ?s t' \<noteq> None \<or> tok_brn ?s t' = Some True" for t'
    using that D(2) [of t'] by auto
qed

lemma tokens_ok_terms:
  assumes "tokens_ok h s" "map_of (invoices s) x = Some i" "inv_originator i' = inv_originator i"
    "inv_status i' = inv_status i"
  shows "tokens_ok h (s\<lparr>invoices := sm_set (invoices s) x i'\<rparr>)"
proof -
  have "insert x (dom (map_of (invoices s))) = dom (map_of (invoices s))" using assms(2) by auto
  with assms show ?thesis by (auto simp: tokens_ok_def token_state_ok_def)
qed

lemma tokens_ok_effect: "core_effect h s s' \<Longrightarrow> tokens_ok h s \<Longrightarrow> tokens_ok h s'"
proof (induction rule: core_effect.induct)
  case (eff_same s' s)
  then show ?case by (simp add: core_ok_cong(3) [OF eff_same(1)])
next
  case (eff_register s i e s')
  then show ?case by (simp add: core_ok_cong(3) [OF eff_register(4)] tokens_ok_register)
next
  case (eff_status s x i new e s' actor)
  then show ?case by (simp add: core_ok_cong(3) [OF eff_status(4)] tokens_ok_status)
next
  case (eff_terms s x i i' s')
  then show ?case by (simp add: core_ok_cong(3) [OF eff_terms(5)] tokens_ok_terms)
next
  case (eff_transfer t src to s s')
  then show ?case by (simp add: core_ok_cong(3) [OF eff_transfer(2)] tokens_ok_transfer)
next
  case (eff_approval s t s' a)
  then show ?case by (simp add: core_ok_cong(3) [OF eff_approval(3)] tokens_ok_approval)
next
  case (eff_backfill s' s)
  then show ?case
    by (simp add: core_ok_cong(3) [OF eff_backfill(1)])
      (simp add: tokens_ok_def token_state_ok_def)
qed

lemma registry_init_fresh:
  assumes "registry_init s"
  shows "invoices s = [] \<and> by_origin s = None \<and> tok_own s = Map.empty \<and> tok_brn s = Map.empty \<and>
    verifs s = Map.empty \<and> verifrs s = [] \<and> verthr s = None"
  using assms
  by (auto simp: registry_init_def registry_constructor_def init_admin_config_def
      initialize_contract_version_def ok publish_def)

interpretation registry_core: invariant_system registry_init "core_effect h" "registry_ok h" for h
proof
  show "registry_ok h s" if "registry_init s" for s
    using registry_init_fresh [OF that]
    by (auto simp: registry_ok_def store_ok_def index_ok_def tokens_ok_def load_originator_index_def ids_of_def)
  show "registry_ok h s'" if "registry_ok h s" "core_effect h s s'" for s s'
    using that store_ok_effect index_ok_effect tokens_ok_effect by (auto simp: registry_ok_def)
qed

definition registry_start :: "registry \<times> 't \<Rightarrow> bool" where
  "registry_start p \<longleftrightarrow> registry_init (fst p)"

lemma registry_step_oracle_ok: "registry_step T h p p' \<Longrightarrow> oracle_ok (fst p) \<Longrightarrow> oracle_ok (fst p')"
  by (induction rule: registry_step.induct)
    (auto dest: core_step_effects admin_step_effects oracle_step_ok simp: oracle_same_ok)

interpretation registry_system:
  invariant_system registry_start "registry_step T h" "\<lambda>p. registry_ok h (fst p) \<and> oracle_ok (fst p)"
  for T :: "'t sep41" and h
proof
  show "registry_ok h (fst p) \<and> oracle_ok (fst p)" if "registry_start p" for p :: "registry \<times> 't"
    using that registry_core.init_inv [of "fst p"] registry_init_fresh [of "fst p"]
    by (auto simp: registry_start_def oracle_ok_def get_verifier_threshold_def load_verifications_def one_per_key_def)
  show "registry_ok h (fst p') \<and> oracle_ok (fst p')"
    if "registry_ok h (fst p) \<and> oracle_ok (fst p)" "registry_step T h p p'" for p p' :: "registry \<times> 't"
    using that registry_step_effects [OF that(2)] registry_core.steps_inv registry_step_oracle_ok by blast
qed

text \<open>A concrete run from the constructor: one invoice registered by \<open>Address 2\<close>.\<close>

abbreviation demo_hash :: "symbol \<Rightarrow> bytes32" where
  "demo_hash \<equiv> sha256_xdr (demo_env 5 (Address 100))"

lemma demo_run:
  obtains s where "reach registry_start (registry_step ledger_token demo_hash) (s, oracle_ledger)"
    and "invoices s = [(Symbol ''a'', demo_invoice ''a'' 2)]" and "\<not> paused s" and "verifrs s = []"
    and "ids_of (load_originator_index s) (Address 2) = [Symbol ''a'']"
proof -
  from parse_cargo_version have "\<exists>s0. registry_constructor (Address 9) empty_registry = Inr s0"
    by (simp add: registry_constructor_def init_admin_config_def initialize_contract_version_def)
  then obtain s0 where s0: "registry_constructor (Address 9) empty_registry = Inr s0" by blast
  have fresh: "invoices s0 = []" "by_origin s0 = None" "\<not> paused s0" "blklist s0 = []" "stats s0 = None" "verifrs s0 = []"
    using s0 by (auto simp: registry_constructor_def init_admin_config_def initialize_contract_version_def ok publish_def)
  obtain s where s: "register_invoice (demo_env 5 (Address 100)) (Symbol ''a'') (Address 2) 50000000
      (Symbol ''USDC'') 1000 s0 = Inr (demo_invoice ''a'' 2, s)"
    and sel: "invoices s = [(Symbol ''a'', demo_invoice ''a'' 2)]" "\<not> paused s" "verifrs s = []"
      "ids_of (load_originator_index s) (Address 2) = [Symbol ''a'']"
    using fresh by (simp add: register_invoice_def assert_not_paused_def require_auth_def
        assert_not_blacklisted_def Let_def add_u32_def load_stats_def sm_has_def registry_unfold
        demo_invoice_def load_originator_index_def ids_of_def insert_sorted_id_def)
  have "reach registry_start (registry_step ledger_token demo_hash) (s0, oracle_ledger)"
    using s0 by (intro reach_init) (auto simp: registry_start_def registry_init_def)
  moreover have "registry_step ledger_token demo_hash (s0, oracle_ledger) (s, oracle_ledger)"
    using s by (intro of_core core_step.intros(1)) (rule refl)
  ultimately show ?thesis using that sel reach_step by metis
qed

text \<open>
  C11. The invoice token and the registry never disagree: in every state the contract can reach, as
  long as the digests of the registered ids do not collide, the token of a live invoice exists and
  its owner is the invoice's originator, and the token of a Repaid, Cancelled or Defaulted invoice
  is burned, has no owner and nobody is approved for it.
\<close>

theorem token_owner_is_originator:
  assumes "reach registry_start (registry_step T h) (s, t)"
    and "inj_on h (dom (map_of (invoices s)))" and "get_invoice x s = Inr i"
  shows "if is_terminal (inv_status i)
    then is_token_burned (h x) s \<and> owner_of (h x) s = Inl (Contract NotFound) \<and> get_approved (h x) s = None
    else \<not> is_token_burned (h x) s \<and> owner_of (h x) s = Inr (inv_originator i) \<and>
      get_invoice_by_token (h x) s = Inr i"
proof -
  from registry_system.reach_inv [OF assms(1)] have "tokens_ok h s" by (simp add: registry_ok_def)
  from tokens_okD(1) [OF this assms(2) subset_refl, of x i] assms(3) show ?thesis
    by (auto simp: token_state_ok_def ok is_token_burned_def owner_of_def get_approved_def
        get_invoice_by_token_def)
qed

lemma token_owner_is_originator_witness:
  "\<exists>s. reach registry_start (registry_step ledger_token demo_hash) (s, oracle_ledger) \<and>
     owner_of (demo_hash (Symbol ''a'')) s = Inr (Address 2)"
proof -
  obtain s where s: "reach registry_start (registry_step ledger_token demo_hash) (s, oracle_ledger)"
    "invoices s = [(Symbol ''a'', demo_invoice ''a'' 2)]"
    by (rule demo_run)
  then have "inj_on demo_hash (dom (map_of (invoices s)))"
    "get_invoice (Symbol ''a'') s = Inr (demo_invoice ''a'' 2)"
    by (simp_all add: ok)
  from token_owner_is_originator [OF s(1) this] s(1) show ?thesis by auto
qed

text \<open>
  The originator index is sound, complete and sorted: in every reachable state the ids listed
  for any address are in ascending order and are ids of registered invoices, and every registered
  invoice is listed under its current originator.
\<close>

theorem originator_index_complete:
  assumes "reach registry_start (registry_step T h) (s, t)"
  shows "sorted (ids_of (load_originator_index s) a) \<and>
    (\<forall>x \<in> set (ids_of (load_originator_index s) a). \<exists>i. get_invoice x s = Inr i \<and> inv_id i = x) \<and>
    (\<forall>x i. get_invoice x s = Inr i \<longrightarrow> x \<in> set (ids_of (load_originator_index s) (inv_originator i)))"
proof -
  from registry_system.reach_inv [OF assms] have "index_ok s" "store_ok s" by (auto simp: registry_ok_def)
  then show ?thesis by (fastforce simp: index_ok_def store_ok_def ok)
qed

lemma originator_index_complete_witness:
  "\<exists>s. reach registry_start (registry_step ledger_token demo_hash) (s, oracle_ledger) \<and>
     Symbol ''a'' \<in> set (ids_of (load_originator_index s) (Address 2))"
proof -
  obtain s where s: "reach registry_start (registry_step ledger_token demo_hash) (s, oracle_ledger)"
    "invoices s = [(Symbol ''a'', demo_invoice ''a'' 2)]"
    by (rule demo_run)
  then have "get_invoice (Symbol ''a'') s = Inr (demo_invoice ''a'' 2)" by (simp add: ok)
  with originator_index_complete [OF s(1)] s(1) show ?thesis by fastforce
qed

text \<open>
  The oracle's lists stay bounded: in every reachable state there are at most twenty verifiers,
  all different, the threshold lies between one and twenty, and no invoice carries more than sixty
  attestations or two by the same verifier about the same fact.
\<close>

theorem oracle_bounded:
  assumes "reach registry_start (registry_step T h) (s, t)"
  shows "distinct (get_verifiers s) \<and> length (get_verifiers s) \<le> 20 \<and>
    1 \<le> get_verifier_threshold s \<and> get_verifier_threshold s \<le> 20 \<and>
    length (get_verifications x s) \<le> 60 \<and>
    (\<forall>v ty. length [a \<leftarrow> get_verifications x s. at_verifier a = v \<and> at_type a = ty] \<le> 1)"
proof -
  from registry_system.reach_inv [OF assms] have ok: "oracle_ok s" by simp
  have "length [a \<leftarrow> l. at_verifier a = v \<and> at_type a = ty] \<le> 1" if "one_per_key l" for l v ty
    using that
  proof (induction l)
    case (Cons a l)
    have "[b \<leftarrow> l. at_verifier b = v \<and> at_type b = ty] = []" if "at_verifier a = v" "at_type a = ty"
    proof -
      have "(v, ty) \<notin> (\<lambda>b. (at_verifier b, at_type b)) ` set l"
        using that Cons.prems by (simp add: one_per_key_def)
      then show ?thesis unfolding filter_empty_conv by (metis (no_types, lifting) image_eqI)
    qed
    with Cons show ?case by (auto simp: one_per_key_def)
  qed simp
  with ok show ?thesis by (simp add: oracle_ok_def get_verifications_def get_verifiers_def)
qed

lemma oracle_bounded_witness:
  "\<exists>s. reach registry_start (registry_step ledger_token demo_hash) (s, oracle_ledger) \<and>
     1 \<le> get_verifier_threshold s \<and> length (get_verifications (Symbol ''a'') s) \<le> 60"
proof -
  obtain s where s: "reach registry_start (registry_step ledger_token demo_hash) (s, oracle_ledger)"
    by (rule demo_run)
  from oracle_bounded [OF this, of "Symbol ''a''"] s show ?thesis by blast
qed

subsection \<open>What the lifecycle lets a single party do\<close>

text \<open>
  \<open>update_invoice_status\<close> is not the cancellation its documentation describes: for every legal
  edge out of the invoice's status, the originator alone - without the financing contract, the
  repayment contract, a lender or an admin - can take it. In particular an originator can declare
  a Financed invoice Repaid, which burns its token.
\<close>

theorem originator_drives_any_edge:
  assumes "\<not> paused s" and "get_invoice x s = Inr i" and "authorizes e (inv_originator i)"
    and "valid_edge (inv_status i) new"
  shows "\<exists>s'. update_invoice_status e x (inv_originator i) new s = Inr (i\<lparr>inv_status := new\<rparr>, s') \<and>
    get_invoice x s' = Inr (i\<lparr>inv_status := new\<rparr>)"
  using assms by (auto simp: update_invoice_status_ok may_move_def ok)

lemma originator_drives_any_edge_witness:
  "\<exists>s'. update_invoice_status (demo_env 5 (Address 100)) (Symbol ''a'') (Address 2) InvRepaid
      amending_registry = Inr ((demo_invoice ''a'' 2)\<lparr>inv_status := InvRepaid\<rparr>, s')"
proof -
  let ?i = "(demo_invoice ''a'' 2)\<lparr>inv_status := InvFinanced\<rparr>"
  have "\<not> paused amending_registry" "get_invoice (Symbol ''a'') amending_registry = Inr ?i"
    "valid_edge (inv_status ?i) InvRepaid"
    by (simp_all add: amending_registry_def ok)
  from originator_drives_any_edge [OF this(1,2) _ this(3), of "demo_env 5 (Address 100)"] show ?thesis
    by auto
qed

text \<open>
  \<open>set_invoice_repaid_status\<close> asks for the repayer's signature but never compares it with anyone:
  any address at all can mark any Financed (or Disputed) invoice as Repaid, and the invoice then
  stays Repaid.
\<close>

theorem anyone_can_mark_repaid:
  assumes "\<not> paused s" and "get_invoice x s = Inr i" and "inv_status i \<in> {InvFinanced, InvDisputed}"
    and "authorizes e anyone"
  shows "\<exists>s'. set_invoice_repaid_status e x anyone True s = Inr (i\<lparr>inv_status := InvRepaid\<rparr>, s') \<and>
    get_invoice x s' = Inr (i\<lparr>inv_status := InvRepaid\<rparr>)"
  using assms by (auto simp: set_invoice_repaid_status_ok may_move_def ok)

lemma anyone_can_mark_repaid_witness:
  "\<exists>s'. set_invoice_repaid_status (demo_env 5 (Address 100)) (Symbol ''a'') (Address 66) True
      amending_registry = Inr ((demo_invoice ''a'' 2)\<lparr>inv_status := InvRepaid\<rparr>, s')"
proof -
  let ?i = "(demo_invoice ''a'' 2)\<lparr>inv_status := InvFinanced\<rparr>"
  have "\<not> paused amending_registry" "get_invoice (Symbol ''a'') amending_registry = Inr ?i"
    "inv_status ?i \<in> {InvFinanced, InvDisputed}"
    by (simp_all add: amending_registry_def ok)
  from anyone_can_mark_repaid [OF this, of "demo_env 5 (Address 100)" "Address 66"] show ?thesis by auto
qed

end
