(* ===== verification/Protocol.thy ===== *)
theory Protocol
  imports Repayment_Books Negotiation Registry_System
begin

text \<open>
  The five contracts together. \<open>protocol_step\<close> has a case for every entry point of the financing,
  repayment, insurance and reputation contracts and takes the registry's steps as a whole; \<open>rp\<close> is the
  address of the repayment contract. Two facts of the deployment are built into the cases: the
  repayment contract runs at \<open>rp\<close>, and no outside caller can authorize as \<open>rp\<close>, because a contract
  address signs only for the calls it makes itself. The admin of the financing contract, when it
  names a repayment contract, names \<open>rp\<close>.
\<close>

subsection \<open>Steps\<close>

inductive financing_callback :: "env \<Rightarrow> financing \<Rightarrow> financing \<Rightarrow> bool" for e where
  "update_offer_status e x st f = Inr f' \<Longrightarrow> financing_callback e f f'"
| "update_offer_amount_repaid e x n f = Inr f' \<Longrightarrow> financing_callback e f f'"
| "update_lender_stats_repaid e a b f = Inr f' \<Longrightarrow> financing_callback e f f'"
| "update_stats_repaid e n m f = Inr f' \<Longrightarrow> financing_callback e f f'"

inductive financing_admin :: "address \<Rightarrow> financing \<Rightarrow> financing \<Rightarrow> bool" for rp where
  "fin_set_repayment_contract e sgs rp f = Inr f' \<Longrightarrow> financing_admin rp f f'"
| "financing_register_currency e sgs c a f = Inr f' \<Longrightarrow> financing_admin rp f f'"
| "set_position_token e sgs a f = Inr f' \<Longrightarrow> financing_admin rp f f'"
| "set_negotiation_window e sgs k f = Inr f' \<Longrightarrow> financing_admin rp f f'"
| "gov_step f f' \<Longrightarrow> financing_admin rp f f'"

inductive repayment_admin :: "repayment \<Rightarrow> repayment \<Rightarrow> bool" where
  "set_insurance e sgs a p = Inr p' \<Longrightarrow> repayment_admin p p'"
| "set_reputation e sgs a p = Inr p' \<Longrightarrow> repayment_admin p p'"
| "set_penalty e sgs n m p = Inr p' \<Longrightarrow> repayment_admin p p'"
| "gov_step p p' \<Longrightarrow> repayment_admin p p'"

inductive protocol_step :: "'t sep41 \<Rightarrow> address \<Rightarrow> 't rworld \<Rightarrow> 't rworld \<Rightarrow> bool" for T rp where
  ps_repay: "current_contract e = rp \<Longrightarrow> repay_invoice T e x y a amt w = Inr (i, w') \<Longrightarrow> protocol_step T rp w w'"
| ps_overdue: "current_contract e = rp \<Longrightarrow> mark_overdue e x w = Inr (i, w') \<Longrightarrow> protocol_step T rp w w'"
| ps_reclaim: "current_contract e = rp \<Longrightarrow> reclaim_invoice T e x y a w = Inr (o1, w') \<Longrightarrow> protocol_step T rp w w'"
| ps_repayment: "repayment_admin (w_repayment w) p \<Longrightarrow> protocol_step T rp w (w\<lparr>w_repayment := p\<rparr>)"
| ps_offer: "offer_step T w w' \<Longrightarrow> protocol_step T rp w w'"
| ps_callback: "\<not> authorizes e rp \<Longrightarrow> financing_callback e (w_financing w) f \<Longrightarrow>
    protocol_step T rp w (w\<lparr>w_financing := f\<rparr>)"
| ps_financing: "financing_admin rp (w_financing w) f \<Longrightarrow> protocol_step T rp w (w\<lparr>w_financing := f\<rparr>)"
| ps_registry: "registry_step T h (w_registry w, w_token w) (r, t) \<Longrightarrow>
    protocol_step T rp w (w\<lparr>w_registry := r, w_token := t\<rparr>)"
| ps_insurance: "insurance_step T (w_insurance w, w_token w) (s, t) \<Longrightarrow>
    protocol_step T rp w (w\<lparr>w_insurance := s, w_token := t\<rparr>)"
| ps_reputation: "reputation_step (w_reputation w) s \<Longrightarrow> protocol_step T rp w (w\<lparr>w_reputation := s\<rparr>)"

subsection \<open>What steps leave alone\<close>

lemma gov_step_currency: "gov_step s s' \<Longrightarrow> curtok s' = curtok s \<and> default_token s' = default_token s"
  by (induction rule: gov_step.induct) (auto simp: gov_defs ok publish_def)

lemma offer_step_repayment:
  "offer_step T w w' \<Longrightarrow> fin_repayment (w_financing w') = fin_repayment (w_financing w) \<and> fworld.more w' = fworld.more w"
proof (induction rule: offer_step.induct)
  case (3 e x a w o1 w')
  then show ?case by (auto elim!: accept_offer_ok settle_ok)
next
  case (5 e x a n amt r d w o1 w')
  then show ?case
    by (auto elim!: amend_offer_ok execute_agreement_ok settle_ok split: if_splits)
next
  case (6 e x a n amt r d w o1 w')
  then show ?case
    by (auto elim!: counter_offer_ok execute_agreement_ok settle_ok split: if_splits)
qed (auto simp: create_offer_def withdraw_offer_def reject_offer_def close_negotiation_def schedule_repayment_def
    ok Let_def publish_financing)

lemma more_repayment:
  "fworld.more w' = fworld.more w \<Longrightarrow> w_repayment w' = w_repayment w" for w w' :: "('t, 'z) rworld_scheme"
  by (cases w; cases w') simp

lemma callback_blocked:
  assumes "financing_callback e f f'" and "\<not> authorizes e rp" and "fin_repayment f \<in> {None, Some rp}"
  shows False
  using assms
  by (induction rule: financing_callback.induct)
    (auto simp: update_offer_status_def update_offer_amount_repaid_def update_lender_stats_repaid_def
      update_stats_repaid_def ok)

lemma financing_admin_frame:
  "financing_admin rp f f' \<Longrightarrow> offers f' = offers f \<and> (fin_repayment f' = fin_repayment f \<or> fin_repayment f' = Some rp)"
proof (induction rule: financing_admin.induct)
  case (5 f f')
  then show ?case by (auto dest!: gov_step_more) (cases f; cases f'; simp)+
qed (auto simp: fin_set_repayment_contract_def financing_register_currency_def set_position_token_def
    set_negotiation_window_def register_currency_token_def save_currency_registry_def ok)

lemma more_pays: "base.more p' = base.more p \<Longrightarrow> pays p' = pays p" for p p' :: repayment
  by (cases p; cases p') simp

lemma repayment_admin_frame:
  "repayment_admin p p' \<Longrightarrow> pays p' = pays p \<and> curtok p' = curtok p \<and> default_token p' = default_token p"
proof (induction rule: repayment_admin.induct)
  case (4 p p')
  then show ?case using gov_step_currency more_pays gov_step_more by blast
qed (auto simp: set_insurance_def set_reputation_def set_penalty_def ok)

subsection \<open>The books\<close>

definition owed_part :: "symbol \<Rightarrow> financing_offer \<Rightarrow> int" where
  "owed_part x o0 = (if off_invoice_id o0 = x then off_amount_repaid o0 else 0)"

definition repaid_on :: "symbol \<Rightarrow> (symbol \<rightharpoonup> financing_offer) \<Rightarrow> int" where
  "repaid_on x m = (\<Sum>k\<in>dom m. owed_part x (the (m k)))"

definition history_ok :: "payment_record list \<Rightarrow> bool" where
  "history_ok h \<longleftrightarrow> (\<forall>k < length h. pay_id (h ! k) = k + 1 \<and> 0 < pay_amount (h ! k) \<and> 0 \<le> pay_interest_paid (h ! k) \<and>
     0 \<le> pay_principal_paid (h ! k) \<and> pay_interest_paid (h ! k) + pay_principal_paid (h ! k) = pay_amount (h ! k))"

definition books_ok :: "address \<Rightarrow> 't rworld \<Rightarrow> bool" where
  "books_ok rp w \<longleftrightarrow> fin_repayment (w_financing w) \<in> {None, Some rp} \<and> curtok (w_repayment w) = Map.empty \<and>
     (\<forall>x. repaid_on x (offer_at w) = (\<Sum>r\<leftarrow>load_payments x (w_repayment w). pay_principal_paid r)) \<and>
     (\<forall>x. history_ok (load_payments x (w_repayment w)))"

text \<open>Any state of a deployment before the first repayment.\<close>

definition before_repayments :: "address \<Rightarrow> 't rworld \<Rightarrow> bool" where
  "before_repayments rp w \<longleftrightarrow> fin_repayment (w_financing w) \<in> {None, Some rp} \<and> curtok (w_repayment w) = Map.empty \<and>
     pays (w_repayment w) = Map.empty \<and> (\<forall>(k, o0) \<in> set (offers (w_financing w)). off_amount_repaid o0 = 0)"

lemma finite_offer_at [simp]: "finite (dom (offer_at w))"
  by (simp add: offer_at_def [abs_def] finite_dom_map_of)

lemma repaid_on_upd:
  assumes "finite (dom m)"
  shows "repaid_on x (m(k \<mapsto> v)) = repaid_on x m - (case m k of None \<Rightarrow> 0 | Some o0 \<Rightarrow> owed_part x o0) + owed_part x v"
proof -
  let ?g = "\<lambda>j. owed_part x (the (m j))"
  have "repaid_on x (m(k \<mapsto> v)) = owed_part x v + (\<Sum>j\<in>dom m - {k}. owed_part x (the ((m(k \<mapsto> v)) j)))"
    using assms by (simp add: repaid_on_def sum.insert_remove)
  also have "(\<Sum>j\<in>dom m - {k}. owed_part x (the ((m(k \<mapsto> v)) j))) = sum ?g (dom m - {k})"
    by (rule sum.cong) auto
  also have "sum ?g (dom m - {k}) = repaid_on x m - (case m k of None \<Rightarrow> 0 | Some o0 \<Rightarrow> owed_part x o0)"
    using assms by (cases "m k") (auto simp: repaid_on_def sum.remove [of "dom m" k] domI domIff)
  finally show ?thesis by linarith
qed

lemma offer_effect_repaid: "offer_effect w w' \<Longrightarrow> repaid_on x (offer_at w') = repaid_on x (offer_at w)"
  by (auto simp: offer_effect_def repaid_on_upd owed_part_def offer_edge_def same_deal_def)

lemma history_ok_snoc:
  "history_ok h \<Longrightarrow> pay_id r = length h + 1 \<Longrightarrow> 0 < pay_amount r \<Longrightarrow> 0 \<le> pay_interest_paid r \<Longrightarrow> 0 \<le> pay_principal_paid r \<Longrightarrow>
     pay_interest_paid r + pay_principal_paid r = pay_amount r \<Longrightarrow> history_ok (h @ [r])"
  by (auto simp: history_ok_def nth_append less_Suc_eq)

lemma interest_now_nonneg: "0 \<le> interest_now e n o0"
proof (cases "0 < n \<and> 0 < off_interest_rate o0")
  case True
  then have "0 \<le> sat_i128 (n * int (off_interest_rate o0))" using sat_i128_nonneg by simp
  then have "0 \<le> sat_i128 (sat_i128 (n * int (off_interest_rate o0)) * d)" if "0 < d" for d
    using that sat_i128_nonneg by simp
  then show ?thesis by (auto simp: interest_now_def pro_rata_interest_def pos_imp_zdiv_nonneg_iff)
qed (auto simp: interest_now_def pro_rata_interest_def)

lemma books_repay:
  assumes "repay_invoice T e x y a amt w = Inr (i', w')" and "books_ok rp w" and "current_contract e = rp"
  shows "books_ok rp w'"
  using assms(1)
proof (rule repay_invoice_ok)
  fix i o0 rem acc fee tok full
  assume o0: "map_of (offers (w_financing w)) y = Some o0" "off_invoice_id o0 = x" and amt: "0 < amt"
    and ob: "repay_obligation e x i o0 amt (w_repayment w) = Inr (rem, acc)"
    and offs: "offers (w_financing w') = sm_set (offers (w_financing w)) y (paid_offer (amt - min amt acc) full o0)"
    and hist: "pays (w_repayment w') = (pays (w_repayment w))(x \<mapsto> load_payments x (w_repayment w) @
       [paid_record e x a amt acc (w_repayment w)])"
    and cur: "curtok (w_repayment w') = curtok (w_repayment w)"
    and frp: "fin_repayment (w_financing w') = fin_repayment (w_financing w)"
  let ?pr = "amt - min amt acc" and ?r = "paid_record e x a amt acc (w_repayment w)"
  have upd: "offer_at w' = (offer_at w)(y \<mapsto> paid_offer ?pr full o0)" by (simp add: offer_at_def fun_eq_iff offs)
  have load: "load_payments z (w_repayment w') = load_payments z (w_repayment w) @ (if z = x then [?r] else [])" for z
    by (simp add: load_payments_def hist)
  have "0 \<le> acc" using repay_obligation_ok [OF ob] interest_now_nonneg by simp
  then have "history_ok (load_payments x (w_repayment w) @ [?r])"
    using assms(2) amt by (intro history_ok_snoc) (auto simp: books_ok_def paid_record_def)
  moreover have "repaid_on z (offer_at w') = repaid_on z (offer_at w) + (if z = x then ?pr else 0)" for z
    using o0 by (simp add: upd repaid_on_upd offer_at_def owed_part_def paid_offer_def)
  ultimately show ?thesis
    using assms(2) cur frp by (simp add: books_ok_def load) (simp add: paid_record_def)
qed

lemma books_cong:
  assumes "books_ok rp w" and "offer_at w' = offer_at w" and "w_repayment w' = w_repayment w"
    and "fin_repayment (w_financing w') \<in> {None, Some rp}"
  shows "books_ok rp w'"
  using assms by (simp add: books_ok_def)

lemma offer_at_same: "w_financing w' = w_financing w \<Longrightarrow> offer_at w' = offer_at w"
  by (simp add: offer_at_def [abs_def])

lemma books_reclaim:
  assumes "reclaim_invoice T e x y a w = Inr (o1, w')" and "books_ok rp w"
  shows "books_ok rp w'"
  using assms(1)
proof (rule reclaim_invoice_ok)
  fix i o0 payout
  assume guard: "reclaim_guard e x y a w = Inr (i, o0)" and o1: "o1 = o0\<lparr>off_status := OffDefaulted\<rparr>"
    and offs: "offers (w_financing w') = sm_set (offers (w_financing w)) y o1"
    and frp: "fin_repayment (w_financing w') = fin_repayment (w_financing w)"
    and p': "w_repayment w' = publish (Ev_off_def (off_id o0) x a payout
       (penalty_now e (inv_due_date i) o0 (w_repayment w))) (w_repayment w)"
  have "offer_at w' = (offer_at w)(y \<mapsto> o1)" by (simp add: offer_at_def fun_eq_iff offs)
  moreover have "offer_at w y = Some o0" using guard by (simp add: reclaim_guard_ok offer_at_def)
  ultimately have "repaid_on z (offer_at w') = repaid_on z (offer_at w)" for z
    using o1 by (simp add: repaid_on_upd owed_part_def)
  moreover have "load_payments z (w_repayment w') = load_payments z (w_repayment w)" for z
    by (simp add: load_payments_def p')
  ultimately show ?thesis using assms(2) frp p' by (simp add: books_ok_def)
qed

lemma books_repayment_admin:
  "books_ok rp w \<Longrightarrow> repayment_admin (w_repayment w) p \<Longrightarrow> books_ok rp (w\<lparr>w_repayment := p\<rparr>)"
  using repayment_admin_frame [of "w_repayment w" p]
  by (simp add: books_ok_def load_payments_def offer_at_def [abs_def])

interpretation protocol: invariant_system "before_repayments rp" "protocol_step T rp" "books_ok rp" for T :: "'t sep41" and rp
proof
  fix w :: "'t rworld"
  assume w: "before_repayments rp w"
  have "owed_part x (the (offer_at w k)) = 0" if "k \<in> dom (offer_at w)" for x k
    using that w by (auto simp: before_repayments_def owed_part_def offer_at_def dest!: map_of_SomeD)
  then show "books_ok rp w"
    using w by (simp add: before_repayments_def books_ok_def repaid_on_def load_payments_def history_ok_def)
next
  fix w w' :: "'t rworld"
  assume inv: "books_ok rp w" and "protocol_step T rp w w'"
  from this(2) show "books_ok rp w'"
  proof cases
    case ps_repay
    then show ?thesis using books_repay inv by blast
  next
    case (ps_overdue e x i)
    then have "w_financing w' = w_financing w" "w_repayment w' = w_repayment w" by (auto simp: mark_overdue_def ok)
    with inv show ?thesis by (intro books_cong [OF inv] offer_at_same) (simp_all add: books_ok_def)
  next
    case ps_reclaim
    then show ?thesis using books_reclaim inv by blast
  next
    case ps_repayment
    with inv show ?thesis by (simp add: books_repayment_admin)
  next
    case ps_offer
    then have "repaid_on x (offer_at w') = repaid_on x (offer_at w)" for x
      by (intro offer_effect_repaid offer_step_effect)
    moreover have "w_repayment w' = w_repayment w" using ps_offer offer_step_repayment more_repayment by blast
    ultimately show ?thesis using inv offer_step_repayment [OF ps_offer] by (simp add: books_ok_def)
  next
    case (ps_callback e f)
    then show ?thesis using callback_blocked [OF ps_callback(3,2)] inv by (simp add: books_ok_def)
  next
    case (ps_financing f)
    with financing_admin_frame [OF ps_financing(2)] inv show ?thesis
      by (intro books_cong [OF inv]) (auto simp: offer_at_def [abs_def] books_ok_def)
  qed (use inv in \<open>simp_all add: books_ok_def offer_at_def [abs_def]\<close>)
qed

subsection \<open>What the books guarantee\<close>

text \<open>
  C3. The repayment contract's history and the financing contract's offers agree, whatever the
  contracts and their users do: from any state without repayments, along every sequence of protocol
  steps, the principal recorded in an invoice's payment history is the sum of the repaid amounts of
  the offers on that invoice, and every history is a sequence of positive payments numbered from
  one, each split exactly into a non-negative interest and principal part.
\<close>

theorem payments_match_offers:
  assumes "reach (before_repayments rp) (protocol_step T rp) w"
  shows "(\<Sum>r\<leftarrow>get_payment_history x (w_repayment w). pay_principal_paid r) =
      (\<Sum>k | \<exists>o0. get_offer k (w_financing w) = Inr o0 \<and> off_invoice_id o0 = x.
         off_amount_repaid (the (map_of (offers (w_financing w)) k))) \<and>
    (\<forall>k < length (get_payment_history x (w_repayment w)).
      let r = get_payment_history x (w_repayment w) ! k in pay_id r = k + 1 \<and> 0 < pay_amount r \<and>
        0 \<le> pay_interest_paid r \<and> 0 \<le> pay_principal_paid r \<and>
        pay_interest_paid r + pay_principal_paid r = pay_amount r)"
proof -
  from assms have inv: "books_ok rp w" by (rule protocol.reach_inv)
  let ?A = "{k. \<exists>o0. get_offer k (w_financing w) = Inr o0 \<and> off_invoice_id o0 = x}"
  have "?A \<subseteq> dom (offer_at w)" by (auto simp: offer_at_def ok)
  then have "repaid_on x (offer_at w) = (\<Sum>k\<in>?A. owed_part x (the (offer_at w k)))"
    unfolding repaid_on_def
    by (intro sum.mono_neutral_right) (auto simp: owed_part_def offer_at_def ok)
  also have "\<dots> = (\<Sum>k\<in>?A. off_amount_repaid (the (map_of (offers (w_financing w)) k)))"
    by (intro sum.cong) (auto simp: owed_part_def offer_at_def ok)
  finally show ?thesis using inv by (simp add: books_ok_def history_ok_def get_payment_history_def Let_def)
qed

lemma before_rep_world:
  assumes "\<forall>(k, o0) \<in> set offs. off_amount_repaid o0 = 0"
  shows "before_repayments (Address 102) (rep_world st offs)"
  using assms by (simp add: before_repayments_def)

lemma payments_match_offers_witness:
  "\<exists>i' w'. repay_invoice ledger_token (renv 173800) (Symbol ''a'') (Symbol ''o'') (Address 2) 40010958
     (rep_world InvFinanced [(Symbol ''o'', loan)]) = Inr (i', w') \<and>
     (\<Sum>r\<leftarrow>get_payment_history (Symbol ''a'') (w_repayment w'). pay_principal_paid r) =
       (\<Sum>k | \<exists>o0. get_offer k (w_financing w') = Inr o0 \<and> off_invoice_id o0 = Symbol ''a''.
         off_amount_repaid (the (map_of (offers (w_financing w')) k)))"
proof -
  obtain i' w' where run: "repay_invoice ledger_token (renv 173800) (Symbol ''a'') (Symbol ''o'') (Address 2) 40010958
     (rep_world InvFinanced [(Symbol ''o'', loan)]) = Inr (i', w')" using demo_repay by blast
  have "before_repayments (Address 102) (rep_world InvFinanced [(Symbol ''o'', loan)])" by (simp add: before_rep_world)
  moreover have "protocol_step ledger_token (Address 102) (rep_world InvFinanced [(Symbol ''o'', loan)]) w'"
    by (rule ps_repay [OF _ run]) simp
  ultimately have "reach (before_repayments (Address 102)) (protocol_step ledger_token (Address 102)) w'"
    by (blast intro: reach_step reach_init)
  from payments_match_offers [OF this] run show ?thesis by blast
qed

text \<open>The token configuration of the repayment contract is fixed by its constructor.\<close>

definition settles_in :: "address \<Rightarrow> 't rworld \<Rightarrow> bool" where
  "settles_in d w \<longleftrightarrow> curtok (w_repayment w) = Map.empty \<and> default_token (w_repayment w) = Some d"

definition repayment_deployed :: "address \<Rightarrow> 't rworld \<Rightarrow> bool" where
  "repayment_deployed d w \<longleftrightarrow>
     (\<exists>admin reg fin. repayment_constructor admin reg fin d empty_repayment = Inr (w_repayment w))"

lemma settles_in_cong:
  "settles_in d w \<Longrightarrow> curtok (w_repayment w') = curtok (w_repayment w) \<Longrightarrow>
     default_token (w_repayment w') = default_token (w_repayment w) \<Longrightarrow> settles_in d w'"
  by (simp add: settles_in_def)

interpretation one_token: invariant_system "repayment_deployed d" "protocol_step T rp" "settles_in d"
  for T :: "'t sep41" and rp d
proof
  fix w :: "'t rworld"
  assume "repayment_deployed d w"
  then show "settles_in d w"
    by (auto simp: repayment_deployed_def repayment_constructor_def init_admin_config_def
        initialize_contract_version_def ok empty_repayment_def publish_def settles_in_def
        dest!: arg_cong [of _ "w_repayment w" "\<lambda>p. (curtok p, default_token p)"])
next
  fix w w' :: "'t rworld"
  assume inv: "settles_in d w" and "protocol_step T rp w w'"
  from this(2) show "settles_in d w'"
  proof cases
    case (ps_repay e x y a amt i)
    from ps_repay(2) show ?thesis by (rule repay_invoice_ok) (rule settles_in_cong [OF inv])
  next
    case (ps_overdue e x i)
    then have "w_repayment w' = w_repayment w" by (auto simp: mark_overdue_def ok)
    with inv show ?thesis by (simp add: settles_in_def)
  next
    case (ps_reclaim e x y a o1)
    from ps_reclaim(2) show ?thesis by (rule reclaim_invoice_ok) (use inv in \<open>simp add: settles_in_def\<close>)
  next
    case (ps_repayment p)
    with repayment_admin_frame [OF ps_repayment(2)] inv show ?thesis by (simp add: settles_in_def)
  next
    case ps_offer
    then have "w_repayment w' = w_repayment w" using offer_step_repayment more_repayment by blast
    with inv show ?thesis by (simp add: settles_in_def)
  qed (use inv in \<open>simp_all add: settles_in_def\<close>)
qed

text \<open>
  C28. Repayments settle in one token: the repayment contract has no way to register a currency or to
  change its token, so in every state reached from a deployment of it with the token \<open>d\<close>, along any
  sequence of protocol steps, it resolves every currency to \<open>d\<close>, and a repayment moves no other token -
  also for an offer whose currency the financing contract resolves to, and paid out in, another
  token.
\<close>

theorem repayments_use_one_token:
  assumes "sep41_laws T" and "repayment_constructor admin reg fin d empty_repayment = Inr (w_repayment w0)"
    and "(protocol_step T rp)\<^sup>*\<^sup>* w0 w" and "repay_invoice T e x y a amt w = Inr (i', w')"
  shows "default_token (w_repayment w) = Some d \<and> (\<forall>c. resolve_token c (w_repayment w) = Inr d) \<and>
    (\<forall>tok z. tok \<noteq> d \<longrightarrow> tk_balance T tok z (w_token w') = tk_balance T tok z (w_token w))"
proof -
  have "repayment_deployed d w0" using assms(2) by (auto simp: repayment_deployed_def)
  from one_token.steps_inv [OF assms(3) one_token.init_inv [OF this]]
  have cfg: "curtok (w_repayment w) = Map.empty" "default_token (w_repayment w) = Some d" by (simp_all add: settles_in_def)
  have res: "resolve_token c (w_repayment w) = Inr d" for c
    by (simp add: resolve_token_def get_currency_token_def load_currency_registry_def cfg)
  from assms(4) show ?thesis
  proof (rule repay_invoice_ok)
    fix o0 tok fee rem acc i full
    assume "resolve_token (off_currency o0) (w_repayment w) = Inr tok" and amt: "0 < amt"
      and tr: "repay_transfers T e tok a (off_lender o0) amt (w_financing w) (w_registry w) (w_token w) = Inr (fee, w_token w')"
    then have "tok = d" by (simp add: res)
    with repay_money [OF assms(1) tr amt] show ?thesis by (auto simp: res cfg)
  qed
qed

definition fresh_repayment :: repayment where
  "fresh_repayment = empty_repayment\<lparr>admcfg := Some \<lparr>signers = [Address 9], threshold = 1\<rparr>,
     ver_current := Some CARGO_PKG_VERSION, events := [Ev_contract_initialized CARGO_PKG_VERSION],
     rp_registry := Some (Address 100), rp_financing := Some (Address 101), default_token := Some (Address 50)\<rparr>"

lemma fresh_repayment_sel [simp]:
  "rp_registry fresh_repayment = Some (Address 100)" "rp_financing fresh_repayment = Some (Address 101)"
  "default_token fresh_repayment = Some (Address 50)" "penbps fresh_repayment = None"
  "pencap fresh_repayment = None" "pays fresh_repayment = Map.empty" "curtok fresh_repayment = Map.empty"
  "paused fresh_repayment = False" "repadd fresh_repayment = None" "insadd fresh_repayment = None"
  by (simp_all add: fresh_repayment_def empty_repayment_def)

lemma fresh_repayment_deployed:
  "repayment_constructor (Address 9) (Address 100) (Address 101) (Address 50) empty_repayment = Inr fresh_repayment"
  by (simp add: repayment_constructor_def init_admin_config_def initialize_contract_version_def parse_cargo_version
      publish_def fresh_repayment_def empty_repayment_def)

definition euro_world :: "ledger rworld" where
  "euro_world = (let w = rep_world InvFinanced [(Symbol ''o'', loan\<lparr>off_currency := Symbol ''EURC''\<rparr>)]
     in w\<lparr>w_financing := (w_financing w)\<lparr>curtok := [Symbol ''EURC'' \<mapsto> Address 51]\<rparr>, w_repayment := fresh_repayment\<rparr>)"

lemma euro_world_sel [simp]:
  "w_registry euro_world = w_registry (rep_world InvFinanced [])" "w_token euro_world = oracle_ledger"
  "w_repayment euro_world = fresh_repayment"
  "offers (w_financing euro_world) = [(Symbol ''o'', loan\<lparr>off_currency := Symbol ''EURC''\<rparr>)]"
  "curtok (w_financing euro_world) = [Symbol ''EURC'' \<mapsto> Address 51]"
  "fin_repayment (w_financing euro_world) = Some (Address 102)" "paused (w_financing euro_world) = False"
  "fin_feebps (w_financing euro_world) = None" "fstats (w_financing euro_world) = None"
  "lstats (w_financing euro_world) = Map.empty"
  by (simp_all add: euro_world_def)

lemma euro_repay:
  "\<exists>i' w'. repay_invoice ledger_token (renv 173800) (Symbol ''a'') (Symbol ''o'') (Address 2) 40010958 euro_world = Inr (i', w')"
proof -
  let ?loan = "loan\<lparr>off_currency := Symbol ''EURC''\<rparr>"
  have "wired (renv 173800) euro_world" by (simp add: wired_def connected_def get_fee_bps_def)
  moreover have "in_range (Symbol ''a'') 40010958 ?loan euro_world"
    by (simp add: in_range_def in_i128_def fin_load_stats_def load_lender_stats_def load_payments_def)
  moreover have "repay_obligation (renv 173800) (Symbol ''a'') ((demo_invoice ''a'' 2)\<lparr>inv_status := InvFinanced\<rparr>) ?loan
      40010958 fresh_repayment = Inr (40000000, 10958)"
    by (simp add: repay_obligation_def remaining_of_def load_payments_def total_principal_repaid_def days_since_funded_def
        sub_i128_def chk_i128_def in_i128_def sub_u64_def pro_rata_interest_def sat_i128_def
        flat_total_due_def mul_i128_def div_i128_def add_i128_def load_penalty_config_def accrued_penalty_def loan_def)
  moreover obtain t where "tk_transfer ledger_token (renv 173800) (Address 50) (Address 2) (off_lender ?loan) 40010958
      oracle_ledger = Inr t" by (simp add: ledger_transfer_def oracle_ledger_def)
  ultimately show ?thesis
    using repay_invoice_succeeds [of "renv 173800" euro_world "Address 2" "Symbol ''a''"
        "(demo_invoice ''a'' 2)\<lparr>inv_status := InvFinanced\<rparr>" "Symbol ''o''" ?loan 40010958 "Address 50" 40000000 10958
        ledger_token t]
    by (fastforce simp: resolve_token_def get_currency_token_def load_currency_registry_def in_i128_def)
qed

lemma repayments_use_one_token_witness:
  "\<exists>i' w'. repay_invoice ledger_token (renv 173800) (Symbol ''a'') (Symbol ''o'') (Address 2) 40010958 euro_world =
      Inr (i', w') \<and> resolve_token (Symbol ''EURC'') (w_financing euro_world) = Inr (Address 51) \<and>
     balances (w_token w') (Address 51) (Address 3) = balances (w_token euro_world) (Address 51) (Address 3)"
proof -
  obtain i' w' where run: "repay_invoice ledger_token (renv 173800) (Symbol ''a'') (Symbol ''o'') (Address 2) 40010958
    euro_world = Inr (i', w')" using euro_repay by blast
  have "repayment_constructor (Address 9) (Address 100) (Address 101) (Address 50) empty_repayment =
      Inr (w_repayment euro_world)" by (simp add: fresh_repayment_deployed)
  from repayments_use_one_token [OF sep41_laws_ledger this rtranclp.rtrancl_refl run] run show ?thesis
    by (auto simp: resolve_token_def get_currency_token_def load_currency_registry_def)
qed

end
