(* ===== verification/Double_Financing.thy ===== *)
theory Double_Financing
  imports Protocol
begin

text \<open>
  A run of the protocol in which one invoice is financed twice. The payment history is kept per
  invoice, but a dispute can send a financed invoice back to Pending, where a second lender can
  finance it; the payments made to the first lender then count for the second offer.
\<close>

subsection \<open>Stages of the run\<close>

abbreviation "inv_in st \<equiv> (demo_invoice ''a'' 2)\<lparr>inv_status := st\<rparr>"

definition reg_stage :: "invoice_status \<Rightarrow> registry \<Rightarrow> bool" where
  "reg_stage st r \<longleftrightarrow> \<not> paused r \<and> financing_addr r = Some (Address 101) \<and> repayment_addr r = Some (Address 102) \<and>
     invoices r = [(Symbol ''a'', inv_in st)]"

definition fin_stage :: "(symbol, financing_offer) smap \<Rightarrow> int \<Rightarrow> financing \<Rightarrow> bool" where
  "fin_stage offs n f \<longleftrightarrow> \<not> paused f \<and> registry_ref f = Some (Address 100) \<and> fin_repayment f = Some (Address 102) \<and>
     default_token f = Some (Address 50) \<and> curtok f = Map.empty \<and> negot f = Map.empty \<and> postok f = None \<and>
     fin_feebps f = None \<and> offers f = offs \<and>
     0 \<le> total_financed (fin_load_stats f) \<and> total_financed (fin_load_stats f) \<le> n \<and>
     0 \<le> total_repaid (fin_load_stats f) \<and> total_repaid (fin_load_stats f) \<le> n \<and>
     total_fee_revenue (fin_load_stats f) = 0 \<and>
     (\<forall>l. 0 \<le> total_accepted (load_lender_stats l f) \<and> total_accepted (load_lender_stats l f) \<le> n \<and>
        int (offers_repaid (load_lender_stats l f)) \<le> n)"

definition rep_stage :: "payment_record list \<Rightarrow> repayment \<Rightarrow> bool" where
  "rep_stage h p \<longleftrightarrow> \<not> paused p \<and> rp_registry p = Some (Address 100) \<and> rp_financing p = Some (Address 101) \<and>
     default_token p = Some (Address 50) \<and> curtok p = Map.empty \<and> repadd p = None \<and> load_payments (Symbol ''a'') p = h"

definition stage ::
  "invoice_status \<Rightarrow> (symbol, financing_offer) smap \<Rightarrow> int \<Rightarrow> payment_record list \<Rightarrow> ledger \<Rightarrow> ledger rworld \<Rightarrow> bool" where
  "stage st offs n h t w \<longleftrightarrow> reg_stage st (w_registry w) \<and> fin_stage offs n (w_financing w) \<and>
     rep_stage h (w_repayment w) \<and> w_token w = t"

definition may_become :: "ledger rworld \<Rightarrow> ledger rworld \<Rightarrow> bool" where
  "may_become w w' \<longleftrightarrow> (protocol_step ledger_token (Address 102))\<^sup>*\<^sup>* w w'"

lemma may_become_step:
  "may_become w0 w \<Longrightarrow> protocol_step ledger_token (Address 102) w w' \<Longrightarrow> may_become w0 w'"
  unfolding may_become_def by (rule rtranclp.rtrancl_into_rtrancl)

lemma reg_stage_move:
  assumes "reg_stage st r" and "valid_edge st new"
  shows "may_move (Symbol ''a'') (inv_in st) new r" and "reg_stage new (status_effect e (Symbol ''a'') (inv_in st) new c r)"
    and "reg_stage new (publish ev (status_effect e (Symbol ''a'') (inv_in st) new c r))"
  using assms by (simp_all add: reg_stage_def may_move_def)

lemma stage_accept:
  assumes "stage InvPending offs n h t w" and "map_of offs y = Some o0" and "off_status o0 = OffPending"
    and "off_invoice_id o0 = Symbol ''a''" and "off_expires_at o0 = 0" and "off_amount o0 = 40000000" and "n \<le> 1000000000"
    and "ledger_transfer_from (demo_env 5 (Address 101)) (Address 50) (Address 101) (off_lender o0) (Address 2) 40000000 t = Inr t'"
  shows "\<exists>w'. accept_offer ledger_token (demo_env 5 (Address 101)) y (Address 2) w =
      Inr (o0\<lparr>off_status := OffAccepted, off_funded_at := 5\<rparr>, w') \<and>
    protocol_step ledger_token (Address 102) w w' \<and> stage InvFinanced
    (sm_set offs y (o0\<lparr>off_status := OffAccepted, off_funded_at := 5\<rparr>)) (n + 40000000) h t' w'"
proof -
  let ?e = "demo_env 5 (Address 101)" and ?f = "w_financing w" and ?r = "w_registry w"
  let ?o1 = "o0\<lparr>off_status := OffAccepted, off_funded_at := 5\<rparr>" and ?l = "off_lender o0"
  note st = assms(1) [unfolded stage_def] and f = fin_stage_def
  obtain r' where r': "financing_marks_invoice_financed (call_env ?e RegistryC) (Symbol ''a'') ?r = Inr (inv_in InvFinanced, r')"
    "reg_stage InvFinanced r'"
  proof -
    have "reg_stage InvPending ?r" using st by simp
    from reg_stage_move [OF this, of InvFinanced] this show ?thesis
      by (intro that) (auto simp: financing_marks_invoice_financed_ok reg_stage_def call_env_def)
  qed
  let ?st = "(fin_load_stats ?f)\<lparr>total_financed := total_financed (fin_load_stats ?f) + 40000000\<rparr>"
  let ?ls = "(load_lender_stats ?l ?f)\<lparr>total_accepted := total_accepted (load_lender_stats ?l ?f) + 40000000\<rparr>"
  let ?f' = "publish (Ev_off_acc (off_id o0) (Symbol ''a'') ?l 40000000)
    (?f\<lparr>offers := sm_set offs y ?o1, fstats := Some ?st, lstats := (lstats ?f)(?l \<mapsto> ?ls)\<rparr>)"
  have loads: "fin_load_stats (?f\<lparr>offers := m\<rparr>) = fin_load_stats ?f"
    "load_lender_stats l (?f\<lparr>offers := m, fstats := q\<rparr>) = load_lender_stats l ?f" for m q l
    by (simp_all add: fin_load_stats_def load_lender_stats_def)
  have small: "in_i128 (total_financed (fin_load_stats ?f) + 40000000)"
    "in_i128 (total_accepted (load_lender_stats ?l ?f) + 40000000)"
    using st assms(7) by (auto simp: f in_i128_def intro!: exI dest!: spec [of _ ?l])
  have run: "accept_offer ledger_token ?e y (Address 2) w =
      Inr (?o1, w\<lparr>w_registry := r', w_financing := ?f', w_token := t'\<rparr>)"
    using st assms(2-) small r' loads
    by (simp add: f reg_stage_def accept_offer_def settle_acceptance_def Let_def assert_not_paused_def require_auth_def
        get_offer_def offer_expired_def read_invoice_def registry_env_def callee_def get_invoice_def resolve_token_def
        get_currency_token_def load_currency_registry_def close_negotiation_on_settlement_def load_negotiation_def
        mint_position_def add_i128_def chk_i128_def call_env_def)
  then have "protocol_step ledger_token (Address 102) w (w\<lparr>w_registry := r', w_financing := ?f', w_token := t'\<rparr>)"
    by (intro ps_offer offer_step.intros(3))
  moreover have stats: "fin_load_stats ?f' = ?st"
    "load_lender_stats l ?f' = (if l = ?l then ?ls else load_lender_stats l ?f)" for l
    by (simp_all add: fin_load_stats_def load_lender_stats_def)
  have bound: "0 \<le> total_accepted (load_lender_stats l ?f) \<and> total_accepted (load_lender_stats l ?f) \<le> n \<and>
      int (offers_repaid (load_lender_stats l ?f)) \<le> n" for l
    using st by (simp add: f)
  have "0 \<le> total_accepted (load_lender_stats l ?f') \<and> total_accepted (load_lender_stats l ?f') \<le> n + 40000000 \<and>
      int (offers_repaid (load_lender_stats l ?f')) \<le> n + 40000000" for l
    using bound [of l] bound [of ?l] by (simp add: stats)
  then have "fin_stage (sm_set offs y ?o1) (n + 40000000) ?f'"
    unfolding f stats using st by (simp add: f)
  ultimately show ?thesis using st r'(2) run
    by (intro exI [of _ "w\<lparr>w_registry := r', w_financing := ?f', w_token := t'\<rparr>"]) (simp add: stage_def)
qed

lemma stage_obligation:
  assumes "rep_stage h p" and "off_amount o0 = 40000000" and "off_interest_rate o0 = 500" and "off_funded_at o0 = 5"
    and "remaining_of h o0 = Inr rem" and "0 < rem" and "rem \<le> 40000000" and "400000 \<le> amt" and "amt \<le> rem"
  shows "repay_obligation (renv 5) (Symbol ''a'') (inv_in InvFinanced) o0 amt p = Inr (rem, 0)"
  using assms
  by (simp add: rep_stage_def repay_obligation_def days_since_funded_def sub_u64_def pro_rata_interest_def flat_total_due_def
      mul_i128_def div_i128_def add_i128_def chk_i128_def in_i128_def accrued_penalty_def split_beta Let_def)

lemma stage_repay:
  assumes "stage InvFinanced offs n h t w" and o0: "map_of offs y = Some o0" "off_status o0 = OffAccepted"
    "off_invoice_id o0 = Symbol ''a''" "off_amount_repaid o0 = 0"
    and terms: "off_amount o0 = 40000000" "off_interest_rate o0 = 500" "off_funded_at o0 = 5"
    and rem: "remaining_of h o0 = Inr rem" "rem \<le> 40000000" "length h < 10"
    and amt: "400000 \<le> amt" "amt \<le> rem" and n: "n \<le> 1000000000"
    and pay: "ledger_transfer (renv 5) (Address 50) (Address 2) (off_lender o0) amt t = Inr t'"
  shows "\<exists>w' r. repay_invoice ledger_token (renv 5) (Symbol ''a'') y (Address 2) amt w =
      Inr (inv_in (if rem \<le> amt then InvRepaid else InvFinanced), w') \<and>
    protocol_step ledger_token (Address 102) w w' \<and> pay_principal_paid r = amt \<and>
    stage (if rem \<le> amt then InvRepaid else InvFinanced) (sm_set offs y (paid_offer amt (rem \<le> amt) o0)) (n + 40000000)
      (h @ [r]) t' w'"
proof -
  let ?f = "w_financing w" and ?p = "w_repayment w" and ?r = "w_registry w" and ?full = "rem \<le> amt"
  let ?st = "if ?full then InvRepaid else InvFinanced"
  note st = assms(1) [unfolded stage_def]
  have ob: "repay_obligation (renv 5) (Symbol ''a'') (inv_in InvFinanced) o0 amt ?p = Inr (rem, 0)"
    using st terms rem amt by (intro stage_obligation) auto
  have bound: "0 \<le> total_accepted (load_lender_stats l ?f) \<and> total_accepted (load_lender_stats l ?f) \<le> n \<and>
      int (offers_repaid (load_lender_stats l ?f)) \<le> n" for l
    using st by (simp add: fin_stage_def)
  have "offers_repaid (load_lender_stats (off_lender o0) ?f) < 2 ^ 32 - 1" using bound [of "off_lender o0"] n by simp
  then have rng: "in_range (Symbol ''a'') amt o0 w"
    using st amt rem n o0 by (auto simp: in_range_def in_i128_def fin_stage_def rep_stage_def)
  have "wired (renv 5) w" using st by (simp add: wired_def connected_def reg_stage_def fin_stage_def rep_stage_def get_fee_bps_def)
  from repay_invoice_succeeds [OF this, of "Address 2" "Symbol ''a''" "inv_in InvFinanced" y o0 amt "Address 50" rem 0 ledger_token t']
  obtain r' p' where run: "repay_invoice ledger_token (renv 5) (Symbol ''a'') y (Address 2) amt w = Inr (inv_in ?st,
      w\<lparr>w_registry := r', w_financing := repaid_financing y o0 amt amt ?full ?f, w_token := t', w_repayment := p'\<rparr>)"
    and reg: "repayment_marks_invoice_repaid (call_env (renv 5) RegistryC) (Symbol ''a'') ?full ?r = Inr (inv_in ?st, r')"
    and p': "p' = repay_events (Symbol ''a'') y amt amt 0 (rem - amt) ?full (?p\<lparr>pays := (pays ?p)(Symbol ''a'' \<mapsto>
      load_payments (Symbol ''a'') ?p @ [paid_record (renv 5) (Symbol ''a'') (Address 2) amt 0 ?p])\<rparr>)"
    using st o0 amt rem ob rng pay
    by (auto simp: reg_stage_def fin_stage_def rep_stage_def resolve_token_def get_currency_token_def
        load_currency_registry_def in_i128_def split: if_splits)
  let ?w = "w\<lparr>w_registry := r', w_financing := repaid_financing y o0 amt amt ?full ?f, w_token := t', w_repayment := p'\<rparr>"
  have "reg_stage InvFinanced ?r" using st by simp
  from reg_stage_move [OF this, of ?st] this reg have "reg_stage ?st r'"
    by (auto simp: repayment_marks_invoice_repaid_ok reg_stage_def split: if_splits)
  moreover have "rep_stage (h @ [paid_record (renv 5) (Symbol ''a'') (Address 2) amt 0 ?p]) p'"
    using st by (simp add: rep_stage_def p' load_payments_def)
  moreover have "fin_stage (sm_set offs y (paid_offer amt ?full o0)) (n + 40000000) (repaid_financing y o0 amt amt ?full ?f)"
  proof -
    let ?f' = "repaid_financing y o0 amt amt ?full ?f"
    have stats: "fin_load_stats ?f' = (fin_load_stats ?f)\<lparr>total_repaid := total_repaid (fin_load_stats ?f) + amt\<rparr>"
      "load_lender_stats l ?f' = (if l = off_lender o0 \<and> ?full
         then (load_lender_stats l ?f)\<lparr>offers_repaid := offers_repaid (load_lender_stats l ?f) + 1\<rparr>
         else load_lender_stats l ?f)" for l
      by (simp_all add: repaid_financing_def fin_load_stats_def load_lender_stats_def Let_def)
    have "0 \<le> total_accepted (load_lender_stats l ?f') \<and> total_accepted (load_lender_stats l ?f') \<le> n + 40000000 \<and>
        int (offers_repaid (load_lender_stats l ?f')) \<le> n + 40000000" for l
      using bound [of l] by (auto simp: stats)
    then show ?thesis
      unfolding fin_stage_def stats using st amt rem by (simp add: fin_stage_def repaid_financing_def Let_def)
  qed
  ultimately have "stage ?st (sm_set offs y (paid_offer amt ?full o0)) (n + 40000000)
      (h @ [paid_record (renv 5) (Symbol ''a'') (Address 2) amt 0 ?p]) t' ?w"
    by (simp add: stage_def)
  moreover have "protocol_step ledger_token (Address 102) w ?w" by (rule ps_repay [OF _ run]) simp
  moreover have "pay_principal_paid (paid_record (renv 5) (Symbol ''a'') (Address 2) amt 0 ?p) = amt"
    using amt by (simp add: paid_record_def)
  ultimately show ?thesis using run by blast
qed

text \<open>The originator moves its own invoice along any edge.\<close>

lemma stage_originator:
  assumes "stage st offs n h t w" and "valid_edge st new"
  shows "\<exists>r. update_invoice_status (demo_env 5 (Address 100)) (Symbol ''a'') (Address 2) new (w_registry w) = Inr (inv_in new, r) \<and>
    protocol_step ledger_token (Address 102) w (w\<lparr>w_registry := r\<rparr>) \<and> stage new offs n h t (w\<lparr>w_registry := r\<rparr>)"
proof -
  let ?e = "demo_env 5 (Address 100)"
  have r: "reg_stage st (w_registry w)" using assms(1) by (simp add: stage_def)
  let ?r = "status_effect ?e (Symbol ''a'') (inv_in st) new (Address 2) (w_registry w)"
  have run: "update_invoice_status ?e (Symbol ''a'') (Address 2) new (w_registry w) = Inr (inv_in new, ?r)"
    using reg_stage_move(1) [OF r assms(2)] by (auto simp: update_invoice_status_ok intro!: exI [of _ "inv_in st"])
  then have "core_step (sha256_xdr ?e) (w_registry w) ?r" by (rule core_step.intros(3) [OF refl])
  then have "protocol_step ledger_token (Address 102) w (w\<lparr>w_registry := ?r, w_token := w_token w\<rparr>)"
    by (intro ps_registry of_core)
  moreover have "w\<lparr>w_registry := ?r, w_token := w_token w\<rparr> = w\<lparr>w_registry := ?r\<rparr>" by (cases w) simp
  ultimately show ?thesis
    using assms(1) reg_stage_move(2) [OF r assms(2)] run by (intro exI [of _ ?r]) (simp add: stage_def)
qed

lemma stage_remaining:
  assumes "stage st offs n h t w" and "map_of offs y = Some o0" and "off_status o0 = OffAccepted"
    and "off_invoice_id o0 = Symbol ''a''" and "remaining_of h o0 = Inr rem" and "0 \<le> rem"
  shows "get_remaining_principal (renv 5) y w = Inr rem"
  using assms
  by (simp add: stage_def fin_stage_def rep_stage_def get_remaining_principal_def rp_financing_env_def callee_def get_offer_def
      settled_def)

subsection \<open>The run\<close>

lemma ledger_pull:
  assumes "0 \<le> amt" and "amt \<le> balances t tok x" and "amt \<le> allowances t tok x sp"
  shows "\<exists>t'. ledger_transfer_from e tok sp x y amt t = Inr t' \<and> balances t' tok = moved (balances t tok) x y amt \<and>
    (\<forall>z. z \<noteq> x \<longrightarrow> allowances t' tok z = allowances t tok z)"
  using assms by (simp add: ledger_transfer_from_def)

lemma ledger_push:
  assumes "0 \<le> amt" and "amt \<le> balances t tok x"
  shows "\<exists>t'. ledger_transfer e tok x y amt t = Inr t' \<and> balances t' tok = moved (balances t tok) x y amt \<and>
    allowances t' = allowances t"
  using assms by (simp add: ledger_transfer_def)

definition two_offers :: "(symbol, financing_offer) smap" where
  "two_offers = [(Symbol ''o'', demo_offer), (Symbol ''p'', demo_offer\<lparr>off_id := Symbol ''p'', off_lender := Address 4\<rparr>)]"

definition first_offer :: financing_offer where
  "first_offer = demo_offer\<lparr>off_status := OffAccepted, off_funded_at := 5\<rparr>"

definition second_offer :: financing_offer where
  "second_offer = demo_offer\<lparr>off_id := Symbol ''p'', off_lender := Address 4\<rparr>"

abbreviation "bal t \<equiv> balances t (Address 50)"
abbreviation "offers_then s2 \<equiv> [(Symbol ''o'', paid_offer 39600000 False first_offer), (Symbol ''p'', s2)]"

lemma two_offers_eq: "two_offers = [(Symbol ''o'', demo_offer), (Symbol ''p'', second_offer)]"
  by (simp add: two_offers_def second_offer_def)

lemma offers_of_run_sel [simp]:
  "off_status second_offer = OffPending" "off_lender second_offer = Address 4" "off_invoice_id second_offer = Symbol ''a''"
  "off_expires_at second_offer = 0" "off_amount second_offer = 40000000" "off_interest_rate second_offer = 500"
  "off_amount_repaid second_offer = 0"
  "off_status first_offer = OffAccepted" "off_lender first_offer = Address 3" "off_invoice_id first_offer = Symbol ''a''"
  "off_amount first_offer = 40000000" "off_interest_rate first_offer = 500" "off_funded_at first_offer = 5"
  "off_amount_repaid first_offer = 0"
  by (simp_all add: first_offer_def second_offer_def)

abbreviation "w_start \<equiv> rep_world InvPending two_offers"

lemma first_loan_recycled:
  obtains w1 w2 r3 r4 r t where
    "accept_offer ledger_token (demo_env 5 (Address 101)) (Symbol ''o'') (Address 2) w_start = Inr (first_offer, w1)"
    "repay_invoice ledger_token (renv 5) (Symbol ''a'') (Symbol ''o'') (Address 2) 39600000 w1 = Inr (inv_in InvFinanced, w2)"
    "stage InvFinanced (offers_then second_offer) 80000000 [r] t w2"
    "update_invoice_status (demo_env 5 (Address 100)) (Symbol ''a'') (Address 2) InvDisputed (w_registry w2) =
       Inr (inv_in InvDisputed, r3)"
    "update_invoice_status (demo_env 5 (Address 100)) (Symbol ''a'') (Address 2) InvPending r3 = Inr (inv_in InvPending, r4)"
    "may_become w_start (w2\<lparr>w_registry := r4\<rparr>)" "pay_principal_paid r = 39600000"
    "stage InvPending (offers_then second_offer) 80000000 [r] t (w2\<lparr>w_registry := r4\<rparr>)"
    "bal t (Address 4) = 60000000" "60000000 \<le> bal t (Address 2)"
    "allowances t (Address 50) (Address 4) (Address 101) = 60000000"
proof -
  let ?offs1 = "[(Symbol ''o'', first_offer), (Symbol ''p'', second_offer)]"
  have "stage InvPending two_offers 0 [] oracle_ledger w_start"
    by (simp add: stage_def reg_stage_def fin_stage_def rep_stage_def fin_load_stats_def load_lender_stats_def load_payments_def)
  moreover obtain t1 where t1: "ledger_transfer_from (demo_env 5 (Address 101)) (Address 50) (Address 101) (Address 3) (Address 2)
      40000000 oracle_ledger = Inr t1" "bal t1 = moved (bal oracle_ledger) (Address 3) (Address 2) 40000000"
    "\<And>z. z \<noteq> Address 3 \<Longrightarrow> allowances t1 (Address 50) z = allowances oracle_ledger (Address 50) z"
    using ledger_pull [of 40000000 oracle_ledger "Address 50" "Address 3" "Address 101" "demo_env 5 (Address 101)" "Address 2"]
    by (auto simp: oracle_ledger_def)
  ultimately obtain w1 where w1:
    "accept_offer ledger_token (demo_env 5 (Address 101)) (Symbol ''o'') (Address 2) w_start = Inr (first_offer, w1)"
    "protocol_step ledger_token (Address 102) w_start w1" "stage InvFinanced ?offs1 40000000 [] t1 w1"
    using stage_accept [of two_offers 0 "[]" oracle_ledger w_start "Symbol ''o''" demo_offer t1]
    by (auto simp: two_offers_eq first_offer_def)
  have "39600000 \<le> bal t1 (Address 2)" by (simp add: t1(2) moved_def oracle_ledger_def)
  with ledger_push [of 39600000 t1 "Address 50" "Address 2" "renv 5" "Address 3"] obtain t2 where
    t2: "ledger_transfer (renv 5) (Address 50) (Address 2) (Address 3) 39600000 t1 = Inr t2"
    "bal t2 = moved (bal t1) (Address 2) (Address 3) 39600000" "allowances t2 = allowances t1" by auto
  have "remaining_of [] first_offer = Inr 40000000"
    by (simp add: remaining_of_def total_principal_repaid_def sub_i128_def chk_i128_def in_i128_def)
  with w1 t2(1) obtain w2 r where w2:
    "repay_invoice ledger_token (renv 5) (Symbol ''a'') (Symbol ''o'') (Address 2) 39600000 w1 = Inr (inv_in InvFinanced, w2)"
    "protocol_step ledger_token (Address 102) w1 w2" "pay_principal_paid r = 39600000"
    "stage InvFinanced (offers_then second_offer) 80000000 [r] t2 w2"
    using stage_repay [of ?offs1 40000000 "[]" t1 w1 "Symbol ''o''" first_offer 40000000 39600000 t2] by auto
  from stage_originator [OF w2(4), of InvDisputed] obtain r3 where
    w3: "update_invoice_status (demo_env 5 (Address 100)) (Symbol ''a'') (Address 2) InvDisputed (w_registry w2) =
        Inr (inv_in InvDisputed, r3)" "protocol_step ledger_token (Address 102) w2 (w2\<lparr>w_registry := r3\<rparr>)"
      "stage InvDisputed (offers_then second_offer) 80000000 [r] t2 (w2\<lparr>w_registry := r3\<rparr>)" by auto
  from stage_originator [OF w3(3), of InvPending] obtain r4 where
    w4: "update_invoice_status (demo_env 5 (Address 100)) (Symbol ''a'') (Address 2) InvPending r3 = Inr (inv_in InvPending, r4)"
      "protocol_step ledger_token (Address 102) (w2\<lparr>w_registry := r3\<rparr>) (w2\<lparr>w_registry := r4\<rparr>)"
      "stage InvPending (offers_then second_offer) 80000000 [r] t2 (w2\<lparr>w_registry := r4\<rparr>)" by auto
  have "may_become w_start w_start" by (simp add: may_become_def)
  from may_become_step [OF may_become_step [OF may_become_step [OF may_become_step [OF this w1(2)] w2(2)] w3(2)] w4(2)]
  show ?thesis
    by (rule that [OF w1(1) w2(1,4) w3(1) w4(1) _ w2(3) w4(3)]) (simp_all add: t2(2,3) t1(2,3) moved_def oracle_ledger_def)
qed

text \<open>
  C27. One lender's repayments pay off another lender's offer. The run of calls: two Pending offers of
  40000000 by different lenders stand on one invoice, and no payment was made; the originator
  accepts the first offer and repays 39600000 of it, which leaves that offer Financed and the
  invoice Financed; it moves the invoice by itself to Disputed and back to Pending and accepts the second
  offer. The contract then quotes a remaining principal of only 400000 on the second offer, of
  which nothing was repaid, and a payment of 400000 makes it Repaid and the invoice Repaid; the second lender has
  lost the other 39600000 of what it paid out.
\<close>

theorem payments_of_first_lender_settle_second:
  "\<exists>w0 a1 w1 w2 b2 i3 r3 i4 r4 a5 w5 i6 w6 o1. before_repayments (Address 102) w0 \<and> offers (w_financing w0) = two_offers \<and>
     accept_offer ledger_token (demo_env 5 (Address 101)) (Symbol ''o'') (Address 2) w0 = Inr (a1, w1) \<and>
     off_lender a1 = Address 3 \<and> off_amount a1 = 40000000 \<and>
     repay_invoice ledger_token (renv 5) (Symbol ''a'') (Symbol ''o'') (Address 2) 39600000 w1 = Inr (inv_in InvFinanced, w2) \<and>
     get_offer (Symbol ''o'') (w_financing w2) = Inr b2 \<and> off_status b2 = OffFinanced \<and> off_amount_repaid b2 = 39600000 \<and>
     update_invoice_status (demo_env 5 (Address 100)) (Symbol ''a'') (Address 2) InvDisputed (w_registry w2) = Inr (i3, r3) \<and>
     update_invoice_status (demo_env 5 (Address 100)) (Symbol ''a'') (Address 2) InvPending r3 = Inr (i4, r4) \<and>
     accept_offer ledger_token (demo_env 5 (Address 101)) (Symbol ''p'') (Address 2) (w2\<lparr>w_registry := r4\<rparr>) = Inr (a5, w5) \<and>
     off_lender a5 = Address 4 \<and> off_amount a5 = 40000000 \<and> off_amount_repaid a5 = 0 \<and>
     get_remaining_principal (renv 5) (Symbol ''p'') w5 = Inr 400000 \<and>
     repay_invoice ledger_token (renv 5) (Symbol ''a'') (Symbol ''p'') (Address 2) 400000 w5 = Inr (i6, w6) \<and>
     (protocol_step ledger_token (Address 102))\<^sup>*\<^sup>* w0 w6 \<and>
     get_offer (Symbol ''p'') (w_financing w6) = Inr o1 \<and> off_lender o1 = Address 4 \<and> off_amount o1 = 40000000 \<and>
     off_status o1 = OffRepaid \<and> off_amount_repaid o1 = 400000 \<and>
     get_invoice (Symbol ''a'') (w_registry w6) = Inr (inv_in InvRepaid) \<and>
     balances (w_token w6) (Address 50) (Address 4) = balances (w_token w0) (Address 50) (Address 4) - 39600000"
proof -
  obtain w1 w2 r3 r4 r t where first:
    "accept_offer ledger_token (demo_env 5 (Address 101)) (Symbol ''o'') (Address 2) w_start = Inr (first_offer, w1)"
    "repay_invoice ledger_token (renv 5) (Symbol ''a'') (Symbol ''o'') (Address 2) 39600000 w1 = Inr (inv_in InvFinanced, w2)"
    and w2: "stage InvFinanced (offers_then second_offer) 80000000 [r] t w2"
    and reopened:
    "update_invoice_status (demo_env 5 (Address 100)) (Symbol ''a'') (Address 2) InvDisputed (w_registry w2) =
       Inr (inv_in InvDisputed, r3)"
    "update_invoice_status (demo_env 5 (Address 100)) (Symbol ''a'') (Address 2) InvPending r3 = Inr (inv_in InvPending, r4)"
    and w: "may_become w_start (w2\<lparr>w_registry := r4\<rparr>)" "pay_principal_paid r = 39600000"
    "stage InvPending (offers_then second_offer) 80000000 [r] t (w2\<lparr>w_registry := r4\<rparr>)"
    and t: "bal t (Address 4) = 60000000" "60000000 \<le> bal t (Address 2)"
      "allowances t (Address 50) (Address 4) (Address 101) = 60000000"
    by (rule first_loan_recycled)
  let ?b = "second_offer\<lparr>off_status := OffAccepted, off_funded_at := 5\<rparr>"
  from t ledger_pull [of 40000000 t "Address 50" "Address 4" "Address 101" "demo_env 5 (Address 101)" "Address 2"] obtain t3 where
    t3: "ledger_transfer_from (demo_env 5 (Address 101)) (Address 50) (Address 101) (Address 4) (Address 2) 40000000 t = Inr t3"
    "bal t3 = moved (bal t) (Address 4) (Address 2) 40000000" by auto
  with w obtain w5 where w5:
    "accept_offer ledger_token (demo_env 5 (Address 101)) (Symbol ''p'') (Address 2) (w2\<lparr>w_registry := r4\<rparr>) = Inr (?b, w5)"
    "protocol_step ledger_token (Address 102) (w2\<lparr>w_registry := r4\<rparr>) w5"
    "stage InvFinanced (offers_then ?b) 120000000 [r] t3 w5"
    using stage_accept [of "offers_then second_offer" 80000000 "[r]" t "w2\<lparr>w_registry := r4\<rparr>" "Symbol ''p''" second_offer t3]
    by auto
  have "400000 \<le> bal t3 (Address 2)" using t by (simp add: t3(2) moved_def)
  with ledger_push [of 400000 t3 "Address 50" "Address 2" "renv 5" "Address 4"] obtain t4 where
    t4: "ledger_transfer (renv 5) (Address 50) (Address 2) (Address 4) 400000 t3 = Inr t4"
    "bal t4 = moved (bal t3) (Address 2) (Address 4) 400000" by auto
  have rem: "remaining_of [r] ?b = Inr 400000"
    using w(2) by (simp add: remaining_of_def total_principal_repaid_def add_i128_def sub_i128_def chk_i128_def in_i128_def)
  with w5 t4(1) obtain w6 r' where w6:
    "repay_invoice ledger_token (renv 5) (Symbol ''a'') (Symbol ''p'') (Address 2) 400000 w5 = Inr (inv_in InvRepaid, w6)"
    "protocol_step ledger_token (Address 102) w5 w6"
    "stage InvRepaid (offers_then (paid_offer 400000 True ?b)) 160000000 [r, r'] t4 w6"
    using stage_repay [of "offers_then ?b" 120000000 "[r]" t3 w5 "Symbol ''p''" ?b 400000 400000 t4] by auto
  have quote: "get_remaining_principal (renv 5) (Symbol ''p'') w5 = Inr 400000"
    using stage_remaining [OF w5(3), of "Symbol ''p''" ?b 400000] rem by simp
  have steps: "(protocol_step ledger_token (Address 102))\<^sup>*\<^sup>* w_start w6"
    using may_become_step [OF may_become_step [OF w(1) w5(2)] w6(2)] by (simp add: may_become_def)
  have loss: "bal t4 (Address 4) = bal oracle_ledger (Address 4) - 39600000"
    using t by (simp add: t4(2) t3(2) moved_def oracle_ledger_def)
  have start: "before_repayments (Address 102) w_start" "offers (w_financing w_start) = two_offers"
    by (simp_all add: before_rep_world two_offers_eq)
  have mid: "get_offer (Symbol ''o'') (w_financing w2) = Inr (paid_offer 39600000 False first_offer)"
    using w2 by (simp add: stage_def fin_stage_def get_offer_def)
  have final: "get_offer (Symbol ''p'') (w_financing w6) = Inr (paid_offer 400000 True ?b)"
    "get_invoice (Symbol ''a'') (w_registry w6) = Inr (inv_in InvRepaid)" "w_token w6 = t4" "w_token w_start = oracle_ledger"
    using w6(3) by (simp_all add: stage_def fin_stage_def reg_stage_def get_offer_def get_invoice_def)
  show ?thesis
    by (intro exI conjI) (rule start first mid reopened w5(1) quote w6(1) steps final
        | simp add: paid_offer_def final loss)+
qed

end
