(* ===== verification/Offer_Books.thy ===== *)
theory Offer_Books
  imports Double_Financing
begin

text \<open>
  The running totals of the financing contract, against the offers and payments they summarise.
  \<open>create_offer\<close>, \<open>settle_acceptance\<close>, \<open>amend_offer\<close> and the callbacks of the repayment contract add to
  counters one by one; \<open>lender_ledger\<close> and \<open>protocol_ledger\<close> recompute the same records from the
  stored offers. Every entry point acts on the books as one update of one offer (\<open>ledger_upd\<close>).
\<close>

subsection \<open>Recomputing the totals\<close>

definition offer_total :: "(financing_offer \<Rightarrow> int) \<Rightarrow> (symbol, financing_offer) smap \<Rightarrow> int" where
  "offer_total g m = (\<Sum>k\<leftarrow>sm_keys m. g (the (map_of m k)))"

definition part_of :: "address \<Rightarrow> (financing_offer \<Rightarrow> int) \<Rightarrow> financing_offer \<Rightarrow> int" where
  "part_of l g o1 = (if off_lender o1 = l then g o1 else 0)"

definition financed_amount :: "financing_offer \<Rightarrow> int" where
  "financed_amount o1 = (if off_status o1 \<in> {OffPending, OffRejected} then 0 else off_amount o1)"

definition repaid_count :: "financing_offer \<Rightarrow> int" where
  "repaid_count o1 = (if off_status o1 = OffRepaid then 1 else 0)"

definition lender_ledger :: "address \<Rightarrow> financing \<Rightarrow> lender_stats" where
  "lender_ledger l f =
     (let total = \<lambda>g. offer_total (part_of l g) (offers f)
      in \<lparr>total_offered = total off_amount, total_accepted = total financed_amount,
          offers_pending = nat (total (\<lambda>_. 1)), offers_repaid = nat (total repaid_count)\<rparr>)"

definition payments_total :: "repayment \<Rightarrow> int" where
  "payments_total p = (\<Sum>x\<in>dom (pays p). \<Sum>r\<leftarrow>load_payments x p. pay_amount r)"

definition protocol_ledger :: "financing \<Rightarrow> repayment \<Rightarrow> protocol_stats" where
  "protocol_ledger f p =
     \<lparr>total_invoices = 0, total_offers = length (sm_keys (offers f)),
      total_financed = offer_total financed_amount (offers f), total_repaid = payments_total p,
      total_fee_revenue = 0\<rparr>"

lemma offer_total_set:
  "sm_wf m \<Longrightarrow> offer_total g (sm_set m k v) =
     offer_total g m - (case map_of m k of None \<Rightarrow> 0 | Some o0 \<Rightarrow> g o0) + g v"
  unfolding offer_total_def by (rule host_map.sum_keys_set [of m "\<lambda>_. g"])

lemma offer_total_one: "offer_total (\<lambda>_. 1) m = int (length (sm_keys m))"
  by (simp add: offer_total_def sum_list_triv)

lemma offer_total_empty [simp]: "offer_total g [] = 0"
  by (simp add: offer_total_def sm_keys_def)

lemma offer_total_ge:
  assumes "sm_wf m" and "\<And>k o1. map_of m k = Some o1 \<Longrightarrow> 0 \<le> g o1" and "map_of m x = Some o0"
  shows "g o0 \<le> offer_total g m"
proof -
  have "offer_total g m = (\<Sum>k\<in>dom (map_of m). g (the (map_of m k)))"
    unfolding offer_total_def using host_map.sum_keys [of m "\<lambda>_. g"] assms(1) by simp
  moreover have "g (the (map_of m x)) \<le> (\<Sum>k\<in>dom (map_of m). g (the (map_of m k)))"
    by (rule member_le_sum) (use assms(2,3) in \<open>auto simp: finite_dom_map_of\<close>)
  ultimately show ?thesis using assms(3) by simp
qed

subsection \<open>Well-typed offers and agreeing totals\<close>

definition offer_typed :: "symbol \<Rightarrow> financing_offer \<Rightarrow> bool" where
  "offer_typed k o1 \<longleftrightarrow> off_id o1 = k \<and> terms_valid (off_amount o1) (off_interest_rate o1) (off_duration o1) \<and>
     0 \<le> off_amount_repaid o1 \<and> in_i128 (off_amount_repaid o1) \<and>
     (off_status o1 \<in> {OffPending, OffRejected} \<longrightarrow> off_funded_at o1 = 0 \<and> off_amount_repaid o1 = 0)"

text \<open>\<open>m\<close> are the offers, \<open>st\<close> the contract's totals and \<open>ls\<close> the lenders'.\<close>

definition ledger_ok :: "(symbol, financing_offer) smap \<Rightarrow> protocol_stats \<Rightarrow> (address \<Rightarrow> lender_stats) \<Rightarrow> bool" where
  "ledger_ok m st ls \<longleftrightarrow> sm_wf m \<and> (\<forall>k o1. map_of m k = Some o1 \<longrightarrow> offer_typed k o1) \<and>
     total_invoices st = 0 \<and> int (total_offers st) = offer_total (\<lambda>_. 1) m \<and>
     total_financed st = offer_total financed_amount m \<and> total_fee_revenue st = 0 \<and>
     (\<forall>l. total_offered (ls l) = offer_total (part_of l off_amount) m \<and> in_i128 (total_offered (ls l)) \<and>
        total_accepted (ls l) = offer_total (part_of l financed_amount) m \<and>
        int (offers_pending (ls l)) = offer_total (part_of l (\<lambda>_. 1)) m \<and>
        int (offers_repaid (ls l)) = offer_total (part_of l repaid_count) m)"

definition change_at :: "(symbol, financing_offer) smap \<Rightarrow> symbol \<Rightarrow> financing_offer \<Rightarrow> (financing_offer \<Rightarrow> int) \<Rightarrow> int" where
  "change_at m x o1 g = g o1 - (case map_of m x of None \<Rightarrow> 0 | Some o0 \<Rightarrow> g o0)"

lemma offer_total_change: "sm_wf m \<Longrightarrow> offer_total g (sm_set m x o1) = offer_total g m + change_at m x o1 g"
  by (simp add: offer_total_set change_at_def)

lemma ledger_upd:
  assumes "ledger_ok m st ls" and "offer_typed x o1"
    and "total_invoices st' = 0" and "int (total_offers st') = int (total_offers st) + change_at m x o1 (\<lambda>_. 1)"
    and "total_financed st' = total_financed st + change_at m x o1 financed_amount" and "total_fee_revenue st' = 0"
    and "\<And>l. total_offered (ls' l) = total_offered (ls l) + change_at m x o1 (part_of l off_amount)"
    and "\<And>l. in_i128 (total_offered (ls' l))"
    and "\<And>l. total_accepted (ls' l) = total_accepted (ls l) + change_at m x o1 (part_of l financed_amount)"
    and "\<And>l. int (offers_pending (ls' l)) = int (offers_pending (ls l)) + change_at m x o1 (part_of l (\<lambda>_. 1))"
    and "\<And>l. int (offers_repaid (ls' l)) = int (offers_repaid (ls l)) + change_at m x o1 (part_of l repaid_count)"
  shows "ledger_ok (sm_set m x o1) st' ls'"
  using assms by (simp add: ledger_ok_def offer_total_change)

subsection \<open>What the parties' entry points do to the totals\<close>

lemma loads:
  "fstats f = fstats g \<Longrightarrow> fin_load_stats f = fin_load_stats g"
  "lstats f = lstats g \<Longrightarrow> load_lender_stats l f = load_lender_stats l g"
  by (simp_all add: fin_load_stats_def load_lender_stats_def)

lemma loads_upd [simp]:
  "fin_load_stats (f\<lparr>fstats := Some st\<rparr>) = st"
  "load_lender_stats l (f\<lparr>lstats := (lstats f)(a \<mapsto> ls)\<rparr>) = (if l = a then ls else load_lender_stats l f)"
  by (simp_all add: fin_load_stats_def load_lender_stats_def)

lemma close_on_settlement_stats [simp]:
  "fstats (close_negotiation_on_settlement x c f) = fstats f"
  "lstats (close_negotiation_on_settlement x c f) = lstats f"
  by (simp_all add: close_negotiation_on_settlement_def)

lemma close_on_exit_stats [simp]:
  "fstats (close_negotiation_on_offer_exit x c f) = fstats f"
  "lstats (close_negotiation_on_offer_exit x c f) = lstats f"
  by (simp_all add: close_negotiation_on_offer_exit_def)

lemma record_round_stats [simp]:
  "fstats (record_round e x h p a r d f) = fstats f" "lstats (record_round e x h p a r d f) = lstats f"
  by (simp_all add: record_round_def Let_def)

lemma mint_position_stats:
  "mint_position T e o1 f t = Inr (t', f') \<Longrightarrow> fstats f' = fstats f \<and> lstats f' = lstats f"
  by (auto simp: mint_position_def ok split: option.splits)

lemma settle_stats:
  assumes "settle_acceptance T e x o0 i c w = Inr (o1, w')"
  shows "fin_load_stats (w_financing w') = (fin_load_stats (w_financing w))
      \<lparr>total_financed := total_financed (fin_load_stats (w_financing w)) + off_amount o0\<rparr>"
    and "load_lender_stats l (w_financing w') = (let s = load_lender_stats l (w_financing w) in
      if l = off_lender o0 then s\<lparr>total_accepted := total_accepted s + off_amount o0\<rparr> else s)"
  using assms
  by (auto simp: settle_acceptance_def Let_def ok split_beta publish_def fin_load_stats_def load_lender_stats_def
      dest!: mint_position_stats)

text \<open>The books of the contract's own state.\<close>

definition books_balance :: "financing \<Rightarrow> bool" where
  "books_balance f \<longleftrightarrow> fin_feebps f = None \<and>
     ledger_ok (offers f) (fin_load_stats f) (\<lambda>l. load_lender_stats l f)"

lemma books_balance_cong:
  "books_balance f \<Longrightarrow> offers g = offers f \<Longrightarrow> fstats g = fstats f \<Longrightarrow> lstats g = lstats f \<Longrightarrow>
     fin_feebps g = fin_feebps f \<Longrightarrow> books_balance g"
  using loads [of g f] by (simp add: books_balance_def)

lemma books_balance_typed:
  "books_balance f \<Longrightarrow> map_of (offers f) x = Some o1 \<Longrightarrow> offer_typed x o1"
  by (simp add: books_balance_def ledger_ok_def)

lemma books_balance_facts:
  assumes "books_balance f"
  shows "in_i128 (total_offered (load_lender_stats l f))" "total_invoices (fin_load_stats f) = 0"
    "total_fee_revenue (fin_load_stats f) = 0" "fin_feebps f = None"
    "ledger_ok (offers f) (fin_load_stats f) (\<lambda>l. load_lender_stats l f)"
  using assms unfolding books_balance_def ledger_ok_def by blast+

lemmas change_defs = change_at_def part_of_def financed_amount_def repaid_count_def

lemma books_create:
  assumes "create_offer e x iid a amt c r d ex w = Inr (o1, w')" and "books_balance (w_financing w)"
  shows "books_balance (w_financing w')" and "total_repaid (fin_load_stats (w_financing w')) = total_repaid (fin_load_stats (w_financing w))"
proof -
  let ?f = "w_financing w" and ?f' = "w_financing w'"
  from assms(1) have o1: "offer_typed x o1" "off_status o1 = OffPending" "off_lender o1 = a" "off_amount o1 = amt"
    and new: "map_of (offers ?f) x = None" "offers ?f' = sm_set (offers ?f) x o1"
    and st: "fin_load_stats ?f' = (fin_load_stats ?f)\<lparr>total_offers := total_offers (fin_load_stats ?f) + 1\<rparr>"
    and ls: "load_lender_stats l ?f' = (let s = load_lender_stats l ?f in if l = a then
        s\<lparr>total_offered := total_offered s + amt, offers_pending := offers_pending s + 1\<rparr> else s)"
    and range: "in_i128 (total_offered (load_lender_stats a ?f) + amt)"
    and fee: "fin_feebps ?f' = fin_feebps ?f" for l
    by (auto simp: create_offer_def Let_def ok sm_has_def offer_typed_def terms_valid_def in_i128_def publish_def
        fin_load_stats_def load_lender_stats_def)
  show "books_balance ?f'"
    unfolding books_balance_def new(2)
    by (rule conjI [OF _ ledger_upd [OF _ o1(1)]])
      (use books_balance_facts [OF assms(2)] new(1) range in \<open>auto simp: fee st ls Let_def o1 change_defs\<close>)
  show "total_repaid (fin_load_stats ?f') = total_repaid (fin_load_stats ?f)" by (simp add: st)
qed

lemma books_exit:
  assumes "map_of (offers f) x = Some o0" and "off_status o0 = OffPending" and "books_balance f"
    and "offers f' = sm_set (offers f) x (o0\<lparr>off_status := OffRejected\<rparr>)" and "fstats f' = fstats f"
    and "lstats f' = lstats f" and "fin_feebps f' = fin_feebps f"
  shows "books_balance f'"
  unfolding books_balance_def assms(4)
  by (rule conjI [OF _ ledger_upd [OF books_balance_facts(5) [OF assms(3)]]])
    (use assms(1,2,7) loads(1) [OF assms(5)] loads(2) [OF assms(6)] books_balance_typed [OF assms(3,1)]
      books_balance_facts(1-4) [OF assms(3)] in \<open>auto simp: change_defs offer_typed_def\<close>)

lemma books_settle:
  assumes "settle_acceptance T e x o0 i c w = Inr (o1, w')" and "books_balance (w_financing w)"
    and "map_of (offers (w_financing w)) x = Some o0" and "off_status o0 = OffPending"
  shows "books_balance (w_financing w')"
    and "total_repaid (fin_load_stats (w_financing w')) = total_repaid (fin_load_stats (w_financing w))"
proof -
  let ?o1 = "o0\<lparr>off_status := OffAccepted, off_funded_at := ledger_timestamp e\<rparr>"
  from assms(1) have "offers (w_financing w') = sm_set (offers (w_financing w)) x ?o1 \<and>
      fin_feebps (w_financing w') = fin_feebps (w_financing w)"
    by (rule settle_ok) simp
  moreover have "offer_typed x ?o1"
    using books_balance_typed [OF assms(2,3)] by (simp add: offer_typed_def)
  ultimately show "books_balance (w_financing w')"
    unfolding books_balance_def
    by (elim conjE, intro conjI, simp add: books_balance_facts [OF assms(2)], simp only:,
        intro ledger_upd [OF books_balance_facts(5) [OF assms(2)]])
      (auto simp: settle_stats [OF assms(1)] Let_def change_defs assms(3,4) books_balance_facts [OF assms(2)])
  show "total_repaid (fin_load_stats (w_financing w')) = total_repaid (fin_load_stats (w_financing w))"
    by (simp add: settle_stats [OF assms(1)])
qed

lemma books_execute:
  assumes "execute_agreement T e x c w = Inr (o1, w')" and "books_balance (w_financing w)"
    and "map_of (offers (w_financing w)) x = Some o0" and "off_status o0 = OffPending"
  shows "books_balance (w_financing w') \<and>
    total_repaid (fin_load_stats (w_financing w')) = total_repaid (fin_load_stats (w_financing w))"
  using assms by (auto elim!: execute_agreement_ok dest: books_settle)

lemma books_amend:
  assumes "amend_offer T e x a n amt r d w = Inr (o1, w')" and "books_balance (w_financing w)"
  shows "books_balance (w_financing w') \<and>
    total_repaid (fin_load_stats (w_financing w')) = total_repaid (fin_load_stats (w_financing w))"
  using assms(1)
proof (rule amend_offer_ok)
  fix o0 :: financing_offer and ls
  let ?f = "w_financing w" and ?h = "load_negotiation x (w_financing w)"
  let ?o1 = "o0\<lparr>off_amount := amt, off_interest_rate := r, off_duration := d\<rparr>"
  let ?f' = "write_amendment e x a ?h amt r d ?o1 ls ?f"
  assume o0: "map_of (offers ?f) x = Some o0" "off_lender o0 = a" "off_status o0 = OffPending"
    and terms: "terms_valid amt r d" and range: "in_i128 (total_offered (load_lender_stats a ?f) + (amt - off_amount o0))"
    and ls: "ls = (load_lender_stats a ?f)\<lparr>total_offered := total_offered (load_lender_stats a ?f) + (amt - off_amount o0)\<rparr>"
    and run: "if meets_proposal ?h amt r d then execute_agreement T e x a (w\<lparr>w_financing := ?f'\<rparr>) = Inr (o1, w')
      else o1 = ?o1 \<and> w' = w\<lparr>w_financing := ?f'\<rparr>"
  have st: "fin_load_stats (write_amendment e x a ?h amt r d ?o1 s ?f) = fin_load_stats ?f"
    and lst: "load_lender_stats l (write_amendment e x a ?h amt r d ?o1 s ?f) =
      (if l = a then s else load_lender_stats l ?f)" for l s
    by (simp_all add: write_amendment_def Let_def publish_def fin_load_stats_def load_lender_stats_def)
  have "offer_typed x ?o1" using books_balance_typed [OF assms(2) o0(1)] terms by (simp add: offer_typed_def)
  then have "books_balance ?f'"
    unfolding books_balance_def write_amendment_sel
    by (intro conjI ledger_upd [OF books_balance_facts(5) [OF assms(2)]])
      (use books_balance_facts(1-4) [OF assms(2)] range in \<open>auto simp: st lst ls change_defs o0\<close>)
  with run st o0 show ?thesis
    using books_execute [of T e x a "w\<lparr>w_financing := ?f'\<rparr>" o1 w' ?o1] by (auto split: if_splits)
qed

lemma books_counter:
  assumes "counter_offer T e x a n amt r d w = Inr (o1, w')" and "books_balance (w_financing w)"
  shows "books_balance (w_financing w') \<and>
    total_repaid (fin_load_stats (w_financing w')) = total_repaid (fin_load_stats (w_financing w))"
  using assms(1)
proof (rule counter_offer_ok)
  fix o0 f
  assume o0: "map_of (offers (w_financing w)) x = Some o0" "off_status o0 = OffPending"
    and f: "f = publish (Ev_ctr_off x a amt r d) (record_round e x (load_negotiation x (w_financing w))
       ByOriginator amt r d (w_financing w))"
    and run: "if amt = off_amount o0 \<and> r = off_interest_rate o0 \<and> d = off_duration o0
      then execute_agreement T e x a (w\<lparr>w_financing := f\<rparr>) = Inr (o1, w') else o1 = o0 \<and> w' = w\<lparr>w_financing := f\<rparr>"
  have same: "offers f = offers (w_financing w)" "fstats f = fstats (w_financing w)"
    "lstats f = lstats (w_financing w)" "fin_feebps f = fin_feebps (w_financing w)"
    by (simp_all add: f)
  have "books_balance f" by (rule books_balance_cong [OF assms(2) same])
  with run o0 same(1) loads(1) [OF same(2)] show ?thesis
    using books_execute [of T e x a "w\<lparr>w_financing := f\<rparr>" o1 w' o0] by (auto split: if_splits)
qed

lemma books_offer_step:
  assumes "offer_step T w w'" and "books_balance (w_financing w)"
  shows "books_balance (w_financing w') \<and>
    total_repaid (fin_load_stats (w_financing w')) = total_repaid (fin_load_stats (w_financing w))"
  using assms
proof (induction rule: offer_step.induct)
  case (1 e x iid a amt c r d ex w o1 w')
  show ?case by (rule conjI [OF books_create(1) [OF 1] books_create(2) [OF 1]])
next
  case (2 e x a w o1 w')
  let ?f = "w_financing w" and ?f' = "w_financing w'"
  from 2(1) obtain o0 where o0: "map_of (offers ?f) x = Some o0" "off_status o0 = OffPending"
      "offers ?f' = sm_set (offers ?f) x (o0\<lparr>off_status := OffRejected\<rparr>)"
    and same: "fstats ?f' = fstats ?f" "lstats ?f' = lstats ?f" "fin_feebps ?f' = fin_feebps ?f"
    by (auto simp: withdraw_offer_def ok Let_def)
  with books_exit [OF o0(1,2) 2(2) o0(3) same] loads(1) [OF same(1)] show ?case by simp
next
  case (3 e x a w o1 w')
  then show ?case by (auto elim!: accept_offer_ok dest: books_settle)
next
  case (4 e x a w o1 w')
  let ?f = "w_financing w" and ?f' = "w_financing w'"
  from 4(1) obtain o0 where o0: "map_of (offers ?f) x = Some o0" "off_status o0 = OffPending"
      "offers ?f' = sm_set (offers ?f) x (o0\<lparr>off_status := OffRejected\<rparr>)"
    and same: "fstats ?f' = fstats ?f" "lstats ?f' = lstats ?f" "fin_feebps ?f' = fin_feebps ?f"
    by (auto simp: reject_offer_def ok Let_def)
  with books_exit [OF o0(1,2) 4(2) o0(3) same] loads(1) [OF same(1)] show ?case by simp
next
  case (5 e x a n amt r d w o1 w')
  then show ?case by (rule books_amend)
next
  case (6 e x a n amt r d w o1 w')
  then show ?case by (rule books_counter)
next
  case (7 e x a w st w')
  have same: "offers (w_financing w') = offers (w_financing w)" "fstats (w_financing w') = fstats (w_financing w)"
    "lstats (w_financing w') = lstats (w_financing w)" "fin_feebps (w_financing w') = fin_feebps (w_financing w)"
    using 7(1) by (auto simp: close_negotiation_def ok Let_def)
  with books_balance_cong [OF 7(2) same] loads(1) [OF same(2)] show ?case by simp
next
  case (8 e x a fr n d w sc w')
  have same: "offers (w_financing w') = offers (w_financing w)" "fstats (w_financing w') = fstats (w_financing w)"
    "lstats (w_financing w') = lstats (w_financing w)" "fin_feebps (w_financing w') = fin_feebps (w_financing w)"
    using 8(1) by (auto simp: schedule_repayment_def ok Let_def)
  with books_balance_cong [OF 8(2) same] loads(1) [OF same(2)] show ?case by simp
qed

subsection \<open>What repayments and reclaims do to the totals\<close>

lemma callback_stats:
  "update_offer_status e y st f = Inr f' \<Longrightarrow>
     fstats f' = fstats f \<and> lstats f' = lstats f \<and> fin_feebps f' = fin_feebps f"
  "update_offer_amount_repaid e y n f = Inr f' \<Longrightarrow>
     fstats f' = fstats f \<and> lstats f' = lstats f \<and> fin_feebps f' = fin_feebps f"
  "update_lender_stats_repaid e a full f = Inr f' \<Longrightarrow> fstats f' = fstats f \<and> fin_feebps f' = fin_feebps f \<and>
     lstats f' = (lstats f)(a \<mapsto> (if full then (load_lender_stats a f)\<lparr>offers_repaid := offers_repaid (load_lender_stats a f) + 1\<rparr>
       else load_lender_stats a f))"
  "update_stats_repaid e amt fee f = Inr f' \<Longrightarrow> lstats f' = lstats f \<and> fin_feebps f' = fin_feebps f \<and>
     fstats f' = Some ((fin_load_stats f)\<lparr>total_repaid := total_repaid (fin_load_stats f) + amt,
       total_fee_revenue := total_fee_revenue (fin_load_stats f) + fee\<rparr>)"
  by (auto simp: update_offer_status_def update_offer_amount_repaid_def update_lender_stats_repaid_def
      update_stats_repaid_def ok Let_def split: if_splits)

lemma repay_callbacks_stats:
  assumes "repay_callbacks e y o0 pr amt fee full f = Inr f'"
  shows "fin_load_stats f' = (fin_load_stats f)\<lparr>total_repaid := total_repaid (fin_load_stats f) + amt,
      total_fee_revenue := total_fee_revenue (fin_load_stats f) + fee\<rparr>"
    and "load_lender_stats l f' = (let s = load_lender_stats l f in
      if l = off_lender o0 \<and> full then s\<lparr>offers_repaid := offers_repaid s + 1\<rparr> else s)"
    and "fin_feebps f' = fin_feebps f"
proof -
  from assms obtain st n f1 f2 f3 where run: "update_offer_status e y st f = Inr f1"
    "update_offer_amount_repaid e y n f1 = Inr f2" "update_lender_stats_repaid e (off_lender o0) full f2 = Inr f3"
    "update_stats_repaid e amt fee f3 = Inr f'"
    by (auto simp: repay_callbacks_def bindE_Inr_iff Let_def)
  have "fin_load_stats f3 = fin_load_stats f" by (rule loads) (use callback_stats run in metis)
  moreover have "fstats f' = Some ((fin_load_stats f3)\<lparr>total_repaid := total_repaid (fin_load_stats f3) + amt,
       total_fee_revenue := total_fee_revenue (fin_load_stats f3) + fee\<rparr>)" using callback_stats(4) [OF run(4)] by simp
  ultimately show "fin_load_stats f' = (fin_load_stats f)\<lparr>total_repaid := total_repaid (fin_load_stats f) + amt,
      total_fee_revenue := total_fee_revenue (fin_load_stats f) + fee\<rparr>" by (simp add: fin_load_stats_def)
  have "load_lender_stats k f2 = load_lender_stats k f" for k by (rule loads) (use callback_stats run in metis)
  moreover have "load_lender_stats l f' = load_lender_stats l f3" by (rule loads) (use callback_stats run in metis)
  moreover have "load_lender_stats l f3 = load_lender_stats l (f2\<lparr>lstats := (lstats f2)(off_lender o0 \<mapsto>
      (if full then (load_lender_stats (off_lender o0) f2)\<lparr>offers_repaid := offers_repaid (load_lender_stats (off_lender o0) f2) + 1\<rparr>
       else load_lender_stats (off_lender o0) f2))\<rparr>)"
    by (rule loads) (simp add: callback_stats(3) [OF run(3)])
  ultimately show "load_lender_stats l f' = (let s = load_lender_stats l f in
      if l = off_lender o0 \<and> full then s\<lparr>offers_repaid := offers_repaid s + 1\<rparr> else s)" by (simp add: Let_def)
  show "fin_feebps f' = fin_feebps f" using callback_stats run by metis
qed

lemma books_callbacks:
  assumes "repay_callbacks e y o0 pr amt 0 full f = Inr f'" and "map_of (offers f) y = Some o0" and "books_balance f"
    and "off_status o0 \<in> {OffAccepted, OffFinanced}" and "0 \<le> pr"
  shows "books_balance f'"
proof -
  let ?o1 = "o0\<lparr>off_status := if full then OffRepaid else OffFinanced, off_amount_repaid := off_amount_repaid o0 + pr\<rparr>"
  note cb = repay_callbacks_ok [OF assms(1,2)] and st = repay_callbacks_stats [OF assms(1)]
  have "offer_typed y ?o1" using books_balance_typed [OF assms(3,2)] cb assms(5) by (auto simp: offer_typed_def)
  moreover have "offers f' = sm_set (offers f) y ?o1" using cb by simp
  ultimately show ?thesis
    unfolding books_balance_def
    by (simp only:, intro conjI ledger_upd [OF books_balance_facts(5) [OF assms(3)]])
      (use assms(2,4) books_balance_facts(1-4) [OF assms(3)] in \<open>auto simp: st Let_def change_defs\<close>)
qed

lemma books_default:
  assumes "update_offer_status e y OffDefaulted f = Inr f'" and "map_of (offers f) y = Some o0" and "books_balance f"
    and "off_status o0 \<in> {OffAccepted, OffFinanced}"
  shows "books_balance f'" and "fin_load_stats f' = fin_load_stats f"
proof -
  let ?o1 = "o0\<lparr>off_status := OffDefaulted\<rparr>"
  from assms(1,2) have f': "f' = f\<lparr>offers := sm_set (offers f) y ?o1\<rparr>" by (auto simp: update_offer_status_def ok)
  have loads': "fin_load_stats f' = fin_load_stats f" "load_lender_stats l f' = load_lender_stats l f" for l
    by (rule loads; simp add: f')+
  then show "fin_load_stats f' = fin_load_stats f" by simp
  have "offer_typed y ?o1" using books_balance_typed [OF assms(3,2)] assms(4) by (auto simp: offer_typed_def)
  moreover have "offers f' = sm_set (offers f) y ?o1" by (simp add: f')
  ultimately show "books_balance f'"
    unfolding books_balance_def
    by (simp only:, intro conjI ledger_upd [OF books_balance_facts(5) [OF assms(3)]])
      (use assms(2,4) books_balance_facts(1-4) [OF assms(3)] loads' in \<open>auto simp: f' change_defs\<close>)
qed

lemma payments_total_snoc:
  assumes "finite (dom (pays p))" and "pays p' = (pays p)(x \<mapsto> load_payments x p @ [r])"
  shows "payments_total p' = payments_total p + pay_amount r"
proof -
  let ?g = "\<lambda>q z. \<Sum>r\<leftarrow>load_payments z q. pay_amount r"
  have load: "load_payments z p' = load_payments z p @ (if z = x then [r] else [])" for z
    by (simp add: load_payments_def assms(2))
  have "payments_total p' = (\<Sum>z\<in>insert x (dom (pays p)). ?g p' z)" by (simp add: payments_total_def assms(2))
  also have "\<dots> = (\<Sum>z\<in>insert x (dom (pays p)). ?g p z + (if z = x then pay_amount r else 0))"
    by (rule sum.cong) (auto simp: load)
  also have "\<dots> = (\<Sum>z\<in>insert x (dom (pays p)). ?g p z) + pay_amount r"
    using assms(1) by (simp add: sum.distrib)
  also have "(\<Sum>z\<in>insert x (dom (pays p)). ?g p z) = payments_total p"
    unfolding payments_total_def
    by (rule sum.mono_neutral_right) (use assms(1) in \<open>auto simp: load_payments_def domIff\<close>)
  finally show ?thesis .
qed

definition accounts_ok :: "address \<Rightarrow> 't rworld \<Rightarrow> bool" where
  "accounts_ok rp w \<longleftrightarrow> books_ok rp w \<and> books_balance (w_financing w) \<and> finite (dom (pays (w_repayment w))) \<and>
     total_repaid (fin_load_stats (w_financing w)) = payments_total (w_repayment w)"

text \<open>A deployment whose financing contract holds nothing yet.\<close>

definition fresh_deployment :: "address \<Rightarrow> 't rworld \<Rightarrow> bool" where
  "fresh_deployment rp w \<longleftrightarrow> before_repayments rp w \<and> offers (w_financing w) = [] \<and>
     fstats (w_financing w) = None \<and> lstats (w_financing w) = Map.empty \<and> fin_feebps (w_financing w) = None"

lemma accounts_repay:
  assumes run: "repay_invoice T e x y a amt w = Inr (i', w')" and inv: "accounts_ok rp w" and rp: "current_contract e = rp"
  shows "accounts_ok rp w'"
  using run
proof (rule repay_invoice_ok)
  fix i o0 tok rem acc fee full
  assume o0: "map_of (offers (w_financing w)) y = Some o0" "off_status o0 \<in> {OffAccepted, OffFinanced}"
    and amt: "0 < amt" and ob: "repay_obligation e x i o0 amt (w_repayment w) = Inr (rem, acc)"
    and tr: "repay_transfers T e tok a (off_lender o0) amt (w_financing w) (w_registry w) (w_token w) = Inr (fee, w_token w')"
    and hist: "pays (w_repayment w') = (pays (w_repayment w))(x \<mapsto> load_payments x (w_repayment w) @
       [paid_record e x a amt acc (w_repayment w)])"
    and "\<exists>ef. repay_callbacks ef y o0 (amt - min amt acc) amt fee full (w_financing w) = Inr (w_financing w')"
  then obtain ef where cb: "repay_callbacks ef y o0 (amt - min amt acc) amt fee full (w_financing w) = Inr (w_financing w')"
    by blast
  from inv have bal: "books_balance (w_financing w)" by (simp add: accounts_ok_def)
  have "fee = amt * int (get_fee_bps (w_financing w)) sdiv 10000" using tr by (rule repay_transfers_ok)
  then have fee: "fee = 0" using books_balance_facts(4) [OF bal] by (simp add: get_fee_bps_def)
  have "books_balance (w_financing w')" by (rule books_callbacks [OF cb [unfolded fee] o0(1) bal o0(2)]) simp
  with inv books_repay [OF run _ rp] payments_total_snoc [OF _ hist] show ?thesis
    by (simp add: accounts_ok_def repay_callbacks_stats [OF cb] hist paid_record_def)
qed

lemma accounts_reclaim:
  assumes run: "reclaim_invoice T e x y a w = Inr (o1, w')" and inv: "accounts_ok rp w"
  shows "accounts_ok rp w'"
  using run
proof (rule reclaim_invoice_ok)
  fix i o0 payout
  assume guard: "reclaim_guard e x y a w = Inr (i, o0)"
    and "\<exists>ef. update_offer_status ef y OffDefaulted (w_financing w) = Inr (w_financing w')"
    and p': "w_repayment w' = publish (Ev_off_def (off_id o0) x a payout
       (penalty_now e (inv_due_date i) o0 (w_repayment w))) (w_repayment w)"
  then obtain ef where upd: "update_offer_status ef y OffDefaulted (w_financing w) = Inr (w_financing w')" by blast
  from guard have o0: "map_of (offers (w_financing w)) y = Some o0" "off_status o0 \<in> {OffAccepted, OffFinanced}"
    by (simp_all add: reclaim_guard_ok)
  have "payments_total (w_repayment w') = payments_total (w_repayment w)"
    by (simp add: payments_total_def load_payments_def p')
  with inv books_reclaim [OF run] books_default [OF upd o0(1) _ o0(2)] show ?thesis
    by (simp add: accounts_ok_def p')
qed

subsection \<open>The invariant of the protocol\<close>

lemma financing_admin_stats:
  "financing_admin rp f f' \<Longrightarrow> fstats f' = fstats f \<and> lstats f' = lstats f \<and> fin_feebps f' = fin_feebps f"
proof (induction rule: financing_admin.induct)
  case (5 f f')
  then show ?case by (auto dest!: gov_step_more) (cases f; cases f'; simp)+
qed (auto simp: fin_set_repayment_contract_def financing_register_currency_def set_position_token_def
    set_negotiation_window_def register_currency_token_def save_currency_registry_def ok)

lemma accounts_cong:
  assumes "accounts_ok rp w" and "books_ok rp w'" and "books_balance (w_financing w')"
    and "pays (w_repayment w') = pays (w_repayment w)"
    and "total_repaid (fin_load_stats (w_financing w')) = total_repaid (fin_load_stats (w_financing w))"
  shows "accounts_ok rp w'"
  using assms by (simp add: accounts_ok_def payments_total_def load_payments_def)

interpretation accounting: invariant_system "fresh_deployment rp" "protocol_step T rp" "accounts_ok rp"
  for T :: "'t sep41" and rp
proof
  fix w :: "'t rworld"
  assume w: "fresh_deployment rp w"
  then have "books_balance (w_financing w)"
    by (simp add: fresh_deployment_def books_balance_def ledger_ok_def fin_load_stats_def load_lender_stats_def in_i128_def)
  moreover have "books_ok rp w" by (rule protocol.init_inv) (use w in \<open>simp add: fresh_deployment_def\<close>)
  ultimately show "accounts_ok rp w"
    using w by (simp add: accounts_ok_def fresh_deployment_def before_repayments_def payments_total_def fin_load_stats_def)
next
  fix w w' :: "'t rworld"
  assume inv: "accounts_ok rp w" and step: "protocol_step T rp w w'"
  then have books: "books_ok rp w'" by (intro protocol.step_inv [OF _ step]) (simp add: accounts_ok_def)
  have bal: "books_balance (w_financing w)" using inv by (simp add: accounts_ok_def)
  from step show "accounts_ok rp w'"
  proof cases
    case ps_repay
    then show ?thesis using accounts_repay inv by blast
  next
    case (ps_overdue e x i)
    then have "w_financing w' = w_financing w" "w_repayment w' = w_repayment w" by (auto simp: mark_overdue_def ok)
    with bal show ?thesis by (intro accounts_cong [OF inv books]) simp_all
  next
    case ps_reclaim
    then show ?thesis using accounts_reclaim inv by blast
  next
    case (ps_repayment p)
    with bal repayment_admin_frame [OF ps_repayment(2)] show ?thesis by (intro accounts_cong [OF inv books]) simp_all
  next
    case ps_offer
    then have "w_repayment w' = w_repayment w" using offer_step_repayment more_repayment by blast
    with books_offer_step [OF ps_offer bal] show ?thesis by (intro accounts_cong [OF inv books]) simp_all
  next
    case (ps_callback e f)
    then show ?thesis using callback_blocked [OF ps_callback(3,2)] inv by (simp add: accounts_ok_def books_ok_def)
  next
    case (ps_financing f)
    note frame = financing_admin_frame [OF ps_financing(2)] financing_admin_stats [OF ps_financing(2)]
    have "books_balance f" by (rule books_balance_cong [OF bal]) (use frame in simp_all)
    moreover have "fin_load_stats f = fin_load_stats (w_financing w)" by (rule loads) (use frame in simp)
    ultimately show ?thesis using ps_financing by (intro accounts_cong [OF inv books]) simp_all
  qed (use inv books in \<open>simp_all add: accounts_ok_def\<close>)
qed

text \<open>
  C6. The counters are the books: along every sequence of protocol steps from an empty financing
  contract, the protocol totals and every lender's totals, which the contracts only ever add to one
  call at a time, equal the ones recomputed from the stored offers and payments: the number of
  offers and the amount financed over all of them, the money of all recorded payments, and per
  lender what was offered, what was accepted and how many offers were repaid. The protocol fee
  revenue is zero, and the count of pending offers is the number of offers the lender ever made.
\<close>

theorem statistics_are_the_books:
  assumes "reach (fresh_deployment rp) (protocol_step T rp) w"
  shows "fin_get_stats (w_financing w) = protocol_ledger (w_financing w) (w_repayment w) \<and>
    get_lender_stats l (w_financing w) = lender_ledger l (w_financing w)"
proof -
  from assms have inv: "accounts_ok rp w" by (rule accounting.reach_inv)
  then have ok: "ledger_ok (offers (w_financing w)) (fin_load_stats (w_financing w)) (\<lambda>l. load_lender_stats l (w_financing w))"
    by (simp add: accounts_ok_def books_balance_def)
  then have "int (total_offers (fin_load_stats (w_financing w))) = int (length (sm_keys (offers (w_financing w))))"
    by (simp add: ledger_ok_def offer_total_one)
  then have "fin_get_stats (w_financing w) = protocol_ledger (w_financing w) (w_repayment w)"
    using inv ok by (intro protocol_stats.equality)
      (simp_all add: fin_get_stats_def protocol_ledger_def accounts_ok_def ledger_ok_def)
  moreover have "offers_pending (load_lender_stats l (w_financing w)) = nat (offer_total (part_of l (\<lambda>_. 1)) (offers (w_financing w)))"
    "offers_repaid (load_lender_stats l (w_financing w)) = nat (offer_total (part_of l repaid_count) (offers (w_financing w)))"
    using ok unfolding ledger_ok_def by (metis nat_int)+
  then have "get_lender_stats l (w_financing w) = lender_ledger l (w_financing w)"
    using ok by (intro lender_stats.equality) (simp_all add: get_lender_stats_def lender_ledger_def ledger_ok_def Let_def)
  ultimately show ?thesis by blast
qed

text \<open>
  C16. Every stored offer is well typed: along every sequence of protocol steps from an empty financing
  contract, an offer is stored under its own id, its amount is positive and fits the 128-bit type,
  its rate is between one and ten thousand basis points and its duration between a day and a year -
  whatever negotiation made of them -, its repaid amount is a non-negative 128-bit number, and an
  offer that is Pending or Rejected has neither a funding time nor a repayment.
\<close>

theorem offers_well_typed:
  assumes "reach (fresh_deployment rp) (protocol_step T rp) w" and "get_offer k (w_financing w) = Inr o1"
  shows "off_id o1 = k \<and> 0 < off_amount o1 \<and> in_i128 (off_amount o1) \<and>
    1 \<le> off_interest_rate o1 \<and> off_interest_rate o1 \<le> MAX_INTEREST_BPS \<and>
    MIN_OFFER_DURATION_SECS \<le> off_duration o1 \<and> off_duration o1 \<le> MAX_OFFER_DURATION_SECS \<and>
    0 \<le> off_amount_repaid o1 \<and> in_i128 (off_amount_repaid o1) \<and>
    (off_status o1 \<in> {OffPending, OffRejected} \<longrightarrow> off_funded_at o1 = 0 \<and> off_amount_repaid o1 = 0)"
proof -
  let ?m = "offers (w_financing w)" and ?l = "off_lender o1"
  have bal: "books_balance (w_financing w)" using accounting.reach_inv [OF assms(1)] by (simp add: accounts_ok_def)
  have o1: "map_of ?m k = Some o1" using assms(2) by (simp add: ok)
  have pos: "0 \<le> part_of ?l off_amount o2" if "map_of ?m j = Some o2" for j o2
    using books_balance_typed [OF bal that] by (simp add: part_of_def offer_typed_def terms_valid_def)
  have ledger: "sm_wf ?m" "total_offered (load_lender_stats ?l (w_financing w)) = offer_total (part_of ?l off_amount) ?m"
    using books_balance_facts(5) [OF bal] by (simp_all add: ledger_ok_def)
  have "part_of ?l off_amount o1 \<le> offer_total (part_of ?l off_amount) ?m"
    by (rule offer_total_ge [OF ledger(1) _ o1]) (rule pos)
  then have "off_amount o1 \<le> total_offered (load_lender_stats ?l (w_financing w))" by (simp add: ledger(2) part_of_def)
  with books_balance_facts(1) [OF bal, of ?l] books_balance_typed [OF bal o1] show ?thesis
    by (auto simp: offer_typed_def terms_valid_def in_i128_def)
qed

subsection \<open>A run from an empty contract\<close>

lemma demo_create:
  "\<exists>w'. create_offer (demo_env 5 (Address 101)) (Symbol ''o'') (Symbol ''a'') (Address 3) 40000000 (Symbol ''USDC'') 500 864000 0
     (rep_world InvPending []) = Inr (demo_offer, w') \<and> stage InvPending [(Symbol ''o'', demo_offer)] 0 [] oracle_ledger w'"
  by (simp add: create_offer_def Let_def assert_not_paused_def require_auth_def fin_assert_not_blacklisted_def is_blacklisted_def
      read_invoice_def registry_env_def callee_def get_invoice_def sm_has_def add_u32_def add_i128_def chk_i128_def in_i128_def
      demo_offer_def stage_def reg_stage_def fin_stage_def rep_stage_def publish_def load_payments_def fin_load_stats_def
      load_lender_stats_def)

text \<open>One offer is made, accepted and repaid in full.\<close>

lemma demo_life:
  "\<exists>w. reach (fresh_deployment (Address 102)) (protocol_step ledger_token (Address 102)) w \<and>
     offers (w_financing w) = [(Symbol ''o'', paid_offer 40000000 True first_offer)]"
proof -
  let ?step = "protocol_step ledger_token (Address 102)" and ?reach = "reach (fresh_deployment (Address 102))"
  have init: "?reach ?step (rep_world InvPending [])"
    by (rule reach_init) (simp add: fresh_deployment_def before_rep_world)
  from demo_create obtain w1 where
    create: "create_offer (demo_env 5 (Address 101)) (Symbol ''o'') (Symbol ''a'') (Address 3) 40000000 (Symbol ''USDC'') 500
      864000 0 (rep_world InvPending []) = Inr (demo_offer, w1)"
    and st1: "stage InvPending [(Symbol ''o'', demo_offer)] 0 [] oracle_ledger w1" by blast
  from create have r1: "?reach ?step w1" by (blast intro: reach_step [OF init] ps_offer offer_step.intros(1))
  obtain t1 where t1: "ledger_transfer_from (demo_env 5 (Address 101)) (Address 50) (Address 101) (Address 3) (Address 2)
      40000000 oracle_ledger = Inr t1" "bal t1 = moved (bal oracle_ledger) (Address 3) (Address 2) 40000000"
    using ledger_pull [of 40000000 oracle_ledger "Address 50" "Address 3" "Address 101" "demo_env 5 (Address 101)" "Address 2"]
    by (auto simp: oracle_ledger_def)
  with stage_accept [OF st1, of "Symbol ''o''" demo_offer t1] obtain w2 where
    w2: "?step w1 w2" "stage InvFinanced [(Symbol ''o'', first_offer)] 40000000 [] t1 w2"
    by (auto simp: first_offer_def)
  have "40000000 \<le> bal t1 (Address 2)" by (simp add: t1(2) moved_def oracle_ledger_def)
  with ledger_push [of 40000000 t1 "Address 50" "Address 2" "renv 5" "Address 3"] obtain t2 where
    t2: "ledger_transfer (renv 5) (Address 50) (Address 2) (Address 3) 40000000 t1 = Inr t2" by auto
  have "remaining_of [] first_offer = Inr 40000000"
    by (simp add: remaining_of_def total_principal_repaid_def sub_i128_def chk_i128_def in_i128_def)
  with t2 stage_repay [OF w2(2), of "Symbol ''o''" first_offer 40000000 40000000 t2] obtain w3 n h st where
    w3: "?step w2 w3" "stage st [(Symbol ''o'', paid_offer 40000000 True first_offer)] n h t2 w3"
    by auto
  have "?reach ?step w3" using reach_step [OF reach_step [OF r1 w2(1)] w3(1)] .
  with w3(2) show ?thesis by (auto simp: stage_def fin_stage_def)
qed

lemma statistics_are_the_books_witness:
  "\<exists>w. reach (fresh_deployment (Address 102)) (protocol_step ledger_token (Address 102)) w \<and>
     total_financed (fin_get_stats (w_financing w)) = 40000000 \<and>
     get_lender_stats (Address 3) (w_financing w) =
       \<lparr>total_offered = 40000000, total_accepted = 40000000, offers_pending = 1, offers_repaid = 1\<rparr>"
proof -
  obtain w where w: "reach (fresh_deployment (Address 102)) (protocol_step ledger_token (Address 102)) w"
    "offers (w_financing w) = [(Symbol ''o'', paid_offer 40000000 True first_offer)]" using demo_life by (elim exE conjE)
  have "total_financed (protocol_ledger (w_financing w) (w_repayment w)) = 40000000"
    "lender_ledger (Address 3) (w_financing w) =
       \<lparr>total_offered = 40000000, total_accepted = 40000000, offers_pending = 1, offers_repaid = 1\<rparr>"
    by (simp_all add: w(2) protocol_ledger_def lender_ledger_def offer_total_def sm_keys_def part_of_def financed_amount_def
        repaid_count_def paid_offer_def)
  with statistics_are_the_books [OF w(1), of "Address 3"] w(1) show ?thesis by (intro exI [of _ w]) simp
qed

lemma offers_well_typed_witness:
  "\<exists>w o1. reach (fresh_deployment (Address 102)) (protocol_step ledger_token (Address 102)) w \<and>
     get_offer (Symbol ''o'') (w_financing w) = Inr o1 \<and> off_id o1 = Symbol ''o'' \<and> in_i128 (off_amount_repaid o1)"
proof -
  obtain w where w: "reach (fresh_deployment (Address 102)) (protocol_step ledger_token (Address 102)) w"
    "offers (w_financing w) = [(Symbol ''o'', paid_offer 40000000 True first_offer)]" using demo_life by (elim exE conjE)
  then have "get_offer (Symbol ''o'') (w_financing w) = Inr (paid_offer 40000000 True first_offer)" by (simp add: ok)
  with offers_well_typed [OF w(1) this] w(1) show ?thesis
    by (intro exI [of _ w] exI [of _ "paid_offer 40000000 True first_offer"]) simp
qed

end
