(* ===== verification/Protocol_Lifecycle.thy ===== *)
theory Protocol_Lifecycle
  imports Protocol
begin

text \<open>
  The life of an invoice across the five contracts. Whatever entry point of whatever contract runs,
  the registry changes only by its own elementary effects, so the invoice state machine holds for
  every interleaving of the protocol; what the other contracts do to an invoice then depends on where
  in the machine it stands.
\<close>

subsection \<open>What the protocol does to the registry\<close>

definition registry_moves :: "registry \<Rightarrow> registry \<Rightarrow> bool" where
  "registry_moves r r' \<longleftrightarrow> (\<exists>h. (core_effect h)\<^sup>*\<^sup>* r r')"

lemma registry_moves_refl [simp, intro]: "registry_moves r r"
  by (auto simp: registry_moves_def)

lemma registry_moves_core: "core_step h r r' \<Longrightarrow> registry_moves r r'"
  using core_step_effects by (auto simp: registry_moves_def)

lemma settle_registry: "settle_acceptance T e x o0 i closer w = Inr (o1, w') \<Longrightarrow> registry_moves (w_registry w) (w_registry w')"
  by (erule settle_ok) (auto intro: registry_moves_core core_step.intros)

lemma agreement_registry:
  "execute_agreement T e x closer w = Inr (o1, w') \<Longrightarrow> registry_moves (w_registry w) (w_registry w')"
  by (erule execute_agreement_ok) (rule settle_registry)

lemma offer_step_registry: "offer_step T w w' \<Longrightarrow> registry_moves (w_registry w) (w_registry w')"
proof (induction rule: offer_step.induct)
  case (3 e x a w o1 w')
  then show ?case by (auto elim!: accept_offer_ok intro: settle_registry)
next
  case (5 e x a n amt r d w o1 w')
  then show ?case by (auto elim!: amend_offer_ok dest!: agreement_registry split: if_splits)
next
  case (6 e x a n amt r d w o1 w')
  then show ?case by (auto elim!: counter_offer_ok dest!: agreement_registry split: if_splits)
qed (auto simp: create_offer_def withdraw_offer_def reject_offer_def close_negotiation_def schedule_repayment_def
    ok Let_def)

lemma protocol_step_registry: "protocol_step T rp w w' \<Longrightarrow> registry_moves (w_registry w) (w_registry w')"
proof (induction rule: protocol_step.induct)
  case (ps_repay e x y a amt w i w')
  then show ?case by (auto elim!: repay_invoice_ok intro: registry_moves_core core_step.intros)
next
  case (ps_overdue e x w i w')
  then show ?case by (auto simp: mark_overdue_def ok intro: registry_moves_core [OF core_step.intros(10) [OF refl]])
next
  case (ps_reclaim e x y a w o1 w')
  then show ?case by (auto elim!: reclaim_invoice_ok intro: registry_moves_core core_step.intros)
next
  case (ps_registry h w r t)
  then show ?case using registry_step_effects by (fastforce simp: registry_moves_def)
qed (auto intro: offer_step_registry)

lemma registry_moves_status:
  assumes "registry_moves r r'" and "status_of r x = Some a"
  shows "\<exists>b. status_of r' x = Some b \<and> valid_edge\<^sup>*\<^sup>* a b"
  using assms invoice_life.steps_edges unfolding registry_moves_def by blast

interpretation protocol_life: lifecycle "\<lambda>w. status_of (w_registry w)" "protocol_step T rp" "valid_edge\<^sup>*\<^sup>*"
  for T :: "'t sep41" and rp
  by unfold_locales (use protocol_step_registry registry_moves_status in blast)

lemma terminal_edges: "is_terminal a \<Longrightarrow> valid_edge\<^sup>*\<^sup>* a b \<Longrightarrow> b = a"
  by (auto elim: converse_rtranclpE dest: terminal_no_edge)

lemma repay_needs_financed:
  "repay_invoice T e x y a amt w = Inr r \<Longrightarrow> status_of (w_registry w) x = Some InvFinanced"
  by (cases r) (auto elim!: repay_invoice_ok simp: status_of_def)

lemma reclaim_needs_overdue:
  "reclaim_invoice T e x y a w = Inr r \<Longrightarrow> status_of (w_registry w) x = Some InvOverdue"
  by (cases r) (auto elim!: reclaim_invoice_ok simp: status_of_def reclaim_guard_ok)

lemma overdue_needs_financed:
  "mark_overdue e x w = Inr r \<Longrightarrow> status_of (w_registry w) x = Some a \<Longrightarrow> valid_edge a InvOverdue"
  by (auto simp: mark_overdue_def ok mark_invoice_overdue_ok may_move_def status_of_def)

lemma accept_needs_pending:
  assumes "accept_offer T e y a w = Inr r" and "get_offer y (w_financing w) = Inr o0"
  shows "status_of (w_registry w) (off_invoice_id o0) = Some InvPending"
  using assms by (cases r) (auto elim!: accept_offer_ok simp: status_of_def get_offer_def ok)

fun_cases overdue_edgeE: "valid_edge InvOverdue b"

fun_cases defaulted_edgeE: "valid_edge InvDefaulted b"

lemma overdue_edges: "valid_edge\<^sup>*\<^sup>* InvOverdue b \<Longrightarrow> b \<in> {InvOverdue, InvDefaulted}"
  by (induction rule: rtranclp_induct) (auto elim: overdue_edgeE defaulted_edgeE)

definition inert :: "'t sep41 \<Rightarrow> symbol \<Rightarrow> 't rworld \<Rightarrow> bool" where
  "inert T x w \<longleftrightarrow> (\<forall>e y a amt r. repay_invoice T e x y a amt w \<noteq> Inr r) \<and>
     (\<forall>e y a r. reclaim_invoice T e x y a w \<noteq> Inr r) \<and> (\<forall>e r. mark_overdue e x w \<noteq> Inr r) \<and>
     (\<forall>e y a o0 r. get_offer y (w_financing w) = Inr o0 \<and> off_invoice_id o0 = x \<longrightarrow> accept_offer T e y a w \<noteq> Inr r)"

lemma terminal_inert:
  assumes "status_of (w_registry w) x = Some a" and "is_terminal a"
  shows "inert T x w"
  unfolding inert_def
  using assms terminal_no_edge [OF assms(2)] repay_needs_financed reclaim_needs_overdue overdue_needs_financed
    accept_needs_pending by (cases a) fastforce+

subsection \<open>The end of an invoice\<close>

text \<open>
  C5. An invoice has one life in all five contracts: along every sequence of protocol steps an invoice
  never disappears and its status moves only along edges of the transition table; once it is
  Repaid, Cancelled or Defaulted it stays so, and from then on nobody can repay it, mark it
  overdue, reclaim it or accept an offer on it; once it is Overdue it can only become Defaulted, and no
  repayment of it succeeds any more.
\<close>

theorem closed_invoice_stays_closed:
  assumes "(protocol_step T rp)\<^sup>*\<^sup>* w w'" and "get_invoice x (w_registry w) = Inr i"
  shows "\<exists>i'. get_invoice x (w_registry w') = Inr i' \<and> valid_edge\<^sup>*\<^sup>* (inv_status i) (inv_status i') \<and>
    (is_terminal (inv_status i) \<longrightarrow> inv_status i' = inv_status i \<and>
      (\<forall>e y a amt r. repay_invoice T e x y a amt w' \<noteq> Inr r) \<and> (\<forall>e y a r. reclaim_invoice T e x y a w' \<noteq> Inr r) \<and>
      (\<forall>e r. mark_overdue e x w' \<noteq> Inr r) \<and>
      (\<forall>e y a o0 r. get_offer y (w_financing w') = Inr o0 \<and> off_invoice_id o0 = x \<longrightarrow>
         accept_offer T e y a w' \<noteq> Inr r)) \<and>
    (inv_status i = InvOverdue \<longrightarrow> inv_status i' \<in> {InvOverdue, InvDefaulted} \<and>
      (\<forall>e y a amt r. repay_invoice T e x y a amt w' \<noteq> Inr r))"
proof -
  have "status_of (w_registry w) x = Some (inv_status i)" using assms(2) by (simp add: status_of_def ok)
  from protocol_life.steps_edges [OF assms(1) this] obtain b
    where b: "status_of (w_registry w') x = Some b" "valid_edge\<^sup>*\<^sup>* (inv_status i) b" by auto
  then obtain i' where i': "get_invoice x (w_registry w') = Inr i'" "inv_status i' = b" by (auto simp: status_of_def ok)
  have "b = inv_status i \<and> inert T x w'" if "is_terminal (inv_status i)"
    using terminal_edges [OF that b(2)] terminal_inert [OF b(1)] that by simp
  moreover have "b \<in> {InvOverdue, InvDefaulted} \<and> (\<forall>e y a amt r. repay_invoice T e x y a amt w' \<noteq> Inr r)"
    if "inv_status i = InvOverdue"
    using overdue_edges [of b] repay_needs_financed b that by fastforce
  ultimately show ?thesis using b(2) i' unfolding inert_def by (intro exI [of _ i'] conjI impI) simp_all
qed

lemma closed_invoice_stays_closed_witness:
  "\<exists>i' w'. repay_invoice ledger_token (renv 173800) (Symbol ''a'') (Symbol ''o'') (Address 2) 40010958
     (rep_world InvFinanced [(Symbol ''o'', loan)]) = Inr (i', w') \<and>
     (\<exists>i2. get_invoice (Symbol ''a'') (w_registry w') = Inr i2 \<and> valid_edge\<^sup>*\<^sup>* InvFinanced (inv_status i2))"
proof -
  let ?w = "rep_world InvFinanced [(Symbol ''o'', loan)]"
  obtain i' w' where run: "repay_invoice ledger_token (renv 173800) (Symbol ''a'') (Symbol ''o'') (Address 2) 40010958 ?w =
    Inr (i', w')" using demo_repay by blast
  then have "(protocol_step ledger_token (Address 102))\<^sup>*\<^sup>* ?w w'" by (intro r_into_rtranclp ps_repay [OF _ run]) simp
  moreover have "get_invoice (Symbol ''a'') (w_registry ?w) = Inr ((demo_invoice ''a'' 2)\<lparr>inv_status := InvFinanced\<rparr>)"
    by (simp add: ok)
  ultimately show ?thesis using closed_invoice_stays_closed run by fastforce
qed

text \<open>
  C26. A stranger can end a loan: while an invoice is Financed, any address - not the originator, not the
  lender, not the repayment contract - can have the registry record it as Repaid with nothing but
  its own signature. No token and no offer moves, but whatever happens afterwards the originator
  cannot repay, nobody can mark the invoice overdue, and the lender can never reclaim it.
\<close>

theorem stranger_ends_the_loan:
  assumes "\<not> paused (w_registry w)" and "get_invoice x (w_registry w) = Inr i" and "inv_status i = InvFinanced"
    and "authorizes e stranger"
  shows "\<exists>r. set_invoice_repaid_status e x stranger True (w_registry w) = Inr (i\<lparr>inv_status := InvRepaid\<rparr>, r) \<and>
    protocol_step T rp w (w\<lparr>w_registry := r\<rparr>) \<and>
    (\<forall>w'. (protocol_step T rp)\<^sup>*\<^sup>* (w\<lparr>w_registry := r\<rparr>) w' \<longrightarrow>
      (\<forall>e y a amt res. repay_invoice T e x y a amt w' \<noteq> Inr res) \<and> (\<forall>e res. mark_overdue e x w' \<noteq> Inr res) \<and>
      (\<forall>e y a res. reclaim_invoice T e x y a w' \<noteq> Inr res))"
proof -
  from anyone_can_mark_repaid [OF assms(1,2) _ assms(4)] assms(3) obtain r where
    run: "set_invoice_repaid_status e x stranger True (w_registry w) = Inr (i\<lparr>inv_status := InvRepaid\<rparr>, r)"
    and r: "get_invoice x r = Inr (i\<lparr>inv_status := InvRepaid\<rparr>)" by auto
  have "registry_step T (sha256_xdr e) (w_registry w, w_token w) (r, w_token w)"
    using run by (auto intro: of_core core_step.intros)
  from ps_registry [OF this, of rp] have step: "protocol_step T rp w (w\<lparr>w_registry := r\<rparr>)" by simp
  have closed: "inert T x w'" if "(protocol_step T rp)\<^sup>*\<^sup>* (w\<lparr>w_registry := r\<rparr>) w'" for w'
  proof -
    have "status_of (w_registry (w\<lparr>w_registry := r\<rparr>)) x = Some InvRepaid" using r by (simp add: status_of_def ok)
    from protocol_life.steps_edges [OF that this] obtain b
      where b: "status_of (w_registry w') x = Some b" "valid_edge\<^sup>*\<^sup>* InvRepaid b" by auto
    from terminal_edges [OF _ b(2)] terminal_inert [OF b(1)] show ?thesis by simp
  qed
  with run step show ?thesis unfolding inert_def by blast
qed

lemma stranger_ends_the_loan_witness:
  "\<exists>r. set_invoice_repaid_status (renv 6) (Symbol ''a'') (Address 66) True
      (w_registry (rep_world InvFinanced [(Symbol ''o'', loan)])) = Inr ((demo_invoice ''a'' 2)\<lparr>inv_status := InvRepaid\<rparr>, r) \<and>
    (\<forall>res. repay_invoice ledger_token (renv 173800) (Symbol ''a'') (Symbol ''o'') (Address 2) 40010958
      (rep_world InvFinanced [(Symbol ''o'', loan)]\<lparr>w_registry := r\<rparr>) \<noteq> Inr res)"
proof -
  let ?w = "rep_world InvFinanced [(Symbol ''o'', loan)]"
  have "\<not> paused (w_registry ?w)"
    "get_invoice (Symbol ''a'') (w_registry ?w) = Inr ((demo_invoice ''a'' 2)\<lparr>inv_status := InvFinanced\<rparr>)"
    by (simp_all add: ok)
  from stranger_ends_the_loan [OF this, of "renv 6" "Address 66" ledger_token "Address 102"] obtain r where
    run: "set_invoice_repaid_status (renv 6) (Symbol ''a'') (Address 66) True (w_registry ?w) =
      Inr ((demo_invoice ''a'' 2)\<lparr>inv_status := InvFinanced\<rparr>\<lparr>inv_status := InvRepaid\<rparr>, r)"
    and late: "\<And>w' e y a amt res. (protocol_step ledger_token (Address 102))\<^sup>*\<^sup>* (?w\<lparr>w_registry := r\<rparr>) w' \<Longrightarrow>
      repay_invoice ledger_token e (Symbol ''a'') y a amt w' \<noteq> Inr res"
    by auto
  from late [OF rtranclp.rtrancl_refl] run show ?thesis by (intro exI [of _ r]) simp
qed

subsection \<open>The end of an offer\<close>

text \<open>What the protocol may do to a stored offer: anything the parties agree while it is Pending, then only repayment and default.\<close>

definition decided_move :: "financing_offer \<Rightarrow> financing_offer \<Rightarrow> bool" where
  "decided_move a b \<longleftrightarrow> off_amount b = off_amount a \<and> off_interest_rate b = off_interest_rate a \<and>
     off_duration b = off_duration a \<and> off_funded_at b = off_funded_at a \<and> off_amount_repaid a \<le> off_amount_repaid b \<and>
     (b = a \<or> off_status a \<in> {OffAccepted, OffFinanced} \<and> off_status b \<in> {OffFinanced, OffRepaid, OffDefaulted})"

definition offer_moves :: "financing_offer \<Rightarrow> financing_offer \<Rightarrow> bool" where
  "offer_moves a b \<longleftrightarrow> off_id b = off_id a \<and> off_invoice_id b = off_invoice_id a \<and> off_lender b = off_lender a \<and>
     off_currency b = off_currency a \<and> off_expires_at b = off_expires_at a \<and>
     (off_status a \<noteq> OffPending \<longrightarrow> decided_move a b)"

lemma offer_moves_refl [simp, intro]: "offer_moves a a"
  by (simp add: offer_moves_def decided_move_def)

lemma decided_move_trans: "decided_move a b \<Longrightarrow> decided_move b c \<Longrightarrow> decided_move a c"
  unfolding decided_move_def by (elim conjE disjE) simp_all

lemma decided_move_pending: "decided_move a b \<Longrightarrow> off_status a \<noteq> OffPending \<Longrightarrow> off_status b \<noteq> OffPending"
  by (auto simp: decided_move_def)

lemma offer_moves_trans: "offer_moves a b \<Longrightarrow> offer_moves b c \<Longrightarrow> offer_moves a c"
  unfolding offer_moves_def using decided_move_trans decided_move_pending by auto

lemma offer_edge_moves: "offer_edge a b \<Longrightarrow> offer_moves a b"
  by (simp add: offer_edge_def same_deal_def offer_moves_def)

lemma offer_set_moves:
  assumes "offers (w_financing w') = sm_set (offers (w_financing w)) y o1" and "map_of (offers (w_financing w)) y = Some o0"
    and "offer_moves o0 o1" and "offer_at w x = Some a"
  shows "\<exists>b. offer_at w' x = Some b \<and> offer_moves a b"
  using assms by (cases "x = y") (auto simp: offer_at_def)

lemma repay_offer_moves:
  assumes "repay_invoice T e x0 y a0 amt w = Inr (i', w')" and "offer_at w x = Some a"
  shows "\<exists>b. offer_at w' x = Some b \<and> offer_moves a b"
  using assms(1)
proof (rule repay_invoice_ok)
  fix i o0 tok rem acc fee full
  assume o0: "map_of (offers (w_financing w)) y = Some o0" "off_status o0 \<in> {OffAccepted, OffFinanced}"
    and offs: "offers (w_financing w') = sm_set (offers (w_financing w)) y (paid_offer (amt - min amt acc) full o0)"
  have "offer_moves o0 (paid_offer (amt - min amt acc) full o0)"
    using o0(2) by (auto simp: offer_moves_def decided_move_def paid_offer_def)
  from offer_set_moves [OF offs o0(1) this assms(2)] show ?thesis .
qed

lemma reclaim_offer_moves:
  assumes "reclaim_invoice T e x0 y a0 w = Inr (o1, w')" and "offer_at w x = Some a"
  shows "\<exists>b. offer_at w' x = Some b \<and> offer_moves a b"
  using assms(1)
proof (rule reclaim_invoice_ok)
  fix i o0 payout
  assume guard: "reclaim_guard e x0 y a0 w = Inr (i, o0)" and o1: "o1 = o0\<lparr>off_status := OffDefaulted\<rparr>"
    and offs: "offers (w_financing w') = sm_set (offers (w_financing w)) y o1"
  have "offer_moves o0 o1" using guard by (auto simp: reclaim_guard_ok offer_moves_def decided_move_def o1)
  from offer_set_moves [OF offs _ this assms(2)] guard show ?thesis by (simp add: reclaim_guard_ok)
qed

lemma protocol_offer_moves:
  assumes "books_ok rp w" and "protocol_step T rp w w'" and "offer_at w x = Some a"
  shows "\<exists>b. offer_at w' x = Some b \<and> offer_moves a b"
  using assms(2)
proof cases
  case ps_repay
  then show ?thesis using repay_offer_moves assms(3) by blast
next
  case (ps_overdue e x i)
  then have "w_financing w' = w_financing w" by (auto simp: mark_overdue_def ok)
  with assms(3) show ?thesis by (auto simp: offer_at_def)
next
  case ps_reclaim
  then show ?thesis using reclaim_offer_moves assms(3) by blast
next
  case ps_offer
  from offer_life.step_edge [OF this assms(3)] show ?thesis using offer_edge_moves by blast
next
  case (ps_callback e f)
  then show ?thesis using callback_blocked [OF ps_callback(3,2)] assms(1) by (simp add: books_ok_def)
next
  case (ps_financing f)
  with financing_admin_frame [OF ps_financing(2)] assms(3) show ?thesis by (auto simp: offer_at_def)
qed (use assms(3) in \<open>auto simp: offer_at_def\<close>)

lemma protocol_offer_moves_steps:
  assumes "(protocol_step T rp)\<^sup>*\<^sup>* w w'" and "books_ok rp w" and "offer_at w x = Some a"
  shows "\<exists>b. offer_at w' x = Some b \<and> offer_moves a b"
  using assms(1)
proof (induction rule: rtranclp_induct)
  case base
  with assms(3) show ?case by blast
next
  case (step w1 w2)
  then obtain b where b: "offer_at w1 x = Some b" "offer_moves a b" by blast
  from protocol_offer_moves [OF protocol.steps_inv [OF step(1) assms(2)] step(2) b(1)] b(2)
  show ?case by (blast intro: offer_moves_trans)
qed

text \<open>
  C14. An offer is decided once. Along every sequence of protocol steps - the entry points of all five
  contracts, called by anyone - from a state reached from one without repayments, an offer never
  disappears and keeps its id, lender, invoice, currency and expiry. Once it is no longer Pending
  its amount, rate, duration and funding date are fixed, the repayment recorded on it never falls,
  and its status never goes back: an Accepted or Financed offer can only become Financed, Repaid or
  Defaulted, and a Rejected, Repaid or Defaulted one never changes again in any field. The entry points
  that lenders and originators call in the financing contract alone do not change a decided offer
  at all.
\<close>

theorem offer_decided_once:
  assumes "reach (before_repayments rp) (protocol_step T rp) w" and "(protocol_step T rp)\<^sup>*\<^sup>* w w'"
    and "get_offer x (w_financing w) = Inr a"
  shows "\<exists>b. get_offer x (w_financing w') = Inr b \<and>
    off_id b = off_id a \<and> off_invoice_id b = off_invoice_id a \<and> off_lender b = off_lender a \<and>
    off_currency b = off_currency a \<and> off_expires_at b = off_expires_at a \<and>
    (off_status a \<noteq> OffPending \<longrightarrow>
      off_amount b = off_amount a \<and> off_interest_rate b = off_interest_rate a \<and> off_duration b = off_duration a \<and>
      off_funded_at b = off_funded_at a \<and> off_amount_repaid a \<le> off_amount_repaid b \<and>
      (b = a \<or> off_status a \<in> {OffAccepted, OffFinanced} \<and> off_status b \<in> {OffFinanced, OffRepaid, OffDefaulted})) \<and>
    ((offer_step T)\<^sup>*\<^sup>* w w' \<and> off_status a \<noteq> OffPending \<longrightarrow> b = a)"
proof -
  have at: "offer_at w x = Some a" using assms(3) by (simp add: offer_at_def ok)
  from protocol_offer_moves_steps [OF assms(2) protocol.reach_inv [OF assms(1)] at] obtain b where
    b: "get_offer x (w_financing w') = Inr b" "offer_moves a b" by (auto simp: offer_at_def ok)
  moreover have "b = a" if "(offer_step T)\<^sup>*\<^sup>* w w'" "off_status a \<noteq> OffPending"
    using offer_decided_by_parties [OF that(1) assms(3)] that(2) b(1) by auto
  ultimately show ?thesis unfolding offer_moves_def decided_move_def by blast
qed

lemma offer_decided_once_witness:
  "\<exists>i' w' b. repay_invoice ledger_token (renv 173800) (Symbol ''a'') (Symbol ''o'') (Address 2) 40010958
     (rep_world InvFinanced [(Symbol ''o'', loan)]) = Inr (i', w') \<and>
     get_offer (Symbol ''o'') (w_financing w') = Inr b \<and> off_lender b = Address 3 \<and> off_amount b = 40000000 \<and>
     off_status b \<noteq> OffPending"
proof -
  let ?w = "rep_world InvFinanced [(Symbol ''o'', loan)]"
  obtain i' w' where run: "repay_invoice ledger_token (renv 173800) (Symbol ''a'') (Symbol ''o'') (Address 2) 40010958 ?w =
    Inr (i', w')" using demo_repay by blast
  then have steps: "(protocol_step ledger_token (Address 102))\<^sup>*\<^sup>* ?w w'" by (intro r_into_rtranclp ps_repay [OF _ run]) simp
  have start: "reach (before_repayments (Address 102)) (protocol_step ledger_token (Address 102)) ?w"
    by (intro reach_init) (simp add: before_rep_world)
  have "get_offer (Symbol ''o'') (w_financing ?w) = Inr loan" by (simp add: ok)
  from offer_decided_once [OF start steps this] run show ?thesis by auto
qed

end
