(* ===== verification/Full_Repayment.thy ===== *)
theory Full_Repayment
  imports Protocol
begin

text \<open>
  What Repaid means for the lender. Payments are kept per invoice and principal is owed per offer,
  so the mark is only as good as the assumption that the payments of an invoice belong to one
  offer; \<open>Double_Financing\<close> is a run without it. With it, Repaid means that the principal was paid.
\<close>

subsection \<open>The invariant\<close>

definition sole_payee :: "symbol \<Rightarrow> financing_offer \<Rightarrow> (symbol \<rightharpoonup> financing_offer) \<Rightarrow> bool" where
  "sole_payee y o1 m \<longleftrightarrow> (\<forall>k o2. m k = Some o2 \<and> off_invoice_id o2 = off_invoice_id o1 \<and> k \<noteq> y \<longrightarrow> off_amount_repaid o2 = 0)"

definition repaid_ok :: "(symbol \<rightharpoonup> financing_offer) \<Rightarrow> bool" where
  "repaid_ok m \<longleftrightarrow> (\<forall>y o1. m y = Some o1 \<longrightarrow> 0 \<le> off_amount_repaid o1 \<and>
     (off_status o1 = OffRepaid \<and> sole_payee y o1 m \<longrightarrow> off_amount o1 \<le> off_amount_repaid o1))"

definition whole_ok :: "address \<Rightarrow> 't rworld \<Rightarrow> bool" where
  "whole_ok rp w \<longleftrightarrow> books_ok rp w \<and> repaid_ok (offer_at w)"

text \<open>Replacing an offer by one of the same invoice that is repaid no less keeps every other sole payee.\<close>

lemma sole_payee_before:
  assumes "sole_payee y o1 (m(k \<mapsto> b))" and "y \<noteq> k"
    and "\<And>a. m k = Some a \<Longrightarrow> off_invoice_id b = off_invoice_id a \<and> 0 \<le> off_amount_repaid a \<and>
      off_amount_repaid a \<le> off_amount_repaid b"
  shows "sole_payee y o1 m"
  unfolding sole_payee_def
proof (intro allI impI)
  fix j o2
  assume j: "m j = Some o2 \<and> off_invoice_id o2 = off_invoice_id o1 \<and> j \<noteq> y"
  show "off_amount_repaid o2 = 0"
  proof (cases "j = k")
    case True
    with j assms(3) have "off_invoice_id b = off_invoice_id o1" "off_amount_repaid o2 \<le> off_amount_repaid b"
      "0 \<le> off_amount_repaid o2" by auto
    moreover have "off_amount_repaid b = 0"
      using assms(1) [unfolded sole_payee_def, rule_format, of k b] assms(2) \<open>off_invoice_id b = off_invoice_id o1\<close> by simp
    ultimately show ?thesis by simp
  next
    case False
    with j assms(1) [unfolded sole_payee_def, rule_format, of j o2] show ?thesis by simp
  qed
qed

lemma repaid_ok_upd:
  assumes "repaid_ok m" and "0 \<le> off_amount_repaid b"
    and "\<And>a. m k = Some a \<Longrightarrow> off_invoice_id b = off_invoice_id a \<and> off_amount_repaid a \<le> off_amount_repaid b"
    and "off_status b = OffRepaid \<Longrightarrow> sole_payee k b m \<Longrightarrow> off_amount b \<le> off_amount_repaid b"
  shows "repaid_ok (m(k \<mapsto> b))"
  unfolding repaid_ok_def
proof (intro allI impI)
  fix y o1
  assume y: "(m(k \<mapsto> b)) y = Some o1"
  show "0 \<le> off_amount_repaid o1 \<and>
    (off_status o1 = OffRepaid \<and> sole_payee y o1 (m(k \<mapsto> b)) \<longrightarrow> off_amount o1 \<le> off_amount_repaid o1)"
  proof (cases "y = k")
    case True
    moreover have "sole_payee k b (m(k \<mapsto> b)) \<longleftrightarrow> sole_payee k b m" by (auto simp: sole_payee_def)
    ultimately show ?thesis using y assms(2,4) by simp
  next
    case False
    with y assms(1) have "m y = Some o1" "0 \<le> off_amount_repaid o1"
      and due: "off_status o1 = OffRepaid \<and> sole_payee y o1 m \<longrightarrow> off_amount o1 \<le> off_amount_repaid o1"
      by (auto simp: repaid_ok_def)
    moreover have "sole_payee y o1 m" if "sole_payee y o1 (m(k \<mapsto> b))"
      by (rule sole_payee_before [OF that False]) (use assms(1,3) in \<open>auto simp: repaid_ok_def\<close>)
    ultimately show ?thesis by blast
  qed
qed

lemma repaid_ok_effect: "offer_effect w w' \<Longrightarrow> repaid_ok (offer_at w) \<Longrightarrow> repaid_ok (offer_at w')"
proof -
  assume eff: "offer_effect w w'" and ok: "repaid_ok (offer_at w)"
  consider "offer_at w' = offer_at w" | x b where "offer_at w' = (offer_at w)(x \<mapsto> b)" "offer_at w x = None"
      "off_status b = OffPending" "off_amount_repaid b = 0"
    | x b a where "offer_at w' = (offer_at w)(x \<mapsto> b)" "offer_at w x = Some a" "offer_edge a b"
    using eff by (auto simp: offer_effect_def)
  then show ?thesis
  proof cases
    case 2
    then show ?thesis by (auto intro!: repaid_ok_upd [OF ok])
  next
    case 3
    moreover have "0 \<le> off_amount_repaid a" using 3(2) ok by (simp add: repaid_ok_def)
    ultimately show ?thesis by (auto simp: offer_edge_def same_deal_def intro!: repaid_ok_upd [OF ok])
  qed (simp add: ok)
qed

text \<open>The principal that counts towards an offer is at most what its invoice's history records.\<close>

lemma principal_repaid_le:
  assumes "history_ok h"
  shows "principal_repaid h \<le> (\<Sum>r\<leftarrow>h. pay_principal_paid r)"
proof -
  have "(\<Sum>r\<leftarrow>h. pay_principal_paid r) = principal_repaid h + (\<Sum>r\<leftarrow>drop MAX_PAYMENTS_PER_INVOICE h. pay_principal_paid r)"
    unfolding principal_repaid_def by (metis append_take_drop_id map_append sum_list_append)
  moreover have "0 \<le> pay_principal_paid r" if "r \<in> set h" for r
    using assms that by (auto simp: history_ok_def in_set_conv_nth)
  then have "0 \<le> (\<Sum>r\<leftarrow>drop MAX_PAYMENTS_PER_INVOICE h. pay_principal_paid r)"
    by (intro sum_list_nonneg) (auto dest: in_set_dropD)
  ultimately show ?thesis by linarith
qed

lemma sole_payee_repaid_on:
  assumes "finite (dom m)" and "m y = Some o1" and "sole_payee y o1 m"
  shows "repaid_on (off_invoice_id o1) m = off_amount_repaid o1"
proof -
  have "(\<Sum>k\<in>dom m - {y}. owed_part (off_invoice_id o1) (the (m k))) = 0"
    using assms(3) by (intro sum.neutral) (auto simp: owed_part_def sole_payee_def)
  with assms(1,2) show ?thesis by (simp add: repaid_on_def sum.remove [of "dom m" y] domI owed_part_def)
qed

lemma repaid_ok_repay:
  assumes "repay_invoice T e x y a amt w = Inr (i', w')" and "whole_ok rp w"
  shows "repaid_ok (offer_at w')"
  using assms(1)
proof (rule repay_invoice_ok)
  fix i o0 rem acc full
  assume o0: "map_of (offers (w_financing w)) y = Some o0" "off_invoice_id o0 = x" and amt: "0 < amt"
    and ob: "repay_obligation e x i o0 amt (w_repayment w) = Inr (rem, acc)" and full: "full \<longleftrightarrow> rem \<le> amt - min amt acc"
    and offs: "offers (w_financing w') = sm_set (offers (w_financing w)) y (paid_offer (amt - min amt acc) full o0)"
  have ok: "repaid_ok (offer_at w)" and books: "books_ok rp w" using assms(2) by (auto simp: whole_ok_def)
  have at: "offer_at w y = Some o0" using o0 by (simp add: offer_at_def)
  have "offer_at w' = (offer_at w)(y \<mapsto> paid_offer (amt - min amt acc) full o0)" by (simp add: offer_at_def fun_eq_iff offs)
  moreover have "off_amount o0 \<le> off_amount_repaid o0 + (amt - min amt acc)"
    if "rem \<le> amt - min amt acc" "sole_payee y o0 (offer_at w)"
  proof -
    have "off_amount_repaid o0 = (\<Sum>r\<leftarrow>load_payments x (w_repayment w). pay_principal_paid r)"
      using books sole_payee_repaid_on [OF _ at that(2)] o0(2) by (simp add: books_ok_def)
    moreover have "principal_repaid (load_payments x (w_repayment w)) \<le> (\<Sum>r\<leftarrow>load_payments x (w_repayment w). pay_principal_paid r)"
      using books by (intro principal_repaid_le) (simp add: books_ok_def)
    ultimately show ?thesis using repay_obligation_ok [OF ob] that(1) by linarith
  qed
  moreover have "0 \<le> off_amount_repaid o0" using ok at by (simp add: repaid_ok_def)
  ultimately show ?thesis
    using at full
    by (auto simp: paid_offer_def sole_payee_def intro!: repaid_ok_upd [OF ok] split: if_splits)
qed

lemma repaid_ok_defaulted:
  assumes "reclaim_invoice T e x y a w = Inr (o1, w')" and "repaid_ok (offer_at w)"
  shows "repaid_ok (offer_at w')"
  using assms(1)
proof (rule reclaim_invoice_ok)
  fix i o0
  assume guard: "reclaim_guard e x y a w = Inr (i, o0)" and o1: "o1 = o0\<lparr>off_status := OffDefaulted\<rparr>"
    and offs: "offers (w_financing w') = sm_set (offers (w_financing w)) y o1"
  have "offer_at w' = (offer_at w)(y \<mapsto> o1)" by (simp add: offer_at_def fun_eq_iff offs)
  moreover have at: "offer_at w y = Some o0" using guard by (simp add: reclaim_guard_ok offer_at_def)
  moreover have "0 \<le> off_amount_repaid o0" using assms(2) at by (simp add: repaid_ok_def)
  ultimately show ?thesis using o1 by (auto intro!: repaid_ok_upd [OF assms(2)])
qed

text \<open>A deployment before the first repayment, in which no offer is marked Repaid yet.\<close>

definition nothing_repaid :: "address \<Rightarrow> 't rworld \<Rightarrow> bool" where
  "nothing_repaid rp w \<longleftrightarrow> before_repayments rp w \<and> (\<forall>(k, o0) \<in> set (offers (w_financing w)). off_status o0 \<noteq> OffRepaid)"

interpretation full_repayment: invariant_system "nothing_repaid rp" "protocol_step T rp" "whole_ok rp"
  for T :: "'t sep41" and rp
proof
  fix w :: "'t rworld"
  assume w: "nothing_repaid rp w"
  then have "repaid_ok (offer_at w)"
    by (fastforce simp: nothing_repaid_def before_repayments_def repaid_ok_def offer_at_def dest!: map_of_SomeD)
  with w show "whole_ok rp w" by (simp add: whole_ok_def nothing_repaid_def protocol.init_inv)
next
  fix w w' :: "'t rworld"
  assume inv: "whole_ok rp w" and step: "protocol_step T rp w w'"
  then have books: "books_ok rp w'" using protocol.step_inv by (auto simp: whole_ok_def)
  have whole: "repaid_ok (offer_at w)" using inv by (simp add: whole_ok_def)
  from step have "repaid_ok (offer_at w')"
  proof cases
    case ps_repay
    then show ?thesis using repaid_ok_repay inv by blast
  next
    case ps_reclaim
    then show ?thesis using repaid_ok_defaulted whole by blast
  next
    case ps_offer
    then show ?thesis using repaid_ok_effect [OF offer_step_effect] whole by blast
  next
    case (ps_overdue e x i)
    then have "w_financing w' = w_financing w" by (auto simp: mark_overdue_def ok)
    then have "offer_at w' = offer_at w" by (rule offer_at_same)
    with whole show ?thesis by simp
  next
    case (ps_callback e f)
    then show ?thesis using callback_blocked [OF ps_callback(3,2)] inv by (simp add: whole_ok_def books_ok_def)
  next
    case (ps_financing f)
    then have "offer_at w' = offer_at w" using financing_admin_frame [OF ps_financing(2)] by (simp add: offer_at_def [abs_def])
    then show ?thesis using whole by simp
  qed (use whole in \<open>simp_all add: offer_at_def [abs_def]\<close>)
  with books show "whole_ok rp w'" by (simp add: whole_ok_def)
qed

subsection \<open>What Repaid promises the lender\<close>

text \<open>
  C4. Repaid means repaid: whatever the contracts and their users do, from any deployment without
  repayments, an offer marked Repaid has its whole principal recorded as repaid, as long as no other
  offer on its invoice received a payment; and that principal is exactly what the payment history of
  the invoice adds up to.
\<close>

theorem repaid_means_repaid:
  assumes "reach (nothing_repaid rp) (protocol_step T rp) w" and "get_offer y (w_financing w) = Inr o1"
    and "off_status o1 = OffRepaid"
    and "\<And>k o2. get_offer k (w_financing w) = Inr o2 \<Longrightarrow> off_invoice_id o2 = off_invoice_id o1 \<Longrightarrow> k \<noteq> y \<Longrightarrow>
      off_amount_repaid o2 = 0"
  shows "off_amount o1 \<le> off_amount_repaid o1 \<and>
    (\<Sum>r\<leftarrow>get_payment_history (off_invoice_id o1) (w_repayment w). pay_principal_paid r) = off_amount_repaid o1"
proof -
  have inv: "books_ok rp w" "repaid_ok (offer_at w)" using full_repayment.reach_inv [OF assms(1)] by (auto simp: whole_ok_def)
  have at: "offer_at w y = Some o1" using assms(2) by (simp add: offer_at_def get_offer_def ok)
  have sole: "sole_payee y o1 (offer_at w)"
    using assms(4) by (auto simp: sole_payee_def offer_at_def get_offer_def ok)
  from inv at sole assms(3) sole_payee_repaid_on [OF _ at sole] show ?thesis
    by (auto simp: repaid_ok_def books_ok_def get_payment_history_def)
qed

lemma repaid_means_repaid_witness:
  "\<exists>i' w'. repay_invoice ledger_token (renv 173800) (Symbol ''a'') (Symbol ''o'') (Address 2) 40010958
     (rep_world InvFinanced [(Symbol ''o'', loan)]) = Inr (i', w') \<and>
     (\<exists>o1. get_offer (Symbol ''o'') (w_financing w') = Inr o1 \<and> 40000000 \<le> off_amount_repaid o1)"
proof -
  let ?w = "rep_world InvFinanced [(Symbol ''o'', loan)]"
  obtain i' w' where run: "repay_invoice ledger_token (renv 173800) (Symbol ''a'') (Symbol ''o'') (Address 2) 40010958 ?w =
    Inr (i', w')" using demo_repay by blast
  have "nothing_repaid (Address 102) ?w" by (simp add: nothing_repaid_def before_rep_world)
  moreover have "protocol_step ledger_token (Address 102) ?w w'" by (rule ps_repay [OF _ run]) simp
  ultimately have reach: "reach (nothing_repaid (Address 102)) (protocol_step ledger_token (Address 102)) w'"
    by (blast intro: reach_step reach_init)
  have offs: "offers (w_financing w') = [(Symbol ''o'', paid_offer 40000000 True loan)]"
    using run
  proof (rule repay_invoice_ok)
    fix o0 rem acc full i
    assume "map_of (offers (w_financing ?w)) (Symbol ''o'') = Some o0"
      and ob: "repay_obligation (renv 173800) (Symbol ''a'') i o0 40010958 (w_repayment ?w) = Inr (rem, acc)"
      and "map_of (invoices (w_registry ?w)) (Symbol ''a'') = Some i"
      and "full \<longleftrightarrow> rem \<le> 40010958 - min 40010958 acc"
      and "offers (w_financing w') = sm_set (offers (w_financing ?w)) (Symbol ''o'') (paid_offer (40010958 - min 40010958 acc) full o0)"
    with demo_obligation [of InvFinanced] show ?thesis by auto
  qed
  have "off_amount (paid_offer 40000000 True loan) \<le> off_amount_repaid (paid_offer 40000000 True loan)"
    using repaid_means_repaid [OF reach, of "Symbol ''o''" "paid_offer 40000000 True loan"]
    by (auto simp: get_offer_def ok offs paid_offer_def split: if_splits)
  with run show ?thesis by (auto simp: get_offer_def ok offs paid_offer_def)
qed

end
