(* ===== verification/Custody.thy ===== *)
theory Custody
  imports Pool
begin

text \<open>
  The tokens behind the pool. \<open>Pool\<close> shows that the recorded totals are the sums of the stakes; here the
  totals are compared with what the insurance contract holds in the staking token. Yield is paid
  from the same holdings without lowering a total, so it is the one thing that can separate the
  two: \<open>yields_paid\<close> reads it off the contract's event log.
\<close>

subsection \<open>Holdings, liabilities, yield\<close>

definition owed :: "insurance \<Rightarrow> int" where
  "owed s = get_pool_total s + pool_balance (get_pool Conservative s) + pool_balance (get_pool Balanced s) +
     pool_balance (get_pool Aggressive s)"

definition yield_of :: "event \<Rightarrow> int" where
  "yield_of ev = (case ev of Ev_pool_yld a tier n \<Rightarrow> n | _ \<Rightarrow> 0)"

definition yields_paid :: "insurance \<Rightarrow> int" where
  "yields_paid s = (\<Sum>ev\<leftarrow>events s. yield_of ev)"

lemma yields_paid_publish [simp]: "yields_paid (publish ev s) = yields_paid s + yield_of ev"
  by (simp add: yields_paid_def publish_def)

lemma yields_paid_cong: "events s' = events s \<Longrightarrow> yields_paid s' = yields_paid s"
  by (simp add: yields_paid_def)

lemma yield_of_other [simp]:
  "yield_of (Ev_pool_stk a tr n) = 0" "yield_of (Ev_pool_un a tr n) = 0" "yield_of (Ev_pool_pay a tr n) = 0"
  "yield_of (Ev_pool_yld a tr n) = n" "yield_of (Ev_ins_rsrv x tr n) = 0" "yield_of (Ev_ins_pay x tr n m) = 0"
  by (simp_all add: yield_of_def)

lemma owed_cong: "pooltot s' = pooltot s \<Longrightarrow> pools s' = pools s \<Longrightarrow> owed s' = owed s"
  by (simp add: owed_def get_pool_total_def get_pool_def load_tier_pool_def)

lemma owed_flat: "pooltot s' = pooltot s + n \<Longrightarrow> pools s' = pools s \<Longrightarrow> owed s' = owed s + n"
  by (simp add: owed_def get_pool_total_def get_pool_def load_tier_pool_def)

lemma owed_tier:
  assumes "pooltot s' = pooltot s" and "pools s' = (pools s)(tier \<mapsto> pl)"
    and "pool_balance pl = pool_balance (load_tier_pool tier s) + n"
  shows "owed s' = owed s + n"
  using assms by (cases tier) (simp_all add: owed_def get_pool_total_def get_pool_def load_tier_pool_upd [OF assms(2)])

subsection \<open>What each operation moves\<close>

lemma pay_yield_money:
  assumes "pay_yield T e tok a tier y (s, t) = Inr (s', t')"
  shows "yields_paid s' = yields_paid s + max y 0" and "ins_token s' = ins_token s" and "accounts s' = accounts s"
    and "if 0 < y then tk_transfer T e tok (current_contract e) a y t = Inr t' else t' = t"
  using assms by (auto simp: pay_yield_def ok accounts_def publish_def yields_paid_def split: if_splits)

lemma accounts_owed:
  "accounts s' = (m, n, out, re, pd, ps, ts, tr, tp) \<Longrightarrow> pooltot s' = n \<and> pools s' = ps"
  by (simp add: accounts_def)

lemma stake_money:
  assumes "stake T e a amt (s, t) = Inr (s', t')" and "ins_token s = Some tok"
  shows "tk_transfer_from T e tok (current_contract e) a (current_contract e) amt t = Inr t'"
    and "yields_paid s' = yields_paid s" and "ins_token s' = Some tok" and "owed s' = owed s + amt"
proof -
  show "tk_transfer_from T e tok (current_contract e) a (current_contract e) amt t = Inr t'"
    "yields_paid s' = yields_paid s" "ins_token s' = Some tok"
    using assms by (auto simp: stake_def ok Let_def load_token_def yields_paid_cong publish_def yields_paid_def yield_of_def)
  show "owed s' = owed s + amt"
    using stake_accounts [OF assms(1)] by (auto dest!: accounts_owed intro!: owed_flat)
qed

text \<open>What leaves the contract with a withdrawal: the principal and, separately, the yield.\<close>

definition withdrawn :: "'t sep41 \<Rightarrow> env \<Rightarrow> address \<Rightarrow> address \<Rightarrow> int \<Rightarrow> int \<Rightarrow> 't \<Rightarrow> 't \<Rightarrow> bool" where
  "withdrawn T e tok a amt y t t' \<longleftrightarrow> (\<exists>t1. tk_transfer T e tok (current_contract e) a amt t = Inr t1 \<and>
     (if 0 < y then tk_transfer T e tok (current_contract e) a y t1 = Inr t' else t' = t1))"

lemma write_position_frame [simp]:
  "events (write_position a n m ts acc s) = events s"
  "events (write_tier_position k n m' ts' acc' s) = events s"
  by (simp_all add: write_position_def write_tier_position_def)

lemma unstake_money:
  assumes "unstake T e a amt (s, t) = Inr (s', t')" and "ins_token s = Some tok"
  shows "\<exists>y. withdrawn T e tok a amt y t t' \<and> yields_paid s' = yields_paid s + max y 0"
    and "ins_token s' = Some tok" and "owed s' = owed s - amt"
proof -
  from assms obtain y s1 s2 t1 where run: "tk_transfer T e tok (current_contract e) a amt t = Inr t1"
    "pay_yield T e tok a None y (s1, t1) = Inr (s2, t')" and s': "s' = publish (Ev_pool_un a None amt) s2"
    and s1: "events s1 = events s" "ins_token s1 = Some tok"
    by (fastforce simp: unstake_def ok Let_def load_token_def write_position_accounts)
  note pay = pay_yield_money [OF run(2)]
  show "\<exists>y. withdrawn T e tok a amt y t t' \<and> yields_paid s' = yields_paid s + max y 0"
    using run(1) pay(1,4) yields_paid_cong [OF s1(1)] by (intro exI [of _ y]) (auto simp: withdrawn_def s')
  show "ins_token s' = Some tok" using pay(2) s1 by (simp add: s' publish_def)
  show "owed s' = owed s - amt"
    using unstake_accounts [OF assms(1)] owed_flat [of s' s "- amt"] by (auto dest!: accounts_owed)
qed

lemma unstake_tier_money:
  assumes "unstake_tier T e a tier amt (s, t) = Inr (s', t')" and "ins_token s = Some tok"
  shows "\<exists>y. withdrawn T e tok a amt y t t' \<and> yields_paid s' = yields_paid s + max y 0"
    and "ins_token s' = Some tok" and "owed s' = owed s - amt"
proof -
  from assms obtain y s1 s2 t1 where run: "tk_transfer T e tok (current_contract e) a amt t = Inr t1"
    "pay_yield T e tok a (Some tier) y (s1, t1) = Inr (s2, t')" and s': "s' = publish (Ev_pool_un a (Some tier) amt) s2"
    and s1: "events s1 = events s" "ins_token s1 = Some tok"
    by (fastforce simp: unstake_tier_def ok Let_def load_token_def write_tier_position_accounts)
  note pay = pay_yield_money [OF run(2)]
  show "\<exists>y. withdrawn T e tok a amt y t t' \<and> yields_paid s' = yields_paid s + max y 0"
    using run(1) pay(1,4) yields_paid_cong [OF s1(1)] by (intro exI [of _ y]) (auto simp: withdrawn_def s')
  show "ins_token s' = Some tok" using pay(2) s1 by (simp add: s' publish_def)
  show "owed s' = owed s - amt"
    using unstake_tier_accounts [OF assms(1)] owed_tier [of s' s tier _ "- amt"] by (auto dest!: accounts_owed)
qed

lemma stake_tier_money:
  assumes "stake_tier T e a tier amt (s, t) = Inr (s', t')" and "ins_token s = Some tok"
  shows "tk_transfer_from T e tok (current_contract e) a (current_contract e) amt t = Inr t'"
    and "yields_paid s' = yields_paid s" and "ins_token s' = Some tok" and "owed s' = owed s + amt"
proof -
  show "tk_transfer_from T e tok (current_contract e) a (current_contract e) amt t = Inr t'"
    "yields_paid s' = yields_paid s" "ins_token s' = Some tok"
    using assms by (auto simp: stake_tier_def ok Let_def load_token_def publish_def yields_paid_def yield_of_def)
  show "owed s' = owed s + amt"
    using stake_tier_accounts [OF assms(1)] owed_tier [of s' s tier _ amt] by (auto dest!: accounts_owed)
qed

definition paid_to :: "'t sep41 \<Rightarrow> env \<Rightarrow> address \<Rightarrow> address \<Rightarrow> int \<Rightarrow> 't \<Rightarrow> 't \<Rightarrow> bool" where
  "paid_to T e tok b p t t' \<longleftrightarrow> 0 \<le> p \<and>
     (if p = 0 then t' = t else tk_transfer T e tok (current_contract e) b p t = Inr t')"

definition same_log :: "address \<Rightarrow> insurance \<Rightarrow> insurance \<Rightarrow> bool" where
  "same_log tok s s' \<longleftrightarrow> yields_paid s' = yields_paid s \<and> ins_token s' = Some tok"

lemma yields_paid_updates [simp]:
  "yields_paid (s\<lparr>pooltot := n\<rparr>) = yields_paid s" "yields_paid (s\<lparr>ins_stakes := m\<rparr>) = yields_paid s"
  "yields_paid (s\<lparr>tot_out := n\<rparr>) = yields_paid s" "yields_paid (s\<lparr>pools := ps\<rparr>) = yields_paid s"
  "yields_paid (s\<lparr>tstakes := m'\<rparr>) = yields_paid s" "yields_paid (s\<lparr>paid_map := pm\<rparr>) = yields_paid s"
  "yields_paid (s\<lparr>resrvd := pm\<rparr>) = yields_paid s" "yields_paid (s\<lparr>tresrv := tm\<rparr>) = yields_paid s"
  "yields_paid (s\<lparr>tpaid := tm\<rparr>) = yields_paid s"
  by (simp_all add: yields_paid_def)

lemma ins_token_publish [simp]: "ins_token (publish ev s) = ins_token s"
  by (simp add: publish_def)

lemma pay_out_same_log:
  assumes "pay_out T e x b amt r (s, t) = Inr (p, s', t')" and "ins_token s = Some tok"
  shows "same_log tok s s'"
  using assms unfolding pay_out_def
  by (auto simp: ok Let_def same_log_def split: if_splits)

lemma claim_payout_same_log:
  assumes "claim_payout T e x b amt (s, t) = Inr (pr, s', t')" and "ins_token s = Some tok"
  shows "same_log tok s s'"
  using assms unfolding claim_payout_def
  by (auto simp: ok Let_def same_log_def save_paid_def split: if_splits)

lemma pay_out_tier_same_log:
  assumes "pay_out_tier T e x tier b amt r (s, t) = Inr (p, s', t')" and "ins_token s = Some tok"
  shows "same_log tok s s'"
  using assms unfolding pay_out_tier_def
  by (auto simp: ok Let_def same_log_def split: if_splits)

lemma claim_payout_tier_same_log:
  assumes "claim_payout_tier T e x tier b amt (s, t) = Inr (pr, s', t')" and "ins_token s = Some tok"
  shows "same_log tok s s'"
  using assms unfolding claim_payout_tier_def
  by (auto simp: ok Let_def same_log_def split: if_splits)

lemma reserve_payout_same_log:
  assumes "reserve_payout e x amt s = Inr (p, s')" and "ins_token s = Some tok"
  shows "same_log tok s s'"
  using assms unfolding reserve_payout_def
  by (auto simp: ok Let_def same_log_def save_reserved_def split: if_splits)

lemma reserve_payout_tier_same_log:
  assumes "reserve_payout_tier e x tier amt s = Inr (p, s')" and "ins_token s = Some tok"
  shows "same_log tok s s'"
  using assms unfolding reserve_payout_tier_def
  by (auto simp: ok Let_def same_log_def split: if_splits)

lemma paid_toI:
  assumes "0 \<le> p" and "if p = 0 then s' = s \<and> t' = t else Q"
    and "p \<noteq> 0 \<Longrightarrow> Q \<Longrightarrow> tk_transfer T e tok (current_contract e) b p t = Inr t' \<and> owed s' = owed s - p"
  shows "paid_to T e tok b p t t' \<and> owed s' = owed s - p"
  using assms by (cases "p = 0") (simp_all add: paid_to_def)

lemma pay_out_paid:
  assumes "pay_out T e x b amt r (s, t) = Inr (p, s', t')" and "ins_token s = Some tok"
  shows "paid_to T e tok b p t t' \<and> owed s' = owed s - p"
proof (rule paid_toI [OF _ pay_out_accounts [OF assms(1), THEN conjunct2, THEN conjunct2, THEN conjunct2, THEN conjunct2]])
  show "0 \<le> p" using pay_out_accounts [OF assms(1)] by simp
qed (use assms(2) in \<open>auto simp: owed_flat [where n = "- p"] dest!: accounts_owed\<close>)

lemma claim_payout_paid:
  assumes "claim_payout T e x b amt (s, t) = Inr ((p, rem), s', t')" and "ins_token s = Some tok"
  shows "paid_to T e tok b p t t' \<and> owed s' = owed s - p"
proof (rule paid_toI [OF _ claim_payout_accounts [OF assms(1), THEN conjunct2, THEN conjunct2, THEN conjunct2, THEN conjunct2]])
  show "0 \<le> p" using claim_payout_accounts [OF assms(1)] by simp
qed (use assms(2) in \<open>auto simp: owed_flat [where n = "- p"] dest!: accounts_owed\<close>)

lemma pay_out_tier_paid:
  assumes "pay_out_tier T e x tier b amt r (s, t) = Inr (p, s', t')" and "ins_token s = Some tok"
  shows "paid_to T e tok b p t t' \<and> owed s' = owed s - p"
proof (rule paid_toI [OF _ pay_out_tier_accounts [OF assms(1), THEN conjunct2, THEN conjunct2, THEN conjunct2]])
  show "0 \<le> p" using pay_out_tier_accounts [OF assms(1)] by simp
qed (use assms(2) in \<open>auto simp: owed_tier [where n = "- p"] load_tier_pool_def dest!: accounts_owed\<close>)

lemma claim_payout_tier_paid:
  assumes "claim_payout_tier T e x tier b amt (s, t) = Inr ((p, rem), s', t')" and "ins_token s = Some tok"
  shows "paid_to T e tok b p t t' \<and> owed s' = owed s - p"
proof (rule paid_toI [OF _ claim_payout_tier_accounts [OF assms(1), THEN conjunct2, THEN conjunct2, THEN conjunct2, THEN conjunct2]])
  show "0 \<le> p" using claim_payout_tier_accounts [OF assms(1)] by simp
qed (use assms(2) in \<open>auto simp: owed_tier [where n = "- p"] load_tier_pool_def dest!: accounts_owed\<close>)

lemma reserve_owed:
  "reserve_payout e x amt s = Inr (p, s') \<Longrightarrow> owed s' = owed s"
  by (drule reserve_payout_accounts [THEN conjunct2, THEN conjunct2])
    (auto split: if_splits dest!: accounts_owed intro: owed_cong)

lemma reserve_tier_owed:
  "reserve_payout_tier e x tier amt s = Inr (p, s') \<Longrightarrow> owed s' = owed s"
  by (drule reserve_payout_tier_accounts [THEN conjunct2, THEN conjunct2])
    (auto split: if_splits simp: owed_tier [where n = 0] dest!: accounts_owed)

subsection \<open>The invariant\<close>

lemma transfer_balance:
  assumes "sep41_laws T" and "tk_transfer T e tok c b n t = Inr t'"
  shows "tk_balance T tok c t - n \<le> tk_balance T tok c t'"
  using sep41_transfer(1,3) [OF assms] by (simp add: moved_def)

lemma withdrawn_balance:
  assumes "sep41_laws T" and "withdrawn T e tok a amt y t t'"
  shows "tk_balance T tok (current_contract e) t - amt - max y 0 \<le> tk_balance T tok (current_contract e) t'"
proof -
  from assms(2) obtain t1 where principal: "tk_transfer T e tok (current_contract e) a amt t = Inr t1"
    and yield: "if 0 < y then tk_transfer T e tok (current_contract e) a y t1 = Inr t' else t' = t1"
    by (auto simp: withdrawn_def)
  have "tk_balance T tok (current_contract e) t1 - max y 0 \<le> tk_balance T tok (current_contract e) t'"
    using yield transfer_balance [OF assms(1)] by (cases "0 < y") auto
  with transfer_balance [OF assms(1) principal] show ?thesis by simp
qed

lemma paid_balance:
  assumes "sep41_laws T" and "paid_to T e tok b p t t'"
  shows "tk_balance T tok (current_contract e) t - p \<le> tk_balance T tok (current_contract e) t'"
  using assms(2) transfer_balance [OF assms(1)] unfolding paid_to_def by (auto split: if_splits)

lemma staked_balance:
  assumes "sep41_laws T" and "tk_transfer_from T e tok c a c amt t = Inr t'" and "a \<noteq> c"
  shows "tk_balance T tok c t' = tk_balance T tok c t + amt"
  using sep41_transfer_from(3) [OF assms(1,2)] assms(3) by (simp add: moved_def)

lemma gov_step_yields:
  fixes s s' :: insurance
  assumes "gov_step s s'"
  shows "yields_paid s' = yields_paid s"
  using assms
  by (induction rule: gov_step.induct)
    (auto simp: gov_defs ok publish_def yields_paid_def yield_of_def split: if_splits)

lemma gov_step_token: "gov_step s s' \<Longrightarrow> ins_token s' = ins_token (s :: insurance)"
  by (drule gov_step_more) (cases s; cases s'; simp)

lemma owed_accounts: "accounts s' = accounts s \<Longrightarrow> owed s' = owed s"
  by (rule owed_cong) (simp_all add: accounts_def)

text \<open>Configuration and governance leave everything the invariant mentions as it is.\<close>

definition money_kept :: "insurance \<Rightarrow> insurance \<Rightarrow> bool" where
  "money_kept s s' \<longleftrightarrow> owed s' = owed s \<and> yields_paid s' = yields_paid s \<and> ins_token s' = ins_token s"

lemma config_money:
  "set_yield_rate e sgs rate s = Inr s' \<Longrightarrow> money_kept s s'"
  "set_payout_caller e sgs a s = Inr s' \<Longrightarrow> money_kept s s'"
  "insurance_set_registry e sgs a s = Inr s' \<Longrightarrow> money_kept s s'"
  unfolding money_kept_def
  by (auto dest: config_accounts intro!: owed_accounts)
    (auto simp: set_yield_rate_def set_payout_caller_def insurance_set_registry_def ok Let_def yields_paid_def)

lemma token_money:
  "set_staking_token e sgs tok s = Inr s' \<Longrightarrow> owed s' = owed s \<and> yields_paid s' = yields_paid s \<and> ins_token s' = Some tok"
  by (auto dest: config_accounts intro!: owed_accounts) (auto simp: set_staking_token_def ok Let_def yields_paid_def)

lemma gov_money: "gov_step s s' \<Longrightarrow> money_kept s s'"
  unfolding money_kept_def by (intro conjI owed_accounts gov_step_accounts gov_step_yields gov_step_token)

text \<open>
  The transitions of the deployed contract \<open>c\<close> while its staking token is \<open>tok\<close>: every entry point, with
  three restrictions. The admin does not exchange the staking token for another one (a stake is recorded
  as a number, so after an exchange it would be owed in a token the contract never received); the
  contract is not itself a staker (its deposit would be a transfer to itself); and tokens leave its
  account only by its own operations, since it approves no spender: any other move of tokens (a
  deposit, a transfer between others) does not lower its balance.
\<close>

inductive custody_step :: "'t sep41 \<Rightarrow> address \<Rightarrow> address \<Rightarrow> insurance \<times> 't \<Rightarrow> insurance \<times> 't \<Rightarrow> bool"
  for T c tok where
  cu_stake: "current_contract e = c \<Longrightarrow> a \<noteq> c \<Longrightarrow> stake T e a amt (s, t) = Inr (s', t') \<Longrightarrow> custody_step T c tok (s, t) (s', t')"
| cu_unstake: "current_contract e = c \<Longrightarrow> unstake T e a amt (s, t) = Inr (s', t') \<Longrightarrow> custody_step T c tok (s, t) (s', t')"
| cu_pay_out: "current_contract e = c \<Longrightarrow> pay_out T e x b amt r (s, t) = Inr (p, s', t') \<Longrightarrow> custody_step T c tok (s, t) (s', t')"
| cu_reserve: "reserve_payout e x amt s = Inr (p, s') \<Longrightarrow> custody_step T c tok (s, t) (s', t)"
| cu_claim: "current_contract e = c \<Longrightarrow> claim_payout T e x b amt (s, t) = Inr ((p, rem), s', t') \<Longrightarrow> custody_step T c tok (s, t) (s', t')"
| cu_stake_tier: "current_contract e = c \<Longrightarrow> a \<noteq> c \<Longrightarrow> stake_tier T e a tier amt (s, t) = Inr (s', t') \<Longrightarrow> custody_step T c tok (s, t) (s', t')"
| cu_unstake_tier: "current_contract e = c \<Longrightarrow> unstake_tier T e a tier amt (s, t) = Inr (s', t') \<Longrightarrow> custody_step T c tok (s, t) (s', t')"
| cu_pay_out_tier: "current_contract e = c \<Longrightarrow> pay_out_tier T e x tier b amt r (s, t) = Inr (p, s', t') \<Longrightarrow> custody_step T c tok (s, t) (s', t')"
| cu_reserve_tier: "reserve_payout_tier e x tier amt s = Inr (p, s') \<Longrightarrow> custody_step T c tok (s, t) (s', t)"
| cu_claim_tier: "current_contract e = c \<Longrightarrow> claim_payout_tier T e x tier b amt (s, t) = Inr ((p, rem), s', t') \<Longrightarrow> custody_step T c tok (s, t) (s', t')"
| cu_rate: "set_yield_rate e sgs rate s = Inr s' \<Longrightarrow> custody_step T c tok (s, t) (s', t)"
| cu_token: "set_staking_token e sgs tok s = Inr s' \<Longrightarrow> custody_step T c tok (s, t) (s', t)"
| cu_caller: "set_payout_caller e sgs a s = Inr s' \<Longrightarrow> custody_step T c tok (s, t) (s', t)"
| cu_registry: "insurance_set_registry e sgs a s = Inr s' \<Longrightarrow> custody_step T c tok (s, t) (s', t)"
| cu_gov: "gov_step s s' \<Longrightarrow> custody_step T c tok (s, t) (s', t)"
| cu_tokens: "tk_balance T tok c t \<le> tk_balance T tok c t' \<Longrightarrow> custody_step T c tok (s, t) (s, t')"

definition custody_start :: "'t sep41 \<Rightarrow> address \<Rightarrow> address \<Rightarrow> insurance \<times> 't \<Rightarrow> bool" where
  "custody_start T c tok = (\<lambda>(s, t). 0 \<le> tk_balance T tok c t \<and>
     (\<exists>admin. insurance_constructor admin tok empty_insurance = Inr s))"

definition custody_ok :: "'t sep41 \<Rightarrow> address \<Rightarrow> address \<Rightarrow> insurance \<times> 't \<Rightarrow> bool" where
  "custody_ok T c tok = (\<lambda>(s, t). ins_token s = Some tok \<and> owed s \<le> tk_balance T tok c t + yields_paid s)"

lemma custody_token: "custody_ok T c tok (s, t) \<Longrightarrow> ins_token s = Some tok"
  by (simp add: custody_ok_def)

lemma custody_okI:
  assumes "custody_ok T c tok (s, t)" and "ins_token s' = Some tok"
    and "owed s' - owed s \<le> (tk_balance T tok c t' - tk_balance T tok c t) + (yields_paid s' - yields_paid s)"
  shows "custody_ok T c tok (s', t')"
  using assms by (simp add: custody_ok_def)

lemma custody_paid:
  assumes "sep41_laws T" and "current_contract e = c" and "custody_ok T c tok (s, t)" and "same_log tok s s'"
    and "paid_to T e tok b p t t' \<and> owed s' = owed s - p"
  shows "custody_ok T c tok (s', t')"
  using assms(2-5) paid_balance [OF assms(1), of e tok b p t t']
  by (intro custody_okI [OF assms(3)]) (auto simp: same_log_def)

lemma custody_staked:
  assumes "sep41_laws T" and "current_contract e = c" and "a \<noteq> c" and "custody_ok T c tok (s, t)"
    and "tk_transfer_from T e tok (current_contract e) a (current_contract e) amt t = Inr t'"
    and "yields_paid s' = yields_paid s" and "ins_token s' = Some tok" and "owed s' = owed s + amt"
  shows "custody_ok T c tok (s', t')"
  using assms staked_balance [OF assms(1), of e tok c a amt t t'] by (intro custody_okI [OF assms(4)]) auto

lemma custody_withdrawn:
  assumes "sep41_laws T" and "current_contract e = c" and "custody_ok T c tok (s, t)"
    and "\<exists>y. withdrawn T e tok a amt y t t' \<and> yields_paid s' = yields_paid s + max y 0"
    and "ins_token s' = Some tok" and "owed s' = owed s - amt"
  shows "custody_ok T c tok (s', t')"
  using assms(2,4-6) withdrawn_balance [OF assms(1), of e tok a amt _ t t']
  by (intro custody_okI [OF assms(3)]) force+

lemma custody_logged:
  assumes "custody_ok T c tok (s, t)" and "same_log tok s s'" and "owed s' = owed s"
  shows "custody_ok T c tok (s', t)"
  using assms(2,3) by (intro custody_okI [OF assms(1)]) (auto simp: same_log_def)

lemma custody_start_ok: "custody_start T c tok st \<Longrightarrow> custody_ok T c tok st"
  by (auto simp: custody_start_def custody_ok_def insurance_constructor_def init_admin_config_def
      initialize_contract_version_def save_admin_config_def ok owed_def get_pool_total_def get_pool_def
      load_tier_pool_def empty_insurance_def publish_def yields_paid_def yield_of_def)

lemma custody_step_ok:
  assumes "sep41_laws T" and "custody_step T c tok st st'" and "custody_ok T c tok st"
  shows "custody_ok T c tok st'"
  using assms(2,3)
proof (induction rule: custody_step.induct)
  case (cu_stake e a amt s t s' t')
  note tok = custody_token [OF cu_stake.prems]
  show ?case
    by (rule custody_staked [OF assms(1) cu_stake.hyps(1,2) cu_stake.prems stake_money [OF cu_stake.hyps(3) tok]])
next
  case (cu_stake_tier e a tier amt s t s' t')
  note tok = custody_token [OF cu_stake_tier.prems]
  show ?case
    by (rule custody_staked [OF assms(1) cu_stake_tier.hyps(1,2) cu_stake_tier.prems
        stake_tier_money [OF cu_stake_tier.hyps(3) tok]])
next
  case (cu_unstake e a amt s t s' t')
  note tok = custody_token [OF cu_unstake.prems]
  show ?case
    by (rule custody_withdrawn [OF assms(1) cu_unstake.hyps(1) cu_unstake.prems unstake_money [OF cu_unstake.hyps(2) tok]])
next
  case (cu_unstake_tier e a tier amt s t s' t')
  note tok = custody_token [OF cu_unstake_tier.prems]
  show ?case
    by (rule custody_withdrawn [OF assms(1) cu_unstake_tier.hyps(1) cu_unstake_tier.prems
        unstake_tier_money [OF cu_unstake_tier.hyps(2) tok]])
next
  case (cu_pay_out e x b amt r s t p s' t')
  note tok = custody_token [OF cu_pay_out.prems]
  show ?case
    by (rule custody_paid [OF assms(1) cu_pay_out.hyps(1) cu_pay_out.prems
        pay_out_same_log [OF cu_pay_out.hyps(2) tok] pay_out_paid [OF cu_pay_out.hyps(2) tok]])
next
  case (cu_claim e x b amt s t p rem s' t')
  note tok = custody_token [OF cu_claim.prems]
  show ?case
    by (rule custody_paid [OF assms(1) cu_claim.hyps(1) cu_claim.prems
        claim_payout_same_log [OF cu_claim.hyps(2) tok] claim_payout_paid [OF cu_claim.hyps(2) tok]])
next
  case (cu_pay_out_tier e x tier b amt r s t p s' t')
  note tok = custody_token [OF cu_pay_out_tier.prems]
  show ?case
    by (rule custody_paid [OF assms(1) cu_pay_out_tier.hyps(1) cu_pay_out_tier.prems
        pay_out_tier_same_log [OF cu_pay_out_tier.hyps(2) tok] pay_out_tier_paid [OF cu_pay_out_tier.hyps(2) tok]])
next
  case (cu_claim_tier e x tier b amt s t p rem s' t')
  note tok = custody_token [OF cu_claim_tier.prems]
  show ?case
    by (rule custody_paid [OF assms(1) cu_claim_tier.hyps(1) cu_claim_tier.prems
        claim_payout_tier_same_log [OF cu_claim_tier.hyps(2) tok] claim_payout_tier_paid [OF cu_claim_tier.hyps(2) tok]])
next
  case (cu_reserve e x amt s p s' t)
  note tok = custody_token [OF cu_reserve.prems]
  show ?case
    by (rule custody_logged [OF cu_reserve.prems reserve_payout_same_log [OF cu_reserve.hyps tok] reserve_owed [OF cu_reserve.hyps]])
next
  case (cu_reserve_tier e x tier amt s p s' t)
  note tok = custody_token [OF cu_reserve_tier.prems]
  show ?case
    by (rule custody_logged [OF cu_reserve_tier.prems reserve_payout_tier_same_log [OF cu_reserve_tier.hyps tok]
        reserve_tier_owed [OF cu_reserve_tier.hyps]])
qed (auto simp: custody_ok_def money_kept_def dest!: config_money gov_money token_money)

interpretation custody: invariant_system "custody_start T c tok" "custody_step T c tok"
    "\<lambda>st. sep41_laws T \<longrightarrow> custody_ok T c tok st" for T :: "'t sep41" and c tok
  by unfold_locales (auto intro: custody_start_ok custody_step_ok)

subsection \<open>What the holdings guarantee, and what they do not\<close>

text \<open>
  C8. The holdings back the pool up to the yield paid, as long as the staking token stays the one the
  contract was deployed with: in every state reached from deployment by stakes of accounts other than
  the contract itself, withdrawals, reservations, payouts, claims (flat and tiered), rate changes,
  reconfiguration of the payout caller and registry, governance, and token activity of others that
  does not lower the contract's balance, the pool total and the tier balances together are at most
  the contract's balance of the staking token plus all the yield it has paid out; so while no yield
  was paid every stake is covered. An admin who exchanges the staking token leaves this scope.
\<close>

theorem holdings_back_the_pool:
  assumes "sep41_laws T" and "reach (custody_start T c tok) (custody_step T c tok) (s, t)"
  shows "get_staking_token s = Inr tok \<and>
    get_pool_total s + (\<Sum>tier\<leftarrow>[Conservative, Balanced, Aggressive]. pool_balance (get_pool tier s))
      \<le> tk_balance T tok c t + yields_paid s"
  using custody.reach_inv [OF assms(2)] assms(1)
  by (simp add: custody_ok_def owed_def get_staking_token_def load_token_def)

text \<open>A run: two stakes, a rate of 100 percent, one year.\<close>

definition custody_ledger :: ledger where
  "custody_ledger = \<lparr>balances = (\<lambda>tok a. if a = Address 103 then 0 else 1000000), allowances = (\<lambda>tok a sp. 1000000)\<rparr>"

definition year_pool :: "(address, int) smap \<Rightarrow> int \<Rightarrow> nat \<Rightarrow> (address \<rightharpoonup> nat) \<Rightarrow> (address \<rightharpoonup> int) \<Rightarrow> event list \<Rightarrow> insurance" where
  "year_pool m n rate ts acc evs = pool_with m n ts acc evs\<lparr>yldrate := rate, paycall := None, ins_registry := None\<rparr>"

abbreviation "custody_reached \<equiv>
  reach (custody_start ledger_token (Address 103) (Address 50)) (custody_step ledger_token (Address 103) (Address 50))"

lemma year_pool_sel [simp]:
  "ins_stakes (year_pool m n rate ts acc evs) = m" "pooltot (year_pool m n rate ts acc evs) = n"
  "stk_ts (year_pool m n rate ts acc evs) = ts" "yld_acc (year_pool m n rate ts acc evs) = acc"
  "\<not> paused (year_pool m n rate ts acc evs)" "yldrate (year_pool m n rate ts acc evs) = rate"
  "ins_token (year_pool m n rate ts acc evs) = Some (Address 50)"
  "yields_paid (year_pool m n rate ts acc evs) = (\<Sum>ev\<leftarrow>evs. yield_of ev)"
  "admcfg (year_pool m n rate ts acc evs) = Some \<lparr>signers = [Address 9], threshold = 1\<rparr>"
  by (simp_all add: year_pool_def yields_paid_def)
    (simp_all add: pool_with_def staking_insurance_def empty_insurance_def yield_of_def)

lemma year_pool_upd [simp]:
  "year_pool m n rate ts acc evs\<lparr>ins_stakes := m'\<rparr> = year_pool m' n rate ts acc evs"
  "year_pool m n rate ts acc evs\<lparr>pooltot := n'\<rparr> = year_pool m n' rate ts acc evs"
  "year_pool m n rate ts acc evs\<lparr>stk_ts := ts'\<rparr> = year_pool m n rate ts' acc evs"
  "year_pool m n rate ts acc evs\<lparr>yld_acc := acc'\<rparr> = year_pool m n rate ts acc' evs"
  "year_pool m n rate ts acc evs\<lparr>yldrate := rate'\<rparr> = year_pool m n rate' ts acc evs"
  "publish ev (year_pool m n rate ts acc evs) = year_pool m n rate ts acc (evs @ [ev])"
  by (simp_all add: year_pool_def pool_with_def publish_def)

lemma custody_started:
  "custody_start ledger_token (Address 103) (Address 50) (year_pool [] 0 0 Map.empty Map.empty [], custody_ledger)"
proof -
  have "insurance_constructor (Address 9) (Address 50) empty_insurance = Inr (year_pool [] 0 0 Map.empty Map.empty [])"
    by (simp add: insurance_constructor_def init_admin_config_def initialize_contract_version_def
        parse_cargo_version publish_def year_pool_def pool_with_def staking_insurance_def empty_insurance_def)
  then show ?thesis by (auto simp: custody_start_def custody_ledger_def)
qed

lemma custody_deployed: "custody_reached (year_pool [] 0 0 Map.empty Map.empty [], custody_ledger)"
  using custody_started by (rule reach_init)

lemmas year_run = assert_not_paused_def require_auth_def add_i128_def sub_i128_def mul_i128_def div_i128_def
  chk_i128_def in_i128_def load_token_def Let_def ledger_transfer_from_def ledger_transfer_def moved_def
  bank_accrued_yield_def compute_yield_def write_position_def pay_yield_def sm_remove_def sm_keys_def sm_get_or_def
  get_or_def assert_admin_def load_admin_config_def assert_threshold_def is_signer_def

abbreviation "one_staker \<equiv> year_pool [(Address 2, 1000000)] 1000000 0 [Address 2 \<mapsto> 5] Map.empty
  [Ev_pool_stk (Address 2) None 1000000]"

abbreviation "two_stakers rate \<equiv> year_pool [(Address 2, 1000000), (Address 3, 1000000)] 2000000 rate
  [Address 2 \<mapsto> 5, Address 3 \<mapsto> 5]"

abbreviation "two_stake_events \<equiv> [Ev_pool_stk (Address 2) None 1000000, Ev_pool_stk (Address 3) None 1000000]"

lemma first_stake:
  "\<exists>t. stake ledger_token (ienv 5) (Address 2) 1000000 (year_pool [] 0 0 Map.empty Map.empty [], custody_ledger) =
      Inr (one_staker, t) \<and> balances t (Address 50) (Address 103) = 1000000 \<and>
      balances t (Address 50) (Address 3) = 1000000 \<and> allowances t (Address 50) (Address 3) (Address 103) = 1000000"
  by (simp add: stake_def year_run custody_ledger_def)

lemma second_stake:
  assumes "balances t (Address 50) (Address 103) = 1000000" "balances t (Address 50) (Address 3) = 1000000"
    and "allowances t (Address 50) (Address 3) (Address 103) = 1000000"
  shows "\<exists>t'. stake ledger_token (ienv 5) (Address 3) 1000000 (one_staker, t) =
      Inr (two_stakers 0 Map.empty two_stake_events, t') \<and> balances t' (Address 50) (Address 103) = 2000000"
  using assms by (simp add: stake_def year_run)

lemma set_full_rate:
  "set_yield_rate (ienv 5) [Address 9] 10000 (two_stakers 0 Map.empty two_stake_events) =
     Inr (two_stakers 10000 Map.empty two_stake_events)"
  by (simp add: set_yield_rate_def year_run)

abbreviation "drained \<equiv> year_pool [(Address 3, 1000000)] 1000000 10000 [Address 3 \<mapsto> 5] Map.empty
  (two_stake_events @ [Ev_pool_yld (Address 2) None 1000000, Ev_pool_un (Address 2) None 1000000])"

lemma first_exit:
  assumes "balances t (Address 50) (Address 103) = 2000000"
  shows "\<exists>t'. unstake ledger_token (ienv 31536005) (Address 2) 1000000 (two_stakers 10000 Map.empty two_stake_events, t) =
      Inr (drained, t') \<and> balances t' (Address 50) (Address 103) = 0 \<and>
      balances t' (Address 50) (Address 2) = balances t (Address 50) (Address 2) + 2000000"
  using assms by (simp add: unstake_def year_run fun_upd_twist)

abbreviation "fresh_pool \<equiv> year_pool [] 0 0 Map.empty Map.empty []"

abbreviation "full_rate_pool \<equiv> two_stakers 10000 Map.empty two_stake_events"

lemma drained_run:
  "\<exists>t1 t2 t3. stake ledger_token (ienv 5) (Address 2) 1000000 (fresh_pool, custody_ledger) = Inr (one_staker, t1) \<and>
     stake ledger_token (ienv 5) (Address 3) 1000000 (one_staker, t1) = Inr (two_stakers 0 Map.empty two_stake_events, t2) \<and>
     unstake ledger_token (ienv 31536005) (Address 2) 1000000 (full_rate_pool, t2) = Inr (drained, t3) \<and>
     balances t2 (Address 50) (Address 103) = 2000000 \<and> balances t3 (Address 50) (Address 103) = 0 \<and>
     balances t3 (Address 50) (Address 2) = balances t2 (Address 50) (Address 2) + 2000000 \<and>
     custody_reached (drained, t3)"
proof -
  obtain t1 where one: "stake ledger_token (ienv 5) (Address 2) 1000000 (fresh_pool, custody_ledger) = Inr (one_staker, t1)"
    and bal1: "balances t1 (Address 50) (Address 103) = 1000000" "balances t1 (Address 50) (Address 3) = 1000000"
      "allowances t1 (Address 50) (Address 3) (Address 103) = 1000000"
    using first_stake by blast
  obtain t2 where two: "stake ledger_token (ienv 5) (Address 3) 1000000 (one_staker, t1) =
      Inr (two_stakers 0 Map.empty two_stake_events, t2)" and bal2: "balances t2 (Address 50) (Address 103) = 2000000"
    using second_stake [OF bal1] by blast
  obtain t3 where out: "unstake ledger_token (ienv 31536005) (Address 2) 1000000 (full_rate_pool, t2) = Inr (drained, t3)"
    and bal3: "balances t3 (Address 50) (Address 103) = 0"
      "balances t3 (Address 50) (Address 2) = balances t2 (Address 50) (Address 2) + 2000000"
    using first_exit [OF bal2] by blast
  have c: "current_contract (ienv n) = Address 103" for n by (simp add: demo_env_def)
  have "custody_reached (one_staker, t1)"
    by (rule reach_step [OF custody_deployed cu_stake [OF c _ one]]) simp
  then have "custody_reached (two_stakers 0 Map.empty two_stake_events, t2)"
    by (rule reach_step) (rule cu_stake [OF c _ two], simp)
  then have "custody_reached (full_rate_pool, t2)"
    by (rule reach_step) (rule cu_rate [OF set_full_rate])
  then have "custody_reached (drained, t3)"
    by (rule reach_step) (rule cu_unstake [OF c out])
  with one two out bal2 bal3 show ?thesis by blast
qed

lemma holdings_back_the_pool_witness:
  "\<exists>t. custody_reached (drained, t) \<and> get_pool_total drained = 1000000 \<and>
     get_pool_total drained \<le> balances t (Address 50) (Address 103) + 1000000"
proof -
  obtain t where r: "custody_reached (drained, t)" using drained_run by blast
  from holdings_back_the_pool [OF sep41_laws_ledger r] have
    "get_pool_total drained \<le> balances t (Address 50) (Address 103) + 1000000"
    by (simp add: get_pool_def load_tier_pool_def year_pool_def pool_with_def staking_insurance_def
        empty_insurance_def yield_of_def yields_paid_def)
  with r show ?thesis by (auto simp: get_pool_total_def)
qed

lemma nothing_left:
  assumes "balances t (Address 50) (Address 103) = 0" and "current_contract e = Address 103"
  shows "\<exists>err. unstake ledger_token e (Address 3) amt (drained, t) = Inl err"
proof (cases "unstake ledger_token e (Address 3) amt (drained, t)")
  case (Inr st)
  then obtain s' t' where run: "unstake ledger_token e (Address 3) amt (drained, t) = Inr (s', t')"
    by (cases st) auto
  then have pos: "0 < amt" by (auto simp: unstake_def ok)
  from unstake_money(1) [OF run] obtain t1 where
    "tk_transfer ledger_token e (Address 50) (current_contract e) (Address 3) amt t = Inr t1"
    by (auto simp: withdrawn_def)
  from sep41_transfer(2) [OF sep41_laws_ledger this] assms pos show ?thesis by simp
qed simp

lemma full_rate_quote: "accrued_yield (ienv 31536005) (Address 2) full_rate_pool = Inr 1000000"
  by (simp add: accrued_yield_def year_run)

text \<open>
  C39. Yield is paid out of the other stakers' deposits. The run of calls: a freshly deployed contract
  that holds nothing receives two stakes of 1000000 each, the admin sets a yield rate of 10000 basis
  points, and one year later the contract quotes the first staker an accrued yield of 1000000. The
  first staker then withdraws its stake: the contract pays it 2000000, of which 1000000 is logged as
  yield, and holds nothing any more. The second staker still has its full recorded stake and the
  pool total records it, but no withdrawal of it, of any amount at any time, succeeds while the
  contract holds nothing.
\<close>

theorem yield_drains_other_stakes:
  "\<exists>w0 w1 s2 t2 s3 s4 t4. custody_start ledger_token (Address 103) (Address 50) w0 \<and>
     tk_balance ledger_token (Address 50) (Address 103) (snd w0) = 0 \<and>
     stake ledger_token (ienv 5) (Address 2) 1000000 w0 = Inr w1 \<and>
     stake ledger_token (ienv 5) (Address 3) 1000000 w1 = Inr (s2, t2) \<and>
     tk_balance ledger_token (Address 50) (Address 103) t2 = 2000000 \<and>
     set_yield_rate (ienv 5) [Address 9] 10000 s2 = Inr s3 \<and>
     accrued_yield (ienv (5 + 31536000)) (Address 2) s3 = Inr 1000000 \<and> yields_paid s3 = 0 \<and>
     unstake ledger_token (ienv (5 + 31536000)) (Address 2) 1000000 (s3, t2) = Inr (s4, t4) \<and>
     tk_balance ledger_token (Address 50) (Address 2) t4 = tk_balance ledger_token (Address 50) (Address 2) t2 + 2000000 \<and>
     yields_paid s4 = 1000000 \<and> custody_reached (s4, t4) \<and>
     get_stake (Address 3) s4 = 1000000 \<and> get_pool_total s4 = 1000000 \<and>
     tk_balance ledger_token (Address 50) (Address 103) t4 = 0 \<and>
     (\<forall>e amt. \<exists>err. unstake ledger_token (e\<lparr>current_contract := Address 103\<rparr>) (Address 3) amt (s4, t4) = Inl err)"
proof -
  obtain t1 t2 t3 where run:
    "stake ledger_token (ienv 5) (Address 2) 1000000 (fresh_pool, custody_ledger) = Inr (one_staker, t1)"
    "stake ledger_token (ienv 5) (Address 3) 1000000 (one_staker, t1) = Inr (two_stakers 0 Map.empty two_stake_events, t2)"
    "unstake ledger_token (ienv 31536005) (Address 2) 1000000 (full_rate_pool, t2) = Inr (drained, t3)"
    and bal: "balances t2 (Address 50) (Address 103) = 2000000" "balances t3 (Address 50) (Address 103) = 0"
     "balances t3 (Address 50) (Address 2) = balances t2 (Address 50) (Address 2) + 2000000"
    and reached: "custody_reached (drained, t3)"
    using drained_run by blast
  have stuck: "\<forall>e amt. \<exists>err. unstake ledger_token (e\<lparr>current_contract := Address 103\<rparr>) (Address 3) amt (drained, t3) = Inl err"
    using nothing_left [OF bal(2)] by simp
  show ?thesis
    by (rule exI [of _ "(fresh_pool, custody_ledger)"], rule exI [of _ "(one_staker, t1)"],
        rule exI [of _ "two_stakers 0 Map.empty two_stake_events"], rule exI [of _ t2], rule exI [of _ full_rate_pool],
        rule exI [of _ drained], rule exI [of _ t3])
      (use run bal reached stuck set_full_rate full_rate_quote custody_started in
        \<open>simp add: custody_ledger_def get_stake_def sm_get_or_def get_pool_total_def\<close>)
qed

end
