(* ===== verification/Test_Harness.thy ===== *)
theory Test_Harness
  imports Reputation
begin

text \<open>
  What the property tests (\<open>proptest.rs\<close> of the crates) are run with. A test is a function of the
  generated inputs into \<open>error + unit\<close>: it passes when the result is \<open>Inr ()\<close>, and a failed
  assertion or a trap of a contract call that is not caught is an \<open>Inl\<close>. \<open>Env::default()\<close> with
  \<open>mock_all_auths()\<close> is \<open>demo_env\<close>: every address authorizes every call, and the clock is the
  argument. The addresses that \<open>Address::generate\<close> and \<open>env.register\<close> hand out are pairwise
  different, here the numbers in the order of generation. \<open>catch_unwind(..).is_err()\<close> is \<open>rejected\<close>:
  the call trapped, and by the host's rule the state is the one from before it.
\<close>

definition prop_assert :: "bool \<Rightarrow> error + unit" where
  "prop_assert b = ensure b (Panic ''assertion failed'')"

definition rejected :: "error + 'a \<Rightarrow> bool" where
  "rejected r = (case r of Inl e \<Rightarrow> True | Inr a \<Rightarrow> False)"

definition mul_u64 :: "nat \<Rightarrow> nat \<Rightarrow> error + nat" where
  "mul_u64 a b = (if a * b < 2 ^ 64 then Inr (a * b) else Inl Overflow)"

lemma prop_assert_simps [simp]: "b \<Longrightarrow> prop_assert b = Inr ()"
  by (simp add: prop_assert_def)

lemma prop_assert_Inr_iff [ok]: "prop_assert b = Inr u \<longleftrightarrow> b"
  by (simp add: prop_assert_def ok)

lemma rejected_simps [simp]: "rejected (Inl e)" "\<not> rejected (Inr a)"
  by (simp_all add: rejected_def)

lemma rejected_iff: "rejected r \<longleftrightarrow> (\<forall>a. r \<noteq> Inr a)"
  by (cases r) simp_all

lemma rejected_ok: "(\<And>a. r = Inr a \<Longrightarrow> False) \<Longrightarrow> rejected r"
  by (auto simp: rejected_iff)

text \<open>A loop whose body succeeds in every state it can be in succeeds, and ends in such a state.\<close>

lemma foldE_succeeds:
  assumes "P n s" and "\<And>k x s. x \<in> set xs \<Longrightarrow> n \<le> k \<Longrightarrow> k < n + length xs \<Longrightarrow> P k s \<Longrightarrow> \<exists>s'. f x s = Inr s' \<and> P (Suc k) s'"
  obtains s' where "foldE f xs s = Inr s'" "P (n + length xs) s'"
proof -
  have "\<exists>s'. foldE f xs s = Inr s' \<and> P (n + length xs) s'"
    using assms
  proof (induction xs arbitrary: n s)
    case (Cons x xs)
    obtain s1 where s1: "f x s = Inr s1" "P (Suc n) s1"
      using Cons.prems(2) [of x n s] Cons.prems(1) by auto
    have "\<exists>s'. foldE f xs s1 = Inr s' \<and> P (Suc n + length xs) s'"
      by (rule Cons.IH [OF s1(2)], rule Cons.prems(2)) auto
    with s1 show ?case by simp
  qed simp
  with that show ?thesis by blast
qed

text \<open>The same for a loop over \<open>iter().enumerate()\<close>, whose body sees the position.\<close>

lemma foldE_enumerate_succeeds:
  assumes "P 0 s"
    and "\<And>k s. k < length xs \<Longrightarrow> P k s \<Longrightarrow> \<exists>s'. f (k, xs ! k) s = Inr s' \<and> P (Suc k) s'"
  obtains s' where "foldE f (enumerate 0 xs) s = Inr s'" "P (length xs) s'"
proof -
  have "\<exists>s'. foldE f (enumerate 0 xs) s = Inr s' \<and> P (length xs) s'"
    using assms(2)
  proof (induction xs rule: rev_induct)
    case Nil
    with assms(1) show ?case by simp
  next
    case (snoc x xs)
    have "\<exists>s'. foldE f (enumerate 0 xs) s = Inr s' \<and> P (length xs) s'"
    proof (rule snoc.IH)
      show "\<exists>s'. f (k, xs ! k) u = Inr s' \<and> P (Suc k) s'" if "k < length xs" "P k u" for k u
        using snoc.prems [of k u] that by (simp add: nth_append)
    qed
    then obtain s1 where s1: "foldE f (enumerate 0 xs) s = Inr s1" "P (length xs) s1" by blast
    obtain s2 where "f (length xs, x) s1 = Inr s2" "P (Suc (length xs)) s2"
      using snoc.prems [of "length xs" s1] s1(2) by auto
    with s1(1) show ?case by (simp add: enumerate_append_eq foldE_append)
  qed
  with that show ?thesis by blast
qed

text \<open>A sum over an iterator: \<open>i128\<close> additions from the left.\<close>

lemma foldE_sum:
  assumes "\<forall>x \<in> set xs. 0 \<le> g x" and "0 \<le> acc" and "acc + (\<Sum>x\<leftarrow>xs. g x) < 2 ^ 127"
  shows "foldE (\<lambda>x acc. add_i128 acc (g x)) xs acc = Inr (acc + (\<Sum>x\<leftarrow>xs. g x))"
  using assms
proof (induction xs arbitrary: acc)
  case (Cons x xs)
  have "0 \<le> (\<Sum>x\<leftarrow>xs. g x)" using Cons.prems(1) by (intro sum_list_nonneg) auto
  with Cons show ?case by (simp add: add_i128_def chk_i128_def in_i128_def)
qed simp

lemma foldE_assert: "\<forall>x \<in> set xs. P x \<Longrightarrow> foldE (\<lambda>x _. prop_assert (P x)) xs () = Inr ()"
  by (induction xs) simp_all

lemma take_bound:
  assumes "\<forall>amount \<in> set amounts. 0 \<le> amount" and "sum_list amounts < (b :: int)"
  shows "sum_list (take k amounts) < b" "0 \<le> sum_list (take k amounts)"
proof -
  have nonneg: "0 \<le> sum_list xs" if "set xs \<subseteq> set amounts" for xs
    using assms(1) that by (intro sum_list_nonneg) auto
  have "sum_list amounts = sum_list (take k amounts) + sum_list (drop k amounts)"
    by (metis append_take_drop_id sum_list_append)
  with nonneg [OF set_drop_subset, of k] nonneg [OF set_take_subset, of k] assms(2)
  show "sum_list (take k amounts) < b" "0 \<le> sum_list (take k amounts)" by auto
qed

text \<open>The decimal digits determine the number, so ids built with \<open>format!\<close> differ.\<close>

definition decimal_value :: "string \<Rightarrow> nat" where
  "decimal_value cs = foldl (\<lambda>n c. 10 * n + digit_value c) 0 cs"

lemma decimal_value_show_nat: "decimal_value (show_nat n) = n"
proof (induction n rule: show_nat.induct)
  case (1 n)
  show ?case
  proof (cases "n < 10")
    case False
    with 1 have "decimal_value (show_nat (n div 10) @ [digit_char (n mod 10)]) = n"
      by (simp add: decimal_value_def)
    with False show ?thesis by (subst show_nat.simps) simp
  qed (simp add: show_nat_small decimal_value_def)
qed

lemma inj_show_nat [simp]: "show_nat i = show_nat j \<longleftrightarrow> i = j"
  by (metis decimal_value_show_nat)

subsection \<open>The token of the tests\<close>

text \<open>
  \<open>register_stellar_asset_contract_v2\<close> gives the tests a token of the host; it is the ledger the
  development already uses to instantiate its token parameter, from no balances on. \<open>approve\<close> sets
  an allowance. The tests let it end 1000 ledgers later and stay in the same ledger, so the
  expiry plays no part.
\<close>

definition empty_ledger :: ledger where
  "empty_ledger = \<lparr>balances = (\<lambda>_ _. 0), allowances = (\<lambda>_ _ _. 0)\<rparr>"

definition sac_approve :: "address \<Rightarrow> address \<Rightarrow> address \<Rightarrow> int \<Rightarrow> ledger \<Rightarrow> error + ledger" where
  "sac_approve tok from spender amount t =
     (if 0 \<le> amount
      then Inr (t\<lparr>allowances := (allowances t)(tok := (allowances t tok)(from :=
                    (allowances t tok from)(spender := amount)))\<rparr>)
      else Inl TokenTrap)"

lemma mint_approve:
  assumes "0 \<le> amt" and "0 \<le> balances t tok a"
  obtains t1 t2 where "ledger_mint e tok a amt t = Inr t1" "sac_approve tok a sp amt t1 = Inr t2"
    "amt \<le> balances t2 tok a" "allowances t2 tok a sp = amt"
    "balances t2 = (balances t)(tok := (balances t tok)(a := balances t tok a + amt))"
  using assms by (simp add: ledger_mint_def sac_approve_def)

definition solvent :: "ledger \<Rightarrow> bool" where
  "solvent t \<longleftrightarrow> (\<forall>tok a. 0 \<le> balances t tok a)"

lemma solvent_empty [simp]: "solvent empty_ledger"
  by (simp add: solvent_def empty_ledger_def)

lemma solventD: "solvent t \<Longrightarrow> 0 \<le> balances t tok a"
  by (simp add: solvent_def)

lemma solvent_mint:
  "solvent t \<Longrightarrow> 0 \<le> amt \<Longrightarrow> balances t2 = (balances t)(tok := (balances t tok)(a := balances t tok a + amt)) \<Longrightarrow> solvent t2"
  by (auto simp: solvent_def)

lemma solvent_move:
  "solvent t \<Longrightarrow> 0 \<le> amt \<Longrightarrow> amt \<le> balances t tok a \<Longrightarrow>
     balances t2 = (balances t)(tok := moved (balances t tok) a b amt) \<Longrightarrow> solvent t2"
  by (auto simp: solvent_def moved_def)

end
