(* ===== verification/Common_Tests.thy ===== *)
theory Common_Tests
  imports Test_Harness
begin

text \<open>
  The unit tests inside \<open>common/src/lib.rs\<close>: the tables of legal and illegal status transitions
  (modules \<open>transition_tests\<close>) and the version parser's tests (\<open>semantic_version_tests\<close>). The rows of
  the tables are the source's, in its order. The theorem turns the tests into a characterisation:
  the tables have no common and no missing pair, so passing them fixes the whole function.
\<close>

subsection \<open>The transition tables\<close>

definition legal_rows :: "(invoice_status \<times> invoice_status) list" where
  "legal_rows =
     [(InvPending, InvFinanced), (InvPending, InvCancelled),
      (InvFinanced, InvFinanced), (InvFinanced, InvRepaid), (InvFinanced, InvOverdue),
      (InvFinanced, InvDisputed),
      (InvOverdue, InvDefaulted),
      (InvDisputed, InvPending), (InvDisputed, InvFinanced), (InvDisputed, InvRepaid),
      (InvDisputed, InvCancelled), (InvDisputed, InvDefaulted)]"

definition illegal_live_rows :: "(invoice_status \<times> invoice_status) list" where
  "illegal_live_rows =
     [(InvPending, InvPending), (InvPending, InvRepaid), (InvPending, InvOverdue), (InvPending, InvDisputed),
      (InvPending, InvDefaulted),
      (InvFinanced, InvPending), (InvFinanced, InvCancelled), (InvFinanced, InvDefaulted),
      (InvOverdue, InvPending), (InvOverdue, InvFinanced), (InvOverdue, InvRepaid), (InvOverdue, InvOverdue),
      (InvOverdue, InvCancelled), (InvOverdue, InvDisputed),
      (InvDisputed, InvOverdue), (InvDisputed, InvDisputed)]"

definition illegal_terminal_rows :: "(invoice_status \<times> invoice_status) list" where
  "illegal_terminal_rows =
     [(InvRepaid, InvPending), (InvRepaid, InvFinanced), (InvRepaid, InvRepaid), (InvRepaid, InvOverdue),
      (InvRepaid, InvCancelled), (InvRepaid, InvDisputed), (InvRepaid, InvDefaulted),
      (InvCancelled, InvPending), (InvCancelled, InvFinanced), (InvCancelled, InvRepaid),
      (InvCancelled, InvOverdue), (InvCancelled, InvCancelled), (InvCancelled, InvDisputed),
      (InvCancelled, InvDefaulted),
      (InvDefaulted, InvPending), (InvDefaulted, InvFinanced), (InvDefaulted, InvRepaid),
      (InvDefaulted, InvOverdue), (InvDefaulted, InvCancelled), (InvDefaulted, InvDisputed),
      (InvDefaulted, InvDefaulted)]"

text \<open>A legal row must not panic; an illegal one must panic with contract error 3.\<close>

definition legal_test :: "invoice_status \<times> invoice_status \<Rightarrow> bool" where
  "legal_test = (\<lambda>(from, to). \<not> rejected (validate_transition from to))"

definition illegal_test :: "invoice_status \<times> invoice_status \<Rightarrow> bool" where
  "illegal_test = (\<lambda>(from, to). validate_transition from to = Inl (Contract InvalidTransition))"

subsection \<open>The version tests\<close>

definition compares_numeric_components_not_lexicographic_text :: "error + unit" where
  "compares_numeric_components_not_lexicographic_text =
     bindE (parse_semantic_version ''1.9.0'') (\<lambda>one_nine.
     bindE (parse_semantic_version ''1.10.0'') (\<lambda>one_ten.
     bindE (prop_assert (one_ten = SemanticVersion 1 10 0)) (\<lambda>_.
     prop_assert (one_nine < one_ten))))"

definition rejects_malformed_versions :: "error + unit" where
  "rejects_malformed_versions =
     foldE (\<lambda>v _. prop_assert (rejected (parse_semantic_version v)))
       [''1.0'', ''1.0.0.0'', ''01.0.0'', ''1.a.0'', ''1..0''] ()"

subsection \<open>The tests pass and decide the function\<close>

lemma status_pairs: "set (legal_rows @ illegal_live_rows @ illegal_terminal_rows) = UNIV"
proof -
  have "(a, b) \<in> set (legal_rows @ illegal_live_rows @ illegal_terminal_rows)" for a b
    by (cases a; cases b) (simp_all add: legal_rows_def illegal_live_rows_def illegal_terminal_rows_def)
  then show ?thesis by auto
qed

lemma valid_edge_rows: "valid_edge a b \<longleftrightarrow> (a, b) \<in> set legal_rows"
  by (cases a; cases b) (simp_all add: legal_rows_def)

lemma parse_both:
  "parse_semantic_version ''1.9.0'' = Inr (SemanticVersion 1 9 0)"
  "parse_semantic_version ''1.10.0'' = Inr (SemanticVersion 1 10 0)"
  by (simp_all add: parse_semantic_version_def is_ascii_digit_def digit_value_def)

lemma version_tests_pass:
  "compares_numeric_components_not_lexicographic_text = Inr ()" "rejects_malformed_versions = Inr ()"
  by (simp_all add: compares_numeric_components_not_lexicographic_text_def parse_both less_semantic_version_def
      rejects_malformed_versions_def parse_semantic_version_def is_ascii_digit_def digit_value_def)

text \<open>
  C34. The transition tests are complete: no pair of statuses occurs twice in the two tables,
  every pair occurs in one of them, the rows marked legal pass, the rows marked illegal are
  rejected with \<open>InvalidTransition\<close>, and so \<open>validate_transition\<close> is exactly the lookup in the
  legal table.
\<close>

theorem transition_tables_decide:
  "distinct (legal_rows @ illegal_live_rows @ illegal_terminal_rows) \<and>
   set (legal_rows @ illegal_live_rows @ illegal_terminal_rows) = UNIV \<and>
   list_all legal_test legal_rows \<and> list_all illegal_test (illegal_live_rows @ illegal_terminal_rows) \<and>
   validate_transition from to =
     (if (from, to) \<in> set legal_rows then Inr () else Inl (Contract InvalidTransition))"
proof (intro conjI)
  show "distinct (legal_rows @ illegal_live_rows @ illegal_terminal_rows)" by code_simp
  show "list_all legal_test legal_rows" by code_simp
  show "list_all illegal_test (illegal_live_rows @ illegal_terminal_rows)" by code_simp
qed (simp_all only: status_pairs validate_transition_def ensure_def valid_edge_rows)

end
