(* ===== verification/Registry_Tests.thy ===== *)
theory Registry_Tests
  imports Test_Harness Registry_Queries
begin

text \<open>
  The property tests of \<open>registry/src/proptest.rs\<close>, one definition per test function: a registry
  with stand-in financing and repayment addresses, driven through its entry points. The generated
  amounts and due dates are arguments; the theorem at the end covers every input of the generators.
\<close>

subsection \<open>The tests\<close>

definition reg_env :: "nat \<Rightarrow> env" where
  "reg_env now = demo_env now (Address 100)"

definition one_signer :: "address \<Rightarrow> address list" where
  "one_signer signer = [] @ [signer]"

definition reg_setup :: "nat \<Rightarrow> error + registry" where
  "reg_setup now =
     bindE (registry_constructor (Address 1) empty_registry) (\<lambda>reg.
     bindE (set_financing_contract (reg_env now) (one_signer (Address 1)) (Address 3) reg) (\<lambda>reg.
     set_repayment_contract (reg_env now) (one_signer (Address 1)) (Address 4) reg))"

definition test_invoice_amount_immutable_once_financed :: "int \<Rightarrow> int \<Rightarrow> error + unit" where
  "test_invoice_amount_immutable_once_financed amount new_amount =
     (let e = reg_env 1000000; originator = Address 5; x = Symbol ''inv_pt'' in
     bindE (reg_setup 1000000) (\<lambda>reg.
     bindE (register_invoice e x originator amount (Symbol ''USD'') 2000000 reg) (\<lambda>(_, reg).
     bindE (update_invoice_amount e x originator new_amount reg) (\<lambda>(updated, reg).
     bindE (prop_assert (inv_amount updated = new_amount)) (\<lambda>_.
     bindE (financing_marks_invoice_financed e x reg) (\<lambda>(_, reg).
     let result = bindE (add_i128 new_amount 1) (\<lambda>a. update_invoice_amount e x originator a reg) in
     bindE (prop_assert (rejected result)) (\<lambda>_.
     bindE (get_invoice x reg) (\<lambda>invc.
     bindE (prop_assert (inv_amount invc = new_amount)) (\<lambda>_.
     prop_assert (inv_status invc = InvFinanced))))))))))"

definition test_due_date_never_changes :: "int \<Rightarrow> nat \<Rightarrow> error + unit" where
  "test_due_date_never_changes amount due_offset =
     (let e = reg_env 1000000; originator = Address 5; x = Symbol ''inv_dd'' in
     bindE (reg_setup 1000000) (\<lambda>reg.
     bindE (add_u64 1000000 due_offset) (\<lambda>due_date.
     bindE (register_invoice e x originator amount (Symbol ''USD'') due_date reg) (\<lambda>(original, reg).
     bindE (prop_assert (inv_due_date original = due_date)) (\<lambda>_.
     bindE (financing_marks_invoice_financed e x reg) (\<lambda>(_, reg).
     bindE (add_u64 due_date 1) (\<lambda>now.
     bindE (mark_invoice_overdue (reg_env now) x reg) (\<lambda>(overdue, reg).
     bindE (prop_assert (inv_status overdue = InvOverdue)) (\<lambda>_.
     bindE (get_invoice x reg) (\<lambda>after.
     prop_assert (inv_due_date after = due_date)))))))))))"

definition test_cancelled_invoice_never_reactivated :: "int \<Rightarrow> error + unit" where
  "test_cancelled_invoice_never_reactivated amount =
     (let e = reg_env 1000000; originator = Address 5; x = Symbol ''inv_cx'' in
     bindE (reg_setup 1000000) (\<lambda>reg.
     bindE (register_invoice e x originator amount (Symbol ''USD'') 2000000 reg) (\<lambda>(_, reg).
     bindE (cancel_invoice e x originator reg) (\<lambda>(_, reg).
     bindE (get_invoice x reg) (\<lambda>invc.
     bindE (prop_assert (inv_status invc = InvCancelled)) (\<lambda>_.
     bindE (prop_assert (rejected (financing_marks_invoice_financed e x reg))) (\<lambda>_.
     bindE (prop_assert (rejected (update_invoice_status e x originator InvPending reg))) (\<lambda>_.
     bindE (get_invoice x reg) (\<lambda>invc.
     prop_assert (inv_status invc = InvCancelled))))))))))"

text \<open>\<open>{:04}\<close> pads the decimal digits with zeros to four places.\<close>

definition symbol_for :: "nat \<Rightarrow> symbol" where
  "symbol_for i = Symbol (''inv'' @ replicate (4 - length (show_nat i)) CHR ''0'' @ show_nat i)"

definition test_invoice_count_matches_storage :: "int list \<Rightarrow> error + unit" where
  "test_invoice_count_matches_storage amounts =
     (let e = reg_env 1000000; originator = Address 5 in
     bindE (reg_setup 1000000) (\<lambda>reg.
     bindE (foldE (\<lambda>(i, amount) reg.
         bindE (register_invoice e (symbol_for i) originator amount (Symbol ''USD'') 2000000 reg) (\<lambda>(_, reg).
         Inr reg)) (enumerate 0 amounts) reg) (\<lambda>reg.
     prop_assert (get_invoices_count reg = length amounts))))"

definition test_forward_only_lifecycle :: "int \<Rightarrow> error + unit" where
  "test_forward_only_lifecycle amount =
     (let e = reg_env 1000000; originator = Address 5; x = Symbol ''inv_fw'' in
     bindE (reg_setup 1000000) (\<lambda>reg.
     bindE (register_invoice e x originator amount (Symbol ''USD'') 2000000 reg) (\<lambda>(_, reg).
     bindE (get_invoice x reg) (\<lambda>invc.
     bindE (prop_assert (inv_status invc = InvPending)) (\<lambda>_.
     bindE (financing_marks_invoice_financed e x reg) (\<lambda>(_, reg).
     bindE (get_invoice x reg) (\<lambda>invc.
     bindE (prop_assert (inv_status invc = InvFinanced)) (\<lambda>_.
     bindE (repayment_marks_invoice_repaid e x True reg) (\<lambda>(_, reg).
     bindE (get_invoice x reg) (\<lambda>invc.
     bindE (prop_assert (inv_status invc = InvRepaid)) (\<lambda>_.
     prop_assert (rejected (financing_marks_invoice_financed e x reg)))))))))))))"

subsection \<open>What the calls do to the test's registry\<close>

text \<open>\<open>wired_up fin rep n s\<close>: a registry that trusts \<open>fin\<close> and \<open>rep\<close>, after \<open>n\<close> registrations.\<close>

definition wired_up :: "address option \<Rightarrow> address option \<Rightarrow> nat \<Rightarrow> registry \<Rightarrow> bool" where
  "wired_up fin rep n s \<longleftrightarrow> \<not> paused s \<and> blklist s = [] \<and> financing_addr s = fin \<and>
     repayment_addr s = rep \<and> total_invoices (load_stats s) = n"

abbreviation stubbed :: "nat \<Rightarrow> registry \<Rightarrow> bool" where
  "stubbed \<equiv> wired_up (Some (Address 3)) (Some (Address 4))"

lemma reg_env_sel [simp]: "ledger_timestamp (reg_env t) = t" "authorizes (reg_env t) a"
  by (simp_all add: reg_env_def)

lemma reg_setup_runs: obtains s where "reg_setup t = Inr s" "stubbed 0 s" "invoices s = []"
proof -
  have "\<exists>s. reg_setup t = Inr s \<and> stubbed 0 s \<and> invoices s = []"
    by (simp add: reg_setup_def registry_constructor_def init_admin_config_def initialize_contract_version_def
        parse_cargo_version set_financing_contract_def set_repayment_contract_def one_signer_def wired_up_def
        assert_not_paused_def assert_admin_def load_admin_config_def save_admin_config_def publish_def
        assert_threshold_def is_signer_def require_auth_def load_stats_def empty_registry_def)
  then show ?thesis using that by blast
qed

definition pt_invoice :: "symbol \<Rightarrow> int \<Rightarrow> nat \<Rightarrow> invoice" where
  "pt_invoice x amount due = \<lparr>inv_id = x, inv_originator = Address 5, inv_amount = amount,
     inv_currency = Symbol ''USD'', inv_due_date = due, inv_status = InvPending\<rparr>"

lemma pt_invoice_sel [simp]:
  "inv_originator (pt_invoice x amount due) = Address 5" "inv_amount (pt_invoice x amount due) = amount"
  "inv_due_date (pt_invoice x amount due) = due" "inv_status (pt_invoice x amount due) = InvPending"
  by (simp_all add: pt_invoice_def)

lemma register_runs:
  assumes "wired_up fa ra n s" and "n < 2 ^ 32 - 1" and "10000000 \<le> amount" and "now < due" and "\<not> sm_has (invoices s) x"
  obtains s' where "register_invoice (reg_env now) x (Address 5) amount (Symbol ''USD'') due s = Inr (pt_invoice x amount due, s')"
    "wired_up fa ra (Suc n) s'" "invoices s' = sm_set (invoices s) x (pt_invoice x amount due)"
proof -
  have "\<exists>s'. register_invoice (reg_env now) x (Address 5) amount (Symbol ''USD'') due s = Inr (pt_invoice x amount due, s') \<and>
      wired_up fa ra (Suc n) s' \<and> invoices s' = sm_set (invoices s) x (pt_invoice x amount due)"
    using assms by (simp add: register_invoice_def assert_not_paused_def require_auth_def assert_not_blacklisted_def
      Let_def add_u32_def load_stats_def registry_unfold pt_invoice_def wired_up_def)
  then show ?thesis using that by blast
qed

lemma wired_up_move:
  "wired_up fa ra n s \<Longrightarrow> wired_up fa ra n (publish ev (status_effect e x i new f s))"
  by (cases "stats s") (auto simp: wired_up_def load_stats_def status_effect_def registry_unfold split: option.splits)


lemma update_amount_runs:
  assumes "wired_up fa ra n s" and "10000000 \<le> new_amount" and "map_of (invoices s) x = Some (pt_invoice x amount due)"
  obtains s' where "update_invoice_amount (reg_env now) x (Address 5) new_amount s = Inr (pt_invoice x new_amount due, s')"
    "wired_up fa ra n s'" "invoices s' = sm_set (invoices s) x (pt_invoice x new_amount due)"
proof -
  have "\<exists>s'. update_invoice_amount (reg_env now) x (Address 5) new_amount s = Inr (pt_invoice x new_amount due, s') \<and>
      wired_up fa ra n s' \<and> invoices s' = sm_set (invoices s) x (pt_invoice x new_amount due)"
    using assms by (simp add: update_invoice_amount_def assert_not_paused_def require_auth_def get_invoice_def Let_def
      pt_invoice_def wired_up_def load_stats_def)
  then show ?thesis using that by blast
qed

text \<open>A move along an edge by an entry point, and the three moves of these tests.\<close>

lemma wired_up_may_move:
  "wired_up fa ra n s \<Longrightarrow> map_of (invoices s) x = Some i \<Longrightarrow> valid_edge (inv_status i) new \<Longrightarrow> may_move x i new s"
  by (simp add: may_move_def wired_up_def)

lemma financed_by:
  assumes "wired_up (Some f) ra n s" and "map_of (invoices s) x = Some i" and "valid_edge (inv_status i) InvFinanced"
    and "authorizes e f"
  obtains i' s' where "financing_marks_invoice_financed e x s = Inr (i', s')" "wired_up (Some f) ra n s'"
    "invoices s' = sm_set (invoices s) x (i\<lparr>inv_status := InvFinanced\<rparr>)"
proof (rule that)
  show "financing_marks_invoice_financed e x s =
      Inr (i\<lparr>inv_status := InvFinanced\<rparr>, publish (Ev_inv_sts (inv_id i) InvFinanced) (status_effect e x i InvFinanced f s))"
    using assms(1,4) wired_up_may_move [OF assms(1-3)] by (auto simp: financing_marks_invoice_financed_ok wired_up_def)
qed (simp_all add: wired_up_move [OF assms(1)])

lemmas financed_runs = financed_by [OF _ _ _ reg_env_sel(2)]

lemma repaid_runs:
  assumes "wired_up fa (Some f) n s" and "map_of (invoices s) x = Some i" and "valid_edge (inv_status i) InvRepaid"
  obtains i' s' where "repayment_marks_invoice_repaid (reg_env now) x True s = Inr (i', s')" "wired_up fa (Some f) n s'"
    "invoices s' = sm_set (invoices s) x (i\<lparr>inv_status := InvRepaid\<rparr>)"
proof (rule that)
  show "repayment_marks_invoice_repaid (reg_env now) x True s =
      Inr (i\<lparr>inv_status := InvRepaid\<rparr>, publish (Ev_inv_sts (inv_id i) InvRepaid) (status_effect (reg_env now) x i InvRepaid f s))"
    using assms(1) wired_up_may_move [OF assms] by (auto simp: repayment_marks_invoice_repaid_ok wired_up_def)
qed (simp_all add: wired_up_move [OF assms(1)])

lemma defaulted_runs:
  assumes "wired_up fa (Some f) n s" and "map_of (invoices s) x = Some i" and "valid_edge (inv_status i) InvDefaulted"
  obtains i' s' where "repayment_marks_defaulted (reg_env now) x s = Inr (i', s')" "wired_up fa (Some f) n s'"
    "invoices s' = sm_set (invoices s) x (i\<lparr>inv_status := InvDefaulted\<rparr>)"
proof (rule that)
  show "repayment_marks_defaulted (reg_env now) x s = Inr (i\<lparr>inv_status := InvDefaulted\<rparr>,
      publish (Ev_inv_def (inv_id i) (inv_originator i)) (status_effect (reg_env now) x i InvDefaulted f s))"
    using assms(1) wired_up_may_move [OF assms] by (auto simp: repayment_marks_defaulted_ok wired_up_def)
qed (simp_all add: wired_up_move [OF assms(1)])

lemma cancelled_runs:
  assumes "wired_up fa ra n s" and "map_of (invoices s) x = Some i" and "valid_edge (inv_status i) InvCancelled"
    and "inv_originator i = a"
  obtains i' s' where "cancel_invoice (reg_env now) x a s = Inr (i', s')" "wired_up fa ra n s'"
    "invoices s' = sm_set (invoices s) x (i\<lparr>inv_status := InvCancelled\<rparr>)"
proof (rule that)
  show "cancel_invoice (reg_env now) x a s =
      Inr (i\<lparr>inv_status := InvCancelled\<rparr>, publish (Ev_inv_cxl a a) (status_effect (reg_env now) x i InvCancelled a s))"
    using assms(4) wired_up_may_move [OF assms(1-3)] by (auto simp: cancel_invoice_ok)
qed (simp_all add: wired_up_move [OF assms(1)])

lemma overdue_runs:
  assumes "wired_up fa ra n s" and "map_of (invoices s) x = Some i" and "valid_edge (inv_status i) InvOverdue"
    and "inv_due_date i < now"
  obtains s' where "mark_invoice_overdue (reg_env now) x s = Inr (i\<lparr>inv_status := InvOverdue\<rparr>, s')" "wired_up fa ra n s'"
    "invoices s' = sm_set (invoices s) x (i\<lparr>inv_status := InvOverdue\<rparr>)"
proof (rule that)
  show "mark_invoice_overdue (reg_env now) x s = Inr (i\<lparr>inv_status := InvOverdue\<rparr>,
      publish (Ev_inv_ovd (inv_id i) (inv_due_date i)) (status_effect (reg_env now) x i InvOverdue (current_contract (reg_env now)) s))"
    using assms(4) wired_up_may_move [OF assms(1-3)] by (auto simp: mark_invoice_overdue_ok)
qed (simp_all add: wired_up_move [OF assms(1)])

lemma registered_runs:
  assumes "10000000 \<le> amount" and "1000000 < due"
  obtains s s' where "reg_setup 1000000 = Inr s"
    "register_invoice (reg_env 1000000) x (Address 5) amount (Symbol ''USD'') due s = Inr (pt_invoice x amount due, s')"
    "stubbed 1 s'" "invoices s' = [(x, pt_invoice x amount due)]"
proof -
  obtain s where s: "reg_setup 1000000 = Inr s" "stubbed 0 s" "invoices s = []" by (rule reg_setup_runs)
  obtain s' where "register_invoice (reg_env 1000000) x (Address 5) amount (Symbol ''USD'') due s = Inr (pt_invoice x amount due, s')"
    "stubbed (Suc 0) s'" "invoices s' = [(x, pt_invoice x amount due)]"
    by (rule register_runs [OF s(2) _ assms, of x]) (simp_all add: s(3) sm_has_def)
  with s(1) show ?thesis using that by simp
qed

subsection \<open>Each test passes\<close>

lemma amount_immutable_passes:
  assumes "10000000 \<le> amount" and "10000000 \<le> new_amount" and "new_amount < 2 ^ 127 - 1"
  shows "test_invoice_amount_immutable_once_financed amount new_amount = Inr ()"
proof -
  let ?x = "Symbol ''inv_pt''"
  obtain s s1 where s1: "reg_setup 1000000 = Inr s"
    "register_invoice (reg_env 1000000) ?x (Address 5) amount (Symbol ''USD'') 2000000 s = Inr (pt_invoice ?x amount 2000000, s1)"
    "stubbed 1 s1" "invoices s1 = [(?x, pt_invoice ?x amount 2000000)]"
    by (rule registered_runs [OF assms(1), of 2000000 ?x]) simp
  obtain s2 where s2: "update_invoice_amount (reg_env 1000000) ?x (Address 5) new_amount s1 = Inr (pt_invoice ?x new_amount 2000000, s2)"
    "stubbed 1 s2" "invoices s2 = [(?x, pt_invoice ?x new_amount 2000000)]"
    by (rule update_amount_runs [OF s1(3) assms(2), of ?x amount 2000000 1000000]) (simp_all add: s1(4))
  obtain i3 s3 where s3: "financing_marks_invoice_financed (reg_env 1000000) ?x s2 = Inr (i3, s3)" "stubbed 1 s3"
    "invoices s3 = [(?x, (pt_invoice ?x new_amount 2000000)\<lparr>inv_status := InvFinanced\<rparr>)]"
    by (rule financed_runs [OF s2(2), of ?x _ 1000000]) (auto simp: s2(3))
  have "rejected (bindE (add_i128 new_amount 1) (\<lambda>a. update_invoice_amount (reg_env 1000000) ?x (Address 5) a s3))"
    by (auto simp: rejected_iff ok update_invoice_amount_def s3(3))
  with s1 s2 s3 show ?thesis
    by (simp add: test_invoice_amount_immutable_once_financed_def Let_def get_invoice_def)
qed

lemma due_date_passes:
  assumes "10000000 \<le> amount" and "0 < due_offset" and "due_offset < 2 ^ 64 - 1000001"
  shows "test_due_date_never_changes amount due_offset = Inr ()"
proof -
  let ?x = "Symbol ''inv_dd''" and ?d = "1000000 + due_offset"
  obtain s s1 where s1: "reg_setup 1000000 = Inr s"
    "register_invoice (reg_env 1000000) ?x (Address 5) amount (Symbol ''USD'') ?d s = Inr (pt_invoice ?x amount ?d, s1)"
    "stubbed 1 s1" "invoices s1 = [(?x, pt_invoice ?x amount ?d)]"
    by (rule registered_runs [OF assms(1), of ?d ?x]) (use assms(2) in simp)
  obtain i2 s2 where s2: "financing_marks_invoice_financed (reg_env 1000000) ?x s1 = Inr (i2, s2)" "stubbed 1 s2"
    "invoices s2 = [(?x, (pt_invoice ?x amount ?d)\<lparr>inv_status := InvFinanced\<rparr>)]"
    by (rule financed_runs [OF s1(3), of ?x _ 1000000]) (auto simp: s1(4))
  obtain s3 where s3: "mark_invoice_overdue (reg_env (Suc ?d)) ?x s2 = Inr ((pt_invoice ?x amount ?d)\<lparr>inv_status := InvOverdue\<rparr>, s3)"
    "invoices s3 = [(?x, (pt_invoice ?x amount ?d)\<lparr>inv_status := InvOverdue\<rparr>)]"
    by (rule overdue_runs [OF s2(2), of ?x _ "Suc ?d"]) (auto simp: s2(3))
  from s1 s2 s3 assms(3) show ?thesis
    by (simp add: test_due_date_never_changes_def Let_def add_u64_def get_invoice_def)
qed

lemma cancelled_passes:
  assumes "10000000 \<le> amount"
  shows "test_cancelled_invoice_never_reactivated amount = Inr ()"
proof -
  let ?x = "Symbol ''inv_cx''" and ?e = "reg_env 1000000"
  obtain s s1 where s1: "reg_setup 1000000 = Inr s"
    "register_invoice ?e ?x (Address 5) amount (Symbol ''USD'') 2000000 s = Inr (pt_invoice ?x amount 2000000, s1)"
    "stubbed 1 s1" "invoices s1 = [(?x, pt_invoice ?x amount 2000000)]"
    by (rule registered_runs [OF assms(1), of 2000000 ?x]) simp
  obtain i2 s2 where s2: "cancel_invoice ?e ?x (Address 5) s1 = Inr (i2, s2)" "stubbed 1 s2"
    "invoices s2 = [(?x, (pt_invoice ?x amount 2000000)\<lparr>inv_status := InvCancelled\<rparr>)]"
    by (rule cancelled_runs [OF s1(3), of ?x _ "Address 5" 1000000]) (auto simp: s1(4))
  have "rejected (financing_marks_invoice_financed ?e ?x s2)" "rejected (update_invoice_status ?e ?x (Address 5) InvPending s2)"
    by (auto simp: rejected_iff lifecycle_ok may_move_def s2(3))
  with s1 s2 show ?thesis by (simp add: test_cancelled_invoice_never_reactivated_def Let_def get_invoice_def)
qed

lemma forward_only_passes:
  assumes "10000000 \<le> amount"
  shows "test_forward_only_lifecycle amount = Inr ()"
proof -
  let ?x = "Symbol ''inv_fw''" and ?e = "reg_env 1000000"
  obtain s s1 where s1: "reg_setup 1000000 = Inr s"
    "register_invoice ?e ?x (Address 5) amount (Symbol ''USD'') 2000000 s = Inr (pt_invoice ?x amount 2000000, s1)"
    "stubbed 1 s1" "invoices s1 = [(?x, pt_invoice ?x amount 2000000)]"
    by (rule registered_runs [OF assms(1), of 2000000 ?x]) simp
  obtain i2 s2 where s2: "financing_marks_invoice_financed ?e ?x s1 = Inr (i2, s2)" "stubbed 1 s2"
    "invoices s2 = [(?x, (pt_invoice ?x amount 2000000)\<lparr>inv_status := InvFinanced\<rparr>)]"
    by (rule financed_runs [OF s1(3), of ?x _ 1000000]) (auto simp: s1(4))
  obtain i3 s3 where s3: "repayment_marks_invoice_repaid ?e ?x True s2 = Inr (i3, s3)" "stubbed 1 s3"
    "invoices s3 = [(?x, (pt_invoice ?x amount 2000000)\<lparr>inv_status := InvRepaid\<rparr>)]"
    by (rule repaid_runs [OF s2(2), of ?x _ 1000000]) (auto simp: s2(3))
  have "rejected (financing_marks_invoice_financed ?e ?x s3)"
    by (auto simp: rejected_iff lifecycle_ok may_move_def s3(3))
  with s1 s2 s3 show ?thesis by (simp add: test_forward_only_lifecycle_def Let_def get_invoice_def)
qed


lemma inj_symbol_for: "symbol_for i = symbol_for j \<Longrightarrow> i = j"
proof -
  have zeros: "foldl (\<lambda>n c. 10 * n + digit_value c) 0 (replicate k CHR ''0'') = 0" for k
    by (induction k) (simp_all add: digit_value_def)
  have read: "decimal_value (replicate k CHR ''0'' @ show_nat n) = n" for k n
    using decimal_value_show_nat by (simp add: decimal_value_def zeros)
  assume "symbol_for i = symbol_for j"
  then have "replicate (4 - length (show_nat i)) CHR ''0'' @ show_nat i = replicate (4 - length (show_nat j)) CHR ''0'' @ show_nat j"
    by (simp only: symbol_for_def symbol.inject same_append_eq)
  from arg_cong [OF this, of decimal_value] show "i = j" by (simp only: read)
qed

lemma length_sm_set: "\<not> sm_has m k \<Longrightarrow> length (sm_set m k v) = Suc (length m)"
  by (induction m k v rule: sm_set.induct) (auto simp: sm_has_def split: if_splits)

lemma sm_has_sm_set: "sm_has (sm_set m k v) k' \<longleftrightarrow> k' = k \<or> sm_has m k'"
  by (simp add: sm_has_def)

lemma count_passes:
  assumes "\<forall>amount \<in> set amounts. 10000000 \<le> amount" and "length amounts < 2 ^ 32"
  shows "test_invoice_count_matches_storage amounts = Inr ()"
proof -
  define f where "f = (\<lambda>(i, amount) reg.
    bindE (register_invoice (reg_env 1000000) (symbol_for i) (Address 5) amount (Symbol ''USD'') 2000000 reg) (\<lambda>(_, reg). Inr reg))"
  define P where "P = (\<lambda>n s. stubbed n s \<and> length (invoices s) = n \<and> (\<forall>x. sm_has (invoices s) x \<longrightarrow> x \<in> symbol_for ` {..<n}))"
  obtain s where s: "reg_setup 1000000 = Inr s" "stubbed 0 s" "invoices s = []" by (rule reg_setup_runs)
  have step: "\<exists>s'. f (k, amounts ! k) s = Inr s' \<and> P (Suc k) s'" if "k < length amounts" and P: "P k s" for k s
  proof -
    let ?amount = "amounts ! k"
    have new: "\<not> sm_has (invoices s) (symbol_for k)" using P inj_symbol_for by (fastforce simp: P_def)
    have "k < 2 ^ 32 - 1" "10000000 \<le> ?amount" using that(1) assms by auto
    then obtain s' where "register_invoice (reg_env 1000000) (symbol_for k) (Address 5) ?amount (Symbol ''USD'') 2000000 s =
        Inr (pt_invoice (symbol_for k) ?amount 2000000, s')" "stubbed (Suc k) s'"
      "invoices s' = sm_set (invoices s) (symbol_for k) (pt_invoice (symbol_for k) ?amount 2000000)"
      using register_runs [of _ _ k s ?amount 1000000 2000000 "symbol_for k"] P new by (auto simp: P_def)
    with P new show ?thesis by (auto simp: f_def P_def length_sm_set sm_has_sm_set lessThan_Suc)
  qed
  obtain s' where "foldE f (enumerate 0 amounts) s = Inr s'" "P (length amounts) s'"
    by (rule foldE_enumerate_succeeds [of P s amounts f])
      (use s(2,3) step in \<open>auto simp: P_def sm_has_def\<close>)
  then show ?thesis using s(1)
    by (simp add: test_invoice_count_matches_storage_def f_def P_def get_invoices_count_def)
qed

subsection \<open>Every input passes\<close>

text \<open>
  C33. Every property test of the registry passes on every generated input: for all amounts of at
  least \<open>10^7\<close>, a corrected amount whose successor fits \<open>i128\<close>, every due date after the clock that
  leaves room for one more second in \<open>u64\<close>, and batches of any length below \<open>2^32\<close> (the generators
  stop at \<open>10^11\<close>, a year and 20), an amount can be corrected
  while Pending and is frozen from Financed on, a due date survives financing and the move to
  Overdue, a Cancelled invoice can be neither financed nor reopened, a Repaid one cannot be financed
  again, and the invoice count equals the number of registrations under \<open>inv0000\<close>, \<open>inv0001\<close>, ...
\<close>

theorem registry_property_tests_pass:
  assumes "10000000 \<le> amount" and "10000000 \<le> new_amount" and "new_amount < 2 ^ 127 - 1"
    and "0 < due_offset" and "due_offset < 2 ^ 64 - 1000001"
    and "\<forall>a \<in> set amounts. 10000000 \<le> a" and "length amounts < 2 ^ 32"
  shows "test_invoice_amount_immutable_once_financed amount new_amount = Inr () \<and>
    test_due_date_never_changes amount due_offset = Inr () \<and>
    test_cancelled_invoice_never_reactivated amount = Inr () \<and>
    test_invoice_count_matches_storage amounts = Inr () \<and>
    test_forward_only_lifecycle amount = Inr ()"
  by (intro conjI amount_immutable_passes due_date_passes cancelled_passes count_passes forward_only_passes assms)

lemma registry_property_tests_pass_witness:
  "test_invoice_amount_immutable_once_financed 10000000 20000000 = Inr () \<and>
   test_due_date_never_changes 10000000 86400 = Inr () \<and>
   test_invoice_count_matches_storage [10000000, 50000000] = Inr ()"
  using registry_property_tests_pass [of 10000000 20000000 86400 "[10000000, 50000000]"] by simp

end
