(* ===== verification/Insurance_Tests.thy ===== *)
theory Insurance_Tests
  imports Registry_Tests Pool
begin

text \<open>
  The property tests of \<open>insurance/src/proptest.rs\<close>, one definition per test function, on the
  insurance contract with a token of the host (\<open>Address 50\<close>) and, for the payout, a registry
  whose invoice is driven to Defaulted through its entry points. The theorem at the end covers
  every input of the generators.
\<close>

subsection \<open>The tests\<close>

definition ins_env :: "nat \<Rightarrow> env" where
  "ins_env now = demo_env now (Address 103)"

text \<open>The body of the first test's loop; the \<open>i\<close>-th staker is the \<open>i\<close>-th address generated in it.\<close>

definition sync_body ::
  "nat \<times> int \<Rightarrow> insurance \<times> ledger \<times> (address \<times> int) list \<times> int \<Rightarrow>
     error + insurance \<times> ledger \<times> (address \<times> int) list \<times> int" where
  "sync_body = (\<lambda>(i, amount) (ins, t, stakers, running_total).
     let token_id = Address 50; insurance_id = Address 103; e = ins_env 0; staker = Address (200 + i) in
     bindE (ledger_mint e token_id staker amount t) (\<lambda>t.
     bindE (sac_approve token_id staker insurance_id amount t) (\<lambda>t.
     bindE (stake ledger_token e staker amount (ins, t)) (\<lambda>(ins, t).
     bindE (add_i128 running_total amount) (\<lambda>running_total.
     let stakers = stakers @ [(staker, amount)] in
     bindE (foldE (\<lambda>p acc. add_i128 acc (get_stake (fst p) ins)) stakers 0) (\<lambda>sum_of_balances.
     bindE (prop_assert (sum_of_balances = get_pool_total ins)) (\<lambda>_.
     bindE (prop_assert (get_pool_total ins = running_total)) (\<lambda>_.
     Inr (ins, t, stakers, running_total)))))))))"

definition test_stake_keeps_pool_and_balances_in_sync :: "int list \<Rightarrow> error + unit" where
  "test_stake_keeps_pool_and_balances_in_sync amounts =
     bindE (insurance_constructor (Address 9) (Address 50) empty_insurance) (\<lambda>ins.
     bindE (foldE sync_body (enumerate 0 amounts) (ins, empty_ledger, [], 0)) (\<lambda>_.
     Inr ()))"

definition test_unstake_never_exceeds_own_balance :: "int \<Rightarrow> int \<Rightarrow> error + unit" where
  "test_unstake_never_exceeds_own_balance staked overshoot =
     (let token_id = Address 50; insurance_id = Address 103; staker = Address 2; e = ins_env 0 in
     bindE (insurance_constructor (Address 9) token_id empty_insurance) (\<lambda>ins.
     bindE (ledger_mint e token_id staker staked empty_ledger) (\<lambda>t.
     bindE (sac_approve token_id staker insurance_id staked t) (\<lambda>t.
     bindE (stake ledger_token e staker staked (ins, t)) (\<lambda>(ins, t).
     let attempt = bindE (add_i128 staked overshoot) (\<lambda>a. unstake ledger_token e staker a (ins, t)) in
     bindE (prop_assert (rejected attempt)) (\<lambda>_.
     prop_assert (get_stake staker ins = staked)))))))"

definition test_payout_never_exceeds_pool_balance :: "int \<Rightarrow> int \<Rightarrow> int \<Rightarrow> error + unit" where
  "test_payout_never_exceeds_pool_balance stake_a stake_b requested_payout_extra =
     (let token_id = Address 50; registry_id = Address 100; insurance_id = Address 103;
          admin = Address 9; repayment_stub = Address 6; x = Symbol ''inv_pay'';
          e = ins_env 1000000; er = reg_env 1000000 in
     bindE (registry_constructor admin empty_registry) (\<lambda>reg.
     bindE (insurance_constructor admin token_id empty_insurance) (\<lambda>ins.
     bindE (set_payout_caller e (one_signer admin) repayment_stub ins) (\<lambda>ins.
     bindE (insurance_set_registry e (one_signer admin) registry_id ins) (\<lambda>ins.
     bindE (set_financing_contract er (one_signer admin) repayment_stub reg) (\<lambda>reg.
     bindE (set_repayment_contract er (one_signer admin) repayment_stub reg) (\<lambda>reg.
     let staker_a = Address 207; staker_b = Address 208 in
     bindE (foldE (\<lambda>(staker, amount) (ins, t).
         bindE (ledger_mint e token_id staker amount t) (\<lambda>t.
         bindE (sac_approve token_id staker insurance_id amount t) (\<lambda>t.
         stake ledger_token e staker amount (ins, t))))
       [(staker_a, stake_a), (staker_b, stake_b)] (ins, empty_ledger)) (\<lambda>(ins, t).
     let pool_before = get_pool_total ins in
     bindE (register_invoice er x (Address 5) 10000000 (Symbol ''USD'') 2000000 reg) (\<lambda>(_, reg).
     bindE (financing_marks_invoice_financed er x reg) (\<lambda>(_, reg).
     bindE (mark_invoice_overdue (reg_env 2000001) x reg) (\<lambda>(_, reg).
     bindE (repayment_marks_defaulted (reg_env 2000001) x reg) (\<lambda>(_, reg).
     bindE (add_i128 pool_before requested_payout_extra) (\<lambda>requested.
     bindE (pay_out ledger_token (ins_env 2000001) x (Address 209) requested reg (ins, t)) (\<lambda>(paid, ins, t).
     bindE (prop_assert (paid = pool_before)) (\<lambda>_.
     bindE (prop_assert (get_pool_total ins = 0)) (\<lambda>_.
     bindE (add_i128 (get_stake staker_a ins) (get_stake staker_b ins)) (\<lambda>sum.
     prop_assert (sum = 0))))))))))))))))))"

subsection \<open>Deploying and staking\<close>

text \<open>A pool with these stakes and this total that is not paused and takes \<open>Address 50\<close>.\<close>

definition taking :: "(address, int) smap \<Rightarrow> int \<Rightarrow> insurance \<Rightarrow> bool" where
  "taking m n s \<longleftrightarrow> \<not> paused s \<and> ins_token s = Some (Address 50) \<and> ins_stakes s = m \<and> pooltot s = n"

lemma ins_env_sel [simp]: "ledger_timestamp (ins_env t) = t" "authorizes (ins_env t) a"
  "current_contract (ins_env t) = Address 103"
  by (simp_all add: ins_env_def)

lemma insurance_deployed:
  obtains s where "insurance_constructor (Address 9) (Address 50) empty_insurance = Inr s" "taking [] 0 s"
    "admcfg s = Some \<lparr>signers = [Address 9], threshold = 1\<rparr>"
proof -
  have "\<exists>s. insurance_constructor (Address 9) (Address 50) empty_insurance = Inr s \<and> taking [] 0 s \<and>
      admcfg s = Some \<lparr>signers = [Address 9], threshold = 1\<rparr>"
    by (simp add: insurance_constructor_def init_admin_config_def initialize_contract_version_def publish_def
        save_admin_config_def parse_cargo_version empty_insurance_def taking_def)
  then show ?thesis using that by blast
qed

lemma stake_runs:
  assumes "taking m n s" and "sm_get_or m a 0 = 0" and "1000000 \<le> amt" and "0 \<le> n" and "n + amt < 2 ^ 127"
    and "amt \<le> balances t (Address 50) a" and "amt \<le> allowances t (Address 50) a (Address 103)"
  obtains s' t' where "stake ledger_token (ins_env now) a amt (s, t) = Inr (s', t')" "taking (sm_set m a amt) (n + amt) s'"
    "balances t' = (balances t)(Address 50 := moved (balances t (Address 50)) a (Address 103) amt)"
    "paycall s' = paycall s" "ins_registry s' = ins_registry s"
proof -
  have "\<exists>s' t'. stake ledger_token (ins_env now) a amt (s, t) = Inr (s', t') \<and> taking (sm_set m a amt) (n + amt) s' \<and>
      balances t' = (balances t)(Address 50 := moved (balances t (Address 50)) a (Address 103) amt) \<and>
      paycall s' = paycall s \<and> ins_registry s' = ins_registry s"
    using assms by (simp add: stake_def pool_run taking_def publish_def)
  then show ?thesis using that by blast
qed

text \<open>Mint, approve and stake, as every test does for its stakers.\<close>

definition covered :: "int \<Rightarrow> ledger \<Rightarrow> bool" where
  "covered n t \<longleftrightarrow> solvent t \<and> n \<le> balances t (Address 50) (Address 103)"

lemma covered_empty: "covered 0 empty_ledger"
  by (simp add: covered_def empty_ledger_def solvent_def)

lemma funded_stake:
  assumes "taking m n s" and "sm_get_or m a 0 = 0" and "1000000 \<le> amt" and "0 \<le> n" and "n + amt < 2 ^ 127" and "covered n t"
  obtains t1 t2 s' t' where "ledger_mint e (Address 50) a amt t = Inr t1"
    "sac_approve (Address 50) a (Address 103) amt t1 = Inr t2"
    "stake ledger_token (ins_env now) a amt (s, t2) = Inr (s', t')" "taking (sm_set m a amt) (n + amt) s'"
    "covered (n + amt) t'" "paycall s' = paycall s" "ins_registry s' = ins_registry s"
proof -
  have amt: "0 \<le> amt" and t: "solvent t" using assms(3,6) by (simp_all add: covered_def)
  obtain t1 t2 where t2: "ledger_mint e (Address 50) a amt t = Inr t1" "sac_approve (Address 50) a (Address 103) amt t1 = Inr t2"
    "amt \<le> balances t2 (Address 50) a" "allowances t2 (Address 50) a (Address 103) = amt"
    "balances t2 = (balances t)(Address 50 := (balances t (Address 50))(a := balances t (Address 50) a + amt))"
    by (rule mint_approve [OF amt solventD [OF t]])
  obtain s' t' where s': "stake ledger_token (ins_env now) a amt (s, t2) = Inr (s', t')" "taking (sm_set m a amt) (n + amt) s'"
    "balances t' = (balances t2)(Address 50 := moved (balances t2 (Address 50)) a (Address 103) amt)"
    "paycall s' = paycall s" "ins_registry s' = ins_registry s"
    by (rule stake_runs [OF assms(1-5) t2(3)]) (use t2(4) in auto)
  have "solvent t'" using solvent_move [OF solvent_mint [OF t amt t2(5)] amt t2(3) s'(3)] .
  then have "covered (n + amt) t'"
    using assms(6) by (auto simp: covered_def s'(3) t2(5) moved_def Let_def)
  with t2(1,2) s' show ?thesis using that by blast
qed

subsection \<open>Each test passes\<close>

text \<open>The state after \<open>k\<close> rounds of the first test: exactly the first \<open>k\<close> stakers, with their amounts.\<close>

definition staker_list :: "int list \<Rightarrow> nat \<Rightarrow> (address \<times> int) list" where
  "staker_list amounts k = map (\<lambda>i. (Address (200 + i), amounts ! i)) [0..<k]"

definition in_sync :: "int list \<Rightarrow> nat \<Rightarrow> insurance \<times> ledger \<times> (address \<times> int) list \<times> int \<Rightarrow> bool" where
  "in_sync amounts k = (\<lambda>(ins, t, stakers, total). taking (ins_stakes ins) total ins \<and> covered total t \<and>
     total = sum_list (take k amounts) \<and> stakers = staker_list amounts k \<and>
     (\<forall>i. sm_get_or (ins_stakes ins) (Address (200 + i)) 0 = (if i < k then amounts ! i else 0)))"

lemma staker_balances:
  assumes "k \<le> length amounts" and "\<And>i. i < k \<Longrightarrow> get_stake (Address (200 + i)) ins = amounts ! i"
  shows "map (\<lambda>p. get_stake (fst p) ins) (staker_list amounts k) = take k amounts"
  using assms by (auto simp: staker_list_def intro!: nth_equalityI)

lemma sync_body_runs:
  assumes "\<forall>amount \<in> set amounts. 1000000 \<le> amount" and "sum_list amounts < 2 ^ 127"
    and "k < length amounts" and "in_sync amounts k u"
  shows "\<exists>u'. sync_body (k, amounts ! k) u = Inr u' \<and> in_sync amounts (Suc k) u'"
proof -
  let ?total = "sum_list (take k amounts)" and ?a = "Address (200 + k)" and ?x = "amounts ! k"
  note more = take_Suc_conv_app_nth [OF assms(3)]
  have bound: "?total + ?x < 2 ^ 127" "0 \<le> ?total" "1000000 \<le> ?x"
    using take_bound [OF _ assms(2), of k] take_bound [OF _ assms(2), of "Suc k"] assms(1,3) by (force simp: more)+
  obtain ins t m where u: "u = (ins, t, staker_list amounts k, ?total)"
    and m: "taking m ?total ins" "covered ?total t" "\<And>i. sm_get_or m (Address (200 + i)) 0 = (if i < k then amounts ! i else 0)"
    using assms(4) by (cases u) (auto simp: in_sync_def)
  have fresh: "sm_get_or m ?a 0 = 0" using m(3) by simp
  obtain t1 t2 ins' t' where run: "ledger_mint (ins_env 0) (Address 50) ?a ?x t = Inr t1"
    "sac_approve (Address 50) ?a (Address 103) ?x t1 = Inr t2" "stake ledger_token (ins_env 0) ?a ?x (ins, t2) = Inr (ins', t')"
    and new: "taking (sm_set m ?a ?x) (?total + ?x) ins'" "covered (?total + ?x) t'"
    by (rule funded_stake [OF m(1) fresh bound(3,2,1) m(2)])
  have stakes: "sm_get_or (sm_set m ?a ?x) (Address (200 + i)) 0 = (if i < Suc k then amounts ! i else 0)" for i
    using m(3) by simp
  have list: "map (\<lambda>p. get_stake (fst p) ins') (staker_list amounts (Suc k)) = take (Suc k) amounts"
    by (rule staker_balances) (use assms(3) new(1) stakes in \<open>auto simp: taking_def get_stake_def\<close>)
  have "foldE (\<lambda>p acc. add_i128 acc (get_stake (fst p) ins')) (staker_list amounts (Suc k)) 0 =
      Inr (0 + (\<Sum>p\<leftarrow>staker_list amounts (Suc k). get_stake (fst p) ins'))"
  proof (rule foldE_sum)
    have "\<forall>y \<in> set (map (\<lambda>p. get_stake (fst p) ins') (staker_list amounts (Suc k))). 0 \<le> y"
      unfolding list using assms(1) by (auto dest!: in_set_takeD)
    then show "\<forall>p \<in> set (staker_list amounts (Suc k)). 0 \<le> get_stake (fst p) ins'" by simp
  qed (use bound in \<open>simp_all add: list more\<close>)
  then have "sync_body (k, ?x) u = Inr (ins', t', staker_list amounts (Suc k), ?total + ?x)"
    using run bound new(1) by (simp add: u sync_body_def Let_def add_i128_def chk_i128_def in_i128_def taking_def
        get_pool_total_def list more) (simp add: staker_list_def)
  moreover have "in_sync amounts (Suc k) (ins', t', staker_list amounts (Suc k), ?total + ?x)"
    using new stakes by (simp add: in_sync_def more taking_def)
  ultimately show ?thesis by blast
qed

lemma stake_in_sync_passes:
  assumes "\<forall>amount \<in> set amounts. 1000000 \<le> amount" and "sum_list amounts < 2 ^ 127"
  shows "test_stake_keeps_pool_and_balances_in_sync amounts = Inr ()"
proof -
  obtain s where s: "insurance_constructor (Address 9) (Address 50) empty_insurance = Inr s" "taking [] 0 s"
    by (rule insurance_deployed)
  then have "in_sync amounts 0 (s, empty_ledger, [], 0)"
    by (simp add: in_sync_def staker_list_def covered_empty taking_def)
  then obtain s' where "foldE sync_body (enumerate 0 amounts) (s, empty_ledger, [], 0) = Inr s'"
    by (rule foldE_enumerate_succeeds) (rule sync_body_runs [OF assms])
  then show ?thesis by (simp add: test_stake_keeps_pool_and_balances_in_sync_def s(1))
qed


lemma unstake_bounded_passes:
  assumes "1000000 \<le> staked" and "staked < 2 ^ 127" and "0 < overshoot"
  shows "test_unstake_never_exceeds_own_balance staked overshoot = Inr ()"
proof -
  obtain s where s: "insurance_constructor (Address 9) (Address 50) empty_insurance = Inr s" "taking [] 0 s"
    by (rule insurance_deployed)
  obtain t1 t2 s' t' where run: "ledger_mint (ins_env 0) (Address 50) (Address 2) staked empty_ledger = Inr t1"
    "sac_approve (Address 50) (Address 2) (Address 103) staked t1 = Inr t2"
    "stake ledger_token (ins_env 0) (Address 2) staked (s, t2) = Inr (s', t')"
    "taking (sm_set [] (Address 2) staked) (0 + staked) s'"
    by (rule funded_stake [OF s(2), of "Address 2" staked empty_ledger]) (use assms covered_empty in simp_all)
  have "rejected (bindE (add_i128 staked overshoot) (\<lambda>a. unstake ledger_token (ins_env 0) (Address 2) a (s', t')))"
    using run(4) assms(3) by (auto simp: rejected_iff ok unstake_def taking_def sm_get_or_def Let_def)
  then show ?thesis using run
    by (simp add: test_unstake_never_exceeds_own_balance_def Let_def s(1) taking_def get_stake_def sm_get_or_def)
qed

text \<open>A payout of the whole pool leaves the two stakers nothing, whatever the rounding.\<close>

lemma reduce_all_of_two:
  assumes "0 < x" and "0 < y" and "x * (x + y) < 2 ^ 127" and "x + y < 2 ^ 127"
  shows "reduce_stakes [Address 207, Address 208] (x + y) (x + y) [(Address 207, x), (Address 208, y)] = Inr ([], x + y)"
proof -
  have "x * (x + y) sdiv (x + y) = x" using assms(1,2) by simp
  moreover have "- (2 ^ 127) \<le> x * (x + y)"
    by (rule order_trans [of _ 0]) (use assms(1,2) in simp_all)
  ultimately show ?thesis using assms
    by (simp add: reduce_stakes_def reduce_stake_def sub_i128_def mul_i128_def div_i128_def add_i128_def chk_i128_def
        in_i128_def sm_get_or_def sm_remove_def Let_def)
qed

lemma pay_out_all_runs:
  assumes "taking [(Address 207, x), (Address 208, y)] (x + y) s" and "paycall s = Some c" and "ins_registry s = Some (Address 100)"
    and "map_of (invoices r) i = Some iv" and "inv_status iv = InvDefaulted" and "covered (x + y) t"
    and "0 < x" and "0 < y" and "x * (x + y) < 2 ^ 127" and "x + y < 2 ^ 127" and "x + y \<le> requested"
  obtains s' t' where "pay_out ledger_token (ins_env now) i b requested r (s, t) = Inr (x + y, s', t')"
    "taking [] 0 s'"
proof -
  have "callee (ins_env now) (Address 100) RegistryC \<noteq> Inl e" for e
    by (simp add: callee_def ins_env_def demo_env_def)
  then obtain e' where "callee (ins_env now) (Address 100) RegistryC = Inr e'"
    by (cases "callee (ins_env now) (Address 100) RegistryC") auto
  then have "\<exists>s' t'. pay_out ledger_token (ins_env now) i b requested r (s, t) = Inr (x + y, s', t') \<and> taking [] 0 s'"
    using assms reduce_all_of_two [OF assms(7-10)]
    by (simp add: pay_out_def payout_guard_def assert_not_paused_def require_auth_def assert_defaulted_def get_invoice_def
        taking_def covered_def sm_keys_def Let_def sub_i128_def chk_i128_def in_i128_def load_token_def
        ledger_transfer_def publish_def)
  then show ?thesis using that by blast
qed


text \<open>A registry that trusts a stand-in for both calling contracts, with the invoice defaulted.\<close>

lemma stub_registry_runs:
  obtains s s1 s2 where "registry_constructor (Address 9) empty_registry = Inr s"
    "set_financing_contract (reg_env now) (one_signer (Address 9)) c s = Inr s1"
    "set_repayment_contract (reg_env now) (one_signer (Address 9)) c s1 = Inr s2"
    "wired_up (Some c) (Some c) 0 s2" "invoices s2 = []"
proof -
  have "\<exists>s s1 s2. registry_constructor (Address 9) empty_registry = Inr s \<and>
      set_financing_contract (reg_env now) (one_signer (Address 9)) c s = Inr s1 \<and>
      set_repayment_contract (reg_env now) (one_signer (Address 9)) c s1 = Inr s2 \<and>
      wired_up (Some c) (Some c) 0 s2 \<and> invoices s2 = []"
    by (simp add: registry_constructor_def init_admin_config_def initialize_contract_version_def
        parse_cargo_version set_financing_contract_def set_repayment_contract_def one_signer_def wired_up_def
        assert_not_paused_def assert_admin_def load_admin_config_def save_admin_config_def publish_def
        assert_threshold_def is_signer_def require_auth_def load_stats_def empty_registry_def)
  then show ?thesis using that by blast
qed

lemma default_runs:
  assumes "wired_up (Some c) (Some c) 0 s" and "invoices s = []"
  obtains i1 s1 i2 s2 i3 s3 i4 s4 iv where
    "register_invoice (reg_env 1000000) x (Address 5) 10000000 (Symbol ''USD'') 2000000 s = Inr (i1, s1)"
    "financing_marks_invoice_financed (reg_env 1000000) x s1 = Inr (i2, s2)"
    "mark_invoice_overdue (reg_env 2000001) x s2 = Inr (i3, s3)"
    "repayment_marks_defaulted (reg_env 2000001) x s3 = Inr (i4, s4)"
    "map_of (invoices s4) x = Some iv" "inv_status iv = InvDefaulted"
proof -
  let ?i = "pt_invoice x 10000000 2000000"
  obtain s1 where s1: "register_invoice (reg_env 1000000) x (Address 5) 10000000 (Symbol ''USD'') 2000000 s = Inr (?i, s1)"
    "wired_up (Some c) (Some c) (Suc 0) s1" "invoices s1 = [(x, ?i)]"
    by (rule register_runs [OF assms(1), of 10000000 1000000 2000000 x]) (simp_all add: assms(2) sm_has_def)
  obtain i2 s2 where s2: "financing_marks_invoice_financed (reg_env 1000000) x s1 = Inr (i2, s2)"
    "wired_up (Some c) (Some c) (Suc 0) s2" "invoices s2 = [(x, ?i\<lparr>inv_status := InvFinanced\<rparr>)]"
    by (rule financed_runs [OF s1(2), of x ?i 1000000]) (auto simp: s1(3))
  obtain s3 where s3: "mark_invoice_overdue (reg_env 2000001) x s2 = Inr (?i\<lparr>inv_status := InvOverdue\<rparr>, s3)"
    "wired_up (Some c) (Some c) (Suc 0) s3" "invoices s3 = [(x, ?i\<lparr>inv_status := InvOverdue\<rparr>)]"
    by (rule overdue_runs [OF s2(2), of x "?i\<lparr>inv_status := InvFinanced\<rparr>" 2000001]) (auto simp: s2(3))
  obtain i4 s4 where s4: "repayment_marks_defaulted (reg_env 2000001) x s3 = Inr (i4, s4)"
    "invoices s4 = [(x, ?i\<lparr>inv_status := InvDefaulted\<rparr>)]"
    by (rule defaulted_runs [OF s3(2), of x "?i\<lparr>inv_status := InvOverdue\<rparr>" 2000001]) (auto simp: s3(3))
  show ?thesis by (rule that [OF s1(1) s2(1) s3(1) s4(1), of "?i\<lparr>inv_status := InvDefaulted\<rparr>"]) (simp_all add: s4(2))
qed

lemma ins_config_runs:
  assumes "taking m n s" and "admcfg s = Some \<lparr>signers = [Address 9], threshold = 1\<rparr>"
  obtains s1 s2 where "set_payout_caller (ins_env now) (one_signer (Address 9)) c s = Inr s1"
    "insurance_set_registry (ins_env now) (one_signer (Address 9)) r s1 = Inr s2"
    "taking m n s2" "paycall s2 = Some c" "ins_registry s2 = Some r"
proof -
  have "\<exists>s1 s2. set_payout_caller (ins_env now) (one_signer (Address 9)) c s = Inr s1 \<and>
      insurance_set_registry (ins_env now) (one_signer (Address 9)) r s1 = Inr s2 \<and>
      taking m n s2 \<and> paycall s2 = Some c \<and> ins_registry s2 = Some r"
    using assms by (simp add: set_payout_caller_def insurance_set_registry_def assert_not_paused_def assert_admin_def
      load_admin_config_def one_signer_def assert_threshold_def is_signer_def require_auth_def taking_def)
  then show ?thesis using that by blast
qed

lemma payout_capped_passes:
  assumes "1000000 \<le> x" and "1000000 \<le> y" and "0 < extra" and "x * (x + y) < 2 ^ 127" and "x + y + extra < 2 ^ 127"
  shows "test_payout_never_exceeds_pool_balance x y extra = Inr ()"
proof -
  let ?x = "Symbol ''inv_pay''" and ?tok = "Address 50" and ?e = "ins_env 1000000"
  obtain r0 r1 r2 where r: "registry_constructor (Address 9) empty_registry = Inr r0"
    "set_financing_contract (reg_env 1000000) (one_signer (Address 9)) (Address 6) r0 = Inr r1"
    "set_repayment_contract (reg_env 1000000) (one_signer (Address 9)) (Address 6) r1 = Inr r2"
    "wired_up (Some (Address 6)) (Some (Address 6)) 0 r2" "invoices r2 = []" by (rule stub_registry_runs)
  obtain i0 where i0: "insurance_constructor (Address 9) ?tok empty_insurance = Inr i0" "taking [] 0 i0"
    "admcfg i0 = Some \<lparr>signers = [Address 9], threshold = 1\<rparr>" by (rule insurance_deployed)
  obtain i1 i2 where i2: "set_payout_caller ?e (one_signer (Address 9)) (Address 6) i0 = Inr i1"
    "insurance_set_registry ?e (one_signer (Address 9)) (Address 100) i1 = Inr i2" "taking [] 0 i2"
    "paycall i2 = Some (Address 6)" "ins_registry i2 = Some (Address 100)" by (rule ins_config_runs [OF i0(2,3)])
  obtain t1 t2 i3 t3 where a: "ledger_mint ?e ?tok (Address 207) x empty_ledger = Inr t1"
    "sac_approve ?tok (Address 207) (Address 103) x t1 = Inr t2" "stake ledger_token ?e (Address 207) x (i2, t2) = Inr (i3, t3)"
    "taking (sm_set [] (Address 207) x) (0 + x) i3" "covered (0 + x) t3" "paycall i3 = paycall i2" "ins_registry i3 = ins_registry i2"
    by (rule funded_stake [OF i2(3), of "Address 207" x empty_ledger]) (use assms covered_empty in simp_all)
  obtain t4 t5 i4 t6 where b: "ledger_mint ?e ?tok (Address 208) y t3 = Inr t4"
    "sac_approve ?tok (Address 208) (Address 103) y t4 = Inr t5" "stake ledger_token ?e (Address 208) y (i3, t5) = Inr (i4, t6)"
    "taking (sm_set (sm_set [] (Address 207) x) (Address 208) y) (0 + x + y) i4" "covered (0 + x + y) t6"
    "paycall i4 = paycall i3" "ins_registry i4 = ins_registry i3"
    by (rule funded_stake [OF a(4) _ _ _ _ a(5), of "Address 208" y]) (use assms in \<open>simp_all add: sm_get_or_def\<close>)
  obtain j1 r3 j2 r4 j3 r5 j4 r6 iv where d:
    "register_invoice (reg_env 1000000) ?x (Address 5) 10000000 (Symbol ''USD'') 2000000 r2 = Inr (j1, r3)"
    "financing_marks_invoice_financed (reg_env 1000000) ?x r3 = Inr (j2, r4)"
    "mark_invoice_overdue (reg_env 2000001) ?x r4 = Inr (j3, r5)"
    "repayment_marks_defaulted (reg_env 2000001) ?x r5 = Inr (j4, r6)"
    "map_of (invoices r6) ?x = Some iv" "inv_status iv = InvDefaulted" by (rule default_runs [OF r(4,5)])
  obtain i5 t7 where p: "pay_out ledger_token (ins_env 2000001) ?x (Address 209) (x + y + extra) r6 (i4, t6) = Inr (x + y, i5, t7)"
    "taking [] 0 i5"
    by (rule pay_out_all_runs [of x y i4 "Address 6" r6 ?x iv t6 "x + y + extra" 2000001 "Address 209"])
      (use assms a b d i2 in simp_all)
  show ?thesis using assms b(4) p(2)
    by (simp add: test_payout_never_exceeds_pool_balance_def Let_def r(1-3) i0(1) i2(1,2) a(1-3) b(1-3) d(1-4)
        taking_def get_pool_total_def add_i128_def chk_i128_def in_i128_def p(1) get_stake_def)
qed

subsection \<open>Every input passes\<close>

text \<open>
  C32. Every property test of the insurance pool passes on every generated input (the generators make at
  most four stakes of between \<open>10^6\<close> and \<open>10^9\<close>): for any number of stakes of at least \<open>10^6\<close> whose sum
  fits \<open>i128\<close>, after every stake the stakers' balances add up to the pool total and to the amounts
  staked; for one stake of at least \<open>10^6\<close> that fits \<open>i128\<close>, unstaking above the own balance is rejected
  and leaves it; and for two stakes \<open>x\<close> and \<open>y\<close> of at least \<open>10^6\<close> for which both the product
  \<open>x * (x + y)\<close> of the pro-rata step and the requested sum \<open>x + y + extra\<close> fit \<open>i128\<close>, a payout requested
  above the pool pays exactly the pool, after which the pool total and both stakes are zero.
\<close>

theorem insurance_property_tests_pass:
  assumes "\<forall>amount \<in> set amounts. 1000000 \<le> amount" and "sum_list amounts < 2 ^ 127"
    and "1000000 \<le> staked" and "staked < 2 ^ 127" and "0 < overshoot"
    and "1000000 \<le> x" and "1000000 \<le> y" and "0 < extra" and "x * (x + y) < 2 ^ 127" and "x + y + extra < 2 ^ 127"
  shows "test_stake_keeps_pool_and_balances_in_sync amounts = Inr () \<and>
    test_unstake_never_exceeds_own_balance staked overshoot = Inr () \<and>
    test_payout_never_exceeds_pool_balance x y extra = Inr ()"
  by (intro conjI stake_in_sync_passes unstake_bounded_passes payout_capped_passes assms)

lemma insurance_property_tests_pass_witness:
  "test_stake_keeps_pool_and_balances_in_sync [1000000, 3000000, 2000000] = Inr () \<and>
   test_unstake_never_exceeds_own_balance 1000000 1 = Inr () \<and>
   test_payout_never_exceeds_pool_balance 1000000 2000000 7 = Inr ()"
  using insurance_property_tests_pass [of "[1000000, 3000000, 2000000]" 1000000 1 1000000 2000000 7] by simp

end
