(* ===== verification/Financing_Tests.thy ===== *)
theory Financing_Tests
  imports Registry_Tests Negotiation
begin

text \<open>
  The property tests of \<open>financing/src/proptest.rs\<close>, one definition per test function, on a registry
  (\<open>Address 100\<close>) and a financing contract (\<open>Address 101\<close>) deployed by their constructors, with a
  funding token (\<open>Address 50\<close>) and a position token (\<open>Address 51\<close>) of the host. The theorem at the
  end covers every input of the generators.
\<close>

subsection \<open>Deployment\<close>

definition fin_env :: "nat \<Rightarrow> env" where
  "fin_env now = demo_env now (Address 101)"

definition deploy_market :: "error + ledger fworld" where
  "deploy_market =
     bindE (registry_constructor (Address 9) empty_registry) (\<lambda>reg.
     bindE (financing_constructor (Address 9) (Address 100) (Address 50) empty_financing) (\<lambda>fin.
     Inr \<lparr>w_registry = reg, w_financing = fin, w_token = empty_ledger\<rparr>))"

text \<open>Calls that concern one contract of the deployment.\<close>

definition on_registry :: "(registry \<Rightarrow> error + registry) \<Rightarrow> ('t, 'z) fworld_scheme \<Rightarrow>
     error + ('t, 'z) fworld_scheme" where
  "on_registry call w = bindE (call (w_registry w)) (\<lambda>r. Inr (w\<lparr>w_registry := r\<rparr>))"

definition on_financing :: "(financing \<Rightarrow> error + financing) \<Rightarrow> ('t, 'z) fworld_scheme \<Rightarrow>
     error + ('t, 'z) fworld_scheme" where
  "on_financing call w = bindE (call (w_financing w)) (\<lambda>f. Inr (w\<lparr>w_financing := f\<rparr>))"

definition on_token :: "('t \<Rightarrow> error + 't) \<Rightarrow> ('t, 'z) fworld_scheme \<Rightarrow>
     error + ('t, 'z) fworld_scheme" where
  "on_token call w = bindE (call (w_token w)) (\<lambda>t. Inr (w\<lparr>w_token := t\<rparr>))"

definition register_for :: "symbol \<Rightarrow> int \<Rightarrow> ('t, 'z) fworld_scheme \<Rightarrow>
     error + ('t, 'z) fworld_scheme" where
  "register_for x amount = on_registry (\<lambda>r.
     bindE (register_invoice (reg_env 1000000) x (Address 5) amount (Symbol ''USD'') 2000000 r) (\<lambda>(_, r). Inr r))"

definition fund ::
  "address \<Rightarrow> address \<Rightarrow> int \<Rightarrow> (ledger, 'z) fworld_scheme \<Rightarrow> error + (ledger, 'z) fworld_scheme" where
  "fund lender spender amount = on_token (\<lambda>t.
     bindE (ledger_mint (fin_env 1000000) (Address 50) lender amount t) (\<lambda>t.
     sac_approve (Address 50) lender spender amount t))"

subsection \<open>The tests\<close>

definition test_create_offer_invariants :: "int \<Rightarrow> nat \<Rightarrow> nat \<Rightarrow> error + unit" where
  "test_create_offer_invariants amount interest_rate duration =
     (let e = fin_env 1000000; lender = Address 3; x = Symbol ''inv_pt''; y = Symbol ''off_pt'' in
     bindE deploy_market (\<lambda>w.
     bindE (register_for x amount w) (\<lambda>w.
     bindE (create_offer e y x lender amount (Symbol ''USD'') interest_rate duration 0 w) (\<lambda>(offer, w).
     bindE (prop_assert (off_interest_rate offer = interest_rate)) (\<lambda>_.
     bindE (prop_assert (off_amount offer = amount)) (\<lambda>_.
     bindE (prop_assert (off_duration offer = duration)) (\<lambda>_.
     bindE (prop_assert (total_offers (fin_get_stats (w_financing w)) = 1)) (\<lambda>_.
     let lender_stats = get_lender_stats lender (w_financing w) in
     bindE (prop_assert (total_offered lender_stats = amount)) (\<lambda>_.
     prop_assert (offers_pending lender_stats = 1))))))))))"

definition test_offer_amount_bounds :: "int \<Rightarrow> int \<Rightarrow> error + unit" where
  "test_offer_amount_bounds invoice_amount overshoot =
     (let e = fin_env 1000000; lender = Address 3; x = Symbol ''inv_bd'' in
     bindE deploy_market (\<lambda>w.
     bindE (register_for x invoice_amount w) (\<lambda>w.
     bindE (add_i128 invoice_amount overshoot) (\<lambda>over.
     let result = create_offer e (Symbol ''off_over'') x lender over (Symbol ''USD'') 500 604800 0 w in
     bindE (prop_assert (rejected result)) (\<lambda>_.
     bindE (create_offer e (Symbol ''off_ok'') x lender invoice_amount (Symbol ''USD'') 500 604800 0 w) (\<lambda>(offer, w).
     prop_assert (off_amount offer = invoice_amount)))))))"

definition test_at_most_one_accepted_offer_per_invoice :: "int \<Rightarrow> error + unit" where
  "test_at_most_one_accepted_offer_per_invoice amount =
     (let e = fin_env 1000000; originator = Address 5; lender_a = Address 3; lender_b = Address 4;
          financing_id = Address 101; x = Symbol ''inv_ex'' in
     bindE deploy_market (\<lambda>w.
     bindE (on_registry (set_financing_contract (reg_env 1000000) (one_signer (Address 9)) financing_id) w) (\<lambda>w.
     bindE (register_for x amount w) (\<lambda>w.
     bindE (div_i128 amount 2) (\<lambda>half.
     bindE (create_offer e (Symbol ''off_a'') x lender_a half (Symbol ''USD'') 500 604800 0 w) (\<lambda>(_, w).
     bindE (create_offer e (Symbol ''off_b'') x lender_b half (Symbol ''USD'') 500 604800 0 w) (\<lambda>(_, w).
     bindE (fund lender_a financing_id half w) (\<lambda>w.
     bindE (accept_offer ledger_token e (Symbol ''off_a'') originator w) (\<lambda>(_, w).
     prop_assert (rejected (accept_offer ledger_token e (Symbol ''off_b'') originator w)))))))))))"

text \<open>The body of the loop of the position-token test; the ids carry the position in decimal.\<close>

definition position_body :: "nat \<times> int \<Rightarrow> ledger fworld \<times> int \<Rightarrow> error + ledger fworld \<times> int" where
  "position_body = (\<lambda>(i, amount) (w, expected_total).
     let e = fin_env 1000000; originator = Address 5; lender = Address 3; financing_id = Address 101;
         inv_id = Symbol (''inv'' @ show_nat i); off_id = Symbol (''off'' @ show_nat i) in
     bindE (register_for inv_id amount w) (\<lambda>w.
     bindE (create_offer e off_id inv_id lender amount (Symbol ''USD'') 500 604800 0 w) (\<lambda>(_, w).
     bindE (fund lender financing_id amount w) (\<lambda>w.
     bindE (accept_offer ledger_token e off_id originator w) (\<lambda>(_, w).
     bindE (add_i128 expected_total amount) (\<lambda>expected_total.
     Inr (w, expected_total)))))))"

definition test_position_tokens_equal_total_financed :: "int list \<Rightarrow> error + unit" where
  "test_position_tokens_equal_total_financed amounts =
     bindE deploy_market (\<lambda>w.
     bindE (on_registry (set_financing_contract (reg_env 1000000) (one_signer (Address 9)) (Address 101)) w) (\<lambda>w.
     bindE (on_financing (set_position_token (fin_env 1000000) (one_signer (Address 9)) (Address 51)) w) (\<lambda>w.
     bindE (foldE position_body (enumerate 0 amounts) (w, 0)) (\<lambda>(w, expected_total).
     bindE (prop_assert (total_financed (fin_get_stats (w_financing w)) = expected_total)) (\<lambda>_.
     prop_assert (tk_balance ledger_token (Address 51) (Address 3) (w_token w) = expected_total))))))"

definition test_withdraw_and_reject_do_not_mint :: "int \<Rightarrow> error + unit" where
  "test_withdraw_and_reject_do_not_mint amount =
     (let e = fin_env 1000000; lender = Address 3; x = Symbol ''inv_wd''; y = Symbol ''off_wd'' in
     bindE deploy_market (\<lambda>w.
     bindE (on_financing (set_position_token e (one_signer (Address 9)) (Address 51)) w) (\<lambda>w.
     bindE (register_for x amount w) (\<lambda>w.
     bindE (create_offer e y x lender amount (Symbol ''USD'') 500 604800 0 w) (\<lambda>(_, w).
     bindE (withdraw_offer e y lender w) (\<lambda>(_, w).
     bindE (prop_assert (tk_balance ledger_token (Address 51) lender (w_token w) = 0)) (\<lambda>_.
     prop_assert (total_financed (fin_get_stats (w_financing w)) = 0))))))))"

definition test_interest_rate_cap_enforced_on_all_paths :: "nat \<Rightarrow> int \<Rightarrow> nat \<Rightarrow> error + unit" where
  "test_interest_rate_cap_enforced_on_all_paths valid_rate amount duration =
     (let e = fin_env 1000000; originator = Address 5; lender = Address 3; x = Symbol ''inv_rc'';
          y = Symbol ''off_amd''; over_rate = MAX_INTEREST_BPS + 1 in
     bindE deploy_market (\<lambda>w.
     bindE (register_for x (max amount 10000000) w) (\<lambda>w.
     bindE (create_offer e (Symbol ''off_rc'') x lender amount (Symbol ''USD'') valid_rate duration 0 w) (\<lambda>(offer, w).
     bindE (prop_assert (off_interest_rate offer = valid_rate)) (\<lambda>_.
     bindE (prop_assert (rejected
       (create_offer e (Symbol ''off_over'') x lender amount (Symbol ''USD'') over_rate duration 0 w))) (\<lambda>_.
     bindE (create_offer e y x lender amount (Symbol ''USD'') valid_rate duration 0 w) (\<lambda>(_, w).
     bindE (prop_assert (rejected (amend_offer ledger_token e y lender 0 amount over_rate duration w))) (\<lambda>_.
     bindE (prop_assert (rejected (counter_offer ledger_token e y originator 0 amount over_rate duration w))) (\<lambda>_.
     foldE (\<lambda>stored_offer _. prop_assert (off_interest_rate stored_offer \<le> MAX_INTEREST_BPS))
       (get_all_offers (w_financing w)) ())))))))))"


subsection \<open>What the calls do to the test's deployment\<close>

text \<open>
  \<open>market fa ra pos n w\<close>: both contracts run and know each other, the registry trusts \<open>fa\<close> and \<open>ra\<close>
  and has \<open>n\<close> registrations, \<open>pos\<close> is the position token, nobody has negotiated.
\<close>

definition market :: "address option \<Rightarrow> address option \<Rightarrow> address option \<Rightarrow> nat \<Rightarrow> ('t, 'z) fworld_scheme \<Rightarrow> bool" where
  "market fa ra pos n w \<longleftrightarrow> wired_up fa ra n (w_registry w) \<and> \<not> paused (w_financing w) \<and>
     registry_ref (w_financing w) = Some (Address 100) \<and> default_token (w_financing w) = Some (Address 50) \<and>
     curtok (w_financing w) = Map.empty \<and> postok (w_financing w) = pos \<and>
     negot (w_financing w) = Map.empty \<and> negend (w_financing w) = Map.empty"

lemma fin_env_sel [simp]: "ledger_timestamp (fin_env t) = t" "authorizes (fin_env t) a"
  "current_contract (fin_env t) = Address 101" "deployed_at (fin_env t) RegistryC = Address 100"
  by (simp_all add: fin_env_def)

lemma fin_env_call [simp]: "authorizes (fin_env t\<lparr>current_contract := c, invoker := i\<rparr>) a"
  by (simp add: fin_env_def demo_env_def authorizes_def)

lemma load_fin_saved [simp]:
  "fin_load_stats (fstats_update (\<lambda>_. Some st) f) = st" "fin_load_stats (lstats_update g f) = fin_load_stats f"
  "fin_load_stats (offers_update h f) = fin_load_stats f" "fin_load_stats (publish ev f) = fin_load_stats f"
  "load_lender_stats l (fstats_update k f) = load_lender_stats l f"
  "load_lender_stats l' (lstats_update (\<lambda>_. m(l \<mapsto> ls)) f) =
     (if l' = l then ls else load_lender_stats l' (lstats_update (\<lambda>_. m) f))"
  "load_lender_stats l (offers_update h f) = load_lender_stats l f" "load_lender_stats l (publish ev f) = load_lender_stats l f"
  "load_lender_stats l (lstats_update (\<lambda>_. lstats f) f2) = load_lender_stats l f"
  by (simp_all add: fin_load_stats_def load_lender_stats_def publish_def)

definition new_offer :: "symbol \<Rightarrow> symbol \<Rightarrow> address \<Rightarrow> int \<Rightarrow> nat \<Rightarrow> nat \<Rightarrow> financing_offer" where
  "new_offer y x lender amount rate dur = \<lparr>off_id = y, off_invoice_id = x, off_lender = lender, off_amount = amount,
     off_currency = Symbol ''USD'', off_interest_rate = rate, off_duration = dur, off_expires_at = 0,
     off_status = OffPending, off_funded_at = 0, off_amount_repaid = 0\<rparr>"

lemma new_offer_sel [simp]:
  "off_id (new_offer y x l a r d) = y" "off_invoice_id (new_offer y x l a r d) = x" "off_lender (new_offer y x l a r d) = l"
  "off_amount (new_offer y x l a r d) = a" "off_currency (new_offer y x l a r d) = Symbol ''USD''"
  "off_interest_rate (new_offer y x l a r d) = r" "off_duration (new_offer y x l a r d) = d"
  "off_expires_at (new_offer y x l a r d) = 0" "off_status (new_offer y x l a r d) = OffPending"
  by (simp_all add: new_offer_def)

lemma deploy_market_runs:
  obtains w where "deploy_market = Inr w" "market None None None 0 w" "invoices (w_registry w) = []"
    "offers (w_financing w) = []" "fin_load_stats (w_financing w) = \<lparr>total_invoices = 0, total_offers = 0,
      total_financed = 0, total_repaid = 0, total_fee_revenue = 0\<rparr>"
    "\<And>l. load_lender_stats l (w_financing w) = load_lender_stats l empty_financing" "w_token w = empty_ledger"
    "admcfg (w_registry w) = Some \<lparr>signers = [Address 9], threshold = 1\<rparr>"
    "admcfg (w_financing w) = Some \<lparr>signers = [Address 9], threshold = 1\<rparr>"
proof -
  have "\<exists>w. deploy_market = Inr w \<and> market None None None 0 w \<and> invoices (w_registry w) = [] \<and>
    offers (w_financing w) = [] \<and> fin_load_stats (w_financing w) = \<lparr>total_invoices = 0, total_offers = 0,
      total_financed = 0, total_repaid = 0, total_fee_revenue = 0\<rparr> \<and>
    (\<forall>l. load_lender_stats l (w_financing w) = load_lender_stats l empty_financing) \<and> w_token w = empty_ledger \<and>
    admcfg (w_registry w) = Some \<lparr>signers = [Address 9], threshold = 1\<rparr> \<and>
    admcfg (w_financing w) = Some \<lparr>signers = [Address 9], threshold = 1\<rparr>"
    by (simp add: deploy_market_def registry_constructor_def financing_constructor_def init_admin_config_def
        initialize_contract_version_def parse_cargo_version publish_def save_admin_config_def market_def wired_up_def
        load_stats_def fin_load_stats_def load_lender_stats_def empty_financing_def)
  then show ?thesis using that by blast
qed

lemma trust_financing_runs:
  assumes "market None ra pos n w" and "admcfg (w_registry w) = Some \<lparr>signers = [Address 9], threshold = 1\<rparr>"
  obtains w' where "on_registry (set_financing_contract (reg_env 1000000) (one_signer (Address 9)) (Address 101)) w = Inr w'"
    "market (Some (Address 101)) ra pos n w'" "w_financing w' = w_financing w" "w_token w' = w_token w"
    "invoices (w_registry w') = invoices (w_registry w)"
    "admcfg (w_registry w') = admcfg (w_registry w)"
proof -
  have "\<exists>w'. on_registry (set_financing_contract (reg_env 1000000) (one_signer (Address 9)) (Address 101)) w = Inr w' \<and>
    market (Some (Address 101)) ra pos n w' \<and> w_financing w' = w_financing w \<and> w_token w' = w_token w \<and>
    invoices (w_registry w') = invoices (w_registry w) \<and> admcfg (w_registry w') = admcfg (w_registry w)"
    using assms by (simp add: on_registry_def set_financing_contract_def assert_not_paused_def assert_admin_def
      load_admin_config_def one_signer_def assert_threshold_def is_signer_def require_auth_def market_def wired_up_def load_stats_def)
  then show ?thesis using that by blast
qed

lemma position_token_runs:
  assumes "market fa ra None n w" and "admcfg (w_financing w) = Some \<lparr>signers = [Address 9], threshold = 1\<rparr>"
  obtains w' where "on_financing (set_position_token (fin_env 1000000) (one_signer (Address 9)) (Address 51)) w = Inr w'"
    "market fa ra (Some (Address 51)) n w'" "w_registry w' = w_registry w" "w_token w' = w_token w"
    "offers (w_financing w') = offers (w_financing w)" "fin_load_stats (w_financing w') = fin_load_stats (w_financing w)"
    "\<And>l. load_lender_stats l (w_financing w') = load_lender_stats l (w_financing w)"
proof -
  have "\<exists>w'. on_financing (set_position_token (fin_env 1000000) (one_signer (Address 9)) (Address 51)) w = Inr w' \<and>
    market fa ra (Some (Address 51)) n w' \<and> w_registry w' = w_registry w \<and> w_token w' = w_token w \<and>
    offers (w_financing w') = offers (w_financing w) \<and> fin_load_stats (w_financing w') = fin_load_stats (w_financing w) \<and>
    (\<forall>l. load_lender_stats l (w_financing w') = load_lender_stats l (w_financing w))"
    using assms by (simp add: on_financing_def set_position_token_def assert_not_paused_def assert_admin_def
      load_admin_config_def one_signer_def assert_threshold_def is_signer_def require_auth_def market_def
      fin_load_stats_def load_lender_stats_def)
  then show ?thesis using that by blast
qed

lemma register_for_runs:
  assumes "market fa ra pos n w" and "n < 2 ^ 32 - 1" and "10000000 \<le> amount" and "\<not> sm_has (invoices (w_registry w)) x"
  obtains w' where "register_for x amount w = Inr w'" "market fa ra pos (Suc n) w'" "w_financing w' = w_financing w"
    "w_token w' = w_token w" "invoices (w_registry w') = sm_set (invoices (w_registry w)) x (pt_invoice x amount 2000000)"
    "fworld.more w' = fworld.more w"
proof -
  have "wired_up fa ra n (w_registry w)" using assms(1) by (simp add: market_def)
  then obtain r where "register_invoice (reg_env 1000000) x (Address 5) amount (Symbol ''USD'') 2000000 (w_registry w) =
      Inr (pt_invoice x amount 2000000, r)" "wired_up fa ra (Suc n) r"
    "invoices r = sm_set (invoices (w_registry w)) x (pt_invoice x amount 2000000)"
    by (rule register_runs [OF _ assms(2,3) _ assms(4), of fa ra 1000000 2000000]) simp
  then show ?thesis using assms(1)
    by (intro that [of "w\<lparr>w_registry := r\<rparr>"]) (simp_all add: register_for_def on_registry_def market_def)
qed

lemma create_runs:
  assumes "market fa ra pos n w" and "map_of (invoices (w_registry w)) x = Some i" and "inv_status i = InvPending"
    and "inv_originator i = Address 5" and "lender \<noteq> Address 5" and "0 < amount" and "amount \<le> inv_amount i"
    and "0 < rate" and "rate \<le> 10000" and "86400 \<le> dur" and "dur \<le> 31536000"
    and "\<not> sm_has (offers (w_financing w)) y" and "total_offers (fin_load_stats (w_financing w)) < 2 ^ 32 - 1"
    and "offers_pending (load_lender_stats lender (w_financing w)) < 2 ^ 32 - 1"
    and "in_i128 (total_offered (load_lender_stats lender (w_financing w)) + amount)"
  obtains w' where "create_offer (fin_env now) y x lender amount (Symbol ''USD'') rate dur 0 w = Inr (new_offer y x lender amount rate dur, w')"
    "market fa ra pos n w'" "w_registry w' = w_registry w" "w_token w' = w_token w"
    "offers (w_financing w') = sm_set (offers (w_financing w)) y (new_offer y x lender amount rate dur)"
    "fin_load_stats (w_financing w') = (fin_load_stats (w_financing w))
       \<lparr>total_offers := Suc (total_offers (fin_load_stats (w_financing w)))\<rparr>"
    "\<And>l. load_lender_stats l (w_financing w') = (if l = lender then (load_lender_stats lender (w_financing w))
       \<lparr>total_offered := total_offered (load_lender_stats lender (w_financing w)) + amount,
        offers_pending := Suc (offers_pending (load_lender_stats lender (w_financing w)))\<rparr>
      else load_lender_stats l (w_financing w))"
    "fin_repayment (w_financing w') = fin_repayment (w_financing w)" "fin_feebps (w_financing w') = fin_feebps (w_financing w)"
    "fworld.more w' = fworld.more w"
proof -
  have "\<exists>w'. create_offer (fin_env now) y x lender amount (Symbol ''USD'') rate dur 0 w = Inr (new_offer y x lender amount rate dur, w') \<and>
    market fa ra pos n w' \<and> w_registry w' = w_registry w \<and> w_token w' = w_token w \<and>
    offers (w_financing w') = sm_set (offers (w_financing w)) y (new_offer y x lender amount rate dur) \<and>
    fin_load_stats (w_financing w') = (fin_load_stats (w_financing w))
       \<lparr>total_offers := Suc (total_offers (fin_load_stats (w_financing w)))\<rparr> \<and>
    (\<forall>l. load_lender_stats l (w_financing w') = (if l = lender then (load_lender_stats lender (w_financing w))
       \<lparr>total_offered := total_offered (load_lender_stats lender (w_financing w)) + amount,
        offers_pending := Suc (offers_pending (load_lender_stats lender (w_financing w)))\<rparr>
      else load_lender_stats l (w_financing w))) \<and>
    fin_repayment (w_financing w') = fin_repayment (w_financing w) \<and> fin_feebps (w_financing w') = fin_feebps (w_financing w) \<and>
    fworld.more w' = fworld.more w"
    using assms by (simp add: create_offer_def Let_def assert_not_paused_def require_auth_def fin_assert_not_blacklisted_def
        registry_env_def callee_def is_blacklisted_def read_invoice_def get_invoice_def add_u32_def add_i128_def chk_i128_def
        market_def wired_up_def new_offer_def)
  then show ?thesis using that by blast
qed


definition accepted :: "nat \<Rightarrow> financing_offer \<Rightarrow> financing_offer" where
  "accepted now o0 = o0\<lparr>off_status := OffAccepted, off_funded_at := now\<rparr>"

text \<open>What the token does when an offer is accepted: the funding moves, and the position is minted.\<close>

definition settled_balances :: "address option \<Rightarrow> address \<Rightarrow> int \<Rightarrow> ledger \<Rightarrow> address \<Rightarrow> address \<Rightarrow> int" where
  "settled_balances pos lender amount t =
     (let b = (balances t)(Address 50 := moved (balances t (Address 50)) lender (Address 5) amount)
      in case pos of None \<Rightarrow> b | Some p \<Rightarrow> b(p := (b p)(lender := b p lender + amount)))"

lemma accept_runs:
  assumes m: "market (Some (Address 101)) ra pos n w" and o0: "map_of (offers (w_financing w)) y = Some o0"
      "off_status o0 = OffPending" "off_expires_at o0 = 0" "0 \<le> off_amount o0"
    and i: "map_of (invoices (w_registry w)) (off_invoice_id o0) = Some i" "inv_status i = InvPending"
      "inv_originator i = Address 5"
    and t: "off_amount o0 \<le> balances (w_token w) (Address 50) (off_lender o0)"
      "off_amount o0 \<le> allowances (w_token w) (Address 50) (off_lender o0) (Address 101)"
    and n: "in_i128 (total_financed (fin_load_stats (w_financing w)) + off_amount o0)"
      "in_i128 (total_accepted (load_lender_stats (off_lender o0) (w_financing w)) + off_amount o0)"
  obtains o1 w' where "accept_offer ledger_token (fin_env now) y (Address 5) w = Inr (o1, w')"
    "market (Some (Address 101)) ra pos n w'"
    "invoices (w_registry w') = sm_set (invoices (w_registry w)) (off_invoice_id o0) (i\<lparr>inv_status := InvFinanced\<rparr>)"
    "offers (w_financing w') = sm_set (offers (w_financing w)) y (accepted now o0)"
    "fin_load_stats (w_financing w') = (fin_load_stats (w_financing w))
       \<lparr>total_financed := total_financed (fin_load_stats (w_financing w)) + off_amount o0\<rparr>"
    "\<And>l. load_lender_stats l (w_financing w') = (if l = off_lender o0 then (load_lender_stats l (w_financing w))
       \<lparr>total_accepted := total_accepted (load_lender_stats l (w_financing w)) + off_amount o0\<rparr>
      else load_lender_stats l (w_financing w))"
    "balances (w_token w') = settled_balances pos (off_lender o0) (off_amount o0) (w_token w)"
    "fin_repayment (w_financing w') = fin_repayment (w_financing w)" "fin_feebps (w_financing w') = fin_feebps (w_financing w)"
    "fworld.more w' = fworld.more w"
proof -
  let ?e = "fin_env now\<lparr>current_contract := Address 100, invoker := Some (Address 101)\<rparr>"
  have reg: "wired_up (Some (Address 101)) ra n (w_registry w)" "valid_edge (inv_status i) InvFinanced"
    using m i(2) by (simp_all add: market_def)
  obtain i' r where r: "financing_marks_invoice_financed ?e (off_invoice_id o0) (w_registry w) = Inr (i', r)"
    "wired_up (Some (Address 101)) ra n r"
    "invoices r = sm_set (invoices (w_registry w)) (off_invoice_id o0) (i\<lparr>inv_status := InvFinanced\<rparr>)"
    by (rule financed_by [OF reg(1) i(1) reg(2) fin_env_call])
  have "\<exists>w'. accept_offer ledger_token (fin_env now) y (Address 5) w = Inr (accepted now o0, w') \<and>
      w_registry w' = r \<and> market (Some (Address 101)) ra pos n w' \<and>
    offers (w_financing w') = sm_set (offers (w_financing w)) y (accepted now o0) \<and>
    fin_load_stats (w_financing w') = (fin_load_stats (w_financing w))
       \<lparr>total_financed := total_financed (fin_load_stats (w_financing w)) + off_amount o0\<rparr> \<and>
    (\<forall>l. load_lender_stats l (w_financing w') = (if l = off_lender o0 then (load_lender_stats l (w_financing w))
       \<lparr>total_accepted := total_accepted (load_lender_stats l (w_financing w)) + off_amount o0\<rparr>
      else load_lender_stats l (w_financing w))) \<and>
    balances (w_token w') = settled_balances pos (off_lender o0) (off_amount o0) (w_token w) \<and>
    fin_repayment (w_financing w') = fin_repayment (w_financing w) \<and> fin_feebps (w_financing w') = fin_feebps (w_financing w) \<and>
    fworld.more w' = fworld.more w"
    using m o0 i t n r(1,2)
    by (cases pos) (simp_all add: accept_offer_def settle_acceptance_def Let_def assert_not_paused_def require_auth_def
        get_offer_def offer_expired_def read_invoice_def registry_env_def callee_def get_invoice_def
        resolve_token_def get_currency_token_def load_currency_registry_def close_negotiation_on_settlement_def
        load_negotiation_def ledger_transfer_from_def mint_position_def ledger_mint_def add_i128_def chk_i128_def
        market_def accepted_def settled_balances_def)
  with r(3) that show ?thesis by metis
qed


lemma fund_runs:
  assumes "solvent (w_token w)" and "0 \<le> amt"
  obtains w' where "fund lender spender amt w = Inr w'" "w_registry w' = w_registry w" "w_financing w' = w_financing w"
    "amt \<le> balances (w_token w') (Address 50) lender" "allowances (w_token w') (Address 50) lender spender = amt"
    "balances (w_token w') = (balances (w_token w))(Address 50 :=
       (balances (w_token w) (Address 50))(lender := balances (w_token w) (Address 50) lender + amt))"
    "solvent (w_token w')" "fworld.more w' = fworld.more w"
proof -
  obtain t1 t2 where t: "ledger_mint (fin_env 1000000) (Address 50) lender amt (w_token w) = Inr t1"
    "sac_approve (Address 50) lender spender amt t1 = Inr t2" "amt \<le> balances t2 (Address 50) lender"
    "allowances t2 (Address 50) lender spender = amt" "balances t2 = (balances (w_token w))(Address 50 :=
       (balances (w_token w) (Address 50))(lender := balances (w_token w) (Address 50) lender + amt))"
    by (rule mint_approve [OF assms(2) solventD [OF assms(1)]])
  show ?thesis
    by (rule that [of "w\<lparr>w_token := t2\<rparr>"])
      (use t solvent_mint [OF assms t(5)] in \<open>simp_all add: fund_def on_token_def\<close>)
qed

text \<open>Nothing offered yet.\<close>

definition no_offers :: "('t, 'z) fworld_scheme \<Rightarrow> bool" where
  "no_offers w \<longleftrightarrow> offers (w_financing w) = [] \<and> total_offers (fin_load_stats (w_financing w)) = 0 \<and>
     total_financed (fin_load_stats (w_financing w)) = 0 \<and> total_repaid (fin_load_stats (w_financing w)) = 0 \<and>
     (\<forall>l. total_offered (load_lender_stats l (w_financing w)) = 0 \<and>
       total_accepted (load_lender_stats l (w_financing w)) = 0 \<and> offers_pending (load_lender_stats l (w_financing w)) = 0)"

lemma deployed:
  obtains w where "deploy_market = Inr w" "market None None None 0 w" "invoices (w_registry w) = []" "no_offers w"
    "w_token w = empty_ledger" "admcfg (w_registry w) = Some \<lparr>signers = [Address 9], threshold = 1\<rparr>"
    "admcfg (w_financing w) = Some \<lparr>signers = [Address 9], threshold = 1\<rparr>"
proof -
  have "total_offered (load_lender_stats l empty_financing) = 0 \<and> total_accepted (load_lender_stats l empty_financing) = 0 \<and>
      offers_pending (load_lender_stats l empty_financing) = 0" for l
    by (simp add: load_lender_stats_def empty_financing_def)
  then show ?thesis using that by (rule_tac deploy_market_runs) (auto simp: no_offers_def)
qed

lemma listed:
  assumes "10000000 \<le> amount"
  obtains w0 w where "deploy_market = Inr w0" "register_for x amount w0 = Inr w" "market None None None 1 w"
    "invoices (w_registry w) = [(x, pt_invoice x amount 2000000)]" "no_offers w" "w_token w = empty_ledger"
proof -
  obtain w0 where w0: "deploy_market = Inr w0" "market None None None 0 w0" "invoices (w_registry w0) = []" "no_offers w0"
    "w_token w0 = empty_ledger" by (rule deployed)
  obtain w where "register_for x amount w0 = Inr w" "market None None None (Suc 0) w" "w_financing w = w_financing w0"
    "w_token w = w_token w0" "invoices (w_registry w) = sm_set (invoices (w_registry w0)) x (pt_invoice x amount 2000000)"
    by (rule register_for_runs [OF w0(2) _ assms, of x]) (simp_all add: w0(3) sm_has_def)
  with w0 show ?thesis using that by (simp add: no_offers_def)
qed

text \<open>The first offer on a listed invoice.\<close>

lemma first_offer:
  assumes "market fa ra pos n w" and "invoices (w_registry w) = [(x, pt_invoice x cap 2000000)]" and "no_offers w"
    and "lender \<noteq> Address 5" and "0 < amount" and "amount \<le> cap" and "cap < 2 ^ 127"
    and "0 < rate" and "rate \<le> 10000" and "86400 \<le> dur" and "dur \<le> 31536000"
  obtains w' where "create_offer (fin_env now) y x lender amount (Symbol ''USD'') rate dur 0 w = Inr (new_offer y x lender amount rate dur, w')"
    "market fa ra pos n w'" "w_registry w' = w_registry w" "w_token w' = w_token w"
    "offers (w_financing w') = [(y, new_offer y x lender amount rate dur)]"
    "total_offers (fin_load_stats (w_financing w')) = 1" "total_financed (fin_load_stats (w_financing w')) = 0"
    "\<And>l. total_offered (load_lender_stats l (w_financing w')) = (if l = lender then amount else 0)"
    "\<And>l. offers_pending (load_lender_stats l (w_financing w')) = (if l = lender then 1 else 0)"
    "\<And>l. total_accepted (load_lender_stats l (w_financing w')) = 0"
    "fin_repayment (w_financing w') = fin_repayment (w_financing w)" "fin_feebps (w_financing w') = fin_feebps (w_financing w)"
    "fworld.more w' = fworld.more w"
  by (rule create_runs [OF assms(1), of x "pt_invoice x cap 2000000" lender amount rate dur y now], insert assms)
    (auto simp: no_offers_def sm_has_def in_i128_def intro!: that)


subsection \<open>Each test passes\<close>

lemma create_invariants_passes:
  assumes "10000000 \<le> amount" and "amount < 2 ^ 127" and "1 \<le> rate" and "rate \<le> 10000"
    and "86400 \<le> dur" and "dur \<le> 31536000"
  shows "test_create_offer_invariants amount rate dur = Inr ()"
proof -
  let ?x = "Symbol ''inv_pt''" and ?y = "Symbol ''off_pt''"
  obtain w0 w where w: "deploy_market = Inr w0" "register_for ?x amount w0 = Inr w" "market None None None 1 w"
    "invoices (w_registry w) = [(?x, pt_invoice ?x amount 2000000)]" "no_offers w" "w_token w = empty_ledger"
    by (rule listed [OF assms(1)])
  obtain w' where w': "create_offer (fin_env 1000000) ?y ?x (Address 3) amount (Symbol ''USD'') rate dur 0 w =
      Inr (new_offer ?y ?x (Address 3) amount rate dur, w')" "total_offers (fin_load_stats (w_financing w')) = 1"
    "total_offered (load_lender_stats (Address 3) (w_financing w')) = amount"
    "offers_pending (load_lender_stats (Address 3) (w_financing w')) = 1"
    by (rule first_offer [OF w(3-5), of "Address 3" amount rate dur 1000000 ?y]) (use assms in auto)
  then show ?thesis
    by (simp add: test_create_offer_invariants_def Let_def w(1,2) fin_get_stats_def get_lender_stats_def)
qed

lemma amount_bounds_passes:
  assumes "10000000 \<le> amount" and "0 < overshoot" and "amount + overshoot < 2 ^ 127"
  shows "test_offer_amount_bounds amount overshoot = Inr ()"
proof -
  let ?x = "Symbol ''inv_bd''"
  obtain w0 w where w: "deploy_market = Inr w0" "register_for ?x amount w0 = Inr w" "market None None None 1 w"
    "invoices (w_registry w) = [(?x, pt_invoice ?x amount 2000000)]" "no_offers w" "w_token w = empty_ledger"
    by (rule listed [OF assms(1)])
  obtain w' where w': "create_offer (fin_env 1000000) (Symbol ''off_ok'') ?x (Address 3) amount (Symbol ''USD'') 500 604800 0 w =
      Inr (new_offer (Symbol ''off_ok'') ?x (Address 3) amount 500 604800, w')"
    by (rule first_offer [OF w(3-5), of "Address 3" amount 500 604800 1000000 "Symbol ''off_ok''"]) (use assms in auto)
  have "rejected (create_offer (fin_env 1000000) (Symbol ''off_over'') ?x (Address 3) (amount + overshoot) (Symbol ''USD'') 500 604800 0 w)"
    using assms(2) by (auto simp: rejected_iff create_offer_def ok Let_def w(4))
  with w' show ?thesis using assms
    by (simp add: test_offer_amount_bounds_def Let_def w(1,2) add_i128_def chk_i128_def in_i128_def)
qed

lemma cap_enforced_passes:
  assumes "1 \<le> rate" and "rate \<le> 10000" and "10000000 \<le> amount" and "amount < 2 ^ 126" and "86400 \<le> dur" and "dur \<le> 31536000"
  shows "test_interest_rate_cap_enforced_on_all_paths rate amount dur = Inr ()"
proof -
  let ?x = "Symbol ''inv_rc''" and ?y1 = "Symbol ''off_rc''" and ?y2 = "Symbol ''off_amd''" and ?e = "fin_env 1000000"
  obtain w0 w where w: "deploy_market = Inr w0" "register_for ?x amount w0 = Inr w" "market None None None 1 w"
    "invoices (w_registry w) = [(?x, pt_invoice ?x amount 2000000)]" "no_offers w" "w_token w = empty_ledger"
    by (rule listed [OF assms(3)])
  obtain w1 where w1: "create_offer ?e ?y1 ?x (Address 3) amount (Symbol ''USD'') rate dur 0 w =
      Inr (new_offer ?y1 ?x (Address 3) amount rate dur, w1)" "market None None None 1 w1" "w_registry w1 = w_registry w"
    "offers (w_financing w1) = [(?y1, new_offer ?y1 ?x (Address 3) amount rate dur)]"
    "total_offers (fin_load_stats (w_financing w1)) = 1"
    "\<And>l. total_offered (load_lender_stats l (w_financing w1)) = (if l = Address 3 then amount else 0)"
    "\<And>l. offers_pending (load_lender_stats l (w_financing w1)) = (if l = Address 3 then 1 else 0)"
    by (rule first_offer [OF w(3-5), of "Address 3" amount rate dur 1000000 ?y1]) (use assms in auto)
  obtain w2 where w2: "create_offer ?e ?y2 ?x (Address 3) amount (Symbol ''USD'') rate dur 0 w1 =
      Inr (new_offer ?y2 ?x (Address 3) amount rate dur, w2)"
    "offers (w_financing w2) = sm_set (offers (w_financing w1)) ?y2 (new_offer ?y2 ?x (Address 3) amount rate dur)"
    by (rule create_runs [OF w1(2), of ?x "pt_invoice ?x amount 2000000" "Address 3" amount rate dur ?y2 1000000])
      (use assms in \<open>auto simp: w1(3-7) w(4) sm_has_def in_i128_def\<close>)
  have over: "rejected (create_offer ?e (Symbol ''off_over'') ?x (Address 3) amount (Symbol ''USD'') (Suc 10000) dur 0 w1)"
    "rejected (amend_offer ledger_token ?e ?y2 (Address 3) 0 amount (Suc 10000) dur w2)"
    "rejected (counter_offer ledger_token ?e ?y2 (Address 5) 0 amount (Suc 10000) dur w2)"
    by (auto simp: rejected_iff create_offer_def amend_offer_def counter_offer_def ok Let_def terms_valid_def)
  have "\<forall>o1 \<in> set (get_all_offers (w_financing w2)). off_interest_rate o1 \<le> MAX_INTEREST_BPS"
    using assms(2) by (simp add: get_all_offers_def collect_offers_def w2(2) w1(4) sm_values_def)
  note foldE_assert [OF this]
  moreover have "max amount 10000000 = amount" using assms(3) by simp
  ultimately show ?thesis
    using over by (simp add: test_interest_rate_cap_enforced_on_all_paths_def Let_def w(1,2) w1(1) w2(1))
qed


lemma withdraw_passes:
  assumes "10000000 \<le> amount" and "amount < 2 ^ 127"
  shows "test_withdraw_and_reject_do_not_mint amount = Inr ()"
proof -
  let ?x = "Symbol ''inv_wd''" and ?y = "Symbol ''off_wd''" and ?e = "fin_env 1000000"
  obtain w0 where w0: "deploy_market = Inr w0" "market None None None 0 w0" "invoices (w_registry w0) = []" "no_offers w0"
    "w_token w0 = empty_ledger" "admcfg (w_financing w0) = Some \<lparr>signers = [Address 9], threshold = 1\<rparr>" by (rule deployed)
  obtain w1 where w1: "on_financing (set_position_token ?e (one_signer (Address 9)) (Address 51)) w0 = Inr w1"
    "market None None (Some (Address 51)) 0 w1" "w_registry w1 = w_registry w0" "w_token w1 = w_token w0" "no_offers w1"
    by (rule position_token_runs [OF w0(2,6)]) (use w0(4) in \<open>auto simp: no_offers_def\<close>)
  obtain w2 where w2: "register_for ?x amount w1 = Inr w2" "market None None (Some (Address 51)) (Suc 0) w2"
    "no_offers w2" "w_token w2 = empty_ledger" "invoices (w_registry w2) = [(?x, pt_invoice ?x amount 2000000)]"
    by (rule register_for_runs [OF w1(2) _ assms(1), of ?x])
      (use w0 w1 in \<open>auto simp: sm_has_def no_offers_def\<close>)
  obtain w3 where w3: "create_offer ?e ?y ?x (Address 3) amount (Symbol ''USD'') 500 604800 0 w2 =
      Inr (new_offer ?y ?x (Address 3) amount 500 604800, w3)" "market None None (Some (Address 51)) (Suc 0) w3"
    "w_token w3 = w_token w2" "offers (w_financing w3) = [(?y, new_offer ?y ?x (Address 3) amount 500 604800)]"
    "total_financed (fin_load_stats (w_financing w3)) = 0"
    by (rule first_offer [OF w2(2,5,3), of "Address 3" amount 500 604800 1000000 ?y]) (use assms in auto)
  have "\<exists>w4. withdraw_offer ?e ?y (Address 3) w3 = Inr ((new_offer ?y ?x (Address 3) amount 500 604800)\<lparr>off_status := OffRejected\<rparr>, w4) \<and>
      w_token w4 = empty_ledger \<and> total_financed (fin_load_stats (w_financing w4)) = 0"
    using w3(2) by (simp add: withdraw_offer_def Let_def assert_not_paused_def require_auth_def get_offer_def w3(3-5) w2(4)
        market_def close_negotiation_on_offer_exit_def load_negotiation_def)
  then obtain w4 where "withdraw_offer ?e ?y (Address 3) w3 = Inr ((new_offer ?y ?x (Address 3) amount 500 604800)\<lparr>off_status := OffRejected\<rparr>, w4)"
    "w_token w4 = empty_ledger" "total_financed (fin_load_stats (w_financing w4)) = 0" by blast
  then show ?thesis
    by (simp add: test_withdraw_and_reject_do_not_mint_def Let_def w0(1) w1(1) w2(1) w3(1) fin_get_stats_def empty_ledger_def)
qed

lemma one_accepted_passes:
  assumes "10000000 \<le> amount" and "amount < 2 ^ 127"
  shows "test_at_most_one_accepted_offer_per_invoice amount = Inr ()"
proof -
  let ?x = "Symbol ''inv_ex''" and ?a = "Symbol ''off_a''" and ?b = "Symbol ''off_b''" and ?e = "fin_env 1000000"
  let ?half = "amount div 2" and ?fa = "Some (Address 101)"
  let ?oa = "new_offer ?a ?x (Address 3) ?half 500 604800" and ?ob = "new_offer ?b ?x (Address 4) ?half 500 604800"
  have half: "0 < ?half" "?half \<le> amount" "?half < 2 ^ 127" using assms by simp_all
  obtain w0 where w0: "deploy_market = Inr w0" "market None None None 0 w0" "invoices (w_registry w0) = []" "no_offers w0"
    "w_token w0 = empty_ledger" "admcfg (w_registry w0) = Some \<lparr>signers = [Address 9], threshold = 1\<rparr>" by (rule deployed)
  obtain w1 where w1: "on_registry (set_financing_contract (reg_env 1000000) (one_signer (Address 9)) (Address 101)) w0 = Inr w1"
    "market ?fa None None 0 w1" "no_offers w1" "w_token w1 = empty_ledger" "invoices (w_registry w1) = []"
    by (rule trust_financing_runs [OF w0(2,6)]) (use w0(3-5) in \<open>auto simp: no_offers_def\<close>)
  obtain w2 where w2: "register_for ?x amount w1 = Inr w2" "market ?fa None None (Suc 0) w2"
    "no_offers w2" "w_token w2 = empty_ledger" "invoices (w_registry w2) = [(?x, pt_invoice ?x amount 2000000)]"
    by (rule register_for_runs [OF w1(2) _ assms(1), of ?x]) (use w1 in \<open>auto simp: sm_has_def no_offers_def\<close>)
  obtain w3 where w3: "create_offer ?e ?a ?x (Address 3) ?half (Symbol ''USD'') 500 604800 0 w2 = Inr (?oa, w3)"
    "market ?fa None None (Suc 0) w3" "w_registry w3 = w_registry w2" "w_token w3 = w_token w2"
    "offers (w_financing w3) = [(?a, ?oa)]" "total_offers (fin_load_stats (w_financing w3)) = 1"
    "total_financed (fin_load_stats (w_financing w3)) = 0"
    "\<And>l. total_offered (load_lender_stats l (w_financing w3)) = (if l = Address 3 then ?half else 0)"
    "\<And>l. offers_pending (load_lender_stats l (w_financing w3)) = (if l = Address 3 then 1 else 0)"
    "\<And>l. total_accepted (load_lender_stats l (w_financing w3)) = 0"
    by (rule first_offer [OF w2(2,5,3), of "Address 3" ?half 500 604800 1000000 ?a]) (use assms half in auto)
  obtain w4 where w4: "create_offer ?e ?b ?x (Address 4) ?half (Symbol ''USD'') 500 604800 0 w3 = Inr (?ob, w4)"
    "market ?fa None None (Suc 0) w4" "w_registry w4 = w_registry w2" "w_token w4 = empty_ledger"
    "offers (w_financing w4) = sm_set [(?a, ?oa)] ?b ?ob" "total_financed (fin_load_stats (w_financing w4)) = 0"
    "\<And>l. total_accepted (load_lender_stats l (w_financing w4)) = 0"
    by (rule create_runs [OF w3(2), of ?x "pt_invoice ?x amount 2000000" "Address 4" ?half 500 604800 ?b 1000000])
      (use half in \<open>auto simp: w3(3-10) w2(4,5) sm_has_def in_i128_def\<close>)
  obtain w5 where w5: "fund (Address 3) (Address 101) ?half w4 = Inr w5" "w_registry w5 = w_registry w4" "w_financing w5 = w_financing w4"
    "?half \<le> balances (w_token w5) (Address 50) (Address 3)" "allowances (w_token w5) (Address 50) (Address 3) (Address 101) = ?half"
    by (rule fund_runs [of w4 ?half "Address 3" "Address 101"]) (use half in \<open>auto simp: w4(4)\<close>)
  have m5: "market ?fa None None (Suc 0) w5" using w4(2) by (simp add: market_def w5(2,3))
  obtain o6 w6 where w6: "accept_offer ledger_token ?e ?a (Address 5) w5 = Inr (o6, w6)"
    "invoices (w_registry w6) = [(?x, (pt_invoice ?x amount 2000000)\<lparr>inv_status := InvFinanced\<rparr>)]"
    "offers (w_financing w6) = sm_set (sm_set [(?a, ?oa)] ?b ?ob) ?a (accepted 1000000 ?oa)"
    by (rule accept_runs [OF m5, of ?a ?oa "pt_invoice ?x amount 2000000" 1000000])
      (use half in \<open>auto simp: w5(2-5) w4(3,5-7) w2(5) in_i128_def\<close>)
  have "rejected (accept_offer ledger_token ?e ?b (Address 5) w6)"
    by (auto simp: rejected_iff accept_offer_def ok Let_def w6(2,3))
  moreover have "div_i128 amount 2 = Inr ?half" using assms half by (simp add: div_i128_def chk_i128_def in_i128_def)
  ultimately show ?thesis
    by (simp add: test_at_most_one_accepted_offer_per_invoice_def Let_def w0(1) w1(1) w2(1) w3(1) w4(1) w5(1) w6(1))
qed


text \<open>After \<open>k\<close> rounds of the position-token test everything counts the same sum.\<close>

definition positions_match :: "int list \<Rightarrow> nat \<Rightarrow> ledger fworld \<times> int \<Rightarrow> bool" where
  "positions_match amounts k = (\<lambda>(w, expected).
     market (Some (Address 101)) None (Some (Address 51)) k w \<and> solvent (w_token w) \<and> expected = sum_list (take k amounts) \<and>
     (\<forall>x. sm_has (invoices (w_registry w)) x \<longrightarrow> (\<exists>j<k. x = Symbol (''inv'' @ show_nat j))) \<and>
     (\<forall>y. sm_has (offers (w_financing w)) y \<longrightarrow> (\<exists>j<k. y = Symbol (''off'' @ show_nat j))) \<and>
     total_offers (fin_load_stats (w_financing w)) = k \<and> total_financed (fin_load_stats (w_financing w)) = expected \<and>
     total_offered (load_lender_stats (Address 3) (w_financing w)) = expected \<and>
     offers_pending (load_lender_stats (Address 3) (w_financing w)) = k \<and>
     total_accepted (load_lender_stats (Address 3) (w_financing w)) = expected \<and>
     balances (w_token w) (Address 51) (Address 3) = expected)"

lemma sm_has_set_iff: "sm_has (sm_set m k v) k' \<longleftrightarrow> k' = k \<or> sm_has m k'"
  by (simp add: sm_has_def)

lemma solvent_settled:
  assumes "solvent t" and "0 \<le> amt" and "amt \<le> balances t (Address 50) a" and "balances t' = settled_balances pos a amt t"
  shows "solvent t'"
  using assms by (auto simp: solvent_def settled_balances_def moved_def Let_def split: option.split)

lemma position_body_runs:
  assumes amounts: "\<forall>a \<in> set amounts. 10000000 \<le> a" "sum_list amounts < 2 ^ 127" "length amounts < 2 ^ 32"
    and k: "k < length amounts" and u: "positions_match amounts k u"
  shows "\<exists>u'. position_body (k, amounts ! k) u = Inr u' \<and> positions_match amounts (Suc k) u'"
proof -
  let ?fa = "Some (Address 101)" and ?pos = "Some (Address 51)" and ?e = "fin_env 1000000" and ?a = "amounts ! k"
  let ?x = "Symbol (''inv'' @ show_nat k)" and ?y = "Symbol (''off'' @ show_nat k)" and ?sum = "sum_list (take k amounts)"
  let ?o = "new_offer ?y ?x (Address 3) ?a 500 604800"
  obtain w where u_eq: "u = (w, ?sum)" using u by (cases u) (auto simp: positions_match_def)
  note inv = u [unfolded u_eq positions_match_def prod.case]
  note more = take_Suc_conv_app_nth [OF k]
  have a: "10000000 \<le> ?a" and k32: "k < 2 ^ 32 - 1" using amounts(1,3) k by auto
  have sum: "0 \<le> ?sum" "?sum + ?a < 2 ^ 127" "in_i128 (?sum + ?a)"
    using take_bound [OF _ amounts(2), of k] take_bound [OF _ amounts(2), of "Suc k"] amounts(1) a
    by (force simp: more in_i128_def)+
  have new: "\<not> sm_has (invoices (w_registry w)) ?x" "\<not> sm_has (offers (w_financing w)) ?y" using inv by auto
  obtain w1 where w1: "register_for ?x ?a w = Inr w1" "market ?fa None ?pos (Suc k) w1" "w_financing w1 = w_financing w"
    "w_token w1 = w_token w" "invoices (w_registry w1) = sm_set (invoices (w_registry w)) ?x (pt_invoice ?x ?a 2000000)"
    by (rule register_for_runs [OF _ k32 a new(1), of ?fa None ?pos]) (use inv in auto)
  obtain w2 where w2: "create_offer ?e ?y ?x (Address 3) ?a (Symbol ''USD'') 500 604800 0 w1 = Inr (?o, w2)"
    "market ?fa None ?pos (Suc k) w2" "w_registry w2 = w_registry w1" "w_token w2 = w_token w1"
    "offers (w_financing w2) = sm_set (offers (w_financing w)) ?y ?o"
    "total_offers (fin_load_stats (w_financing w2)) = Suc k" "total_financed (fin_load_stats (w_financing w2)) = ?sum"
    "total_offered (load_lender_stats (Address 3) (w_financing w2)) = ?sum + ?a"
    "offers_pending (load_lender_stats (Address 3) (w_financing w2)) = Suc k"
    "total_accepted (load_lender_stats (Address 3) (w_financing w2)) = ?sum"
    by (rule create_runs [OF w1(2), of ?x "pt_invoice ?x ?a 2000000" "Address 3" ?a 500 604800 ?y 1000000])
      (use inv a k32 sum new in \<open>auto simp: w1(3,5)\<close>)
  obtain w3 where w3: "fund (Address 3) (Address 101) ?a w2 = Inr w3" "w_registry w3 = w_registry w2" "w_financing w3 = w_financing w2"
    "?a \<le> balances (w_token w3) (Address 50) (Address 3)" "allowances (w_token w3) (Address 50) (Address 3) (Address 101) = ?a"
    "balances (w_token w3) = (balances (w_token w2))(Address 50 :=
       (balances (w_token w2) (Address 50))(Address 3 := balances (w_token w2) (Address 50) (Address 3) + ?a))" "solvent (w_token w3)"
    by (rule fund_runs [of w2 ?a "Address 3" "Address 101"]) (use inv a in \<open>auto simp: w2(4) w1(4)\<close>)
  have m3: "market ?fa None ?pos (Suc k) w3" using w2(2) by (simp add: market_def w3(2,3))
  obtain o4 w4 where w4: "accept_offer ledger_token ?e ?y (Address 5) w3 = Inr (o4, w4)" "market ?fa None ?pos (Suc k) w4"
    "invoices (w_registry w4) = sm_set (invoices (w_registry w3)) ?x ((pt_invoice ?x ?a 2000000)\<lparr>inv_status := InvFinanced\<rparr>)"
    "offers (w_financing w4) = sm_set (offers (w_financing w3)) ?y (accepted 1000000 ?o)"
    "total_offers (fin_load_stats (w_financing w4)) = Suc k" "total_financed (fin_load_stats (w_financing w4)) = ?sum + ?a"
    "total_offered (load_lender_stats (Address 3) (w_financing w4)) = ?sum + ?a"
    "offers_pending (load_lender_stats (Address 3) (w_financing w4)) = Suc k"
    "total_accepted (load_lender_stats (Address 3) (w_financing w4)) = ?sum + ?a"
    "balances (w_token w4) = settled_balances ?pos (Address 3) ?a (w_token w3)"
    by (rule accept_runs [OF m3, of ?y ?o "pt_invoice ?x ?a 2000000" 1000000])
      (use a sum w3(4,5) in \<open>auto simp: w3(2,3) w2(3,5-10) w1(5)\<close>)
  have "positions_match amounts (Suc k) (w4, ?sum + ?a)"
    using w4(2) solvent_settled [OF w3(7) _ w3(4) w4(10)] a inv
    by (auto simp: positions_match_def more w4(3-10) w3(2,3,6) w2(3,4,5) w1(4,5) sm_has_set_iff settled_balances_def less_Suc_eq)
  moreover have "position_body (k, ?a) u = Inr (w4, ?sum + ?a)"
    using sum(3) by (simp only: position_body_def u_eq Let_def prod.case w1(1) w2(1) w3(1) w4(1) bindE.simps)
      (simp add: add_i128_def chk_i128_def)
  ultimately show ?thesis by blast
qed


lemma positions_pass:
  assumes "\<forall>a \<in> set amounts. 10000000 \<le> a" and "sum_list amounts < 2 ^ 127" and "length amounts < 2 ^ 32"
  shows "test_position_tokens_equal_total_financed amounts = Inr ()"
proof -
  obtain w0 where w0: "deploy_market = Inr w0" "market None None None 0 w0" "invoices (w_registry w0) = []" "no_offers w0"
    "w_token w0 = empty_ledger" "admcfg (w_registry w0) = Some \<lparr>signers = [Address 9], threshold = 1\<rparr>"
    "admcfg (w_financing w0) = Some \<lparr>signers = [Address 9], threshold = 1\<rparr>" by (rule deployed)
  obtain w1 where w1: "on_registry (set_financing_contract (reg_env 1000000) (one_signer (Address 9)) (Address 101)) w0 = Inr w1"
    "market (Some (Address 101)) None None 0 w1" "w_financing w1 = w_financing w0" "w_token w1 = empty_ledger"
    "invoices (w_registry w1) = []"
    by (rule trust_financing_runs [OF w0(2,6)]) (use w0(3,5) in auto)
  obtain w2 where w2: "on_financing (set_position_token (fin_env 1000000) (one_signer (Address 9)) (Address 51)) w1 = Inr w2"
    "market (Some (Address 101)) None (Some (Address 51)) 0 w2" "w_registry w2 = w_registry w1" "w_token w2 = empty_ledger" "no_offers w2"
    by (rule position_token_runs [OF w1(2)]) (use w0(4,7) w1(3,4) in \<open>auto simp: no_offers_def\<close>)
  have "positions_match amounts 0 (w2, 0)"
    using w2 w1(5) by (auto simp: positions_match_def no_offers_def sm_has_def empty_ledger_def solvent_def)
  then obtain u where u: "foldE position_body (enumerate 0 amounts) (w2, 0) = Inr u" "positions_match amounts (length amounts) u"
    by (rule foldE_enumerate_succeeds) (rule position_body_runs [OF assms])
  then show ?thesis
    by (cases u) (simp add: test_position_tokens_equal_total_financed_def w0(1) w1(1) w2(1) positions_match_def fin_get_stats_def)
qed

subsection \<open>Every input passes\<close>

text \<open>
  C31. Every property test of the financing contract passes on every generated input: for invoice
  amounts from \<open>10^7\<close> up to \<open>2^126\<close> (the generators stop at \<open>10^11\<close>), every rate and duration the
  contract admits and batches of any length below \<open>2^32\<close> whose sum fits \<open>i128\<close>, an offer keeps its
  terms and is counted once, an offer above the invoice amount is rejected and one at the amount
  is not, the second of two offers cannot be accepted after the first, the position tokens minted
  equal the total financed, withdrawing mints nothing, and a rate one above the cap is rejected by
  all three entry points that set terms.
\<close>

theorem financing_property_tests_pass:
  assumes "10000000 \<le> amount" and "amount < 2 ^ 126" and "1 \<le> rate" and "rate \<le> 10000"
    and "86400 \<le> dur" and "dur \<le> 31536000" and "0 < overshoot" and "overshoot < 2 ^ 126"
    and "\<forall>a \<in> set amounts. 10000000 \<le> a" and "sum_list amounts < 2 ^ 127" and "length amounts < 2 ^ 32"
  shows "test_create_offer_invariants amount rate dur = Inr () \<and>
    test_offer_amount_bounds amount overshoot = Inr () \<and>
    test_at_most_one_accepted_offer_per_invoice amount = Inr () \<and>
    test_position_tokens_equal_total_financed amounts = Inr () \<and>
    test_withdraw_and_reject_do_not_mint amount = Inr () \<and>
    test_interest_rate_cap_enforced_on_all_paths rate amount dur = Inr ()"
proof (intro conjI)
  have "amount < 2 ^ 127" "amount + overshoot < 2 ^ 127" using assms(2,8) by simp_all
  then show "test_create_offer_invariants amount rate dur = Inr ()" "test_offer_amount_bounds amount overshoot = Inr ()"
    "test_at_most_one_accepted_offer_per_invoice amount = Inr ()" "test_withdraw_and_reject_do_not_mint amount = Inr ()"
    using assms by (auto intro: create_invariants_passes amount_bounds_passes one_accepted_passes withdraw_passes)
qed (rule positions_pass cap_enforced_passes, use assms in simp_all)+

lemma financing_property_tests_pass_witness:
  "test_create_offer_invariants 50000000 500 604800 = Inr () \<and> test_offer_amount_bounds 50000000 1 = Inr () \<and>
   test_position_tokens_equal_total_financed [10000000, 20000000] = Inr ()"
  using financing_property_tests_pass [of 50000000 500 604800 1 "[10000000, 20000000]"] by simp

end
