(* ===== verification/Repayment_Tests.thy ===== *)
theory Repayment_Tests
  imports Financing_Tests Repayment_Books
begin

text \<open>
  The property tests of \<open>repayment/src/proptest.rs\<close>, one definition per test function, on a registry
  (\<open>Address 100\<close>), a financing (\<open>Address 101\<close>) and a repayment contract (\<open>Address 102\<close>) deployed and
  wired as the tests do it. The arithmetic of the tests themselves is \<open>i128\<close> and \<open>u64\<close> with overflow
  checks, like the contracts'. The theorem at the end covers every input of the generators.
\<close>

subsection \<open>Deployment\<close>

definition repay_env :: "nat \<Rightarrow> env" where
  "repay_env now = demo_env now (Address 102)"

definition deploy_lending :: "error + ledger rworld" where
  "deploy_lending =
     bindE (registry_constructor (Address 9) empty_registry) (\<lambda>reg.
     bindE (financing_constructor (Address 9) (Address 100) (Address 50) empty_financing) (\<lambda>fin.
     bindE (repayment_constructor (Address 9) (Address 100) (Address 101) (Address 50) empty_repayment) (\<lambda>rep.
     bindE (fin_set_repayment_contract (fin_env 1000000) (one_signer (Address 9)) (Address 102) fin) (\<lambda>fin.
     bindE (set_repayment_contract (reg_env 1000000) (one_signer (Address 9)) (Address 102) reg) (\<lambda>reg.
     bindE (set_financing_contract (reg_env 1000000) (one_signer (Address 9)) (Address 101) reg) (\<lambda>reg.
     Inr \<lparr>w_registry = reg, w_financing = fin, w_token = empty_ledger, w_repayment = rep,
       w_insurance = empty_insurance, w_reputation = empty_reputation\<rparr>))))))"

text \<open>Register the invoice, offer its whole amount, fund the lender and accept.\<close>

definition finance_deal ::
  "symbol \<Rightarrow> symbol \<Rightarrow> int \<Rightarrow> nat \<Rightarrow> nat \<Rightarrow> (ledger, 'z) fworld_scheme \<Rightarrow> error + (ledger, 'z) fworld_scheme" where
  "finance_deal x y amount interest_rate duration w =
     (let e = fin_env 1000000; originator = Address 5; lender = Address 3; financing_id = Address 101 in
     bindE (register_for x amount w) (\<lambda>w.
     bindE (create_offer e y x lender amount (Symbol ''USD'') interest_rate duration 0 w) (\<lambda>(_, w).
     bindE (fund lender financing_id amount w) (\<lambda>w.
     bindE (accept_offer ledger_token e y originator w) (\<lambda>(_, w). Inr w)))))"

definition days_later :: "nat \<Rightarrow> error + nat" where
  "days_later days = bindE (mul_u64 days 86400) (add_u64 1000000)"

abbreviation holds :: "address \<Rightarrow> ledger rworld \<Rightarrow> int" where
  "holds a w \<equiv> tk_balance ledger_token (Address 50) a (w_token w)"

subsection \<open>The tests\<close>

text \<open>The amounts of the first test: accrued interest, obligation, first payment, and what is left of it.\<close>

definition math_amounts :: "int \<Rightarrow> nat \<Rightarrow> int \<Rightarrow> error + int \<times> int \<times> int \<times> int" where
  "math_amounts amount interest_rate partial_ratio =
     bindE (mul_i128 amount (int interest_rate)) (\<lambda>n.
     bindE (mul_i128 n 365) (\<lambda>n.
     bindE (div_i128 n 3650000) (\<lambda>accrued_interest.
     bindE (add_i128 amount accrued_interest) (\<lambda>total_owed.
     bindE (div_i128 amount 100) (\<lambda>min_payment.
     bindE (div_i128 total_owed partial_ratio) (\<lambda>q.
     let partial_repay_amount = max q min_payment in
     bindE (sub_i128 total_owed 1) (\<lambda>most.
     let partial_repay_amount = max (min partial_repay_amount most) min_payment in
     bindE (sub_i128 total_owed partial_repay_amount) (\<lambda>full_remaining.
     Inr (accrued_interest, total_owed, partial_repay_amount, full_remaining)))))))))"

text \<open>The fee and the lender's part of a payment, as the test computes them.\<close>

definition math_split :: "int \<Rightarrow> int \<Rightarrow> error + int \<times> int" where
  "math_split amount actual_fee_bps =
     bindE (mul_i128 amount actual_fee_bps) (\<lambda>n.
     bindE (div_i128 n 10000) (\<lambda>fee_amount.
     bindE (sub_i128 amount fee_amount) (\<lambda>lender_amount.
     Inr (fee_amount, lender_amount))))"

text \<open>The rest of the repayment, after a first payment that left something to pay.\<close>

definition math_rest ::
  "env \<Rightarrow> symbol \<Rightarrow> symbol \<Rightarrow> nat \<Rightarrow> int \<Rightarrow> int \<Rightarrow> ledger rworld \<Rightarrow> error + ledger rworld" where
  "math_rest e x y actual_fee_bps admin_expected lender_expected w =
     (let admin = Address 9; lender = Address 3; originator = Address 5; repayment_id = Address 102 in
     bindE (calculate_total_due e y w) (\<lambda>actual_remaining.
     bindE (fund originator repayment_id actual_remaining w) (\<lambda>w.
     bindE (repay_invoice ledger_token e x y originator actual_remaining w) (\<lambda>(_, w).
     bindE (math_split actual_remaining (int actual_fee_bps)) (\<lambda>(fee_amount_2, lender_amount_2).
     bindE (prop_assert (holds admin w = admin_expected + fee_amount_2)) (\<lambda>_.
     bindE (prop_assert (holds lender w = lender_expected + lender_amount_2)) (\<lambda>_.
     bindE (get_offer y (w_financing w)) (\<lambda>offer_final.
     bindE (prop_assert (off_status offer_final = OffRepaid)) (\<lambda>_.
     bindE (get_invoice x (w_registry w)) (\<lambda>invoice_final.
     bindE (prop_assert (inv_status invoice_final = InvRepaid)) (\<lambda>_.
     bindE (prop_assert (length (get_payment_history x (w_repayment w)) = 2)) (\<lambda>_.
     bindE (get_remaining_principal e y w) (\<lambda>remaining.
     bindE (prop_assert (remaining = 0)) (\<lambda>_. Inr w))))))))))))))"

definition test_repay_invoice_math_invariants :: "int \<Rightarrow> nat \<Rightarrow> nat \<Rightarrow> int \<Rightarrow> error + unit" where
  "test_repay_invoice_math_invariants amount interest_rate fee_bps partial_ratio =
     (let x = Symbol ''inv_pt''; y = Symbol ''off_pt''; admin = Address 9; lender = Address 3;
          originator = Address 5; repayment_id = Address 102 in
     bindE deploy_lending (\<lambda>w.
     bindE (on_registry (set_fee (reg_env 1000000) (one_signer admin) fee_bps) w) (\<lambda>w.
     bindE (finance_deal x y amount interest_rate 2592000 w) (\<lambda>w.
     bindE (days_later 365) (\<lambda>now.
     let e = repay_env now in
     bindE (math_amounts amount interest_rate partial_ratio)
       (\<lambda>(accrued_interest, total_owed, partial_repay_amount, full_remaining).
     bindE (fund originator repayment_id total_owed w) (\<lambda>w.
     let initial_admin_bal = holds admin w; initial_lender_bal = holds lender w; initial_orig_bal = holds originator w in
     bindE (repay_invoice ledger_token e x y originator partial_repay_amount w) (\<lambda>(_, w).
     let actual_fee_bps = get_fee_bps (w_financing w) in
     bindE (math_split partial_repay_amount (int actual_fee_bps)) (\<lambda>(fee_amount_1, lender_amount_1).
     bindE (prop_assert (holds admin w = initial_admin_bal + fee_amount_1)) (\<lambda>_.
     bindE (prop_assert (holds lender w = initial_lender_bal + lender_amount_1)) (\<lambda>_.
     bindE (prop_assert (holds originator w = initial_orig_bal - partial_repay_amount)) (\<lambda>_.
     bindE (get_offer y (w_financing w)) (\<lambda>offer.
     bindE (prop_assert (off_amount_repaid offer =
       partial_repay_amount - min accrued_interest partial_repay_amount)) (\<lambda>_.
     bindE (get_invoice x (w_registry w)) (\<lambda>invoice.
     bindE (prop_assert (if 0 < full_remaining
       then inv_status invoice = InvFinanced \<and> off_status offer = OffFinanced
       else inv_status invoice = InvRepaid \<and> off_status offer = OffRepaid)) (\<lambda>_.
     bindE (if 0 < full_remaining
       then math_rest e x y actual_fee_bps (initial_admin_bal + fee_amount_1) (initial_lender_bal + lender_amount_1) w
       else Inr w) (\<lambda>w.
     prop_assert (partial_repay_amount \<le> total_repaid (fin_get_stats (w_financing w))))))))))))))))))))"

definition test_repay_never_exceeds_total_owed :: "int \<Rightarrow> nat \<Rightarrow> nat \<Rightarrow> int \<Rightarrow> error + unit" where
  "test_repay_never_exceeds_total_owed amount interest_rate days_elapsed overshoot =
     (let x = Symbol ''inv_ex''; y = Symbol ''off_ex''; originator = Address 5; repayment_id = Address 102 in
     bindE deploy_lending (\<lambda>w.
     bindE (finance_deal x y amount interest_rate 2592000 w) (\<lambda>w.
     bindE (days_later days_elapsed) (\<lambda>now.
     bindE (calculate_total_due (repay_env now) y w) (\<lambda>total_owed.
     bindE (add_i128 total_owed overshoot) (\<lambda>too_much.
     bindE (fund originator repayment_id too_much w) (\<lambda>w.
     prop_assert (rejected (repay_invoice ledger_token (repay_env now) x y originator too_much w)))))))))"

definition test_interest_monotonic_with_time :: "int \<Rightarrow> nat \<Rightarrow> nat \<Rightarrow> nat \<Rightarrow> error + unit" where
  "test_interest_monotonic_with_time amount interest_rate t1_days t2_extra_days =
     (let x = Symbol ''inv_mt''; y = Symbol ''off_mt'' in
     bindE deploy_lending (\<lambda>w.
     bindE (finance_deal x y amount interest_rate 31536000 w) (\<lambda>w.
     bindE (days_later t1_days) (\<lambda>t1.
     bindE (calculate_accrued_interest (repay_env t1) y w) (\<lambda>interest_t1.
     bindE (add_u64 t1_days t2_extra_days) (\<lambda>days.
     bindE (days_later days) (\<lambda>t2.
     bindE (calculate_accrued_interest (repay_env t2) y w) (\<lambda>interest_t2.
     prop_assert (interest_t1 \<le> interest_t2)))))))))"

subsection \<open>Interest in range\<close>

lemma repay_env_sel [simp]: "ledger_timestamp (repay_env t) = t" "authorizes (repay_env t) a"
  "current_contract (repay_env t) = Address 102" "deployed_at (repay_env t) RegistryC = Address 100"
  "deployed_at (repay_env t) FinancingC = Address 101" "deployed_at (repay_env t) ReputationC = Address 104"
  by (simp_all add: repay_env_def)

text \<open>The interest on \<open>rem\<close> after \<open>d\<close> days; within the bounds of the tests nothing saturates.\<close>

definition interest_on :: "int \<Rightarrow> nat \<Rightarrow> nat \<Rightarrow> int" where
  "interest_on rem rate d = rem * int rate * int d div 3650000"

lemma product_bounds:
  assumes "0 \<le> rem" and "rem < 2 ^ 96" and "rate \<le> 10000" and "d \<le> 400"
  shows "0 \<le> rem * int rate" "rem * int rate \<le> 2 ^ 96 * 10000" "0 \<le> rem * int rate * int d"
    "rem * int rate * int d \<le> 2 ^ 96 * 10000 * 400"
proof -
  show one: "0 \<le> rem * int rate" "rem * int rate \<le> 2 ^ 96 * 10000"
    using assms mult_mono [of rem "2 ^ 96" "int rate" 10000] by simp_all
  then show "0 \<le> rem * int rate * int d" "rem * int rate * int d \<le> 2 ^ 96 * 10000 * 400"
    using assms(4) mult_mono [of "rem * int rate" "2 ^ 96 * 10000" "int d" 400] by simp_all
qed

lemma interest_on_bounds:
  assumes "0 \<le> rem" and "rem < 2 ^ 96" and "rate \<le> 10000" and "d \<le> 400"
  shows "0 \<le> interest_on rem rate d" "interest_on rem rate d < 2 ^ 98"
proof -
  have "interest_on rem rate d \<le> 2 ^ 96 * 10000 * 400 div 3650000"
    unfolding interest_on_def using product_bounds [OF assms] by (intro zdiv_mono1) simp_all
  then show "interest_on rem rate d < 2 ^ 98" by simp
  show "0 \<le> interest_on rem rate d" using product_bounds [OF assms] by (simp add: interest_on_def pos_imp_zdiv_nonneg_iff)
qed

lemma sat_in_range: "0 \<le> x \<Longrightarrow> x < 2 ^ 127 \<Longrightarrow> sat_i128 x = x"
  by (simp add: sat_i128_def)

lemma pro_rata_small:
  assumes "0 \<le> rem" and "rem < 2 ^ 96" and "rate \<le> 10000" and "d \<le> 400"
  shows "pro_rata_interest rem rate (int d) = interest_on rem rate d"
proof -
  note bounds = product_bounds [OF assms]
  have "sat_i128 (rem * int rate) = rem * int rate" "sat_i128 (rem * int rate * int d) = rem * int rate * int d"
    using bounds by (auto intro!: sat_in_range)
  with bounds assms(1) show ?thesis by (auto simp: pro_rata_interest_def interest_on_def)
qed

subsection \<open>The deployed protocol\<close>

lemma more_rworld: "fworld.more w' = fworld.more w \<Longrightarrow>
    w_repayment w' = w_repayment w \<and> w_insurance w' = w_insurance w \<and> w_reputation w' = w_reputation w"
  for w w' :: "('t, 'z) rworld_scheme"
  by (cases w, cases w') simp

definition lending :: "repayment \<Rightarrow> bool" where
  "lending p \<longleftrightarrow> \<not> paused p \<and> rp_registry p = Some (Address 100) \<and> rp_financing p = Some (Address 101) \<and>
     default_token p = Some (Address 50) \<and> curtok p = Map.empty \<and> load_penalty_config p = (0, 0)"

definition linked :: "address option \<Rightarrow> ledger rworld \<Rightarrow> bool" where
  "linked ra w \<longleftrightarrow> market (Some (Address 101)) (Some (Address 102)) None 0 w \<and> lending (w_repayment w) \<and>
     repadd (w_repayment w) = ra \<and> pays (w_repayment w) = Map.empty \<and> invoices (w_registry w) = [] \<and> no_offers w \<and>
     w_token w = empty_ledger \<and> fin_repayment (w_financing w) = Some (Address 102) \<and> fin_feebps (w_financing w) = None \<and>
     total_fee_revenue (fin_load_stats (w_financing w)) = 0 \<and>
     offers_repaid (load_lender_stats (Address 3) (w_financing w)) = 0 \<and>
     admcfg (w_registry w) = Some \<lparr>signers = [Address 9], threshold = 1\<rparr>"

lemma deploy_lending_runs: obtains w where "deploy_lending = Inr w" "linked None w"
proof -
  have "\<exists>w. deploy_lending = Inr w \<and> linked None w"
    by (simp add: deploy_lending_def registry_constructor_def financing_constructor_def repayment_constructor_def
        init_admin_config_def initialize_contract_version_def parse_cargo_version publish_def save_admin_config_def
        fin_set_repayment_contract_def set_repayment_contract_def set_financing_contract_def assert_not_paused_def
        assert_admin_def load_admin_config_def one_signer_def assert_threshold_def is_signer_def require_auth_def
        linked_def market_def wired_up_def lending_def load_stats_def no_offers_def fin_load_stats_def
        load_lender_stats_def load_penalty_config_def empty_repayment_def empty_financing_def)
  then show ?thesis using that by blast
qed

lemma set_fee_runs:
  assumes "linked ra w" and "fee \<le> 500"
  obtains w' where "on_registry (set_fee (reg_env 1000000) (one_signer (Address 9)) fee) w = Inr w'" "linked ra w'"
proof -
  have "\<exists>w'. on_registry (set_fee (reg_env 1000000) (one_signer (Address 9)) fee) w = Inr w' \<and> linked ra w'"
    using assms by (simp add: on_registry_def set_fee_def assert_not_paused_def assert_admin_def load_admin_config_def
        one_signer_def assert_threshold_def is_signer_def require_auth_def linked_def market_def wired_up_def load_stats_def
        no_offers_def)
  then show ?thesis using that by blast
qed

text \<open>
  \<open>owing ra x y o0 h paid w\<close>: offer \<open>y\<close> on invoice \<open>x\<close> was accepted and stands as \<open>o0\<close>, the payments
  \<open>h\<close> adding up to \<open>paid\<close> were made, and the loan is not closed.
\<close>

definition owing :: "address option \<Rightarrow> symbol \<Rightarrow> symbol \<Rightarrow> financing_offer \<Rightarrow> payment_record list \<Rightarrow> int \<Rightarrow> ledger rworld \<Rightarrow> bool" where
  "owing ra x y o0 h paid w \<longleftrightarrow> (\<forall>t. connected (repay_env t) w) \<and> lending (w_repayment w) \<and>
     repadd (w_repayment w) = ra \<and>
     (\<exists>i. map_of (invoices (w_registry w)) x = Some i \<and> inv_originator i = Address 5 \<and> inv_status i = InvFinanced) \<and>
     map_of (offers (w_financing w)) y = Some o0 \<and> off_invoice_id o0 = x \<and> off_lender o0 = Address 3 \<and>
     off_currency o0 = Symbol ''USD'' \<and> off_funded_at o0 = 1000000 \<and> off_status o0 \<in> {OffAccepted, OffFinanced} \<and>
     load_payments x (w_repayment w) = h \<and> total_repaid (fin_load_stats (w_financing w)) = paid \<and>
     total_fee_revenue (fin_load_stats (w_financing w)) = 0 \<and>
     offers_repaid (load_lender_stats (Address 3) (w_financing w)) = 0 \<and> solvent (w_token w)"

lemma finance_deal_runs:
  assumes w: "linked ra w" and "10000000 \<le> amount" and "amount < 2 ^ 96" and "1 \<le> rate" and "rate \<le> 10000"
    and "86400 \<le> dur" and "dur \<le> 31536000"
  obtains w' where "finance_deal x y amount rate dur w = Inr w'"
    "owing ra x y (accepted 1000000 (new_offer y x (Address 3) amount rate dur)) [] 0 w'" "w_reputation w' = w_reputation w"
proof -
  let ?fa = "Some (Address 101)" and ?ra = "Some (Address 102)" and ?e = "fin_env 1000000"
  let ?o = "new_offer y x (Address 3) amount rate dur" and ?i = "pt_invoice x amount 2000000"
  note L = w [unfolded linked_def]
  obtain w1 where w1: "register_for x amount w = Inr w1" "market ?fa ?ra None (Suc 0) w1" "w_financing w1 = w_financing w"
    "w_token w1 = w_token w" "invoices (w_registry w1) = sm_set (invoices (w_registry w)) x ?i" "fworld.more w1 = fworld.more w"
    by (rule register_for_runs [of ?fa ?ra None 0 w amount x]) (use L assms(2) in \<open>auto simp: sm_has_def\<close>)
  obtain w2 where w2: "create_offer ?e y x (Address 3) amount (Symbol ''USD'') rate dur 0 w1 = Inr (?o, w2)"
    "market ?fa ?ra None (Suc 0) w2" "w_registry w2 = w_registry w1" "w_token w2 = w_token w1"
    "offers (w_financing w2) = sm_set (offers (w_financing w1)) y ?o"
    "fin_load_stats (w_financing w2) = (fin_load_stats (w_financing w1))
       \<lparr>total_offers := Suc (total_offers (fin_load_stats (w_financing w1)))\<rparr>"
    "\<And>l. load_lender_stats l (w_financing w2) = (if l = Address 3 then (load_lender_stats (Address 3) (w_financing w1))
       \<lparr>total_offered := total_offered (load_lender_stats (Address 3) (w_financing w1)) + amount,
        offers_pending := Suc (offers_pending (load_lender_stats (Address 3) (w_financing w1)))\<rparr>
      else load_lender_stats l (w_financing w1))"
    "fin_repayment (w_financing w2) = fin_repayment (w_financing w1)" "fin_feebps (w_financing w2) = fin_feebps (w_financing w1)"
    "fworld.more w2 = fworld.more w1"
    by (rule create_runs [OF w1(2), of x ?i "Address 3" amount rate dur y 1000000])
      (use L assms in \<open>auto simp: w1(3,5) no_offers_def sm_has_def in_i128_def\<close>)
  obtain w3 where w3: "fund (Address 3) (Address 101) amount w2 = Inr w3" "w_registry w3 = w_registry w2"
    "w_financing w3 = w_financing w2" "amount \<le> balances (w_token w3) (Address 50) (Address 3)"
    "allowances (w_token w3) (Address 50) (Address 3) (Address 101) = amount" "solvent (w_token w3)"
    "fworld.more w3 = fworld.more w2"
    by (rule fund_runs [of w2 amount "Address 3" "Address 101"]) (use L assms(2) in \<open>auto simp: w2(4) w1(4)\<close>)
  have m3: "market ?fa ?ra None (Suc 0) w3" using w2(2) by (simp add: market_def w3(2,3))
  have o3: "offers (w_financing w3) = [(y, ?o)]" using L by (simp add: w3(3) w2(5) w1(3) no_offers_def)
  have i3: "invoices (w_registry w3) = [(x, ?i)]" using L by (simp add: w3(2) w2(3) w1(5))
  have tot: "total_financed (fin_load_stats (w_financing w3)) = 0" "total_accepted (load_lender_stats (Address 3) (w_financing w3)) = 0"
    using L by (simp_all add: w3(3) w2(6,7) w1(3) no_offers_def)
  obtain o4 w4 where w4: "accept_offer ledger_token ?e y (Address 5) w3 = Inr (o4, w4)" "market ?fa ?ra None (Suc 0) w4"
    "invoices (w_registry w4) = sm_set (invoices (w_registry w3)) x (?i\<lparr>inv_status := InvFinanced\<rparr>)"
    "offers (w_financing w4) = sm_set (offers (w_financing w3)) y (accepted 1000000 ?o)"
    "fin_load_stats (w_financing w4) = (fin_load_stats (w_financing w3))
       \<lparr>total_financed := total_financed (fin_load_stats (w_financing w3)) + amount\<rparr>"
    "\<And>l. load_lender_stats l (w_financing w4) = (if l = Address 3 then (load_lender_stats l (w_financing w3))
       \<lparr>total_accepted := total_accepted (load_lender_stats l (w_financing w3)) + amount\<rparr>
      else load_lender_stats l (w_financing w3))"
    "balances (w_token w4) = settled_balances None (Address 3) amount (w_token w3)"
    "fin_repayment (w_financing w4) = fin_repayment (w_financing w3)" "fin_feebps (w_financing w4) = fin_feebps (w_financing w3)"
    "fworld.more w4 = fworld.more w3"
    by (rule accept_runs [OF m3, of y ?o ?i 1000000, simplified])
      (use assms w3(4,5) in \<open>auto simp: o3 i3 tot in_i128_def\<close>)
  have rep: "w_repayment w4 = w_repayment w" "w_reputation w4 = w_reputation w"
    using more_rworld w4(10) w3(7) w2(10) w1(6) by metis+
  have "owing ra x y (accepted 1000000 ?o) [] 0 w4"
    using L w4(2) solvent_settled [OF w3(6) _ w3(4) w4(7)] assms(2)
    by (auto simp: owing_def connected_def market_def wired_up_def lending_def get_fee_bps_def rep(1) w4(3-6,8,9) w3(3) o3 i3
        w2(6-9) w1(3) no_offers_def accepted_def load_payments_def)
  moreover have "finance_deal x y amount rate dur w = Inr w4"
    by (simp add: finance_deal_def Let_def w1(1) w2(1) w3(1) w4(1))
  ultimately show ?thesis using that rep(2) by blast
qed

subsection \<open>Quotes and payments\<close>

text \<open>The loans of the tests: an amount below \<open>2^96\<close>, a rate within the cap, a sensible repaid part.\<close>

definition small_loan :: "financing_offer \<Rightarrow> bool" where
  "small_loan o0 \<longleftrightarrow> 100 \<le> off_amount o0 \<and> off_amount o0 < 2 ^ 96 \<and> off_interest_rate o0 \<le> 10000 \<and>
     0 \<le> off_amount_repaid o0 \<and> off_amount_repaid o0 \<le> off_amount o0"

definition left_of :: "financing_offer \<Rightarrow> payment_record list \<Rightarrow> int \<Rightarrow> bool" where
  "left_of o0 h rem \<longleftrightarrow> remaining_of h o0 = Inr rem \<and> 0 < rem \<and> rem \<le> off_amount o0 \<and> length h \<le> 1"

lemma no_penalty [simp]: "accrued_penalty e n due 0 0 = 0"
  by (simp add: accrued_penalty_def)

lemma nonneg_in_i128: "0 \<le> n \<Longrightarrow> n < 2 ^ 127 \<Longrightarrow> in_i128 n"
  by (simp add: in_i128_def)

lemma flat_small:
  assumes "small_loan o0"
  shows "\<exists>n. flat_total_due o0 = Inr n"
proof -
  let ?n = "off_amount o0 * int (off_interest_rate o0)"
  have "0 \<le> ?n" "?n \<le> 2 ^ 96 * 10000" "0 \<le> off_amount o0" "off_amount o0 < 2 ^ 96"
    using assms product_bounds [of "off_amount o0" "off_interest_rate o0" 0] by (simp_all add: small_loan_def)
  moreover from this have "0 \<le> ?n div 10000" "?n div 10000 \<le> 2 ^ 96" "?n sdiv 10000 = ?n div 10000"
    using zdiv_mono1 [of ?n "2 ^ 96 * 10000" 10000] by (simp_all add: pos_imp_zdiv_nonneg_iff)
  ultimately show ?thesis by (auto simp: flat_total_due_ok Let_def intro!: nonneg_in_i128)
qed

lemma quotes:
  assumes "owing ra x y o0 h paid w" and "small_loan o0" and "left_of o0 h rem" and "d \<le> 400"
  shows "calculate_accrued_interest (repay_env (1000000 + d * 86400)) y w = Inr (interest_on rem (off_interest_rate o0) d)"
    and "calculate_total_due (repay_env (1000000 + d * 86400)) y w = Inr (rem + interest_on rem (off_interest_rate o0) d)"
proof -
  let ?e = "repay_env (1000000 + d * 86400)" and ?r = "interest_on rem (off_interest_rate o0) d"
  have rem: "0 \<le> rem" "rem < 2 ^ 96" "off_interest_rate o0 \<le> 10000" using assms(2,3) by (auto simp: small_loan_def left_of_def)
  note r = interest_on_bounds [OF rem assms(4)] and eq = pro_rata_small [OF rem assms(4)]
  have env: "rp_financing_env ?e (w_repayment w) = Inr (call_env ?e FinancingC)"
    "rp_registry_env ?e (w_repayment w) = Inr (call_env ?e RegistryC)"
    using assms(1) by (simp_all add: rp_env_Inr_iff owing_def lending_def call_env_def)
  have o0: "get_offer y (w_financing w) = Inr o0" "\<not> settled o0" "days_since_funded ?e o0 = Inr (int d)"
    "remaining_of (load_payments (off_invoice_id o0) (w_repayment w)) o0 = Inr rem"
    using assms(1,3) by (auto simp: owing_def get_offer_def settled_def days_since_funded_ok left_of_def)
  have "penalty_for_offer ?e o0 (w_registry w) (w_repayment w) = Inr 0"
    using flat_small [OF assms(2)] assms(1) by (auto simp: penalty_for_offer_def env owing_def lending_def get_invoice_def)
  then show "calculate_accrued_interest ?e y w = Inr ?r" "calculate_total_due ?e y w = Inr (rem + ?r)"
    using r rem by (simp_all add: calculate_accrued_interest_def calculate_total_due_def env o0 eq add_i128_def chk_i128_def in_i128_def)
qed

lemma obligation:
  assumes "owing ra x y o0 h paid w" and "small_loan o0" and "left_of o0 h rem" and "d \<le> 400"
    and "amt \<le> rem + interest_on rem (off_interest_rate o0) d"
    and "off_amount o0 div 100 \<le> amt \<or> amt = rem + interest_on rem (off_interest_rate o0) d"
  shows "repay_obligation (repay_env (1000000 + d * 86400)) x i o0 amt (w_repayment w) =
    Inr (rem, interest_on rem (off_interest_rate o0) d)"
proof -
  let ?e = "repay_env (1000000 + d * 86400)" and ?r = "interest_on rem (off_interest_rate o0) d"
  have rem: "0 \<le> rem" "rem < 2 ^ 96" "off_interest_rate o0 \<le> 10000" using assms(2,3) by (auto simp: small_loan_def left_of_def)
  note r = interest_on_bounds [OF rem assms(4)] and eq = pro_rata_small [OF rem assms(4)]
  have days: "days_since_funded ?e o0 = Inr (int d)" using assms(1) by (auto simp: owing_def days_since_funded_ok)
  have "off_amount o0 * 100 sdiv 10000 = off_amount o0 div 100" using assms(2) by (simp add: small_loan_def)
  moreover have "in_i128 (off_amount o0 * 100)" "in_i128 (off_amount o0 div 100)" using assms(2) by (auto simp: small_loan_def in_i128_def)
  ultimately have floor: "bindE (mul_i128 (off_amount o0) 100) (\<lambda>x. div_i128 x 10000) = Inr (off_amount o0 div 100)"
    by (simp add: mul_i128_def div_i128_def chk_i128_def)
  obtain n where n: "flat_total_due o0 = Inr n" using flat_small [OF assms(2)] by blast
  have ranges: "in_i128 (rem + ?r)" using r rem by (simp add: in_i128_def)
  show ?thesis
    using assms(1,3,5,6) floor ranges
    by (auto simp: repay_obligation_def owing_def left_of_def lending_def days eq n Let_def add_i128_def chk_i128_def
        bindE_Inr_iff split: if_splits)
qed

lemma owing_fund:
  assumes "owing ra x y o0 h paid w" and "0 \<le> amt"
  obtains w' where "fund a b amt w = Inr w'" "owing ra x y o0 h paid w'"
    "balances (w_token w') = (balances (w_token w))(Address 50 :=
       (balances (w_token w) (Address 50))(a := balances (w_token w) (Address 50) a + amt))"
    "w_reputation w' = w_reputation w" "w_repayment w' = w_repayment w"
proof -
  have "solvent (w_token w)" using assms(1) by (simp add: owing_def)
  then obtain w' where w': "fund a b amt w = Inr w'" "w_registry w' = w_registry w" "w_financing w' = w_financing w"
    "balances (w_token w') = (balances (w_token w))(Address 50 :=
       (balances (w_token w) (Address 50))(a := balances (w_token w) (Address 50) a + amt))"
    "solvent (w_token w')" "fworld.more w' = fworld.more w"
    by (rule fund_runs [OF _ assms(2)])
  then have "owing ra x y o0 h paid w'"
    using assms(1) more_rworld [OF w'(6)] by (simp add: owing_def connected_def)
  with w' more_rworld [OF w'(6)] that show ?thesis by blast
qed

lemma repaid_financing_sel:
  "fin_load_stats (repaid_financing y o0 pr amt full f) =
     (fin_load_stats f)\<lparr>total_repaid := total_repaid (fin_load_stats f) + amt\<rparr>"
  "\<not> full \<Longrightarrow> load_lender_stats l (repaid_financing y o0 pr amt full f) = load_lender_stats l f"
  "offers (repaid_financing y o0 pr amt full f) = sm_set (offers f) y (paid_offer pr full o0)"
  "get_fee_bps (repaid_financing y o0 pr amt full f) = get_fee_bps f"
  "paused (repaid_financing y o0 pr amt full f) = paused f"
  "fin_repayment (repaid_financing y o0 pr amt full f) = fin_repayment f"
  by (simp_all add: repaid_financing_def fin_load_stats_def load_lender_stats_def get_fee_bps_def Let_def)

lemma pay_runs:
  assumes w: "owing ra x y o0 h paid w" and o0: "small_loan o0" "left_of o0 h rem" and d: "d \<le> 400"
    and amt: "0 < amt" "amt \<le> rem + interest_on rem (off_interest_rate o0) d"
      "off_amount o0 div 100 \<le> amt \<or> amt = rem + interest_on rem (off_interest_rate o0) d"
    and money: "amt \<le> balances (w_token w) (Address 50) (Address 5)" and paid: "0 \<le> paid" "paid < 2 ^ 100"
    and rep: "if rem \<le> amt - min amt (interest_on rem (off_interest_rate o0) d)
      then report_outcome (repay_env (1000000 + d * 86400)) (Address 5) 0 (w_repayment w) (w_reputation w) = Inr rep'
      else rep' = w_reputation w"
  defines "pr \<equiv> amt - min amt (interest_on rem (off_interest_rate o0) d)"
  defines "full \<equiv> rem \<le> pr"
  obtains i' w' rec where
    "repay_invoice ledger_token (repay_env (1000000 + d * 86400)) x y (Address 5) amt w = Inr (i', w')"
    "get_invoice x (w_registry w') = Inr i'" "inv_status i' = (if full then InvRepaid else InvFinanced)"
    "get_offer y (w_financing w') = Inr (paid_offer pr full o0)"
    "load_payments x (w_repayment w') = h @ [rec]" "pay_principal_paid rec = pr"
    "balances (w_token w') = (balances (w_token w))(Address 50 :=
       moved (balances (w_token w) (Address 50)) (Address 5) (Address 3) amt)"
    "get_fee_bps (w_financing w') = 0" "total_repaid (fin_load_stats (w_financing w')) = paid + amt"
    "rp_financing (w_repayment w') = Some (Address 101)" "w_reputation w' = rep'"
    "\<not> full \<Longrightarrow> owing ra x y (paid_offer pr full o0) (h @ [rec]) (paid + amt) w'"
proof -
  let ?e = "repay_env (1000000 + d * 86400)" and ?r = "interest_on rem (off_interest_rate o0) d"
  note O = w [unfolded owing_def]
  have rem: "0 \<le> rem" "rem < 2 ^ 96" "off_interest_rate o0 \<le> 10000" using o0 by (auto simp: small_loan_def left_of_def)
  note r = interest_on_bounds [OF rem d]
  obtain i where i: "map_of (invoices (w_registry w)) x = Some i" "inv_originator i = Address 5" "inv_status i = InvFinanced"
    using O by blast
  have tok: "resolve_token (off_currency o0) (w_repayment w) = Inr (Address 50)"
    using O by (simp add: lending_def resolve_token_def get_currency_token_def load_currency_registry_def)
  have rng: "in_range x amt o0 w"
    using O o0 amt(1,2) r(2) rem(2) paid by (auto simp: in_range_def small_loan_def left_of_def intro!: nonneg_in_i128)
  let ?t = "(w_token w)\<lparr>balances := (balances (w_token w))(Address 50 :=
       moved (balances (w_token w) (Address 50)) (Address 5) (Address 3) amt)\<rparr>"
  have pay: "tk_transfer ledger_token ?e (Address 50) (Address 5) (off_lender o0) amt (w_token w) = Inr ?t"
    using O money amt(1) by (simp add: ledger_transfer_def)
  have remi: "in_i128 rem" using rem by (intro nonneg_in_i128) auto
  obtain reg p where run: "repay_invoice ledger_token ?e x y (Address 5) amt w =
      Inr (i\<lparr>inv_status := if full then InvRepaid else InvFinanced\<rparr>, w\<lparr>w_registry := reg,
        w_financing := repaid_financing y o0 pr amt full (w_financing w), w_token := ?t, w_repayment := p, w_reputation := rep'\<rparr>)"
    and reg: "repayment_marks_invoice_repaid (call_env ?e RegistryC) x full (w_registry w) =
      Inr (i\<lparr>inv_status := if full then InvRepaid else InvFinanced\<rparr>, reg)"
    and p: "p = repay_events x y amt pr (min amt ?r) (rem - pr) full
      ((w_repayment w)\<lparr>pays := (pays (w_repayment w))(x \<mapsto> load_payments x (w_repayment w) @
         [paid_record ?e x (Address 5) amt ?r (w_repayment w)])\<rparr>)"
    unfolding full_def pr_def
    using repay_invoice_reports [of ?e w "Address 5" x i y o0 amt "Address 50" rem ?r ledger_token ?t rep']
      O i tok rng pay remi rep amt(1) obligation [OF w o0 d amt(2,3)] r(1) by auto
  let ?rec = "paid_record ?e x (Address 5) amt ?r (w_repayment w)"
  let ?w = "w\<lparr>w_registry := reg, w_financing := repaid_financing y o0 pr amt full (w_financing w), w_token := ?t, w_repayment := p, w_reputation := rep'\<rparr>"
  note reg_sel = reg [unfolded repayment_marks_invoice_repaid_ok]
  have inv: "map_of (invoices reg) x = Some (i\<lparr>inv_status := if full then InvRepaid else InvFinanced\<rparr>)"
    "paused reg = paused (w_registry w)" "repayment_addr reg = repayment_addr (w_registry w)"
    using reg_sel i(1) by (auto simp: may_move_def)
  have w0: "load_payments x (w_repayment w) = h" "lending (w_repayment w)" "repadd (w_repayment w) = ra"
    using O by (simp_all add: connected_def)
  have "load_payments x p = h @ [?rec]" by (simp add: p load_payments_def flip: w0(1))
  moreover have "lending p" using w0(2) by (simp add: p lending_def load_penalty_config_def)
  moreover have "repadd p = ra" using w0(3) by (simp add: p)
  ultimately have rp: "load_payments x p = h @ [?rec]" "lending p" "repadd p = ra" by blast+
  have "owing ra x y (paid_offer pr full o0) (h @ [?rec]) (paid + amt) ?w" if "\<not> full"
  proof -
    have "solvent (w_token w)" using O by blast
    then have "solvent ?t" using money amt(1) by (rule_tac solvent_move [of "w_token w" amt "Address 50" "Address 5" _ "Address 3"]) simp_all
    moreover have "\<forall>t. connected (repay_env t) ?w"
      using O rp(2,3) inv(2,3) by (simp add: connected_def lending_def repaid_financing_sel)
    moreover have "map_of (invoices reg) x = Some (i\<lparr>inv_status := InvFinanced\<rparr>)" using inv(1) that by simp
    ultimately show ?thesis
      using that O rp(1-3) i(2) unfolding owing_def by (simp add: repaid_financing_sel paid_offer_def)
  qed
  moreover have "get_offer y (w_financing ?w) = Inr (paid_offer pr full o0)" "get_fee_bps (w_financing ?w) = 0"
    "total_repaid (fin_load_stats (w_financing ?w)) = paid + amt"
    using O by (simp_all add: get_offer_def repaid_financing_sel connected_def)
  moreover have "get_invoice x reg = Inr (i\<lparr>inv_status := if full then InvRepaid else InvFinanced\<rparr>)"
    using inv(1) by (simp add: get_invoice_def)
  moreover have "pay_principal_paid ?rec = pr" "rp_financing p = Some (Address 101)"
    using rp(2) by (simp_all add: paid_record_def pr_def lending_def)
  ultimately show ?thesis by (intro that [OF run]) (simp_all add: rp(1))
qed

subsection \<open>Each test passes\<close>

text \<open>The state every test of this file starts from: a deal financed in full.\<close>

lemma deal_owing:
  assumes "linked ra w" and "10000000 \<le> amount" and "amount < 2 ^ 96" and "1 \<le> rate" and "rate \<le> 10000"
    and "86400 \<le> dur" and "dur \<le> 31536000"
  obtains w' o0 where "finance_deal x y amount rate dur w = Inr w'" "owing ra x y o0 [] 0 w'" "small_loan o0"
    "left_of o0 [] amount" "off_amount o0 = amount" "off_interest_rate o0 = rate" "off_amount_repaid o0 = 0"
    "w_reputation w' = w_reputation w"
proof -
  let ?o = "accepted 1000000 (new_offer y x (Address 3) amount rate dur)"
  obtain w' where "finance_deal x y amount rate dur w = Inr w'" "owing ra x y ?o [] 0 w'" "w_reputation w' = w_reputation w"
    by (rule finance_deal_runs [OF assms])
  moreover have "off_amount ?o = amount" "off_interest_rate ?o = rate" "off_amount_repaid ?o = 0"
    by (simp_all add: accepted_def new_offer_def)
  moreover from this have "small_loan ?o" "left_of ?o [] amount" using assms(2,3,5)
    by (simp_all add: small_loan_def left_of_def remaining_of_def total_principal_repaid_def sub_i128_def chk_i128_def in_i128_def)
  ultimately show ?thesis using that by blast
qed

lemma days_later_small: "d \<le> 400 \<Longrightarrow> days_later d = Inr (1000000 + d * 86400)"
  by (simp add: days_later_def mul_u64_def add_u64_def)

lemma never_exceeds_passes:
  assumes "10000000 \<le> amount" and "amount < 2 ^ 96" and "1 \<le> rate" and "rate \<le> 10000" and "d \<le> 400"
    and "0 < overshoot" and "overshoot < 2 ^ 96"
  shows "test_repay_never_exceeds_total_owed amount rate d overshoot = Inr ()"
proof -
  let ?x = "Symbol ''inv_ex''" and ?y = "Symbol ''off_ex''" and ?e = "repay_env (1000000 + d * 86400)"
  let ?r = "interest_on amount rate d" and ?amt = "amount + interest_on amount rate d + overshoot"
  obtain w0 where w0: "deploy_lending = Inr w0" "linked None w0" by (rule deploy_lending_runs)
  obtain w1 o0 where w1: "finance_deal ?x ?y amount rate 2592000 w0 = Inr w1" "owing None ?x ?y o0 [] 0 w1" "small_loan o0"
    "left_of o0 [] amount" "off_amount o0 = amount" "off_interest_rate o0 = rate"
    by (rule deal_owing [OF w0(2) assms(1-4), of 2592000 ?x ?y]) auto
  note r = interest_on_bounds [of amount rate d]
  have due: "calculate_total_due ?e ?y w1 = Inr (amount + ?r)" using quotes(2) [OF w1(2-4) assms(5)] by (simp add: w1(6))
  have pos: "0 \<le> ?amt" "in_i128 ?amt" using r assms by (auto simp: in_i128_def)
  obtain w2 where w2: "fund (Address 5) (Address 102) ?amt w1 = Inr w2" "owing None ?x ?y o0 [] 0 w2"
    by (rule owing_fund [OF w1(2) pos(1), of "Address 5" "Address 102"])
  have "rejected (repay_invoice ledger_token ?e ?x ?y (Address 5) ?amt w2)"
  proof (rule rejected_ok)
    fix res assume "repay_invoice ledger_token ?e ?x ?y (Address 5) ?amt w2 = Inr res"
    then have "repay_invoice ledger_token ?e ?x ?y (Address 5) ?amt w2 = Inr (fst res, snd res)" by simp
    then show False
    proof (rule repay_invoice_ok)
      fix i o1 rem acc
      assume "map_of (offers (w_financing w2)) ?y = Some o1"
        and ob: "repay_obligation ?e ?x i o1 ?amt (w_repayment w2) = Inr (rem, acc)"
      then have "o1 = o0" using w2(2) by (simp add: owing_def)
      then have "rem = amount" "acc = ?r" "penalty_now ?e (inv_due_date i) o1 (w_repayment w2) = 0"
        using repay_obligation_ok [OF ob] w2(2) w1(5,6) pro_rata_small [of amount rate d] assms
        by (auto simp: owing_def principal_repaid_def interest_now_def penalty_now_def lending_def get_penalty_bps_def get_penalty_cap_bps_def)
      with repay_obligation_ok [OF ob] assms(6) show False by linarith
    qed
  qed
  with pos(2) show ?thesis
    by (simp add: test_repay_never_exceeds_total_owed_def Let_def w0(1) w1(1) days_later_small [OF assms(5)] due w2(1)
        add_i128_def chk_i128_def)
qed

lemma monotonic_passes:
  assumes "10000000 \<le> amount" and "amount < 2 ^ 96" and "1 \<le> rate" and "rate \<le> 10000" and "d1 + d2 \<le> 400"
  shows "test_interest_monotonic_with_time amount rate d1 d2 = Inr ()"
proof -
  let ?x = "Symbol ''inv_mt''" and ?y = "Symbol ''off_mt''"
  have d1: "d1 \<le> 400" using assms(5) by simp
  obtain w0 where w0: "deploy_lending = Inr w0" "linked None w0" by (rule deploy_lending_runs)
  obtain w1 o0 where w1: "finance_deal ?x ?y amount rate 31536000 w0 = Inr w1" "owing None ?x ?y o0 [] 0 w1" "small_loan o0"
    "left_of o0 [] amount" "off_amount o0 = amount" "off_interest_rate o0 = rate"
    by (rule deal_owing [OF w0(2) assms(1-4), of 31536000 ?x ?y]) auto
  have "interest_on amount rate d1 \<le> interest_on amount rate (d1 + d2)"
    using assms(1) by (auto simp: interest_on_def intro!: zdiv_mono1 mult_left_mono)
  moreover have "add_u64 d1 d2 = Inr (d1 + d2)" using assms(5) by (simp add: add_u64_def)
  ultimately show ?thesis
    by (simp add: test_interest_monotonic_with_time_def Let_def w0(1) w1(1) days_later_small [OF d1]
        days_later_small [OF assms(5)] quotes(1) [OF w1(2-4) d1] quotes(1) [OF w1(2-4) assms(5)] w1(6)
        del: distrib_right_numeral)
qed

text \<open>The first payment of the first test: a share of the obligation, at least the floor and not all of it.\<close>

definition first_payment :: "int \<Rightarrow> int \<Rightarrow> int \<Rightarrow> int" where
  "first_payment amount acc ratio = max (min (max ((amount + acc) div ratio) (amount div 100)) (amount + acc - 1)) (amount div 100)"

lemma first_payment_bounds:
  assumes "100 \<le> amount" and "0 \<le> acc"
  shows "0 < first_payment amount acc ratio" "amount div 100 \<le> first_payment amount acc ratio"
    "first_payment amount acc ratio < amount + acc"
  using assms by (simp_all add: first_payment_def)

lemma math_amounts_eq:
  assumes "100 \<le> amount" and "amount < 2 ^ 96" and "rate \<le> 10000" and "0 < ratio"
  defines "acc \<equiv> interest_on amount rate 365"
  shows "math_amounts amount rate ratio = Inr (acc, amount + acc, first_payment amount acc ratio, amount + acc - first_payment amount acc ratio)"
proof -
  note n = product_bounds [of amount rate 365] and acc = interest_on_bounds [of amount rate 365]
  have r: "in_i128 (amount * int rate)" "in_i128 (amount * int rate * 365)" "in_i128 acc" "in_i128 (amount + acc)"
    "in_i128 (amount + acc - 1)" "in_i128 (amount div 100)" "in_i128 ((amount + acc) div ratio)"
    "in_i128 (amount + acc - first_payment amount acc ratio)"
    using n acc assms(1-4) first_payment_bounds [of amount acc ratio] zdiv_mono2 [of "amount + acc" 1 ratio]
    by (auto simp: acc_def pos_imp_zdiv_nonneg_iff intro!: nonneg_in_i128)
  have acc': "amount * int rate * 365 sdiv 3650000 = acc" "(amount + acc) sdiv ratio = (amount + acc) div ratio"
    "amount sdiv 100 = amount div 100"
    using n acc assms(1-4) by (simp_all add: acc_def interest_on_def)
  show ?thesis
    using r assms(4)
    by (simp add: math_amounts_def mul_i128_def div_i128_def add_i128_def sub_i128_def chk_i128_def acc' Let_def first_payment_def)
qed

lemma math_split_free: "0 \<le> amt \<Longrightarrow> amt < 2 ^ 127 \<Longrightarrow> math_split amt 0 = Inr (0, amt)"
  by (simp add: math_split_def mul_i128_def div_i128_def sub_i128_def chk_i128_def in_i128_def)

lemma math_rest_passes:
  assumes w: "owing None x y o0 [rec] paid w" and o0: "small_loan o0" "left_of o0 [rec] rem" and paid: "0 \<le> paid" "paid < 2 ^ 100"
  obtains w' where "math_rest (repay_env (1000000 + 365 * 86400)) x y 0 (holds (Address 9) w) (holds (Address 3) w) w = Inr w'"
    "paid \<le> total_repaid (fin_load_stats (w_financing w'))"
proof -
  define e where "e = repay_env (1000000 + 365 * 86400)"
  let ?amt = "rem + interest_on rem (off_interest_rate o0) 365"
  have rem: "0 \<le> rem" "rem < 2 ^ 96" "off_interest_rate o0 \<le> 10000" "0 < rem" using o0 by (auto simp: small_loan_def left_of_def)
  have r: "0 \<le> interest_on rem (off_interest_rate o0) 365" "interest_on rem (off_interest_rate o0) 365 < 2 ^ 98"
    using interest_on_bounds [OF rem(1-3), of 365] by simp_all
  have d: "365 \<le> (400 :: nat)" by simp
  have due: "calculate_total_due e y w = Inr ?amt" using quotes(2) [OF w o0 d] by (simp only: e_def)
  obtain w1 where w1: "fund (Address 5) (Address 102) ?amt w = Inr w1" "owing None x y o0 [rec] paid w1"
    "balances (w_token w1) = (balances (w_token w))(Address 50 :=
       (balances (w_token w) (Address 50))(Address 5 := balances (w_token w) (Address 50) (Address 5) + ?amt))"
    by (rule owing_fund [OF w, of ?amt "Address 5" "Address 102"]) (use rem r in auto)
  have pos: "0 \<le> balances (w_token w) (Address 50) (Address 5)" using w by (auto simp: owing_def intro: solventD)
  have quiet: "repadd (w_repayment w1) = None" using w1(2) by (simp add: owing_def)
  obtain i' w2 rec2 where w2: "repay_invoice ledger_token e x y (Address 5) ?amt w1 = Inr (i', w2)"
    "get_invoice x (w_registry w2) = Inr i'" "inv_status i' = InvRepaid"
    "get_offer y (w_financing w2) = Inr (paid_offer rem True o0)"
    "load_payments x (w_repayment w2) = [rec] @ [rec2]"
    "balances (w_token w2) = (balances (w_token w1))(Address 50 :=
       moved (balances (w_token w1) (Address 50)) (Address 5) (Address 3) ?amt)"
    "get_fee_bps (w_financing w2) = 0" "total_repaid (fin_load_stats (w_financing w2)) = paid + ?amt"
    "rp_financing (w_repayment w2) = Some (Address 101)"
    by (rule pay_runs [OF w1(2) o0 d, of ?amt "w_reputation w1", folded e_def]) (use rem r paid pos in \<open>auto simp: w1(3) report_outcome_def quiet\<close>)
  have env: "rp_financing_env e (w_repayment w2) = Inr (call_env e FinancingC)"
    using w2(9) by (simp add: rp_env_Inr_iff e_def call_env_def)
  have "get_remaining_principal e y w2 = Inr 0"
    by (simp add: get_remaining_principal_def env w2(4) settled_def paid_offer_def)
  moreover have "holds (Address 9) w2 = holds (Address 9) w" "holds (Address 3) w2 = holds (Address 3) w + ?amt"
    by (simp_all add: w2(6) w1(3) moved_def Let_def)
  moreover have "math_split ?amt 0 = Inr (0, ?amt)" using rem r by (intro math_split_free) simp_all
  ultimately have "math_rest e x y 0 (holds (Address 9) w) (holds (Address 3) w) w = Inr w2"
    by (simp add: math_rest_def Let_def due w1(1) w2(1-5,7) paid_offer_def get_payment_history_def)
  then show ?thesis using that w2(8) rem r by (simp add: e_def)
qed

lemma math_invariants_passes:
  assumes "10000000 \<le> amount" and "amount < 2 ^ 96" and "1 \<le> rate" and "rate \<le> 10000" and "fee \<le> 500" and "0 < ratio"
  shows "test_repay_invoice_math_invariants amount rate fee ratio = Inr ()"
proof -
  define e where "e = repay_env (1000000 + 365 * 86400)"
  let ?x = "Symbol ''inv_pt''" and ?y = "Symbol ''off_pt''" and ?acc = "interest_on amount rate 365"
  define part where "part = first_payment amount ?acc ratio"
  let ?pr = "part - min part ?acc"
  have d: "365 \<le> (400 :: nat)" by simp
  have acc: "0 \<le> ?acc" "?acc < 2 ^ 98" using interest_on_bounds [of amount rate 365] assms by simp_all
  have part: "0 < part" "amount div 100 \<le> part" "part < amount + ?acc"
    using first_payment_bounds [of amount ?acc ratio] acc assms(1) by (simp_all add: part_def)
  have open_end: "\<not> amount \<le> ?pr" "0 \<le> ?pr" using part assms(1) by auto
  obtain w0 where w0: "deploy_lending = Inr w0" "linked None w0" by (rule deploy_lending_runs)
  obtain w1 where w1: "on_registry (set_fee (reg_env 1000000) (one_signer (Address 9)) fee) w0 = Inr w1" "linked None w1"
    by (rule set_fee_runs [OF w0(2) assms(5)])
  obtain w2 o0 where w2: "finance_deal ?x ?y amount rate 2592000 w1 = Inr w2" "owing None ?x ?y o0 [] 0 w2" "small_loan o0"
    "left_of o0 [] amount" "off_amount o0 = amount" "off_interest_rate o0 = rate" "off_amount_repaid o0 = 0"
    by (rule deal_owing [OF w1(2) assms(1-4), of 2592000 ?x ?y]) auto
  obtain w3 where w3: "fund (Address 5) (Address 102) (amount + ?acc) w2 = Inr w3" "owing None ?x ?y o0 [] 0 w3"
    "balances (w_token w3) = (balances (w_token w2))(Address 50 := (balances (w_token w2) (Address 50))
       (Address 5 := balances (w_token w2) (Address 50) (Address 5) + (amount + ?acc)))"
    by (rule owing_fund [OF w2(2), of "amount + ?acc" "Address 5" "Address 102"]) (use assms(1) acc in auto)
  have rich: "part \<le> balances (w_token w3) (Address 50) (Address 5)"
    using part solventD [of "w_token w2" "Address 50" "Address 5"] w2(2) by (simp add: w3(3) owing_def)
  have floor: "part \<le> amount + interest_on amount (off_interest_rate o0) 365"
    "off_amount o0 div 100 \<le> part \<or> part = amount + interest_on amount (off_interest_rate o0) 365"
    using part w2(5,6) by auto
  note pay = pay_runs [OF w3(2) w2(3,4) d part(1) floor rich, of "w_reputation w3", unfolded w2(6), folded e_def]
  obtain i' w4 rec where w4: "repay_invoice ledger_token e ?x ?y (Address 5) part w3 = Inr (i', w4)"
    "get_invoice ?x (w_registry w4) = Inr i'" "inv_status i' = InvFinanced"
    "get_offer ?y (w_financing w4) = Inr (paid_offer ?pr False o0)" "pay_principal_paid rec = ?pr"
    "balances (w_token w4) = (balances (w_token w3))(Address 50 :=
       moved (balances (w_token w3) (Address 50)) (Address 5) (Address 3) part)"
    "get_fee_bps (w_financing w4) = 0" "owing None ?x ?y (paid_offer ?pr False o0) [rec] part w4"
    by (rule pay) (use open_end in simp_all)
  let ?o1 = "paid_offer ?pr False o0"
  have "?pr \<le> amount" "0 \<le> amount - ?pr" "amount - ?pr \<le> amount" using open_end by linarith+
  moreover from this have "in_i128 ?pr" "in_i128 (amount - ?pr)"
    using open_end assms(2) by (auto intro!: nonneg_in_i128)
  ultimately have o1: "small_loan ?o1" "left_of ?o1 [rec] (amount - ?pr)"
    using w2(3,5,7) open_end assms(1) w4(5)
    by (simp_all add: small_loan_def left_of_def paid_offer_def remaining_of_def total_principal_repaid_def
        add_i128_def sub_i128_def chk_i128_def)
  have "part < 2 ^ 100" using part(3) acc(2) assms(2) by simp
  with part(1) obtain w5 where w5: "math_rest e ?x ?y 0 (holds (Address 9) w4) (holds (Address 3) w4) w4 = Inr w5"
    "part \<le> total_repaid (fin_load_stats (w_financing w5))"
    by (rule_tac math_rest_passes [OF w4(8) o1, folded e_def]) simp_all
  have holds4: "holds (Address 9) w4 = holds (Address 9) w3" "holds (Address 3) w4 = holds (Address 3) w3 + part"
    "holds (Address 5) w4 = holds (Address 5) w3 - part"
    by (simp_all add: w4(6) moved_def Let_def)
  have now: "days_later 365 = Inr (1000000 + 365 * 86400)" by (rule days_later_small) simp
  have "math_amounts amount rate ratio = Inr (?acc, amount + ?acc, part, amount + ?acc - part)"
    using math_amounts_eq [of amount rate ratio] assms by (simp add: part_def)
  moreover have "math_split part 0 = Inr (0, part)" using \<open>part < 2 ^ 100\<close> part(1) by (intro math_split_free) simp_all
  moreover have "repay_env 32536000 = e" by (simp add: e_def)
  ultimately show ?thesis
    using w5(1) part(3)
    by (simp add: test_repay_invoice_math_invariants_def Let_def w0(1) w1(1) w2(1) now w3(1) w4(1-4,7) w2(7)
        holds4 [simplified] paid_offer_def min.commute fin_get_stats_def w5(2))
qed

subsection \<open>Every input passes\<close>

text \<open>
  C30. Every property test of the repayment contract passes on every generated input: for amounts
  from \<open>10^7\<close> up to \<open>2^96\<close> (the generators stop at \<open>10^11\<close>), every admitted rate and fee, every
  positive divisor of the first payment and up to 400 days, a first payment moves exactly its amount
  from originator to lender, counts only its principal towards the offer and leaves the loan open;
  paying the quoted total afterwards closes offer and invoice with two records and nothing left. A
  payment above the quoted total is rejected, and the accrued interest never falls with time.
\<close>

theorem repayment_property_tests_pass:
  assumes "10000000 \<le> amount" and "amount < 2 ^ 96" and "1 \<le> rate" and "rate \<le> 10000" and "fee \<le> 500" and "0 < ratio"
    and "days \<le> 400" and "0 < overshoot" and "overshoot < 2 ^ 96" and "t1 + t2 \<le> 400"
  shows "test_repay_invoice_math_invariants amount rate fee ratio = Inr () \<and>
    test_repay_never_exceeds_total_owed amount rate days overshoot = Inr () \<and>
    test_interest_monotonic_with_time amount rate t1 t2 = Inr ()"
  using assms by (simp add: math_invariants_passes never_exceeds_passes monotonic_passes)

lemma repayment_property_tests_pass_witness:
  "test_repay_invoice_math_invariants 50000000 500 25 3 = Inr () \<and>
   test_repay_never_exceeds_total_owed 50000000 500 90 1 = Inr () \<and>
   test_interest_monotonic_with_time 50000000 500 30 60 = Inr ()"
  by (rule repayment_property_tests_pass) simp_all

end
