(* ===== verification/Reputation_Tests.thy ===== *)
theory Reputation_Tests
  imports Test_Harness
begin

text \<open>
  The property tests of \<open>reputation/src/proptest.rs\<close>, one definition per test function: the contract
  is deployed by its constructor, the admin sets a recorder, and generated outcomes are recorded
  through the entry points. \<open>proptest\<close> samples the generators; the theorem at the end covers every
  input they can produce, and outcome sequences far longer than theirs.
\<close>

subsection \<open>The tests\<close>

definition rep_env :: "nat \<Rightarrow> env" where
  "rep_env now = demo_env now (Address 2)"

definition rep_setup :: "error + reputation" where
  "rep_setup =
     bindE (reputation_constructor (Address 1) empty_reputation) (\<lambda>repu.
     set_recorder (rep_env 0) [Address 1] (Address 3) repu)"

definition test_score_never_negative :: "bool list \<Rightarrow> error + unit" where
  "test_score_never_negative outcomes =
     bindE rep_setup (\<lambda>repu.
     bindE (foldE (\<lambda>is_default repu.
         let outcome = (if is_default then OUTCOME_DEFAULTED else OUTCOME_REPAID) in
         bindE (record_outcome (rep_env 0) (Address 4) outcome repu) (\<lambda>repu.
         bindE (get_score (Address 4) repu) (\<lambda>score.
         bindE (prop_assert (0 \<le> score)) (\<lambda>_. Inr repu)))) outcomes repu) (\<lambda>_.
     Inr ()))"

definition test_repayment_never_decreases_score :: "bool list \<Rightarrow> error + unit" where
  "test_repayment_never_decreases_score outcomes =
     bindE rep_setup (\<lambda>repu.
     bindE (foldE (\<lambda>is_default repu.
         bindE (get_score (Address 4) repu) (\<lambda>before.
         let outcome = (if is_default then OUTCOME_DEFAULTED else OUTCOME_REPAID) in
         bindE (record_outcome (rep_env 0) (Address 4) outcome repu) (\<lambda>repu.
         bindE (get_score (Address 4) repu) (\<lambda>after.
         bindE (if \<not> is_default then prop_assert (before \<le> after) else Inr ()) (\<lambda>_. Inr repu))))) outcomes repu) (\<lambda>_.
     Inr ()))"

definition test_default_never_increases_score :: "bool list \<Rightarrow> error + unit" where
  "test_default_never_increases_score outcomes =
     bindE rep_setup (\<lambda>repu.
     bindE (foldE (\<lambda>is_default repu.
         bindE (get_score (Address 4) repu) (\<lambda>before.
         let outcome = (if is_default then OUTCOME_DEFAULTED else OUTCOME_REPAID) in
         bindE (record_outcome (rep_env 0) (Address 4) outcome repu) (\<lambda>repu.
         bindE (get_score (Address 4) repu) (\<lambda>after.
         bindE (if is_default then prop_assert (after \<le> before) else Inr ()) (\<lambda>_. Inr repu))))) outcomes repu) (\<lambda>_.
     Inr ()))"

text \<open>The second contract of this test is a second state; the two have nothing in common.\<close>

definition test_score_deterministic_for_same_sequence :: "bool list \<Rightarrow> error + unit" where
  "test_score_deterministic_for_same_sequence outcomes =
     bindE rep_setup (\<lambda>repu_x.
     bindE rep_setup (\<lambda>repu_y.
     bindE (foldE (\<lambda>is_default (repu_x, repu_y).
         let outcome = (if is_default then OUTCOME_DEFAULTED else OUTCOME_REPAID) in
         bindE (record_outcome (rep_env 0) (Address 7) outcome repu_x) (\<lambda>repu_x.
         bindE (record_outcome (rep_env 0) (Address 8) outcome repu_y) (\<lambda>repu_y.
         Inr (repu_x, repu_y)))) outcomes (repu_x, repu_y)) (\<lambda>(repu_x, repu_y).
     bindE (get_score (Address 7) repu_x) (\<lambda>score_x.
     bindE (get_score (Address 8) repu_y) (\<lambda>score_y.
     prop_assert (score_x = score_y))))))"

definition test_decay_score_nonnegative_with_time_advancement :: "bool list \<Rightarrow> nat \<Rightarrow> error + unit" where
  "test_decay_score_nonnegative_with_time_advancement outcomes periods =
     bindE rep_setup (\<lambda>repu.
     bindE (foldE (\<lambda>is_default repu.
         let outcome = (if is_default then OUTCOME_DEFAULTED else OUTCOME_REPAID) in
         record_outcome (rep_env 1000000) (Address 4) outcome repu) outcomes repu) (\<lambda>repu.
     bindE (mul_u64 periods DECAY_HALF_LIFE_SECS) (\<lambda>advance.
     bindE (add_u64 1000000 advance) (\<lambda>now.
     bindE (record_outcome (rep_env now) (Address 4) OUTCOME_REPAID repu) (\<lambda>repu.
     bindE (get_score (Address 4) repu) (\<lambda>score.
     prop_assert (0 \<le> score)))))))"

definition test_fresh_default_full_weight_after_decay :: "nat \<Rightarrow> error + unit" where
  "test_fresh_default_full_weight_after_decay periods =
     bindE rep_setup (\<lambda>repu.
     bindE (record_outcome (rep_env 1000000) (Address 4) OUTCOME_REPAID repu) (\<lambda>repu.
     bindE (get_score (Address 4) repu) (\<lambda>before.
     bindE (prop_assert (before = 1)) (\<lambda>_.
     bindE (mul_u64 periods DECAY_HALF_LIFE_SECS) (\<lambda>advance.
     bindE (add_u64 1000000 advance) (\<lambda>now.
     bindE (record_outcome (rep_env now) (Address 4) OUTCOME_DEFAULTED repu) (\<lambda>repu.
     bindE (get_score (Address 4) repu) (\<lambda>after.
     bindE (prop_assert (0 \<le> after)) (\<lambda>_.
     prop_assert (after \<le> 1))))))))))"

subsection \<open>The state between two outcomes\<close>

text \<open>
  \<open>recording a t n s\<close>: the contract records for \<open>a\<close>, everything recorded so far was recorded at
  \<open>t\<close>, and no counter has passed \<open>n\<close>.
\<close>

definition recording :: "address \<Rightarrow> nat \<Rightarrow> nat \<Rightarrow> reputation \<Rightarrow> bool" where
  "recording a t n s \<longleftrightarrow> \<not> paused s \<and> recorder s = Some (Address 3) \<and> undecayed (get_record a s) \<and>
     rr_repayments (get_record a s) \<le> n \<and> rr_defaults (get_record a s) \<le> n \<and>
     rr_last_recompute (get_record a s) \<in> {0, t}"

lemma rep_setup_runs: obtains s where "rep_setup = Inr s" "\<And>a t. recording a t 0 s" "\<And>a. get_record a s = fresh_record"
proof -
  have "\<exists>s. rep_setup = Inr s \<and> \<not> paused s \<and> recorder s = Some (Address 3) \<and> rep_records s = []"
    by (simp add: rep_setup_def reputation_constructor_def init_admin_config_def initialize_contract_version_def
        empty_reputation_def publish_def parse_cargo_version set_recorder_def assert_not_paused_def assert_admin_def
        load_admin_config_def save_admin_config_def assert_threshold_def is_signer_def require_auth_def rep_env_def)
  then obtain s where "rep_setup = Inr s" "\<not> paused s" "recorder s = Some (Address 3)" "rep_records s = []"
    by blast
  then show ?thesis by (intro that [of s]) (simp_all add: recording_def get_record_def undecayed_def)
qed

lemma recording_score:
  "recording a t n s \<Longrightarrow> get_score a s =
     Inr (max (int (rr_repayments (get_record a s)) - 2 * int (rr_defaults (get_record a s))) 0)"
  using score_of_ok [of "get_record a s"] by (simp add: recording_def undecayed_def get_score_def get_record_def)

lemma record_at:
  assumes "recording a t n s" and "n < 2 ^ 32 - 1" and "out \<in> {0, 1}"
  obtains s' where "record_outcome (rep_env t) a out s = Inr s'" "recording a t (Suc n) s'"
    "get_record a s' = scored t out (get_record a s)"
proof -
  let ?r = "get_record a s"
  have r: "record_ok ?r" "\<not> paused s" "recorder s = Some (Address 3)" "half_lives ?r t = 0"
    using assms(1) by (auto simp: recording_def undecayed_def half_lives_def)
  have "rr_repayments ?r < 2 ^ 32 - 1" "rr_defaults ?r < 2 ^ 32 - 1" "authorizes (rep_env t) (Address 3)"
    using assms(1,2) by (auto simp: recording_def rep_env_def)
  from record_outcome_succeeds [OF r(1-3) this(3) assms(3) this(1,2)]
  obtain s' where s': "record_outcome (rep_env t) a out s = Inr s'"
    "rep_records s' = sm_set (rep_records s) a (scored t out ?r)" "record_ok (scored t out ?r)"
    "paused s' = paused s" "recorder s' = recorder s" by (auto simp: rep_env_def)
  then have "get_record a s' = scored t out ?r" by (simp add: get_record_set)
  moreover have "recording a t (Suc n) s'"
    using s' assms(1,3) r(4) calculation by (auto simp: recording_def undecayed_def scored_def)
  ultimately show ?thesis using s'(1) that by blast
qed


text \<open>The common shape of the tests: set-up, the outcomes one after another, and what is left to do.\<close>

lemma outcome_test:
  assumes "length outcomes < 2 ^ 32 - 1"
    and body: "\<And>d n s s'. recording a t n s \<Longrightarrow> recording a t (Suc n) s' \<Longrightarrow>
      get_record a s' = scored t (if d then 1 else 0) (get_record a s) \<Longrightarrow>
      record_outcome (rep_env t) a (if d then 1 else 0) s = Inr s' \<Longrightarrow> f d s = Inr s'"
    and rest: "\<And>s. recording a t (length outcomes) s \<Longrightarrow> g s = Inr ()"
  shows "bindE rep_setup (\<lambda>s. bindE (foldE f outcomes s) g) = Inr ()"
proof (rule rep_setup_runs)
  fix s assume s: "rep_setup = Inr s" "\<And>a t. recording a t 0 s"
  show ?thesis
  proof (rule foldE_succeeds [of "recording a t" 0 s outcomes f])
    show "\<exists>s'. f d s = Inr s' \<and> recording a t (Suc n) s'"
      if "d \<in> set outcomes" "0 \<le> n" "n < 0 + length outcomes" "recording a t n s" for n d s
    proof -
      have "n < 2 ^ 32 - 1" using that(3) assms(1) by simp
      from record_at [OF that(4) this, of "if d then 1 else 0"] body [OF that(4)] show ?thesis
        by (metis insertCI)
    qed
    fix s' assume "foldE f outcomes s = Inr s'" "recording a t (0 + length outcomes) s'"
    then show ?thesis using rest by (simp add: s(1))
  qed (rule s(2))
qed

lemma score_after_one:
  assumes "recording a t n s" and "recording a t (Suc n) s'" and "get_record a s' = scored t (if d then 1 else 0) (get_record a s)"
  obtains x y where "get_score a s = Inr x" "get_score a s' = Inr y" "0 \<le> y" "d \<Longrightarrow> y \<le> x" "\<not> d \<Longrightarrow> x \<le> y"
  using recording_score [OF assms(1)] recording_score [OF assms(2)] assms(3) that by simp

lemma score_never_negative_passes:
  "length outcomes < 2 ^ 32 - 1 \<Longrightarrow> test_score_never_negative outcomes = Inr ()"
  unfolding test_score_never_negative_def
  by (rule outcome_test [where a = "Address 4" and t = 0]) (auto elim: score_after_one)

lemma repayment_never_decreases_passes:
  "length outcomes < 2 ^ 32 - 1 \<Longrightarrow> test_repayment_never_decreases_score outcomes = Inr ()"
  unfolding test_repayment_never_decreases_score_def
  by (rule outcome_test [where a = "Address 4" and t = 0]) (auto elim: score_after_one)

lemma default_never_increases_passes:
  "length outcomes < 2 ^ 32 - 1 \<Longrightarrow> test_default_never_increases_score outcomes = Inr ()"
  unfolding test_default_never_increases_score_def
  by (rule outcome_test [where a = "Address 4" and t = 0]) (auto elim: score_after_one)

text \<open>Later records: whatever decays, a recorded outcome leaves a score, and the score has a floor.\<close>

lemma record_later:
  assumes "recording a t n s" and "n < 2 ^ 32 - 1" and "out \<in> {0, 1}"
  obtains s' where "record_outcome (rep_env now) a out s = Inr s'"
    "get_score a s' = Inr (max (rr_weighted_repayments (scored now out (get_record a s)) -
       rr_weighted_defaults (scored now out (get_record a s))) 0)"
proof -
  let ?r = "get_record a s"
  have "record_ok ?r" "\<not> paused s" "recorder s = Some (Address 3)" "authorizes (rep_env now) (Address 3)"
    "rr_repayments ?r < 2 ^ 32 - 1" "rr_defaults ?r < 2 ^ 32 - 1"
    using assms(1,2) by (auto simp: recording_def undecayed_def rep_env_def)
  from record_outcome_succeeds [OF this(1-4) assms(3) this(5,6)]
  obtain s' where "record_outcome (rep_env now) a out s = Inr s'"
    "rep_records s' = sm_set (rep_records s) a (scored now out ?r)" "record_ok (scored now out ?r)"
    by (auto simp: rep_env_def)
  then show ?thesis using that score_of_ok [of "scored now out ?r"]
    by (simp add: get_score_def get_record_set [unfolded get_record_def] flip: get_record_def)
qed

lemma decay_nonnegative_passes:
  assumes "length outcomes < 2 ^ 32 - 1" and "1000000 + periods * DECAY_HALF_LIFE_SECS < 2 ^ 64"
  shows "test_decay_score_nonnegative_with_time_advancement outcomes periods = Inr ()"
  unfolding test_decay_score_nonnegative_with_time_advancement_def
proof (rule outcome_test [where a = "Address 4" and t = 1000000])
  fix s assume "recording (Address 4) 1000000 (length outcomes) s"
  then obtain s' x where
    "record_outcome (rep_env (1000000 + periods * DECAY_HALF_LIFE_SECS)) (Address 4) 0 s = Inr s'"
    "get_score (Address 4) s' = Inr (max x 0)"
    by (rule record_later [OF _ assms(1), of _ _ _ 0 "1000000 + periods * DECAY_HALF_LIFE_SECS"]) auto
  then show "bindE (mul_u64 periods DECAY_HALF_LIFE_SECS) (\<lambda>advance. bindE (add_u64 1000000 advance) (\<lambda>now.
     bindE (record_outcome (rep_env now) (Address 4) OUTCOME_REPAID s) (\<lambda>repu.
     bindE (get_score (Address 4) repu) (\<lambda>score. prop_assert (0 \<le> score))))) = Inr ()"
    using assms(2) by (simp add: mul_u64_def add_u64_def)
qed (use assms(1) in \<open>auto split: if_splits\<close>)

lemma fresh_default_passes:
  assumes "1 \<le> periods" and "1000000 + periods * DECAY_HALF_LIFE_SECS < 2 ^ 64"
  shows "test_fresh_default_full_weight_after_decay periods = Inr ()"
proof (rule rep_setup_runs)
  fix s assume s: "rep_setup = Inr s" "\<And>a t. recording a t 0 s" "\<And>a. get_record a s = fresh_record"
  let ?a = "Address 4"
  obtain s1 where s1: "record_outcome (rep_env 1000000) ?a 0 s = Inr s1" "recording ?a 1000000 (Suc 0) s1"
    "get_record ?a s1 = scored 1000000 0 fresh_record"
    by (rule record_at [OF s(2), of 0 1000000 ?a]) (auto simp: s(3))
  obtain s2 where s2: "record_outcome (rep_env (1000000 + periods * DECAY_HALF_LIFE_SECS)) ?a 1 s1 = Inr s2"
    "get_score ?a s2 = Inr 0"
    by (rule record_later [OF s1(2), of 1 "1000000 + periods * DECAY_HALF_LIFE_SECS"])
      (use assms(1) in \<open>auto simp: s1(3) scored_def half_lives_def\<close>)
  have "get_score ?a s1 = Inr 1" using recording_score [OF s1(2)] by (simp add: s1(3))
  with s1 s2 show ?thesis using assms(2)
    by (simp add: s(1) test_fresh_default_full_weight_after_decay_def mul_u64_def add_u64_def)
qed

lemma deterministic_passes:
  assumes "length outcomes < 2 ^ 32 - 1"
  shows "test_score_deterministic_for_same_sequence outcomes = Inr ()"
proof (rule rep_setup_runs)
  fix s assume s: "rep_setup = Inr s" "\<And>a t. recording a t 0 s" "\<And>a. get_record a s = fresh_record"
  define f where "f = (\<lambda>is_default (repu_x, repu_y).
         let outcome = (if is_default then OUTCOME_DEFAULTED else OUTCOME_REPAID) in
         bindE (record_outcome (rep_env 0) (Address 7) outcome repu_x) (\<lambda>repu_x.
         bindE (record_outcome (rep_env 0) (Address 8) outcome repu_y) (\<lambda>repu_y. Inr (repu_x, repu_y))))"
  define P where "P = (\<lambda>n (x, y). recording (Address 7) 0 n x \<and> recording (Address 8) 0 n y \<and>
    get_record (Address 7) x = get_record (Address 8) y)"
  have step: "\<exists>s'. f d p = Inr s' \<and> P (Suc n) s'" if n: "n < 2 ^ 32 - 1" and p: "P n p" for n d p
  proof (cases p)
    case (Pair x y)
    with p have xy: "recording (Address 7) 0 n x" "recording (Address 8) 0 n y"
      "get_record (Address 7) x = get_record (Address 8) y" by (auto simp: P_def)
    let ?out = "if d then 1 else 0 :: nat"
    obtain x' where "record_outcome (rep_env 0) (Address 7) ?out x = Inr x'" "recording (Address 7) 0 (Suc n) x'"
      "get_record (Address 7) x' = scored 0 ?out (get_record (Address 7) x)"
      by (rule record_at [OF xy(1) n, of ?out]) auto
    moreover obtain y' where "record_outcome (rep_env 0) (Address 8) ?out y = Inr y'" "recording (Address 8) 0 (Suc n) y'"
      "get_record (Address 8) y' = scored 0 ?out (get_record (Address 8) y)"
      by (rule record_at [OF xy(2) n, of ?out]) auto
    ultimately show ?thesis using xy(3) by (cases d) (simp_all add: f_def P_def Pair)
  qed
  obtain s' where "foldE f outcomes (s, s) = Inr s'" "P (0 + length outcomes) s'"
    by (rule foldE_succeeds [of P 0 "(s, s)" outcomes f])
      (use assms step s(2,3) in \<open>auto simp: P_def\<close>)
  then show ?thesis using recording_score
    by (cases s') (auto simp: s(1) test_score_deterministic_for_same_sequence_def P_def f_def)
qed

subsection \<open>Every input passes\<close>

text \<open>
  Every property test of the reputation contract passes on every generated input: for all
  sequences of fewer than \<open>2^32 - 1\<close> outcomes (the generators stop at 30) and every number of
  half-lives from 1 on that still fits the clock (the generators stop at 50), the freshly deployed
  contract accepts every outcome, no score is negative, a repayment never lowers and a default never
  raises the score, equal histories give equal scores, and a default recorded after a decayed
  repayment leaves a score of at most 1.
\<close>

theorem reputation_property_tests_pass:
  assumes "length outcomes < 2 ^ 32 - 1"
    and "1 \<le> periods" and "1000000 + periods * DECAY_HALF_LIFE_SECS < 2 ^ 64"
  shows "test_score_never_negative outcomes = Inr () \<and>
    test_repayment_never_decreases_score outcomes = Inr () \<and>
    test_default_never_increases_score outcomes = Inr () \<and>
    test_score_deterministic_for_same_sequence outcomes = Inr () \<and>
    test_decay_score_nonnegative_with_time_advancement outcomes periods = Inr () \<and>
    test_fresh_default_full_weight_after_decay periods = Inr ()"
  by (intro conjI score_never_negative_passes repayment_never_decreases_passes default_never_increases_passes
      deterministic_passes decay_nonnegative_passes fresh_default_passes assms)

lemma reputation_property_tests_pass_witness:
  "test_repayment_never_decreases_score [True, False, False, True] = Inr () \<and>
   test_decay_score_nonnegative_with_time_advancement [True, False, False, True] 3 = Inr () \<and>
   test_fresh_default_full_weight_after_decay 3 = Inr ()"
  using reputation_property_tests_pass [of "[True, False, False, True]" 3] by simp

end
