(* ===== verification/Integration_Tests.thy ===== *)
theory Integration_Tests
  imports Repayment_Tests Reputation_Tests
begin

text \<open>
  The property test of \<open>integration/src/proptest.rs\<close>: all five contracts of the protocol, deployed and
  wired by the crate's \<open>deploy_protocol\<close>, and one loan from registration to full repayment, with
  the reputation contract listening.
\<close>

subsection \<open>Deployment\<close>

definition deploy_protocol :: "error + ledger rworld" where
  "deploy_protocol =
     (let admin = Address 9; token_id = Address 50; registry_id = Address 100; financing_id = Address 101;
          repayment_id = Address 102; insurance_id = Address 103; reputation_id = Address 104;
          sgs = one_signer admin in
     bindE (registry_constructor admin empty_registry) (\<lambda>reg.
     bindE (financing_constructor admin registry_id token_id empty_financing) (\<lambda>fin.
     bindE (repayment_constructor admin registry_id financing_id token_id empty_repayment) (\<lambda>rep.
     bindE (insurance_constructor admin token_id empty_insurance) (\<lambda>ins.
     bindE (reputation_constructor admin empty_reputation) (\<lambda>repu.
     bindE (set_financing_contract (reg_env 1000000) sgs financing_id reg) (\<lambda>reg.
     bindE (set_repayment_contract (reg_env 1000000) sgs repayment_id reg) (\<lambda>reg.
     bindE (fin_set_repayment_contract (fin_env 1000000) sgs repayment_id fin) (\<lambda>fin.
     bindE (set_insurance (repay_env 1000000) sgs insurance_id rep) (\<lambda>rep.
     bindE (set_reputation (repay_env 1000000) sgs reputation_id rep) (\<lambda>rep.
     bindE (set_payout_caller (demo_env 1000000 insurance_id) sgs repayment_id ins) (\<lambda>ins.
     bindE (insurance_set_registry (demo_env 1000000 insurance_id) sgs registry_id ins) (\<lambda>ins.
     bindE (set_recorder (demo_env 1000000 reputation_id) sgs repayment_id repu) (\<lambda>repu.
     Inr \<lparr>w_registry = reg, w_financing = fin, w_token = empty_ledger, w_repayment = rep,
       w_insurance = ins, w_reputation = repu\<rparr>))))))))))))))"

subsection \<open>The test\<close>

definition test_full_repayment_reflects_in_reputation :: "int \<Rightarrow> nat \<Rightarrow> error + unit" where
  "test_full_repayment_reflects_in_reputation amount interest_rate =
     (let e = repay_env 1000000; originator = Address 5; repayment_id = Address 102;
          x = Symbol ''inv_e2e''; y = Symbol ''off_e2e'' in
     bindE deploy_protocol (\<lambda>w.
     bindE (get_score originator (w_reputation w)) (\<lambda>score_before.
     bindE (finance_deal x y amount interest_rate 2592000 w) (\<lambda>w.
     bindE (calculate_total_due e y w) (\<lambda>total_owed.
     bindE (fund originator repayment_id total_owed w) (\<lambda>w.
     bindE (repay_invoice ledger_token e x y originator total_owed w) (\<lambda>(_, w).
     bindE (get_invoice x (w_registry w)) (\<lambda>invoice.
     bindE (prop_assert (inv_status invoice = InvRepaid)) (\<lambda>_.
     bindE (get_score originator (w_reputation w)) (\<lambda>score.
     prop_assert (score_before \<le> score)))))))))))"

subsection \<open>It passes\<close>

lemma deploy_protocol_runs:
  obtains w where "deploy_protocol = Inr w" "linked (Some (Address 104)) w" "\<not> paused (w_reputation w)"
    "recorder (w_reputation w) = Some (Address 102)" "rep_records (w_reputation w) = []"
proof -
  have "\<exists>w. deploy_protocol = Inr w \<and> linked (Some (Address 104)) w \<and> \<not> paused (w_reputation w) \<and>
      recorder (w_reputation w) = Some (Address 102) \<and> rep_records (w_reputation w) = []"
    by (simp add: deploy_protocol_def Let_def registry_constructor_def financing_constructor_def repayment_constructor_def
        insurance_constructor_def reputation_constructor_def
        init_admin_config_def initialize_contract_version_def parse_cargo_version publish_def save_admin_config_def
        fin_set_repayment_contract_def set_repayment_contract_def set_financing_contract_def set_insurance_def
        set_reputation_def set_payout_caller_def insurance_set_registry_def set_recorder_def assert_not_paused_def
        assert_admin_def load_admin_config_def one_signer_def assert_threshold_def is_signer_def require_auth_def
        linked_def market_def wired_up_def lending_def load_stats_def no_offers_def fin_load_stats_def
        load_lender_stats_def load_penalty_config_def empty_repayment_def empty_financing_def empty_insurance_def
        empty_reputation_def)
  then show ?thesis using that by blast
qed

text \<open>What the repayment contract reports is recorded: the originator's first repayment scores one.\<close>

lemma first_report:
  assumes "repadd p = Some (Address 104)" and "\<not> paused s" and "recorder s = Some (Address 102)" and "rep_records s = []"
  obtains s' where "report_outcome (repay_env t) a 0 p s = Inr s'" "get_score a s' = Inr 1"
proof -
  let ?e = "call_env (repay_env t) ReputationC"
  have fresh: "get_record a s = fresh_record" using assms(4) by (simp add: get_record_def)
  have auth: "authorizes ?e (Address 102)" using call_env_authorizes [of "repay_env t" ReputationC] by simp
  obtain s' where s': "record_outcome ?e a 0 s = Inr s'"
    "rep_records s' = sm_set (rep_records s) a (scored (ledger_timestamp ?e) 0 fresh_record)"
    "record_ok (scored (ledger_timestamp ?e) 0 fresh_record)"
    by (rule record_outcome_succeeds [of a s "Address 102" ?e 0]) (use assms(2,3) auth in \<open>simp_all add: fresh\<close>)
  have "report_outcome (repay_env t) a 0 p s = Inr s'"
    using s'(1) assms(1) by (simp add: report_outcome_def callee_def call_env_def)
  moreover have "get_score a s' = Inr 1"
    using score_of_ok [OF s'(3)] s'(2) assms(4) by (simp add: get_score_def scored_def sm_get_or_def)
  ultimately show ?thesis by (rule that)
qed

text \<open>
  C29. The cross-contract property test passes on every generated input: in the fully wired protocol,
  for every amount from \<open>10^7\<close> up to \<open>2^96\<close> and every admitted rate, a loan is registered, offered,
  funded and accepted, paying the quoted total closes the invoice, and the originator's reputation
  score is not lower than before - all five contracts really called.
\<close>

theorem integration_property_test_passes:
  assumes "10000000 \<le> amount" and "amount < 2 ^ 96" and "1 \<le> rate" and "rate \<le> 10000"
  shows "test_full_repayment_reflects_in_reputation amount rate = Inr ()"
proof -
  define e where "e = repay_env (1000000 + 0 * 86400)"
  let ?x = "Symbol ''inv_e2e''" and ?y = "Symbol ''off_e2e''"
  obtain w0 where w0: "deploy_protocol = Inr w0" "linked (Some (Address 104)) w0" "\<not> paused (w_reputation w0)"
    "recorder (w_reputation w0) = Some (Address 102)" "rep_records (w_reputation w0) = []" by (rule deploy_protocol_runs)
  obtain w1 o0 where w1: "finance_deal ?x ?y amount rate 2592000 w0 = Inr w1" "owing (Some (Address 104)) ?x ?y o0 [] 0 w1"
    "small_loan o0" "left_of o0 [] amount" "w_reputation w1 = w_reputation w0"
    by (rule deal_owing [OF w0(2) assms, of 2592000 ?x ?y]) auto
  have free: "interest_on amount r 0 = 0" for r by (simp add: interest_on_def)
  have due: "calculate_total_due e ?y w1 = Inr amount"
    using quotes(2) [OF w1(2-4), of 0] by (simp only: e_def free) simp
  obtain w2 where w2: "fund (Address 5) (Address 102) amount w1 = Inr w2" "owing (Some (Address 104)) ?x ?y o0 [] 0 w2"
    "balances (w_token w2) = (balances (w_token w1))(Address 50 :=
       (balances (w_token w1) (Address 50))(Address 5 := balances (w_token w1) (Address 50) (Address 5) + amount))"
    "w_reputation w2 = w_reputation w1"
    by (rule owing_fund [OF w1(2), of amount "Address 5" "Address 102"]) (use assms(1) in auto)
  have rich: "amount \<le> balances (w_token w2) (Address 50) (Address 5)"
    using w1(2) by (auto simp: w2(3) owing_def intro: solventD)
  have listens: "repadd (w_repayment w2) = Some (Address 104)" using w2(2) by (simp add: owing_def)
  obtain s where s: "report_outcome e (Address 5) 0 (w_repayment w2) (w_reputation w2) = Inr s" "get_score (Address 5) s = Inr 1"
    by (rule first_report [OF listens, of "w_reputation w2" "1000000 + 0 * 86400" "Address 5", folded e_def])
      (use w0(3-5) in \<open>auto simp: w2(4) w1(5)\<close>)
  obtain i' w3 where w3: "repay_invoice ledger_token e ?x ?y (Address 5) amount w2 = Inr (i', w3)"
    "get_invoice ?x (w_registry w3) = Inr i'" "inv_status i' = InvRepaid" "w_reputation w3 = s"
    by (rule pay_runs [OF w2(2) w1(3,4), of 0 amount s, folded e_def]) (use assms(1) rich s(1) in \<open>auto simp: free\<close>)
  have "get_score (Address 5) (w_reputation w0) = Inr 0"
    by (simp add: get_score_def w0(5) score_of_ok fresh_record_def score_of_def sub_i128_def chk_i128_def in_i128_def)
  moreover have "repay_env 1000000 = e" by (simp add: e_def)
  ultimately show ?thesis
    by (simp add: test_full_repayment_reflects_in_reputation_def Let_def w0(1) w1(1) due w2(1) w3 s(2))
qed

lemma integration_property_test_passes_witness:
  "test_full_repayment_reflects_in_reputation 50000000 500 = Inr ()"
  by (rule integration_property_test_passes) simp_all

end
