(* ===== verification/Spec2Isabelle.thy ===== *)
theory Spec2Isabelle
  imports Registry_Queries Registry_Token Event_Indexer Offer_Books Protocol_Lifecycle Full_Repayment Custody
    Common_Tests Insurance_Tests Integration_Tests
begin

text \<open>
  \<^bold>\<open>Verification of the InvoFi invoice financing contracts\<close>

  The repository holds six Soroban contracts and the crate they share. An originator registers an
  invoice in the \<^emph>\<open>registry\<close>; a lender makes an offer on it in the \<^emph>\<open>financing\<close> contract, the two sides
  negotiate terms, and accepting an offer pays the originator and marks the invoice Financed; the
  originator pays back through the \<^emph>\<open>repayment\<close> contract, which updates the offer, the invoice and
  the originator's \<^emph>\<open>reputation\<close>; an unpaid invoice becomes Overdue, and after a grace period its
  lender reclaims it, which defaults the loan and is covered by the \<^emph>\<open>insurance\<close> pool. The
  \<^emph>\<open>event indexer\<close> keeps a queryable log of events reported to it. \<open>common/src/lib.rs\<close> gives every
  contract its admin set, pause switch, upgrade record, currency table and the invoice state machine.

  \<^bold>\<open>How the code is modelled\<close>

  \<^item> An entry point of a contract is a function from its arguments, the host environment \<open>env\<close> and the
    state to \<open>error + result \<times> state\<close>. A panic, a \<open>ContractError\<close> or an arithmetic overflow is \<open>Inl\<close>: the
    host then discards every write of the transaction, so only \<open>Inr\<close> carries a state. Definitions
    keep the names and the order of the source: each \<open>bindE\<close> is a statement, each \<open>ensure\<close> a guard.
  \<^item> The storage of a contract is a record. What \<open>common\<close> stores is the record \<open>base\<close>, which the storage
    of a contract extends (\<open>registry\<close>, \<open>financing\<close>, \<open>repayment\<close>, \<open>insurance\<close>, \<open>reputation\<close>) with one field
    for each storage key; the event indexer has an admin of its own (\<open>indexer\<close>). The host's \<open>Map\<close> is an association list in key
    order (\<open>smap\<close>), used through the laws of the locale \<open>ordered_map\<close>.
  \<^item> A call between contracts goes through \<open>callee\<close>, which checks the stored address against the deployed
    contract and makes the caller the invoker; a state that spans contracts is a record of their
    storages (\<open>fworld\<close>: registry, financing and token; \<open>rworld\<close>: all five and the token).
  \<^item> Amounts are \<open>int\<close>, counters and times \<open>nat\<close>; every \<open>+\<close>, \<open>-\<close>, \<open>*\<close> and \<open>/\<close> of the source is the
    checked or saturating operation of \<open>Prelude\<close> at the width of the type, so overflow is a branch.
  \<^item> Outside the repository, and therefore parameters: the SEP-41 token (\<open>sep41\<close>, with \<open>sep41_laws\<close> for
    what its documentation promises and \<open>ledger_token\<close> as an instance that satisfies it), the
    digest of an invoice id, the ledger clock and the signatures of the invocation (\<open>env\<close>).

  \<^bold>\<open>Theories\<close>

  \<^item> \<open>Prelude\<close>: results, checked arithmetic, \<open>reach\<close>, the locales \<open>invariant_system\<close> (a preserved predicate
    holds in every reachable state) and \<open>lifecycle\<close> (steps follow edges, so do histories).
  \<^item> \<open>Soroban\<close>: addresses, symbols, host maps, environment and authorization, the token interface.
  \<^item> \<open>Types\<close>, \<open>Version\<close>, \<open>Common\<close>, \<open>Governance\<close>: \<open>common/src/lib.rs\<close> - its types and constants, semantic
    versions and the upgrade record, the storage helpers, and the administration entry points that
    every contract repeats. Each contract's theory has aliases of the latter, one for each copy.
    Shown: parsing is exact and ordered like the versions, an upgrade followed by a rollback is the
    identity, the admin set can never lock itself out, and what a quorum is.
  \<^item> \<open>Registry\<close>, \<open>Registry_Queries\<close>, \<open>Registry_Token\<close>, \<open>Verification\<close>, \<open>Amendments\<close>, \<open>Registry_System\<close>:
    \<open>registry/src/lib.rs\<close> - the invoices and their status changes, batches and paged reads, the invoice
    token, the attestation oracle, the amendments, and all of them as one transition system. Shown:
    every status history follows \<open>valid_edge\<close>; the token of an invoice belongs to its originator and
    is burned with it; the originator index is complete and sorted; a verification status is a
    quorum of live attestations by current verifiers, which eviction does not change; a transfer
    needs owner or approval; an amendment that awaits a decision is decided once and by the right
    party; the oracle's lists stay bounded.
  \<^item> \<open>Financing\<close>, \<open>Settlement\<close>, \<open>Negotiation\<close>: \<open>financing/src/lib.rs\<close> - offers, settlement, negotiation and
    schedules. Shown: accepting settles offer, invoice and token at once; the parties cannot change
    an offer that is no longer Pending; a negotiated settlement has the originator's last recorded
    terms, which the lender's offer carries, and those are the lender's last recorded terms too; the
    rounds are append-only and at most twenty; the due installment is exact; the fee parameter has
    no writer.
  \<^item> \<open>Insurance\<close>, \<open>Pool\<close>: \<open>insurance/src/lib.rs\<close> - the flat pool, the tiers, reservations and yield. Shown: pool
    totals are the sums of the stakes and outstanding totals those of the open reservations;
    payouts are capped; a claim stays in its reservation; a rate change is prospective; and a run
    of calls whose payout, by rounding, makes the last staker's stake negative.
  \<^item> \<open>Custody\<close>: the tokens the insurance contract holds against what its records promise. Shown: while
    the staking token is not exchanged for another one, the contract is not its own staker and nobody
    else takes tokens from it, the recorded totals never exceed the holdings by more than the yield
    that was paid; and a run of calls in which that yield leaves a staker with nothing to withdraw.
  \<^item> \<open>Reputation\<close>: \<open>reputation/src/lib.rs\<close> - outcomes, decay and disputes. Shown: what an outcome adds, in
    closed form instead of the decay loop; a dispute takes back exactly one default; and that
    regular activity never decays.
  \<^item> \<open>Event_Indexer\<close>: \<open>event_indexer/src/lib.rs\<close> - the log and its indices. Shown: the contract refines
    one list of records, each query is a filter of that log, and pruning drops exactly the old prefix.
  \<^item> \<open>Repayment\<close>, \<open>Repayment_Books\<close>: \<open>repayment/src/lib.rs\<close> - payments, penalty, reclaim. Shown: what a repayment
    and a reclaim do in all contracts, the penalty in closed form, that it is monotone and capped, and
    that it need not be paid.
  \<^item> \<open>Protocol\<close>: the contracts together. \<open>protocol_step\<close> has a case for every state-changing entry point; the
    deployment facts in it are that the repayment contract runs at a fixed address and that nobody
    else authorizes as that address. Shown: payment histories and offers agree in every reachable
    state, and repayments use no token but that of the repayment contract's constructor.
  \<^item> \<open>Protocol_Lifecycle\<close>: the invoice state machine under \<open>protocol_step\<close>, by an interpretation of \<open>lifecycle\<close> on
    all contracts, and what the same steps can do to an offer. Shown: a closed invoice stays closed and
    none of its operations succeeds any more, an Overdue one can only default, any address can close
    a Financed one; and an offer is decided once: after that only repayment and default change it.
  \<^item> \<open>Full_Repayment\<close>: an offer marked Repaid was paid its whole principal, provided no other offer of its
    invoice received a payment; \<open>Double_Financing\<close>: a run of calls without that proviso, in which
    payments to one lender pay off another lender's offer.
  \<^item> \<open>Offer_Books\<close>: the running totals of the financing contract equal those recomputed from the offers
    and payments, and every stored offer is well typed.
  \<^item> \<open>Test_Harness\<close>: what the tests run with - assertions, caught panics, the test token.
    \<open>Common_Tests\<close> (the test modules of \<open>common/src/lib.rs\<close>), \<open>Registry_Tests\<close>, \<open>Financing_Tests\<close>,
    \<open>Repayment_Tests\<close>, \<open>Insurance_Tests\<close>, \<open>Reputation_Tests\<close> (the \<open>proptest.rs\<close> of the crate) and
    \<open>Integration_Tests\<close> (\<open>integration/src/proptest.rs\<close>, all five contracts wired by \<open>deploy_protocol\<close>): each
    test function is a definition that deploys through the constructors, calls the entry points
    and asserts as the source does. Shown: every test passes on every input of its generators and
    far beyond them, so each deployment exists, each call in it succeeds or is rejected as the
    test says, and the transition tables of the unit tests are the transition function.

  \<^bold>\<open>Loops, bounds and fuel\<close>

  Nothing needs fuel: the loops of the source run over a list or a counter. \<open>page_loop\<close> terminates by the
  distance to the end of the list, \<open>decay_loop\<close> by the time that is left (\<open>decay_loop_closed\<close> gives its
  result without the loop); the others are structural or a \<open>foldE\<close>, which ends at the first trap. The bounds are the source's own: twenty negotiation rounds,
  twenty logged transitions for each invoice, a thousand payments that count towards the principal,
  the page sizes, the attestation slots and the caps of rates and durations.

  \<^bold>\<open>Not modelled\<close>

  \<^item> The archival of storage entries, which the contracts do not handle: a stored entry stays readable.
  \<^item> Gas, and the serialization of values. An event is a value in the list \<open>events\<close> of its contract.
  \<^item> The deployment of new code: an upgrade replaces the hash of the running executable, whose behaviour
    stays that of this source.
  \<^item> The example-based tests (\<open>test.rs\<close> of each crate): single runs of the entry points. The client traits of
    \<open>common/src/lib.rs\<close> only declare the functions the other contracts define.
\<close>

end
